(* ===== verification/Mq_Prelude.thy ===== *)
theory Mq_Prelude
  imports Complex_Main "HOL-Library.AList"
begin

text \<open>
  The prelude of the development: fallible computations as sums, the loops the sources write over
  arrays, and JavaScript's insertion-ordered \<open>Map\<close> and \<open>Set\<close> as lists.
  \<^item> A function that may throw returns \<open>'e + 'a\<close>: \<open>Inl\<close> is the exception, \<open>Inr\<close> the value.
    \<open>rbind\<close> runs a computation and goes on with its value, so a sequence of statements each of
    which may throw is a sequence of \<open>rbind\<close>.
  \<^item> A \<open>for ... of\<close> loop whose body may throw is \<open>each\<close>; one that collects is \<open>collect\<close>; one that
    carries a state is \<open>loop\<close>. All stop at the first exception.
  \<^item> A JavaScript \<open>Map\<close> is an association list kept in insertion order: \<open>AList.update\<close> keeps the
    place of a key that is present and appends a new one, which is what \<open>Map.set\<close> does.
\<close>

named_theorems res_simps \<open>rules for fallible computations and their loops\<close>
named_theorems js_simps \<open>rules for numbers, names and JavaScript collections\<close>

subsection \<open>Fallible computations\<close>

definition rbind :: "'e + 'a \<Rightarrow> ('a \<Rightarrow> 'e + 'b) \<Rightarrow> 'e + 'b" where
  "rbind m k = (case m of Inl e \<Rightarrow> Inl e | Inr x \<Rightarrow> k x)"

definition throw_if :: "bool \<Rightarrow> 'e \<Rightarrow> 'e + unit" where
  "throw_if c e = (if c then Inl e else Inr ())"

definition is_ok :: "'e + 'a \<Rightarrow> bool" where
  "is_ok m = (case m of Inl _ \<Rightarrow> False | Inr _ \<Rightarrow> True)"

text \<open>\<open>catch_res m h\<close> is \<open>try { m } catch (cause) { h(cause) }\<close>.\<close>

definition catch_res :: "'e + 'a \<Rightarrow> ('e \<Rightarrow> 'f + 'a) \<Rightarrow> 'f + 'a" where
  "catch_res m h = (case m of Inl e \<Rightarrow> h e | Inr x \<Rightarrow> Inr x)"

lemma rbind_simps [simp, res_simps]:
  "rbind (Inl e) k = Inl e"
  "rbind (Inr x) k = k x"
  by (simp_all add: rbind_def)

lemma rbind_Inr_iff [res_simps]:
  "rbind m k = Inr y \<longleftrightarrow> (\<exists>x. m = Inr x \<and> k x = Inr y)"
  by (cases m) simp_all

lemma rbind_InrE:
  assumes "rbind m k = Inr y"
  obtains x where "m = Inr x" "k x = Inr y"
  using assms by (auto simp: rbind_Inr_iff)

lemma rbind_Inl_iff [res_simps]:
  "rbind m k = Inl e \<longleftrightarrow> m = Inl e \<or> (\<exists>x. m = Inr x \<and> k x = Inl e)"
  by (cases m) simp_all

lemma rbind_assoc [res_simps]: "rbind (rbind m k) h = rbind m (\<lambda>x. rbind (k x) h)"
  by (cases m) simp_all

lemma rbind_cong [fundef_cong]:
  assumes "m = m'" and "\<And>x. m' = Inr x \<Longrightarrow> k x = k' x"
  shows "rbind m k = rbind m' k'"
  using assms by (cases m') simp_all

lemma throw_if_simps [simp, res_simps]:
  "throw_if True e = Inl e"
  "throw_if False e = Inr ()"
  by (simp_all add: throw_if_def)

lemma throw_if_iff [res_simps]:
  "throw_if c e = Inr u \<longleftrightarrow> \<not> c"
  "throw_if c e = Inl e' \<longleftrightarrow> c \<and> e' = e"
  by (auto simp: throw_if_def)

lemma is_ok_simps [simp, res_simps]:
  "is_ok (Inl e) = False" "is_ok (Inr x) = True"
  by (simp_all add: is_ok_def)

lemma is_ok_iff: "is_ok m \<longleftrightarrow> (\<exists>x. m = Inr x)"
  by (cases m) simp_all

lemma not_is_ok_iff: "\<not> is_ok m \<longleftrightarrow> (\<exists>e. m = Inl e)"
  by (cases m) simp_all

lemma is_ok_rbind [res_simps]:
  "is_ok (rbind m k) \<longleftrightarrow> (\<exists>x. m = Inr x \<and> is_ok (k x))"
  by (cases m) simp_all

lemma is_ok_throw_if [simp]: "is_ok (throw_if c e) \<longleftrightarrow> \<not> c"
  by (simp add: throw_if_def)

lemma catch_res_simps [simp, res_simps]:
  "catch_res (Inl e) h = h e" "catch_res (Inr x) h = Inr x"
  by (simp_all add: catch_res_def)

lemma catch_res_Inr_iff [res_simps]:
  "catch_res m h = Inr x \<longleftrightarrow> m = Inr x \<or> (\<exists>e. m = Inl e \<and> h e = Inr x)"
  by (cases m) auto

lemma catch_res_Inl_iff [res_simps]:
  "catch_res m h = Inl f \<longleftrightarrow> (\<exists>e. m = Inl e \<and> h e = Inl f)"
  by (cases m) auto

subsection \<open>Loops over arrays\<close>

fun each :: "('a \<Rightarrow> 'e + unit) \<Rightarrow> 'a list \<Rightarrow> 'e + unit" where
  "each f [] = Inr ()"
| "each f (x # xs) = rbind (f x) (\<lambda>_. each f xs)"

fun collect :: "('a \<Rightarrow> 'e + 'b) \<Rightarrow> 'a list \<Rightarrow> 'e + 'b list" where
  "collect f [] = Inr []"
| "collect f (x # xs) = rbind (f x) (\<lambda>y. rbind (collect f xs) (\<lambda>ys. Inr (y # ys)))"

fun loop :: "('s \<Rightarrow> 'a \<Rightarrow> 'e + 's) \<Rightarrow> 's \<Rightarrow> 'a list \<Rightarrow> 'e + 's" where
  "loop f s [] = Inr s"
| "loop f s (x # xs) = rbind (f s x) (\<lambda>s'. loop f s' xs)"

lemma each_cong [fundef_cong]:
  assumes "xs = ys" and "\<And>x. x \<in> set ys \<Longrightarrow> f x = g x"
  shows "each f xs = each g ys"
  unfolding assms(1) using assms(2) by (induction ys) (auto cong: rbind_cong)

lemma collect_cong [fundef_cong]:
  assumes "xs = ys" and "\<And>x. x \<in> set ys \<Longrightarrow> f x = g x"
  shows "collect f xs = collect g ys"
  unfolding assms(1) using assms(2) by (induction ys) (auto cong: rbind_cong)

lemma loop_cong [fundef_cong]:
  assumes "s = t" and "xs = ys" and "\<And>s x. x \<in> set ys \<Longrightarrow> f s x = g s x"
  shows "loop f s xs = loop g t ys"
  unfolding assms(1,2) using assms(3)
  by (induction ys arbitrary: t) (auto cong: rbind_cong)

lemma each_ok [res_simps]: "each f xs = Inr u \<longleftrightarrow> (\<forall>x\<in>set xs. f x = Inr ())"
  by (induction xs) (auto simp: rbind_Inr_iff)

lemma is_ok_each: "is_ok (each f xs) \<longleftrightarrow> (\<forall>x\<in>set xs. is_ok (f x))"
  by (auto simp: is_ok_iff each_ok)

lemma each_uniform_error:
  assumes "\<And>x e. f x = Inl e \<Longrightarrow> e = err"
  shows "each f xs = (if \<forall>x\<in>set xs. is_ok (f x) then Inr () else Inl err)"
proof (induction xs)
  case (Cons x xs)
  then show ?case using assms[of x] by (cases "f x") auto
qed simp

lemma each_if: "each (\<lambda>x. if P x then Inr () else Inl err) xs
    = (if \<forall>x\<in>set xs. P x then Inr () else Inl err)"
  by (induction xs) auto

lemma collect_length: "collect f xs = Inr ys \<Longrightarrow> length ys = length xs"
  by (induction xs arbitrary: ys) (auto simp: rbind_Inr_iff)

lemma collect_ok:
  "collect f xs = Inr ys \<longleftrightarrow> list_all2 (\<lambda>x y. f x = Inr y) xs ys"
proof (induction xs arbitrary: ys)
  case (Cons x xs)
  then show ?case by (cases "f x") (auto simp: rbind_Inr_iff list_all2_Cons1)
qed auto

lemma collect_member:
  "collect f xs = Inr ys \<Longrightarrow> y \<in> set ys \<Longrightarrow> \<exists>x\<in>set xs. f x = Inr y"
  by (induction xs arbitrary: ys) (auto simp: rbind_Inr_iff)

lemma collect_image:
  "collect f xs = Inr ys \<Longrightarrow> x \<in> set xs \<Longrightarrow> \<exists>y\<in>set ys. f x = Inr y"
  by (induction xs arbitrary: ys) (auto simp: rbind_Inr_iff)

lemma loop_append: "loop f s (xs @ ys) = rbind (loop f s xs) (\<lambda>t. loop f t ys)"
  by (induction xs arbitrary: s) (simp_all add: rbind_assoc)

text \<open>An invariant of the loop body is an invariant of the loop.\<close>

lemma loop_invariant:
  assumes "loop f s xs = Inr t" and "I s"
    and "\<And>s x s'. x \<in> set xs \<Longrightarrow> I s \<Longrightarrow> f s x = Inr s' \<Longrightarrow> I s'"
  shows "I t"
  using assms by (induction xs arbitrary: s) (auto simp: rbind_Inr_iff)

text \<open>A body that cannot throw makes the loop a fold.\<close>

lemma loop_total: "(\<And>s x. x \<in> set xs \<Longrightarrow> f s x = Inr (g s x)) \<Longrightarrow> loop f s xs = Inr (foldl g s xs)"
  by (induction xs arbitrary: s) simp_all

subsection \<open>Insertion-ordered maps\<close>

lemma map_of_update [js_simps]: "map_of (AList.update k v m) = (map_of m)(k \<mapsto> v)"
  by (rule update_conv')

lemma keys_update: "set (map fst (AList.update k v m)) = insert k (set (map fst m))"
  by (simp add: dom_update)

lemma map_of_eq_None [js_simps]: "map_of m k = None \<longleftrightarrow> k \<notin> fst ` set m"
  by (rule map_of_eq_None_iff)

lemma update_new:
  "k \<notin> fst ` set m \<Longrightarrow> AList.update k v m = m @ [(k, v)]"
  by (induction m) auto

text \<open>\<open>x ?? y\<close>: the value unless it is missing.\<close>

definition orelse :: "'a option \<Rightarrow> 'a \<Rightarrow> 'a" where
  "orelse x y = (case x of None \<Rightarrow> y | Some v \<Rightarrow> v)"

definition orelse_opt :: "'a option \<Rightarrow> 'a option \<Rightarrow> 'a option" where
  "orelse_opt x y = (case x of None \<Rightarrow> y | Some v \<Rightarrow> Some v)"

lemma orelse_simps [simp]:
  "orelse None y = y" "orelse (Some v) y = v"
  "orelse_opt None z = z" "orelse_opt (Some v) z = Some v"
  by (simp_all add: orelse_def orelse_opt_def)

lemma orelse_opt_None [simp]: "orelse_opt x None = x"
  by (cases x) simp_all

lemma orelse_opt_assoc: "orelse_opt (orelse_opt x y) z = orelse_opt x (orelse_opt y z)"
  by (cases x) simp_all

text \<open>A guard on an optional field: checked only where the field is present.\<close>

definition when_some :: "'a option \<Rightarrow> ('a \<Rightarrow> 'e + unit) \<Rightarrow> 'e + unit" where
  "when_some x f = (case x of None \<Rightarrow> Inr () | Some v \<Rightarrow> f v)"

lemma when_some_simps [simp, res_simps]:
  "when_some None f = Inr ()" "when_some (Some v) f = f v"
  by (simp_all add: when_some_def)

lemma when_some_ok [res_simps]: "when_some x f = Inr u \<longleftrightarrow> (\<forall>v. x = Some v \<longrightarrow> f v = Inr ())"
  by (cases x) auto

text \<open>A value that has to be there: the exception if it is not.\<close>

definition need :: "'a option \<Rightarrow> 'e \<Rightarrow> 'e + 'a" where
  "need x e = (case x of None \<Rightarrow> Inl e | Some v \<Rightarrow> Inr v)"

lemma need_simps [simp, res_simps]: "need None e = Inl e" "need (Some v) e = Inr v"
  by (simp_all add: need_def)

lemma need_ok [res_simps]: "need x e = Inr v \<longleftrightarrow> x = Some v"
  by (cases x) simp_all

lemma need_Inl [res_simps]: "need x e = Inl e' \<longleftrightarrow> x = None \<and> e' = e"
  by (cases x) auto

text \<open>\<open>isDeepStrictEqual\<close> of two objects with string fields: the same entries in any order.\<close>

definition same_entries :: "(string \<times> string) list \<Rightarrow> (string \<times> string) list \<Rightarrow> bool" where
  "same_entries a b \<longleftrightarrow>
     length a = length b \<and> list_all (\<lambda>(k, v). map_of b k = Some v) a"

text \<open>A \<open>Set\<close> built from a list: each element once, where it comes first.\<close>

definition dedup :: "'a list \<Rightarrow> 'a list" where
  "dedup xs = rev (remdups (rev xs))"

lemma set_dedup [simp]: "set (dedup xs) = set xs"
  by (simp add: dedup_def)

lemma distinct_dedup [simp]: "distinct (dedup xs)"
  by (simp add: dedup_def)

subsection \<open>Nearest declaration in a chain\<close>

text \<open>
  \<open>latest f layers d\<close> is the value of the last layer that has one, \<open>d\<close> if none has: the
  declarative reading of "later layers override earlier layers" and of a lookup along a prototype
  chain.
\<close>

definition latest :: "('a \<Rightarrow> 'b option) \<Rightarrow> 'a list \<Rightarrow> 'b option" where
  "latest f xs = (case filter (\<lambda>x. f x \<noteq> None) (rev xs) of [] \<Rightarrow> None | x # _ \<Rightarrow> f x)"

lemma latest_Nil [simp]: "latest f [] = None"
  by (simp add: latest_def)

lemma latest_snoc [simp]: "latest f (xs @ [x]) = orelse_opt (f x) (latest f xs)"
  by (cases "f x") (simp_all add: latest_def)

lemma latest_foldl: "foldl (\<lambda>a x. orelse_opt (f x) a) None xs = latest f xs"
  by (induction xs rule: rev_induct) simp_all

lemma latest_Some:
  "latest f xs = Some v \<longleftrightarrow>
     (\<exists>as x bs. xs = as @ x # bs \<and> f x = Some v \<and> (\<forall>b\<in>set bs. f b = None))"
proof (induction xs rule: rev_induct)
  case (snoc y ys)
  show ?case
  proof (cases "f y")
    case None
    have "(\<exists>as x bs. ys @ [y] = as @ x # bs \<and> f x = Some v \<and> (\<forall>b\<in>set bs. f b = None))
        \<longleftrightarrow> (\<exists>as x bs. ys = as @ x # bs \<and> f x = Some v \<and> (\<forall>b\<in>set bs. f b = None))"
      (is "?L = ?R")
    proof
      assume ?L
      then obtain as x bs where eq: "ys @ [y] = as @ x # bs" and x: "f x = Some v"
        and bs: "\<forall>b\<in>set bs. f b = None" by blast
      from x None have "x \<noteq> y" by auto
      with eq have "bs \<noteq> []" by auto
      then obtain cs c where cs: "bs = cs @ [c]" by (meson rev_exhaust)
      with eq have "ys = as @ x # cs" by auto
      with x bs cs show ?R by auto
    next
      assume ?R
      then obtain as x bs where "ys = as @ x # bs" "f x = Some v" "\<forall>b\<in>set bs. f b = None"
        by blast
      with None show ?L by (intro exI[of _ as] exI[of _ x] exI[of _ "bs @ [y]"]) auto
    qed
    with None snoc.IH show ?thesis by simp
  next
    case (Some w)
    have "(\<exists>as x bs. ys @ [y] = as @ x # bs \<and> f x = Some v \<and> (\<forall>b\<in>set bs. f b = None))
        \<longleftrightarrow> w = v" (is "?L = _")
    proof
      assume ?L
      then obtain as x bs where eq: "ys @ [y] = as @ x # bs" and x: "f x = Some v"
        and bs: "\<forall>b\<in>set bs. f b = None" by blast
      from eq have "y = last (x # bs)" by (metis last_appendR last_snoc list.discI)
      with bs Some have "bs = []" by (cases "bs = []") auto
      with eq x Some show "w = v" by simp
    next
      assume "w = v"
      with Some show ?L by (intro exI[of _ ys] exI[of _ y] exI[of _ "[]"]) simp
    qed
    with Some show ?thesis by simp
  qed
qed simp

end
