(* ===== verification/Mq_Values.thy ===== *)
theory Mq_Values
  imports Mq_Prelude
begin

text \<open>
  The JavaScript values the sources work on, and their exceptions.
  \<^item> \<open>jsnum\<close>: a \<open>number\<close>. Finite numbers are rationals (every finite double is one); the two
    infinities and \<open>NaN\<close> are constructors of their own. \<open>jint i\<close> is the number of an integer.
  \<^item> Strings are lists of characters, one per UTF-16 code unit, over the code units 0 to 255.
  \<^item> \<open>jsval\<close>: the values a schema, a codec or an application can hand to the library.
  \<^item> \<open>exn\<close>: the exception classes of the package with the fields a caller can test (class, phase,
    operation, connection name). Message texts are not part of the model.
\<close>

subsection \<open>Numbers\<close>

datatype jsnum = NaN | PosInf | NegInf | Fin rat

definition jint :: "int \<Rightarrow> jsnum" where
  "jint i = Fin (of_int i)"

text \<open>The comparisons of JavaScript: any comparison with \<open>NaN\<close> is false.\<close>

fun js_less :: "jsnum \<Rightarrow> jsnum \<Rightarrow> bool" where
  "js_less (Fin a) (Fin b) = (a < b)"
| "js_less (Fin a) PosInf = True"
| "js_less NegInf (Fin b) = True"
| "js_less NegInf PosInf = True"
| "js_less _ _ = False"

fun js_leq :: "jsnum \<Rightarrow> jsnum \<Rightarrow> bool" where
  "js_leq (Fin a) (Fin b) = (a \<le> b)"
| "js_leq NaN _ = False"
| "js_leq _ NaN = False"
| "js_leq NegInf _ = True"
| "js_leq _ PosInf = True"
| "js_leq _ _ = False"

fun js_add :: "jsnum \<Rightarrow> jsnum \<Rightarrow> jsnum" where
  "js_add (Fin a) (Fin b) = Fin (a + b)"
| "js_add NaN _ = NaN"
| "js_add _ NaN = NaN"
| "js_add PosInf NegInf = NaN"
| "js_add NegInf PosInf = NaN"
| "js_add PosInf _ = PosInf"
| "js_add _ PosInf = PosInf"
| "js_add NegInf _ = NegInf"
| "js_add _ NegInf = NegInf"

text \<open>\<open>Math.max\<close>, \<open>Math.floor\<close>, division by a positive integer.\<close>

definition js_max :: "jsnum \<Rightarrow> jsnum \<Rightarrow> jsnum" where
  "js_max a b = (if a = NaN \<or> b = NaN then NaN else if js_less a b then b else a)"

fun js_floor :: "jsnum \<Rightarrow> jsnum" where
  "js_floor (Fin a) = jint \<lfloor>a\<rfloor>"
| "js_floor x = x"

fun js_div :: "jsnum \<Rightarrow> int \<Rightarrow> jsnum" where
  "js_div (Fin a) n = Fin (a / of_int n)"
| "js_div x n = x"

definition max_safe :: int where
  "max_safe = 9007199254740991"

text \<open>The largest delay a JavaScript timer accepts.\<close>

definition max_timer :: int where
  "max_timer = 2147483647"

fun safe_int :: "jsnum \<Rightarrow> int option" where
  "safe_int (Fin r) = (if of_int \<lfloor>r\<rfloor> = r \<and> \<bar>\<lfloor>r\<rfloor>\<bar> \<le> max_safe then Some \<lfloor>r\<rfloor> else None)"
| "safe_int _ = None"

definition is_safe_integer :: "jsnum \<Rightarrow> bool" where
  "is_safe_integer x = (safe_int x \<noteq> None)"

definition is_finite :: "jsnum \<Rightarrow> bool" where
  "is_finite x = (case x of Fin _ \<Rightarrow> True | _ \<Rightarrow> False)"

lemma jint_inject [simp, js_simps]: "jint i = jint j \<longleftrightarrow> i = j"
  by (simp add: jint_def)

lemma jint_neq [simp]:
  "jint i \<noteq> NaN" "jint i \<noteq> PosInf" "jint i \<noteq> NegInf"
  "NaN \<noteq> jint i" "PosInf \<noteq> jint i" "NegInf \<noteq> jint i"
  by (simp_all add: jint_def)

lemma js_less_jint [simp, js_simps]: "js_less (jint i) (jint j) \<longleftrightarrow> i < j"
  by (simp add: jint_def)

lemma js_leq_jint [simp, js_simps]: "js_leq (jint i) (jint j) \<longleftrightarrow> i \<le> j"
  by (simp add: jint_def)

lemma js_add_jint [simp, js_simps]: "js_add (jint i) (jint j) = jint (i + j)"
  by (simp add: jint_def)

lemma js_max_jint [simp, js_simps]: "js_max (jint i) (jint j) = jint (max i j)"
  by (simp add: js_max_def max_def)

lemma js_floor_jint [simp, js_simps]: "js_floor (jint i) = jint i"
  by (simp add: jint_def)

lemma js_floor_div_jint [simp, js_simps]:
  "js_floor (js_div (jint i) n) = jint (i div n)"
  by (simp add: jint_def floor_divide_of_int_eq)

lemma is_finite_jint [simp, js_simps]: "is_finite (jint i)"
  by (simp add: is_finite_def jint_def)

lemma safe_int_jint [simp, js_simps]: "safe_int (jint i) = (if \<bar>i\<bar> \<le> max_safe then Some i else None)"
  by (simp add: jint_def)

lemma safe_int_Some: "safe_int x = Some i \<longleftrightarrow> x = jint i \<and> \<bar>i\<bar> \<le> max_safe"
  by (cases x) (auto simp: jint_def)

lemma is_safe_integer_jint [simp, js_simps]: "is_safe_integer (jint i) \<longleftrightarrow> \<bar>i\<bar> \<le> max_safe"
  by (simp add: is_safe_integer_def)

lemma is_safe_integer_iff: "is_safe_integer x \<longleftrightarrow> (\<exists>i. x = jint i \<and> \<bar>i\<bar> \<le> max_safe)"
  by (auto simp: is_safe_integer_def safe_int_Some)

lemma is_safe_integerE:
  assumes "is_safe_integer x"
  obtains i where "x = jint i" "\<bar>i\<bar> \<le> max_safe"
  using assms by (auto simp: is_safe_integer_iff)

lemma not_safe [simp]:
  "\<not> is_safe_integer NaN" "\<not> is_safe_integer PosInf" "\<not> is_safe_integer NegInf"
  by (simp_all add: is_safe_integer_def)

lemma js_less_not_leq: "js_less a b \<Longrightarrow> \<not> js_leq b a"
  by (cases "(a, b)" rule: js_less.cases) auto

lemma js_leq_refl: "x \<noteq> NaN \<Longrightarrow> js_leq x x"
  by (cases x) auto

lemma js_leq_max:
  assumes "js_max a b \<noteq> NaN"
  shows "js_leq a (js_max a b)" "js_leq b (js_max a b)"
  using assms by (cases a; cases b; auto simp: js_max_def split: if_splits)+

subsection \<open>Strings\<close>

text \<open>The characters \<open>String.prototype.trim\<close> removes, among the code units 0 to 255.\<close>

definition is_js_space :: "char \<Rightarrow> bool" where
  "is_js_space c = (of_char c \<in> ({9, 10, 11, 12, 13, 32, 160} :: nat set))"

definition trim :: "string \<Rightarrow> string" where
  "trim s = rev (dropWhile is_js_space (rev (dropWhile is_js_space s)))"

definition nul :: char where
  "nul = CHR 0x00"

lemma dropWhile_eq_self: "dropWhile P xs = xs \<longleftrightarrow> (xs = [] \<or> \<not> P (hd xs))"
proof (cases xs)
  case (Cons x ys)
  have "length (dropWhile P ys) \<le> length ys" by (rule length_dropWhile_le)
  then have "dropWhile P ys \<noteq> x # ys" by auto
  with Cons show ?thesis by auto
qed simp

text \<open>A string equals its trimmed self exactly when neither end is white space.\<close>

lemma trim_eq_self:
  "trim s = s \<longleftrightarrow> (s = [] \<or> (\<not> is_js_space (hd s) \<and> \<not> is_js_space (last s)))"
proof (cases "s = []")
  case False
  show ?thesis
  proof (cases "is_js_space (hd s)")
    case True
    have "length (trim s) \<le> length (dropWhile is_js_space s)"
      unfolding trim_def by (metis length_dropWhile_le length_rev)
    moreover have "length (dropWhile is_js_space s) < length s"
      using False True by (cases s) (auto simp: le_imp_less_Suc length_dropWhile_le)
    ultimately show ?thesis using False True by auto
  next
    case hd: False
    then have "trim s = rev (dropWhile is_js_space (rev s))"
      using dropWhile_eq_self[of is_js_space s] by (simp add: trim_def)
    then have "trim s = s \<longleftrightarrow> dropWhile is_js_space (rev s) = rev s"
      by (metis rev_rev_ident)
    with False hd show ?thesis by (simp add: dropWhile_eq_self hd_rev)
  qed
qed (simp add: trim_def)

subsection \<open>Values\<close>

text \<open>
  A property is a key (a string or a symbol), whether it is an accessor, and its value; for an
  accessor the value is the one its getter returns. \<open>ObjectProto\<close> is \<open>Object.prototype\<close>, \<open>NullProto\<close>
  the \<open>null\<close> prototype, \<open>ClassProto\<close> that of a class. \<open>VCycle\<close> is a reference back to an enclosing
  array or object, so a value with a cycle is a finite tree too.
\<close>

datatype proto = ObjectProto | NullProto | ClassProto nat

datatype pkey = PString string | PSymbol nat

datatype jsval =
    VUndefined
  | VNull
  | VBool bool
  | VNum jsnum
  | VNegZero
  | VStr string
  | VSymbol nat
  | VBigInt int
  | VFunction nat
  | VCycle
  | VArray "jsval list"
  | VObject proto "(pkey \<times> bool \<times> jsval) list"

text \<open>Induction over a value with the properties of an object named by their triples.\<close>

lemma jsval_induct [case_names VUndefined VNull VBool VNum VNegZero VStr VSymbol VBigInt VFunction
    VCycle VArray VObject]:
  assumes "P VUndefined" "P VNull" "\<And>b. P (VBool b)" "\<And>x. P (VNum x)" "P VNegZero"
    "\<And>s. P (VStr s)" "\<And>n. P (VSymbol n)" "\<And>i. P (VBigInt i)" "\<And>n. P (VFunction n)" "P VCycle"
    "\<And>xs. (\<And>x. x \<in> set xs \<Longrightarrow> P x) \<Longrightarrow> P (VArray xs)"
    "\<And>p fs. (\<And>k a v. (k, a, v) \<in> set fs \<Longrightarrow> P v) \<Longrightarrow> P (VObject p fs)"
  shows "P v"
proof (induction v)
  case (VObject p fs)
  then have "P v" if "(k, a, v) \<in> set fs" for k a v
    using VObject[OF that, of "(a, v)" v] by simp
  then show ?case by (rule assms(12))
qed (simp_all add: assms)

subsection \<open>Exceptions\<close>

datatype schema_phase = ValidatePhase | EncodePhase
datatype job_operation =
  OpBinding | OpEnqueue | OpEnqueueMany | OpPrepare | OpPoll | OpAttempts | OpAwaitResult
  | OpCancel | OpRetry | OpPromote
datatype outbox_phase =
  OutboxConfiguration | OutboxPrepare | OutboxUnavailable | OutboxRead | OutboxAppend
  | OutboxConflict | OutboxTransaction | OutboxRetry
datatype flow_phase = FlowDefinition | FlowUnavailable | FlowIdentity | FlowClosed | FlowOperation
datatype schedule_phase =
  ScheduleDefinition | ScheduleUnavailable | ScheduleIdentity | ScheduleMissing | ScheduleDrift
  | ScheduleMode | ScheduleOperation
datatype controls_phase =
  ControlsConfiguration | ControlsCapability | ControlsMissing | ControlsDrift | ControlsOwnership
  | ControlsMode | ControlsOperation
datatype connection_phase =
  ConnConfiguration | ConnAcquire | ConnProtocol | ConnProbe | ConnClose | ConnMigrate
datatype engine_state = Idle | Disabled | Starting | Ready | Stopping | Closed | Failed

datatype exn =
    Contract_Definition
  | Schema_Validation "string list"
  | Schema_Defect schema_phase
  | Schema_Encoding
  | Job_Failure jsval
  | Mq_Job job_operation
  | Job_Wait_Timeout string jsnum
  | Job_Wait_Aborted string
  | Job_Cancelled string
  | Mq_Outbox outbox_phase
  | Mq_Flow flow_phase
  | Mq_Schedule schedule_phase
  | Queue_Controls controls_phase
  | Mq_Connection string connection_phase
  | Mq_Engine_State engine_state string
  | Guard_Rejected
  | Range_Error
  | Type_Error
  | Native_Error nat
  | Aggregate "exn list"

type_synonym 'a res = "exn + 'a"

subsection \<open>The shape of an option object\<close>

text \<open>
  Option objects come from untyped callers too. What the guards look at before they read a field is
  the object's shape: its prototype and its own keys, each with whether it is an accessor. The
  typed fields are records of the components.
\<close>

record shape =
  sh_proto :: proto
  sh_keys :: "(pkey \<times> bool) list"

definition shape_ok :: "shape \<Rightarrow> string list \<Rightarrow> bool" where
  "shape_ok s allowed \<longleftrightarrow>
     (sh_proto s = ObjectProto \<or> sh_proto s = NullProto)
     \<and> (\<forall>(k, acc)\<in>set (sh_keys s). (\<exists>n\<in>set allowed. k = PString n) \<and> \<not> acc)"

definition check_shape :: "exn \<Rightarrow> shape \<Rightarrow> string list \<Rightarrow> unit res" where
  "check_shape err s allowed =
     rbind (throw_if (sh_proto s \<noteq> ObjectProto \<and> sh_proto s \<noteq> NullProto) err) (\<lambda>_.
     each (\<lambda>(k, acc).
       rbind (throw_if (case k of PSymbol _ \<Rightarrow> True | PString n \<Rightarrow> n \<notin> set allowed) err) (\<lambda>_.
       throw_if acc err)) (sh_keys s))"

lemma check_shape_eq [js_simps]:
  "check_shape err s allowed = (if shape_ok s allowed then Inr () else Inl err)"
proof -
  let ?ok = "\<lambda>(k, acc). (\<exists>n\<in>set allowed. k = PString n) \<and> \<not> acc"
  have "(\<lambda>(k, acc).
       rbind (throw_if (case k of PSymbol _ \<Rightarrow> True | PString n \<Rightarrow> n \<notin> set allowed) err) (\<lambda>_.
       throw_if acc err)) = (\<lambda>x. if ?ok x then Inr () else Inl err)"
    by (auto simp: fun_eq_iff throw_if_def split: pkey.splits)
  then show ?thesis by (auto simp: check_shape_def shape_ok_def throw_if_def each_if)
qed

definition plain_shape :: "string list \<Rightarrow> shape" where
  "plain_shape ks = \<lparr>sh_proto = ObjectProto, sh_keys = map (\<lambda>k. (PString k, False)) ks\<rparr>"

lemma shape_ok_plain [simp]: "shape_ok (plain_shape ks) allowed \<longleftrightarrow> set ks \<subseteq> set allowed"
  by (auto simp: shape_ok_def plain_shape_def)

end
