(* ===== verification/Mq_Identity.thy ===== *)
theory Mq_Identity
  imports Mq_Values
begin

text \<open>
  Durable identities. Queues, jobs, retry policies and schedules are keyed by the JSON text of a
  tuple, e.g. \<open>JSON.stringify([connection, queue, name, version])\<close> in
  \<open>src/contracts/queue-definition.ts\<close>. This theory models \<open>JSON.stringify\<close> on arrays of strings and
  non-negative integers, character by character, and shows that no two tuples share a text: there
  are no delimiter collisions.
\<close>

datatype jitem = JText string | JNat nat

definition digit_char :: "nat \<Rightarrow> char" where
  "digit_char d = char_of (48 + d)"

fun nat_text :: "nat \<Rightarrow> string" where
  "nat_text n = (if n < 10 then [digit_char n] else nat_text (n div 10) @ [digit_char (n mod 10)])"

declare nat_text.simps [simp del]

definition hex_char :: "nat \<Rightarrow> char" where
  "hex_char d = char_of (if d < 10 then 48 + d else 87 + d)"

text \<open>The escapes of \<open>JSON.stringify\<close>: quote, backslash, the five short escapes, control characters.\<close>

definition escape_char :: "char \<Rightarrow> string" where
  "escape_char c =
     (let n = (of_char c :: nat) in
      if n = 34 then [CHR 0x5C, CHR 0x22]
      else if n = 92 then [CHR 0x5C, CHR 0x5C]
      else if n = 8 then [CHR 0x5C, CHR ''b'']
      else if n = 9 then [CHR 0x5C, CHR ''t'']
      else if n = 10 then [CHR 0x5C, CHR ''n'']
      else if n = 12 then [CHR 0x5C, CHR ''f'']
      else if n = 13 then [CHR 0x5C, CHR ''r'']
      else if n < 32 then
        [CHR 0x5C, CHR ''u'', CHR ''0'', CHR ''0'', hex_char (n div 16), hex_char (n mod 16)]
      else [c])"

fun escape :: "string \<Rightarrow> string" where
  "escape [] = []"
| "escape (c # cs) = escape_char c @ escape cs"

definition json_string :: "string \<Rightarrow> string" where
  "json_string s = CHR 0x22 # escape s @ [CHR 0x22]"

fun json_item :: "jitem \<Rightarrow> string" where
  "json_item (JText s) = json_string s"
| "json_item (JNat n) = nat_text n"

fun json_items :: "jitem list \<Rightarrow> string" where
  "json_items [] = [CHR '']'']"
| "json_items [x] = json_item x @ [CHR '']'']"
| "json_items (x # y # zs) = json_item x @ [CHR '',''] @ json_items (y # zs)"

definition json_tuple :: "jitem list \<Rightarrow> string" where
  "json_tuple xs = CHR ''['' # json_items xs"

subsection \<open>Reading a string back\<close>

definition unhex :: "char \<Rightarrow> nat" where
  "unhex c = (let n = of_char c in if n < 58 then n - 48 else n - 87)"

text \<open>\<open>unescape\<close> reads the body of a JSON string up to its closing quote, and returns what follows.\<close>

fun unescape :: "string \<Rightarrow> (string \<times> string) option" where
  "unescape [] = None"
| "unescape (c # cs) =
     (if c = CHR 0x22 then Some ([], cs)
      else if c = CHR 0x5C then
        (case cs of
           [] \<Rightarrow> None
         | d # ds \<Rightarrow>
             if d = CHR ''u'' then
               (case ds of
                  _ # _ # x # y # es \<Rightarrow>
                    map_option (\<lambda>(s, r). (char_of (16 * unhex x + unhex y) # s, r)) (unescape es)
                | _ \<Rightarrow> None)
             else map_option (\<lambda>(s, r).
                 ((if d = CHR ''b'' then CHR 0x08 else if d = CHR ''t'' then CHR 0x09
                   else if d = CHR ''n'' then CHR 0x0A else if d = CHR ''f'' then CHR 0x0C
                   else if d = CHR ''r'' then CHR 0x0D else d) # s, r)) (unescape ds))
      else map_option (\<lambda>(s, r). (c # s, r)) (unescape cs))"

lemma unhex_hex: "d < 16 \<Longrightarrow> unhex (hex_char d) = d"
  by (auto simp: unhex_def hex_char_def Let_def)

lemma unescape_escape_char:
  "unescape (escape_char c @ r) = map_option (\<lambda>(s, t). (c # s, t)) (unescape r)"
proof -
  let ?n = "of_char c :: nat"
  consider "?n \<in> {34, 92, 8, 9, 10, 12, 13}" | "?n \<notin> {34, 92, 8, 9, 10, 12, 13}" "?n < 32"
    | "?n \<notin> {34, 92}" "\<not> ?n < 32" by auto
  then show ?thesis
  proof cases
    case 1
    then have "?n = of_char (CHR 0x22) \<or> ?n = of_char (CHR 0x5C) \<or> ?n = of_char (CHR 0x08)
      \<or> ?n = of_char (CHR 0x09) \<or> ?n = of_char (CHR 0x0A) \<or> ?n = of_char (CHR 0x0C)
      \<or> ?n = of_char (CHR 0x0D)" by simp
    then have "c \<in> {CHR 0x22, CHR 0x5C, CHR 0x08, CHR 0x09, CHR 0x0A, CHR 0x0C, CHR 0x0D}"
      by (simp only: of_char_eq_iff insert_iff empty_iff simp_thms)
    then show ?thesis
      by (auto simp: escape_char_def Let_def)
  next
    case 2
    then have "?n div 16 < 16" "?n mod 16 < 16" by simp_all
    then have "char_of (16 * unhex (hex_char (?n div 16)) + unhex (hex_char (?n mod 16))) = c"
      by (simp only: unhex_hex mult_div_mod_eq) simp
    with 2 show ?thesis
      by (simp add: escape_char_def Let_def)
  next
    case 3
    then have "escape_char c = [c]" by (auto simp: escape_char_def Let_def)
    moreover have "c \<noteq> CHR 0x22" "c \<noteq> CHR 0x5C" using 3 by auto
    ultimately show ?thesis by simp
  qed
qed

lemma unescape_escape: "unescape (escape s @ CHR 0x22 # r) = Some (s, r)"
  by (induction s) (simp_all add: unescape_escape_char)

lemma json_string_append:
  "json_string s @ r = json_string s' @ r' \<longleftrightarrow> s = s' \<and> r = r'"
proof
  assume "json_string s @ r = json_string s' @ r'"
  then have "escape s @ CHR 0x22 # r = escape s' @ CHR 0x22 # r'"
    by (simp add: json_string_def)
  then have "Some (s, r) = Some (s', r')"
    by (metis unescape_escape)
  then show "s = s' \<and> r = r'" by simp
qed simp

subsection \<open>Reading a number back\<close>

definition is_digit :: "char \<Rightarrow> bool" where
  "is_digit c = (48 \<le> (of_char c :: nat) \<and> (of_char c :: nat) < 58)"

definition digits_value :: "string \<Rightarrow> nat" where
  "digits_value = foldl (\<lambda>v c. 10 * v + (of_char c - 48)) 0"

lemma nat_text_digits: "\<forall>c\<in>set (nat_text n). is_digit c"
proof (induction n rule: nat_text.induct)
  case (1 n)
  then show ?case
    by (subst nat_text.simps) (auto simp: digit_char_def is_digit_def)
qed

lemma digits_value_nat_text: "digits_value (nat_text n) = n"
proof (induction n rule: nat_text.induct)
  case (1 n)
  then show ?case
    by (subst nat_text.simps) (auto simp: digit_char_def digits_value_def)
qed

lemma nat_text_nonempty: "nat_text n \<noteq> []"
  by (subst nat_text.simps) simp

lemma nat_text_append:
  assumes "\<not> is_digit c" and "\<not> is_digit d"
  shows "nat_text n @ c # r = nat_text m @ d # s \<longleftrightarrow> n = m \<and> c = d \<and> r = s"
proof
  have split: "takeWhile is_digit (nat_text k @ e # t) = nat_text k
      \<and> dropWhile is_digit (nat_text k @ e # t) = e # t" if "\<not> is_digit e" for k e t
    using that nat_text_digits[of k] by (simp add: takeWhile_append dropWhile_append)
  assume "nat_text n @ c # r = nat_text m @ d # s"
  with split[OF assms(1), of n r] split[OF assms(2), of m s]
  have "nat_text n = nat_text m" "c # r = d # s" by metis+
  then show "n = m \<and> c = d \<and> r = s" by (metis digits_value_nat_text list.inject)
qed simp

subsection \<open>No two tuples share a text\<close>

lemma json_item_hd:
  "\<exists>c cs. json_item x = c # cs \<and> ((\<exists>s. x = JText s) \<longleftrightarrow> c = CHR 0x22) \<and> c \<noteq> CHR '']''"
proof (cases x)
  case (JNat n)
  obtain c cs where "nat_text n = c # cs" using nat_text_nonempty by (cases "nat_text n") auto
  moreover from this have "is_digit c" using nat_text_digits[of n] by simp
  ultimately show ?thesis using JNat by (auto simp: is_digit_def)
qed (simp add: json_string_def)

lemma json_item_append:
  assumes "json_item x @ c # r = json_item y @ d # s" and "\<not> is_digit c" and "\<not> is_digit d"
  shows "x = y \<and> c = d \<and> r = s"
proof (cases x)
  case (JText t)
  with assms(1) json_item_hd[of y] obtain u where "y = JText u"
    by (auto simp: json_string_def)
  with JText assms(1) show ?thesis by (simp add: json_string_append)
next
  case (JNat n)
  with assms(1) json_item_hd[of x] json_item_hd[of y] obtain m where "y = JNat m"
    by (cases y) (auto simp: json_string_def)
  with JNat assms show ?thesis by (simp add: nat_text_append)
qed

lemma json_items_inject: "json_items xs = json_items ys \<Longrightarrow> xs = ys"
proof (induction xs arbitrary: ys rule: json_items.induct)
  case 1
  with json_item_hd[of "hd ys"] show ?case
    by (cases ys rule: json_items.cases) auto
next
  case (2 x)
  then show ?case
  proof (cases ys rule: json_items.cases)
    case 1
    with "2.prems" json_item_hd[of x] show ?thesis by auto
  next
    case (2 y)
    with "2.prems" json_item_append[of x "CHR '']''" "[]" y "CHR '']''" "[]"]
    show ?thesis by (simp add: is_digit_def)
  next
    case (3 y z zs)
    with "2.prems" json_item_append[of x "CHR '']''" "[]" y "CHR '',''" "json_items (z # zs)"]
    show ?thesis by (simp add: is_digit_def)
  qed
next
  case (3 x x' xs)
  show ?case
  proof (cases ys rule: json_items.cases)
    case 1
    with "3.prems" json_item_hd[of x] show ?thesis by auto
  next
    case (2 y)
    with "3.prems" json_item_append[of x "CHR '',''" "json_items (x' # xs)" y "CHR '']''" "[]"]
    show ?thesis by (simp add: is_digit_def)
  next
    case (3 y z zs)
    with "3.prems" "3.IH"[of "z # zs"]
      json_item_append[of x "CHR '',''" "json_items (x' # xs)" y "CHR '',''" "json_items (z # zs)"]
    show ?thesis by (simp add: is_digit_def)
  qed
qed

lemma json_tuple_inject [simp, js_simps]: "json_tuple xs = json_tuple ys \<longleftrightarrow> xs = ys"
  using json_items_inject by (auto simp: json_tuple_def)

subsection \<open>The keys of the sources\<close>

text \<open>The integer a validated version number stands for.\<close>

definition js_nat :: "jsnum \<Rightarrow> nat" where
  "js_nat x = (case safe_int x of Some i \<Rightarrow> nat i | None \<Rightarrow> 0)"

lemma js_nat_jint [simp]: "\<bar>i\<bar> \<le> max_safe \<Longrightarrow> js_nat (jint i) = nat i"
  by (simp add: js_nat_def)

record job_identity =
  ji_connection :: string
  ji_queue :: string
  ji_name :: string
  ji_version :: nat
  ji_key :: string

definition job_key :: "string \<Rightarrow> string \<Rightarrow> string \<Rightarrow> nat \<Rightarrow> string" where
  "job_key connection queue name version =
     json_tuple [JText connection, JText queue, JText name, JNat version]"

definition queue_key :: "string \<Rightarrow> string \<Rightarrow> string" where
  "queue_key connection name = json_tuple [JText connection, JText name]"

definition handler_key :: "job_identity \<Rightarrow> string" where
  "handler_key i = json_tuple [JText (ji_queue i), JText (ji_name i), JNat (ji_version i)]"

definition child_key :: "job_identity \<Rightarrow> string" where
  "child_key i = json_tuple [JText (ji_connection i), JText (ji_name i), JNat (ji_version i)]"

definition schedule_address :: "string \<Rightarrow> string \<Rightarrow> string \<Rightarrow> string" where
  "schedule_address connection grp key = json_tuple [JText connection, JText grp, JText key]"

text \<open>
  C33. The durable key of a job identifies the job: two keys are equal only if connection, queue,
  name and version are all equal, whatever characters (quotes, commas, brackets, controls) the
  names contain.
\<close>

theorem job_key_injective:
  "job_key c q n v = job_key c' q' n' v' \<longleftrightarrow> c = c' \<and> q = q' \<and> n = n' \<and> v = v'"
  by (simp add: job_key_def)

lemma queue_key_inject [simp, js_simps]: "queue_key c n = queue_key c' n' \<longleftrightarrow> c = c' \<and> n = n'"
  by (simp add: queue_key_def)

lemma job_key_eq [js_simps]:
  "job_key c q n v = job_key c' q' n' v' \<longleftrightarrow> c = c' \<and> q = q' \<and> n = n' \<and> v = v'"
  by (simp add: job_key_def)

lemma schedule_address_inject [simp, js_simps]:
  "schedule_address c g k = schedule_address c' g' k' \<longleftrightarrow> c = c' \<and> g = g' \<and> k = k'"
  by (simp add: schedule_address_def)

end
