(* ===== verification/Mq_Policies.thy ===== *)
theory Mq_Policies
  imports Mq_Values
begin

text \<open>
  \<open>src/contracts/policies.ts\<close>: names, integers, retry policies and job policies, with the layered
  resolution of a job's policy (application, queue, job and decorator layers). Optional fields are
  \<open>option\<close>s; \<open>Object.freeze({...x})\<close> is the record itself, since HOL values cannot be mutated.
\<close>

record backoff_bounds =
  max_delay_ms :: "jsnum option"
  jitter :: "jsnum option"

text \<open>\<open>Unsupported\<close> is an object of any other \<open>type\<close>, which only untyped callers can pass.\<close>

datatype retry_backoff =
    Fixed jsnum backoff_bounds
  | Linear jsnum jsnum backoff_bounds
  | Exponential jsnum jsnum backoff_bounds
  | Custom string jsnum
  | Unsupported backoff_bounds

record retry_options =
  attempts :: jsnum
  backoff :: "retry_backoff option"

record job_policy =
  jp_retry :: "retry_options option"
  jp_timeout_ms :: "jsnum option"
  jp_priority :: "jsnum option"
  jp_delay_ms :: "jsnum option"

record resolved_policy =
  rp_retry :: retry_options
  rp_timeout_ms :: "jsnum option"
  rp_priority :: jsnum
  rp_delay_ms :: jsnum

definition require_name :: "string \<Rightarrow> unit res" where
  "require_name value = throw_if (length value = 0 \<or> trim value \<noteq> value) Contract_Definition"

definition require_integer :: "jsnum \<Rightarrow> int \<Rightarrow> unit res" where
  "require_integer value minimum =
     throw_if (\<not> is_safe_integer value \<or> js_less value (jint minimum)) Contract_Definition"

definition check_bounds :: "backoff_bounds \<Rightarrow> unit res" where
  "check_bounds b =
     rbind (when_some (jitter b)
       (\<lambda>j. throw_if (\<not> is_finite j \<or> js_less j (jint 0) \<or> js_less (jint 1) j) Contract_Definition))
     (\<lambda>_. when_some (max_delay_ms b) (\<lambda>d. require_integer d 0))"

fun copy_backoff :: "retry_backoff \<Rightarrow> retry_backoff res" where
  "copy_backoff (Custom policy version) =
     rbind (require_name policy) (\<lambda>_.
     rbind (require_integer version 1) (\<lambda>_. Inr (Custom policy version)))"
| "copy_backoff (Fixed delay b) =
     rbind (check_bounds b) (\<lambda>_.
     rbind (require_integer delay 0) (\<lambda>_. Inr (Fixed delay b)))"
| "copy_backoff (Linear initial increment b) =
     rbind (check_bounds b) (\<lambda>_.
     rbind (require_integer initial 0) (\<lambda>_.
     rbind (require_integer increment 0) (\<lambda>_. Inr (Linear initial increment b))))"
| "copy_backoff (Exponential initial factor b) =
     rbind (check_bounds b) (\<lambda>_.
     rbind (require_integer initial 0) (\<lambda>_.
     rbind (throw_if (\<not> is_finite factor \<or> js_less factor (jint 1)) Contract_Definition) (\<lambda>_.
     Inr (Exponential initial factor b))))"
| "copy_backoff (Unsupported b) = rbind (check_bounds b) (\<lambda>_. Inl Contract_Definition)"

definition copy_retry :: "retry_options \<Rightarrow> retry_options res" where
  "copy_retry r =
     rbind (require_integer (attempts r) 1) (\<lambda>_.
     case backoff r of
       None \<Rightarrow> Inr (r\<lparr>backoff := None\<rparr>)
     | Some b \<Rightarrow> rbind (copy_backoff b) (\<lambda>c. Inr (r\<lparr>backoff := Some c\<rparr>)))"

definition copy_job_policy :: "job_policy \<Rightarrow> job_policy res" where
  "copy_job_policy p =
     rbind (when_some (jp_timeout_ms p) (\<lambda>n. require_integer n 0)) (\<lambda>_.
     rbind (when_some (jp_delay_ms p) (\<lambda>n. require_integer n 0)) (\<lambda>_.
     rbind (when_some (jp_priority p) (\<lambda>n. require_integer n 0)) (\<lambda>_.
     case jp_retry p of
       None \<Rightarrow> Inr (p\<lparr>jp_retry := None\<rparr>)
     | Some r \<Rightarrow> rbind (copy_retry r) (\<lambda>c. Inr (p\<lparr>jp_retry := Some c\<rparr>)))))"

definition initial_policy :: resolved_policy where
  "initial_policy =
     \<lparr>rp_retry = \<lparr>attempts = jint 1, backoff = None\<rparr>, rp_timeout_ms = None,
      rp_priority = jint 0, rp_delay_ms = jint 0\<rparr>"

definition apply_layer :: "resolved_policy \<Rightarrow> job_policy \<Rightarrow> resolved_policy" where
  "apply_layer resolved policy =
     \<lparr>rp_retry = orelse (jp_retry policy) (rp_retry resolved),
      rp_timeout_ms = orelse_opt (jp_timeout_ms policy) (rp_timeout_ms resolved),
      rp_priority = orelse (jp_priority policy) (rp_priority resolved),
      rp_delay_ms = orelse (jp_delay_ms policy) (rp_delay_ms resolved)\<rparr>"

definition resolve_job_policy :: "job_policy list \<Rightarrow> resolved_policy res" where
  "resolve_job_policy layers =
     loop (\<lambda>resolved layer. rbind (copy_job_policy layer) (\<lambda>policy. Inr (apply_layer resolved policy)))
       initial_policy layers"

subsection \<open>What the checks accept\<close>

definition valid_name :: "string \<Rightarrow> bool" where
  "valid_name s \<longleftrightarrow> s \<noteq> [] \<and> \<not> is_js_space (hd s) \<and> \<not> is_js_space (last s)"

definition int_at_least :: "int \<Rightarrow> jsnum \<Rightarrow> bool" where
  "int_at_least m x \<longleftrightarrow> (\<exists>i. x = jint i \<and> m \<le> i \<and> \<bar>i\<bar> \<le> max_safe)"

lemma int_at_least_code [code]:
  "int_at_least m x = (case safe_int x of None \<Rightarrow> False | Some i \<Rightarrow> m \<le> i)"
  by (auto simp: int_at_least_def safe_int_Some split: option.splits)

lemma int_at_least_jint [simp, js_simps]: "int_at_least m (jint i) \<longleftrightarrow> m \<le> i \<and> \<bar>i\<bar> \<le> max_safe"
  by (auto simp: int_at_least_def)

definition valid_bounds :: "backoff_bounds \<Rightarrow> bool" where
  "valid_bounds b \<longleftrightarrow>
     (case jitter b of None \<Rightarrow> True | Some (Fin j) \<Rightarrow> 0 \<le> j \<and> j \<le> 1 | Some _ \<Rightarrow> False)
     \<and> (case max_delay_ms b of None \<Rightarrow> True | Some d \<Rightarrow> int_at_least 0 d)"

fun valid_backoff :: "retry_backoff \<Rightarrow> bool" where
  "valid_backoff (Custom p v) = (valid_name p \<and> int_at_least 1 v)"
| "valid_backoff (Fixed d b) = (valid_bounds b \<and> int_at_least 0 d)"
| "valid_backoff (Linear i k b) = (valid_bounds b \<and> int_at_least 0 i \<and> int_at_least 0 k)"
| "valid_backoff (Exponential i f b) =
     (valid_bounds b \<and> int_at_least 0 i \<and> (case f of Fin q \<Rightarrow> 1 \<le> q | _ \<Rightarrow> False))"
| "valid_backoff (Unsupported b) = False"

definition valid_retry :: "retry_options \<Rightarrow> bool" where
  "valid_retry r \<longleftrightarrow> int_at_least 1 (attempts r) \<and>
     (case backoff r of None \<Rightarrow> True | Some b \<Rightarrow> valid_backoff b)"

definition valid_policy :: "job_policy \<Rightarrow> bool" where
  "valid_policy p \<longleftrightarrow>
     (case jp_timeout_ms p of None \<Rightarrow> True | Some n \<Rightarrow> int_at_least 0 n)
     \<and> (case jp_delay_ms p of None \<Rightarrow> True | Some n \<Rightarrow> int_at_least 0 n)
     \<and> (case jp_priority p of None \<Rightarrow> True | Some n \<Rightarrow> int_at_least 0 n)
     \<and> (case jp_retry p of None \<Rightarrow> True | Some r \<Rightarrow> valid_retry r)"

lemma require_name_eq [js_simps]:
  "require_name s = (if valid_name s then Inr () else Inl Contract_Definition)"
  by (auto simp: require_name_def valid_name_def trim_eq_self throw_if_def)

lemma require_integer_eq [js_simps]:
  "require_integer x m = (if int_at_least m x then Inr () else Inl Contract_Definition)"
proof (cases "is_safe_integer x")
  case True
  then obtain i where "x = jint i" "\<bar>i\<bar> \<le> max_safe" by (rule is_safe_integerE)
  then show ?thesis by (auto simp: require_integer_def throw_if_def)
next
  case False
  then have "\<not> int_at_least m x" by (auto simp: int_at_least_def)
  with False show ?thesis by (simp add: require_integer_def)
qed

lemma check_bounds_eq [js_simps]:
  "check_bounds b = (if valid_bounds b then Inr () else Inl Contract_Definition)"
  by (cases "jitter b"; cases "the (jitter b)"; cases "max_delay_ms b")
     (auto simp: check_bounds_def valid_bounds_def require_integer_eq throw_if_def is_finite_def
        jint_def)

lemma copy_backoff_eq [js_simps]:
  "copy_backoff b = (if valid_backoff b then Inr b else Inl Contract_Definition)"
proof (cases b)
  case (Exponential i f bs)
  then show ?thesis
    by (cases f) (auto simp: js_simps throw_if_def is_finite_def jint_def)
qed (auto simp: js_simps)

lemma copy_retry_eq [js_simps]:
  "copy_retry r = (if valid_retry r then Inr r else Inl Contract_Definition)"
  by (cases "backoff r") (auto simp: copy_retry_def valid_retry_def js_simps)

lemma copy_job_policy_eq [js_simps]:
  "copy_job_policy p = (if valid_policy p then Inr p else Inl Contract_Definition)"
  by (cases "jp_timeout_ms p"; cases "jp_delay_ms p"; cases "jp_priority p"; cases "jp_retry p")
     (auto simp: copy_job_policy_def valid_policy_def js_simps)

lemma checks_ok:
  "require_name s = Inr u \<longleftrightarrow> valid_name s"
  "require_integer x m = Inr u \<longleftrightarrow> int_at_least m x"
  "copy_backoff b = Inr b' \<longleftrightarrow> valid_backoff b \<and> b' = b"
  "copy_retry r = Inr r' \<longleftrightarrow> valid_retry r \<and> r' = r"
  "copy_job_policy p = Inr p' \<longleftrightarrow> valid_policy p \<and> p' = p"
  by (auto simp: js_simps)

subsection \<open>Resolution\<close>

definition resolution :: "job_policy list \<Rightarrow> resolved_policy" where
  "resolution layers =
     \<lparr>rp_retry = orelse (latest jp_retry layers) \<lparr>attempts = jint 1, backoff = None\<rparr>,
      rp_timeout_ms = latest jp_timeout_ms layers,
      rp_priority = orelse (latest jp_priority layers) (jint 0),
      rp_delay_ms = orelse (latest jp_delay_ms layers) (jint 0)\<rparr>"

lemma orelse_assoc: "orelse (orelse_opt x y) z = orelse x (orelse y z)"
  by (cases x) simp_all

lemma resolution_snoc: "resolution (layers @ [l]) = apply_layer (resolution layers) l"
  by (simp add: resolution_def apply_layer_def orelse_assoc)

lemma resolve_valid:
  "list_all valid_policy layers \<Longrightarrow> resolve_job_policy layers = Inr (resolution layers)"
proof (induction layers rule: rev_induct)
  case (snoc l layers)
  then show ?case
    by (simp add: resolve_job_policy_def loop_append js_simps resolution_snoc)
qed (simp add: resolve_job_policy_def resolution_def initial_policy_def)

lemma loop_invalid:
  "\<not> list_all valid_policy layers \<Longrightarrow>
   loop (\<lambda>resolved layer. rbind (copy_job_policy layer) (\<lambda>policy. Inr (apply_layer resolved policy)))
     s layers = Inl Contract_Definition"
  by (induction layers arbitrary: s) (auto simp: js_simps)

text \<open>
  C31. Resolving a job's policy either rejects the layers, exactly when one of them is not a valid
  policy, or gives each field the value of the last layer that sets it and the documented default
  (one attempt without backoff, no timeout, priority and delay zero) when no layer does. A retry
  policy is replaced as a whole, never merged field by field.
\<close>

theorem resolve_job_policy_spec:
  "resolve_job_policy layers =
     (if list_all valid_policy layers then Inr (resolution layers) else Inl Contract_Definition)"
  using resolve_valid loop_invalid by (auto simp: resolve_job_policy_def)

text \<open>A resolved policy is valid: what was checked layer by layer holds of the whole.\<close>

definition valid_resolved :: "resolved_policy \<Rightarrow> bool" where
  "valid_resolved p \<longleftrightarrow> valid_retry (rp_retry p)
     \<and> (case rp_timeout_ms p of None \<Rightarrow> True | Some n \<Rightarrow> int_at_least 0 n)
     \<and> int_at_least 0 (rp_priority p) \<and> int_at_least 0 (rp_delay_ms p)"

lemma valid_initial: "valid_resolved initial_policy"
  by (simp add: valid_resolved_def initial_policy_def valid_retry_def max_safe_def)

lemma apply_layer_valid:
  "valid_resolved r \<Longrightarrow> valid_policy p \<Longrightarrow> valid_resolved (apply_layer r p)"
  by (auto simp: valid_resolved_def valid_policy_def apply_layer_def orelse_def orelse_opt_def
      split: option.splits)

lemma resolve_job_policy_valid:
  assumes "resolve_job_policy layers = Inr p"
  shows "valid_resolved p"
  by (rule loop_invariant [OF assms[unfolded resolve_job_policy_def], of valid_resolved])
     (auto simp: js_simps valid_initial apply_layer_valid split: if_splits)

lemmas policy_eqs = require_name_eq require_integer_eq copy_retry_eq copy_job_policy_eq

end
