(* ===== verification/Mq_Controls_Options.thy ===== *)
theory Mq_Controls_Options
  imports Mq_Policies
begin

text \<open>
  \<open>src/controls/decorator.ts\<close>: the limits a queue declares, the module's controls options and the
  dispatch keys. \<open>Reflect\<close> metadata on classes is a map from the identity of a class to what a
  decorator stored on it; a decorator is a function from that map to the new one.
\<close>

text \<open>A decorated class: its identity and whether it derives from \<open>QueueService\<close>.\<close>

record target =
  tg_id :: nat
  tg_queue_service :: bool

record rate_limit =
  rl_max :: jsnum
  rl_duration_ms :: jsnum

record controls_options =
  co_global :: "jsnum option"
  co_per_key :: "jsnum option"
  co_rate_limit :: "rate_limit option"

datatype sync_mode = Validate | Reconcile | Other_Mode

record controls_config =
  cc_mode :: sync_mode
  cc_group :: string

definition queue_controls :: "controls_options \<Rightarrow> target \<Rightarrow> (nat \<rightharpoonup> controls_options)
    \<Rightarrow> (nat \<rightharpoonup> controls_options) res" where
  "queue_controls opts t store =
     rbind (throw_if (co_global opts = None \<and> co_per_key opts = None \<and> co_rate_limit opts = None)
              Contract_Definition) (\<lambda>_.
     rbind (when_some (co_global opts) (\<lambda>n. require_integer n 1)) (\<lambda>_.
     rbind (when_some (co_per_key opts) (\<lambda>n. require_integer n 1)) (\<lambda>_.
     rbind (when_some (co_rate_limit opts) (\<lambda>r.
              rbind (require_integer (rl_max r) 1) (\<lambda>_. require_integer (rl_duration_ms r) 1))) (\<lambda>_.
     rbind (throw_if (\<not> tg_queue_service t) Contract_Definition) (\<lambda>_.
     rbind (throw_if (store (tg_id t) \<noteq> None) Contract_Definition) (\<lambda>_.
     Inr (store(tg_id t \<mapsto> opts))))))))"

definition queue_controls_metadata :: "(nat \<rightharpoonup> controls_options) \<Rightarrow> nat \<Rightarrow> controls_options option" where
  "queue_controls_metadata store cls = store cls"

definition resolve_controls_options :: "sync_mode option \<Rightarrow> string option \<Rightarrow> controls_config res" where
  "resolve_controls_options mode grp =
     (let g = orelse grp ''nestjs/queue-controls''; m = orelse mode Validate in
      rbind (require_name g) (\<lambda>_.
      rbind (throw_if (length g > 128 \<or> nul \<in> set g) Contract_Definition) (\<lambda>_.
      rbind (throw_if (m \<noteq> Validate \<and> m \<noteq> Reconcile) Contract_Definition) (\<lambda>_.
      Inr \<lparr>cc_mode = m, cc_group = g\<rparr>))))"

definition validate_dispatch_key :: "string \<Rightarrow> string res" where
  "validate_dispatch_key key =
     rbind (require_name key) (\<lambda>_.
     rbind (throw_if (key = ''__none__'' \<or> length key > 512 \<or> nul \<in> set key) Contract_Definition) (\<lambda>_.
     Inr key))"

definition valid_dispatch_key :: "string \<Rightarrow> bool" where
  "valid_dispatch_key k \<longleftrightarrow> valid_name k \<and> k \<noteq> ''__none__'' \<and> length k \<le> 512 \<and> nul \<notin> set k"

lemma validate_dispatch_key_eq [js_simps]:
  "validate_dispatch_key k = (if valid_dispatch_key k then Inr k else Inl Contract_Definition)"
  by (auto simp: validate_dispatch_key_def valid_dispatch_key_def js_simps throw_if_def)

text \<open>The limits a queue can declare: at least one, each a positive safe integer.\<close>

definition valid_controls :: "controls_options \<Rightarrow> bool" where
  "valid_controls o' \<longleftrightarrow>
     (co_global o' \<noteq> None \<or> co_per_key o' \<noteq> None \<or> co_rate_limit o' \<noteq> None)
     \<and> (\<forall>n. co_global o' = Some n \<longrightarrow> int_at_least 1 n)
     \<and> (\<forall>n. co_per_key o' = Some n \<longrightarrow> int_at_least 1 n)
     \<and> (\<forall>r. co_rate_limit o' = Some r \<longrightarrow> int_at_least 1 (rl_max r) \<and> int_at_least 1 (rl_duration_ms r))"

lemma queue_controls_eq:
  "queue_controls opts t store =
     (if valid_controls opts \<and> tg_queue_service t \<and> store (tg_id t) = None
      then Inr (store(tg_id t \<mapsto> opts)) else Inl Contract_Definition)"
  by (cases "co_global opts"; cases "co_per_key opts"; cases "co_rate_limit opts")
     (auto simp: queue_controls_def valid_controls_def js_simps throw_if_def)

lemma controls_metadata_valid:
  assumes "queue_controls opts t store = Inr store'"
    and "\<And>c o'. store c = Some o' \<Longrightarrow> valid_controls o'" and "store' c = Some o'"
  shows "valid_controls o'"
  using assms by (auto simp: queue_controls_eq split: if_splits)

end
