(* ===== verification/Mq_Schema.thy ===== *)
theory Mq_Schema
  imports Mq_Values
begin

text \<open>
  \<open>src/contracts/schema.ts\<close>: the validation and serialisation boundary. A Standard Schema and a
  codec are application code, so they are parameters: a record of the two functions the library
  calls. A JSON text is represented by the value \<open>JSON.parse\<close> gives it (\<open>None\<close>: not JSON), so
  \<open>JSON.stringify\<close> followed by \<open>JSON.parse\<close> is one function, \<open>json_of\<close>.
\<close>

subsection \<open>JSON and deep equality\<close>

text \<open>The results of \<open>JSON.stringify\<close>: it throws, returns \<open>undefined\<close>, or a text.\<close>

datatype json_out = Throws | NoText | Text jsval

definition array_item :: "json_out \<Rightarrow> jsval" where
  "array_item r = (case r of Text v \<Rightarrow> v | _ \<Rightarrow> VNull)"

fun object_fields :: "(pkey \<times> bool \<times> json_out) list \<Rightarrow> (pkey \<times> bool \<times> jsval) list" where
  "object_fields [] = []"
| "object_fields ((PString s, a, Text v) # fs) = (PString s, False, v) # object_fields fs"
| "object_fields (f # fs) = object_fields fs"

text \<open>A property is read, and can make the whole call throw, only under a string key.\<close>

definition field_throws :: "pkey \<times> bool \<times> json_out \<Rightarrow> bool" where
  "field_throws f = (case f of (PString _, _, Throws) \<Rightarrow> True | _ \<Rightarrow> False)"

primrec json_of :: "jsval \<Rightarrow> json_out" where
  "json_of VUndefined = NoText"
| "json_of VNull = Text VNull"
| "json_of (VBool b) = Text (VBool b)"
| "json_of (VNum x) = Text (case x of Fin r \<Rightarrow> VNum (Fin r) | _ \<Rightarrow> VNull)"
| "json_of VNegZero = Text (VNum (jint 0))"
| "json_of (VStr s) = Text (VStr s)"
| "json_of (VSymbol n) = NoText"
| "json_of (VBigInt i) = Throws"
| "json_of (VFunction n) = NoText"
| "json_of VCycle = Throws"
| "json_of (VArray xs) =
     (let rs = map json_of xs in
      if Throws \<in> set rs then Throws else Text (VArray (map array_item rs)))"
| "json_of (VObject p fs) =
     (let rs = map (map_prod id (map_prod id json_of)) fs in
      if list_ex field_throws rs then Throws else Text (VObject ObjectProto (object_fields rs)))"

text \<open>\<open>isDeepStrictEqual\<close>: same primitives by \<open>Object.is\<close>, same prototypes, same keys in any order.\<close>

primrec deep_equal :: "jsval \<Rightarrow> jsval \<Rightarrow> bool" where
  "deep_equal VUndefined w = (w = VUndefined)"
| "deep_equal VNull w = (w = VNull)"
| "deep_equal (VBool b) w = (w = VBool b)"
| "deep_equal (VNum x) w = (w = VNum x)"
| "deep_equal VNegZero w = (w = VNegZero)"
| "deep_equal (VStr s) w = (w = VStr s)"
| "deep_equal (VSymbol n) w = (w = VSymbol n)"
| "deep_equal (VBigInt i) w = (w = VBigInt i)"
| "deep_equal (VFunction n) w = (w = VFunction n)"
| "deep_equal VCycle w = (w = VCycle)"
| "deep_equal (VArray xs) w =
     (case w of
        VArray ys \<Rightarrow> length xs = length ys \<and> list_all (\<lambda>(eq, y). eq y) (zip (map deep_equal xs) ys)
      | _ \<Rightarrow> False)"
| "deep_equal (VObject p fs) w =
     (case w of
        VObject q gs \<Rightarrow> p = q \<and> length fs = length gs
          \<and> list_all (\<lambda>(k, _, eq). case map_of gs k of None \<Rightarrow> False | Some (_, v) \<Rightarrow> eq v)
              (map (map_prod id (map_prod id deep_equal)) fs)
      | _ \<Rightarrow> False)"

text \<open>The keys of an object are distinct, at every depth.\<close>

primrec wf_val :: "jsval \<Rightarrow> bool" where
  "wf_val VUndefined = True" | "wf_val VNull = True" | "wf_val (VBool b) = True"
| "wf_val (VNum x) = True" | "wf_val VNegZero = True" | "wf_val (VStr s) = True"
| "wf_val (VSymbol n) = True" | "wf_val (VBigInt i) = True" | "wf_val (VFunction n) = True"
| "wf_val VCycle = True"
| "wf_val (VArray xs) = list_all id (map wf_val xs)"
| "wf_val (VObject p fs) =
     (distinct (map fst fs) \<and> list_all (\<lambda>(_, _, b). b) (map (map_prod id (map_prod id wf_val)) fs))"

text \<open>
  The values JSON keeps: \<open>null\<close>, booleans, finite numbers other than negative zero, strings, arrays
  and plain objects of such values with string keys; \<open>plain\<close> reads their accessors.
\<close>

primrec lossless :: "jsval \<Rightarrow> bool" where
  "lossless VUndefined = False" | "lossless VNull = True" | "lossless (VBool b) = True"
| "lossless (VNum x) = is_finite x" | "lossless VNegZero = False" | "lossless (VStr s) = True"
| "lossless (VSymbol n) = False" | "lossless (VBigInt i) = False"
| "lossless (VFunction n) = False" | "lossless VCycle = False"
| "lossless (VArray xs) = list_all id (map lossless xs)"
| "lossless (VObject p fs) =
     (p = ObjectProto \<and> list_all (\<lambda>(k, _, b). b \<and> (case k of PString _ \<Rightarrow> True | PSymbol _ \<Rightarrow> False))
        (map (map_prod id (map_prod id lossless)) fs))"

primrec plain :: "jsval \<Rightarrow> jsval" where
  "plain VUndefined = VUndefined" | "plain VNull = VNull" | "plain (VBool b) = VBool b"
| "plain (VNum x) = VNum x" | "plain VNegZero = VNegZero" | "plain (VStr s) = VStr s"
| "plain (VSymbol n) = VSymbol n" | "plain (VBigInt i) = VBigInt i"
| "plain (VFunction n) = VFunction n" | "plain VCycle = VCycle"
| "plain (VArray xs) = VArray (map plain xs)"
| "plain (VObject p fs) =
     VObject p (map (\<lambda>(k, _, v). (k, False, v)) (map (map_prod id (map_prod id plain)) fs))"

subsection \<open>Facts about JSON\<close>

lemma deep_equal_array:
  "deep_equal (VArray xs) (VArray ys) \<longleftrightarrow> list_all2 deep_equal xs ys"
proof -
  have "list_all (\<lambda>(eq, y). eq y) (zip (map deep_equal xs) ys)
      \<longleftrightarrow> (\<forall>(x, y)\<in>set (zip xs ys). deep_equal x y)"
    by (force simp: list_all_iff zip_map1)
  then show ?thesis by (simp add: list_all2_iff)
qed

lemma deep_equal_object:
  "deep_equal (VObject p fs) (VObject q gs) \<longleftrightarrow> p = q \<and> length fs = length gs \<and>
     (\<forall>(k, a, u)\<in>set fs. \<exists>b v. map_of gs k = Some (b, v) \<and> deep_equal u v)"
  by (fastforce simp: list_all_iff split: option.splits)

lemma map_of_distinct_mem:
  "distinct (map fst gs) \<Longrightarrow> (k, v) \<in> set gs \<Longrightarrow> map_of gs k = Some v"
  by simp

lemma json_of_lossless: "lossless v \<Longrightarrow> json_of v = Text (plain v)"
proof (induction v rule: jsval_induct)
  case (VNum x)
  then show ?case by (cases x) (auto simp: is_finite_def)
next
  case (VArray xs)
  then have "map json_of xs = map (\<lambda>x. Text (plain x)) xs"
    by (simp add: list_all_iff)
  then show ?case by (auto simp: Let_def comp_def array_item_def)
next
  case (VObject p fs)
  have fields: "lossless v \<and> (\<exists>s. k = PString s)" if "(k, a, v) \<in> set fs" for k a v
    using that VObject.prems by (cases k) (fastforce simp: list_all_iff)+
  have rs: "map (map_prod id (map_prod id json_of)) fs
      = map (\<lambda>(k, a, v). (k, a, Text (plain v))) fs"
    using VObject.IH fields by fastforce
  have out: "object_fields (map (\<lambda>(k, a, v). (k, a, Text (plain v))) fs)
      = map (\<lambda>(k, _, v). (k, False, v)) (map (map_prod id (map_prod id plain)) fs)"
    using fields by (induction fs) fastforce+
  have "\<not> field_throws (k, a, Text w)" for k a w
    by (simp add: field_throws_def split: pkey.split)
  then have quiet: "\<not> list_ex field_throws (map (\<lambda>(k, a, v). (k, a, Text (plain v))) fs)"
    by (auto simp: list_ex_iff)
  from VObject.prems have "p = ObjectProto" by simp
  with quiet out show ?case
    unfolding json_of.simps Let_def rs plain.simps by (simp only: if_False)
qed simp_all

lemma deep_equal_plain: "wf_val v \<Longrightarrow> deep_equal (plain v) v"
proof (induction v rule: jsval_induct)
  case (VArray xs)
  then show ?case
    by (simp only: plain.simps deep_equal_array)
       (simp add: list_all2_conv_all_nth list_all_iff)
next
  case (VObject p fs)
  from VObject.prems have d: "distinct (map fst fs)" by simp
  have "\<exists>b v. map_of fs k = Some (b, v) \<and> deep_equal u v"
    if "(k, a, u) \<in> set (map (\<lambda>(k, _, v). (k, False, v)) (map (map_prod id (map_prod id plain)) fs))"
    for k a u
  proof -
    from that obtain b v where kv: "(k, b, v) \<in> set fs" and u: "u = plain v" by auto
    from kv VObject.prems have "wf_val v" by (fastforce simp: list_all_iff)
    with VObject.IH[OF kv] have "deep_equal (plain v) v" by simp
    with d kv u show ?thesis by (metis map_of_distinct_mem)
  qed
  then show ?case
    unfolding plain.simps deep_equal_object by (intro conjI ballI) (simp, simp, blast)
qed simp_all

lemma object_fields_le: "length (object_fields rs) \<le> length rs"
  by (induction rs rule: object_fields.induct) auto

lemma object_fields_not_Suc [simp]: "length (object_fields rs) \<noteq> Suc (length rs)"
  using object_fields_le[of rs] by simp

lemma object_fields_length:
  "length (object_fields rs) = length rs \<Longrightarrow> (k, a, r) \<in> set rs \<Longrightarrow> \<exists>s v. k = PString s \<and> r = Text v"
  by (induction rs rule: object_fields.induct) auto

lemma object_fields_mem:
  "(PString s, a, Text v) \<in> set rs \<Longrightarrow> (PString s, False, v) \<in> set (object_fields rs)"
  by (induction rs rule: object_fields.induct) auto

text \<open>What survives the trip through JSON unchanged is lossless.\<close>

lemma deep_equal_lossless:
  "wf_val v \<Longrightarrow> json_of v = Text j \<Longrightarrow> deep_equal j v \<Longrightarrow> lossless v"
proof (induction v arbitrary: j rule: jsval_induct)
  case (VNum x)
  then show ?case by (cases x) (auto simp: is_finite_def)
next
  case (VArray xs)
  let ?rs = "map json_of xs"
  from VArray.prems(2) have nt: "Throws \<notin> set ?rs" and j: "j = VArray (map array_item ?rs)"
    by (auto simp: Let_def split: if_splits)
  have "lossless x" if x: "x \<in> set xs" for x
  proof -
    from VArray.prems(3) j x have "deep_equal (array_item (json_of x)) x"
      by (simp only: deep_equal_array) (auto simp: list_all2_conv_all_nth in_set_conv_nth)
    moreover from x nt have "json_of x \<noteq> Throws" by (metis imageI list.set_map)
    moreover from x VArray.prems(1) have "wf_val x" by (simp add: list_all_iff)
    ultimately show ?thesis
      using VArray.IH[OF x, of "array_item (json_of x)"]
      by (cases "json_of x"; cases x) (auto simp: array_item_def Let_def split: if_splits)
  qed
  then show ?case by (simp add: list_all_iff)
next
  case (VObject p fs)
  let ?rs = "map (map_prod id (map_prod id json_of)) fs"
  from VObject.prems(2) have j: "j = VObject ObjectProto (object_fields ?rs)"
    by (auto simp: Let_def split: if_splits)
  with VObject.prems(3) have p: "p = ObjectProto"
    and len: "length (object_fields ?rs) = length fs"
    and eq: "\<And>k a u. (k, a, u) \<in> set (object_fields ?rs) \<Longrightarrow>
        \<exists>b v. map_of fs k = Some (b, v) \<and> deep_equal u v"
    by (simp_all only: deep_equal_object) auto
  have "lossless v \<and> (\<exists>s. k = PString s)" if kv: "(k, a, v) \<in> set fs" for k a v
  proof -
    from kv have "(k, a, json_of v) \<in> set ?rs" by (force simp: image_iff)
    moreover from this len obtain s w where k: "k = PString s" and w: "json_of v = Text w"
      using object_fields_length[of ?rs k a "json_of v"] by auto
    ultimately have "(k, False, w) \<in> set (object_fields ?rs)"
      using object_fields_mem by simp
    then obtain b u where "map_of fs k = Some (b, u)" "deep_equal w u" using eq by blast
    moreover have "map_of fs k = Some (a, v)"
      using VObject.prems(1) kv by (simp add: map_of_distinct_mem)
    ultimately have "deep_equal w v" by simp
    moreover have "wf_val v" using kv VObject.prems(1) by (fastforce simp: list_all_iff)
    ultimately show ?thesis
      using VObject.IH[OF kv _ w] k by simp
  qed
  with p show ?case by (fastforce simp: list_all_iff split: pkey.splits)
qed auto

subsection \<open>Schemas\<close>

datatype validation = Valid jsval | Issues "string list"

text \<open>
  \<open>vs_validate\<close> is \<open>schema['~standard'].validate\<close> (\<open>None\<close>: it threw or rejected); \<open>vs_codec\<close> is the
  encoder of a \<open>SchemaCodec\<close>, absent for a bare schema.
\<close>

record value_schema =
  vs_validate :: "jsval \<Rightarrow> validation option"
  vs_codec :: "(jsval \<Rightarrow> jsval option) option"

definition validate_schema :: "value_schema \<Rightarrow> jsval \<Rightarrow> jsval res" where
  "validate_schema contract input =
     (case vs_validate contract input of
        None \<Rightarrow> Inl (Schema_Defect ValidatePhase)
      | Some (Issues issues) \<Rightarrow> Inl (Schema_Validation issues)
      | Some (Valid v) \<Rightarrow> Inr v)"

definition json_text :: "jsval \<Rightarrow> jsval res" where
  "json_text v =
     (case json_of v of
        Throws \<Rightarrow> Inl Schema_Encoding
      | NoText \<Rightarrow> Inl Schema_Encoding
      | Text j \<Rightarrow> if deep_equal j v then Inr j else Inl Schema_Encoding)"

definition encode_codec :: "(jsval \<Rightarrow> jsval option) \<Rightarrow> jsval \<Rightarrow> jsval res" where
  "encode_codec encoder v =
     (case encoder v of None \<Rightarrow> Inl (Schema_Defect EncodePhase) | Some w \<Rightarrow> Inr w)"

definition decode_schema :: "value_schema \<Rightarrow> jsval option \<Rightarrow> jsval res" where
  "decode_schema contract text =
     (case text of
        None \<Rightarrow> Inl Schema_Encoding
      | Some parsed \<Rightarrow> validate_schema contract parsed)"

definition encode_schema :: "value_schema \<Rightarrow> jsval \<Rightarrow> jsval res" where
  "encode_schema contract v =
     (case vs_codec contract of
        Some encoder \<Rightarrow>
          rbind (encode_codec encoder v) (\<lambda>encoded.
          rbind (json_text encoded) (\<lambda>text.
          rbind (decode_schema contract (Some text)) (\<lambda>decoded.
          if deep_equal decoded v then Inr text else Inl Schema_Encoding)))
      | None \<Rightarrow>
          rbind (validate_schema contract v) (\<lambda>validated.
          if deep_equal validated v then json_text validated else Inl Schema_Encoding))"

text \<open>
  Without a codec the text check accepts exactly the lossless values: everything JSON would
  drop, coerce or reject (\<open>undefined\<close>, non-finite numbers, negative zero, functions, symbols, class
  instances, cycles) is refused before it is persisted, and what is persisted is the value itself.
\<close>

theorem json_text_spec:
  assumes "wf_val v"
  shows "json_text v = (if lossless v then Inr (plain v) else Inl Schema_Encoding)"
proof (cases "lossless v")
  case True
  with assms show ?thesis by (simp add: json_text_def json_of_lossless deep_equal_plain)
next
  case False
  with assms deep_equal_lossless show ?thesis
    by (auto simp: json_text_def split: json_out.splits)
qed

theorem json_text_spec_witness:
  "wf_val (VObject ObjectProto [(PString ''n'', False, VNum NaN)])
   \<and> json_text (VObject ObjectProto [(PString ''n'', False, VNum NaN)]) = Inl Schema_Encoding"
proof -
  have wf: "wf_val (VObject ObjectProto [(PString ''n'', False, VNum NaN)])" by simp
  then show ?thesis by (simp add: json_text_spec[OF wf] is_finite_def)
qed

lemma json_text_ok: "json_text v = Inr t \<Longrightarrow> deep_equal t v"
  by (auto simp: json_text_def split: json_out.splits if_splits)

lemma deep_equal_trans: "deep_equal u v \<Longrightarrow> deep_equal v w \<Longrightarrow> deep_equal u w"
proof (induction u arbitrary: v w rule: jsval_induct)
  case (VArray xs)
  from VArray.prems(1) obtain ys where v: "v = VArray ys" by (cases v) auto
  with VArray.prems(2) obtain zs where w: "w = VArray zs" by (cases w) auto
  from VArray.prems have "list_all2 deep_equal xs ys" "list_all2 deep_equal ys zs"
    unfolding v w deep_equal_array by simp_all
  with VArray.IH have "list_all2 deep_equal xs zs"
    by (fastforce simp: list_all2_conv_all_nth in_set_conv_nth)
  then show ?case unfolding w deep_equal_array .
next
  case (VObject p fs)
  from VObject.prems(1) obtain q gs where v: "v = VObject q gs" by (cases v) auto
  with VObject.prems(2) obtain r hs where w: "w = VObject r hs" by (cases w) auto
  from VObject.prems have
    fg: "p = q" "length fs = length gs" "\<And>k a u. (k, a, u) \<in> set fs \<Longrightarrow> \<exists>b x. map_of gs k = Some (b, x) \<and> deep_equal u x"
    and gh: "q = r" "length gs = length hs" "\<And>k b x. (k, b, x) \<in> set gs \<Longrightarrow> \<exists>c y. map_of hs k = Some (c, y) \<and> deep_equal x y"
    unfolding v w deep_equal_object by fast+
  have "\<exists>c y. map_of hs k = Some (c, y) \<and> deep_equal u y" if k: "(k, a, u) \<in> set fs" for k a u
  proof -
    from fg(3)[OF k] obtain b x where x: "map_of gs k = Some (b, x)" "deep_equal u x" by blast
    from gh(3)[OF map_of_SomeD[OF x(1)]] obtain c y where "map_of hs k = Some (c, y)" "deep_equal x y" by blast
    with VObject.IH[OF k x(2)] show ?thesis by blast
  qed
  with fg(1,2) gh(1,2) show ?case unfolding w deep_equal_object by auto
qed auto

text \<open>
  A validator is stable when it treats a deeply equal copy of an input it accepts as it treats the input, up
  to deep equality of what it returns: it may pass values through, drop or reorder keys, but it may not refuse
  a copy of what it has accepted. The copy in question is the one \<open>JSON.parse\<close> makes.
\<close>

definition stable_validator :: "value_schema \<Rightarrow> bool" where
  "stable_validator s \<longleftrightarrow> (\<forall>v w r. deep_equal w v \<longrightarrow> vs_validate s v = Some (Valid r)
     \<longrightarrow> (\<exists>r'. vs_validate s w = Some (Valid r') \<and> deep_equal r' r))"

text \<open>
  C32. What \<open>encodeSchema\<close> returns can be read back. With a codec the decoded value is deeply equal to the one
  encoded, whatever codec and validator the application brings, because the code checks it. A bare schema
  persists a copy deeply equal to the value itself, and the copy decodes to a deeply equal value when the
  validator is stable; pass-through schemas are.
\<close>

theorem encode_decode_roundtrip:
  assumes "encode_schema s v = Inr t" and "vs_codec s = None \<Longrightarrow> stable_validator s"
  shows "(\<exists>w. decode_schema s (Some t) = Inr w \<and> deep_equal w v) \<and> (vs_codec s = None \<longrightarrow> deep_equal t v)"
proof (cases "vs_codec s")
  case None
  with assms(1) obtain w where w: "validate_schema s v = Inr w" "deep_equal w v" "json_text w = Inr t"
    by (auto simp: encode_schema_def res_simps split: if_splits)
  from deep_equal_trans[OF json_text_ok[OF w(3)] w(2)] have t: "deep_equal t v" .
  from w(1) have "vs_validate s v = Some (Valid w)"
    by (simp add: validate_schema_def split: option.splits validation.splits)
  with assms(2)[OF None] t obtain r where "vs_validate s t = Some (Valid r)" "deep_equal r w"
    unfolding stable_validator_def by blast
  with w(2) t show ?thesis by (auto simp: decode_schema_def validate_schema_def intro: deep_equal_trans)
next
  case (Some enc)
  with assms(1) show ?thesis
    by (auto simp: encode_schema_def res_simps split: if_splits)
qed

definition tag_schema :: value_schema where
  "tag_schema = \<lparr>vs_validate = (\<lambda>v. if v = VStr ''x'' then Some (Valid v) else Some (Issues [])), vs_codec = None\<rparr>"

text \<open>The schema that accepts everything as it is, and the codec of bytes as a text.\<close>

definition any_schema :: value_schema where
  "any_schema = \<lparr>vs_validate = (\<lambda>v. Some (Valid v)), vs_codec = None\<rparr>"

definition big_codec :: value_schema where
  "big_codec = \<lparr>vs_validate = (\<lambda>v. case v of VStr s \<Rightarrow> Some (Valid (VBigInt (int (length s)))) | _ \<Rightarrow> Some (Issues [])),
     vs_codec = Some (\<lambda>v. case v of VBigInt i \<Rightarrow> Some (VStr (replicate (nat i) CHR ''1'')) | _ \<Rightarrow> None)\<rparr>"

lemma any_stable: "stable_validator any_schema"
  by (simp add: stable_validator_def any_schema_def)

text \<open>A pass-through schema on an object, and a codec of a value that JSON cannot carry.\<close>

theorem encode_decode_roundtrip_witness:
  "(let v = VObject ObjectProto [(PString ''b'', False, VBool True), (PString ''a'', False, VNull)] in
     \<exists>t w. encode_schema any_schema v = Inr t \<and> decode_schema any_schema (Some t) = Inr w \<and> deep_equal w v)
   \<and> (\<exists>t w. encode_schema big_codec (VBigInt 2) = Inr t \<and> decode_schema big_codec (Some t) = Inr w
        \<and> deep_equal w (VBigInt 2))"
proof -
  let ?v = "VObject ObjectProto [(PString ''b'', False, VBool True), (PString ''a'', False, VNull)]"
  have "\<exists>t. encode_schema any_schema ?v = Inr t"
    by (simp add: encode_schema_def any_schema_def validate_schema_def json_text_def field_throws_def)
  then obtain t where t: "encode_schema any_schema ?v = Inr t" ..
  have "\<exists>u. encode_schema big_codec (VBigInt 2) = Inr u"
    by (simp add: encode_schema_def big_codec_def encode_codec_def decode_schema_def validate_schema_def json_text_def)
  then obtain u where u: "encode_schema big_codec (VBigInt 2) = Inr u" ..
  have "vs_codec big_codec \<noteq> None" by (simp add: big_codec_def)
  with encode_decode_roundtrip[OF t] encode_decode_roundtrip[OF u] t u any_stable show ?thesis
    unfolding Let_def by blast
qed

end
