(* ===== verification/Mq_Chain.thy ===== *)
theory Mq_Chain
  imports Mq_Prelude
begin

text \<open>
  Metadata along a prototype chain. Decorators store metadata on the prototype they decorate; the
  readers (\<open>getJobMetadata\<close>, \<open>processMetadata\<close>, \<open>flowPhaseMetadata\<close>) walk the chain from the object
  to its root, reverse it, and lay the maps over one another from the base to the most derived
  prototype. A chain is the list of prototypes in the order of the walk, nearest first.
\<close>

definition overlay_own :: "('m option \<Rightarrow> 'm \<Rightarrow> 'm) \<Rightarrow> ('k \<times> 'm) list \<Rightarrow> ('k \<times> 'm) list \<Rightarrow> ('k \<times> 'm) list" where
  "overlay_own merge m own = foldl (\<lambda>m (k, v). AList.update k (merge (map_of m k) v) m) m own"

definition overlay :: "('m option \<Rightarrow> 'm \<Rightarrow> 'm) \<Rightarrow> ('p \<Rightarrow> ('k \<times> 'm) list) \<Rightarrow> 'p list \<Rightarrow> ('k \<times> 'm) list" where
  "overlay merge own chain = foldl (\<lambda>m p. overlay_own merge m (own p)) [] (rev chain)"

text \<open>The reader that returns the nearest metadata whole (\<open>scheduleMetadata\<close>).\<close>

fun nearest :: "('p \<Rightarrow> 'm option) \<Rightarrow> 'p list \<Rightarrow> 'm option" where
  "nearest f [] = None"
| "nearest f (p # ps) = (case f p of Some m \<Rightarrow> Some m | None \<Rightarrow> nearest f ps)"

lemma nearest_latest: "nearest f chain = latest f (rev chain)"
  by (induction chain) (auto simp: orelse_opt_def split: option.splits)

lemma overlay_own_map_of:
  "distinct (map fst own) \<Longrightarrow>
   map_of (overlay_own merge m own) k =
     (case map_of own k of None \<Rightarrow> map_of m k | Some v \<Rightarrow> Some (merge (map_of m k) v))"
proof (induction own arbitrary: m)
  case (Cons kv own)
  obtain k' v where kv: "kv = (k', v)" by (cases kv)
  with Cons.prems have "map_of own k' = None" and d: "distinct (map fst own)"
    by (auto simp: map_of_eq_None_iff)
  with Cons.IH[OF d] kv show ?case
    by (auto simp: overlay_own_def map_of_update split: option.splits)
qed (simp add: overlay_own_def)

lemma overlay_own_keys: "fst ` set (overlay_own merge m own) = fst ` set m \<union> fst ` set own"
proof (induction own arbitrary: m)
  case (Cons kv own)
  obtain k v where kv: "kv = (k, v)" by (cases kv)
  have "fst ` set (AList.update k w m) = insert k (fst ` set m)" for w
    using keys_update[of k w m] by simp
  with Cons[of "AList.update k (merge (map_of m k) v) m"] kv show ?case
    by (simp add: overlay_own_def)
qed (simp add: overlay_own_def)

lemma overlay_own_distinct:
  "distinct (map fst m) \<Longrightarrow> distinct (map fst (overlay_own merge m own))"
  by (induction own arbitrary: m) (auto simp: overlay_own_def distinct_update split: prod.splits)

lemma overlay_distinct: "distinct (map fst (overlay merge own chain))"
proof -
  have "distinct (map fst (foldl (\<lambda>m p. overlay_own merge m (own p)) m ps))"
    if "distinct (map fst m)" for m ps
    using that by (induction ps arbitrary: m) (auto simp: overlay_own_distinct)
  then show ?thesis by (simp add: overlay_def)
qed

lemma overlay_keys: "fst ` set (overlay merge own chain) = (\<Union>p\<in>set chain. fst ` set (own p))"
proof -
  have "fst ` set (foldl (\<lambda>m p. overlay_own merge m (own p)) m ps)
      = fst ` set m \<union> (\<Union>p\<in>set ps. fst ` set (own p))" for m ps
    by (induction ps arbitrary: m) (auto simp: overlay_own_keys)
  from this[of "[]" "rev chain"] show ?thesis by (simp add: overlay_def)
qed

text \<open>
  The contract of a merge for one field of the metadata: the new layer's value if it has one, else
  the value already there. A reader whose merge meets it returns, for every key, the field of the
  nearest prototype that declares it.
\<close>

locale chain_merge =
  fixes merge :: "'m option \<Rightarrow> 'm \<Rightarrow> 'm"
    and field :: "'m \<Rightarrow> 'v option"
  assumes merge_first: "field (merge None m) = field m"
    and merge_later: "field (merge (Some a) m) = orelse_opt (field m) (field a)"
begin

lemma overlay_field:
  assumes "\<And>p. p \<in> set chain \<Longrightarrow> distinct (map fst (own p))"
  shows "Option.bind (map_of (overlay merge own chain) k) field
       = latest (\<lambda>p. Option.bind (map_of (own p) k) field) (rev chain)"
proof -
  have "Option.bind (map_of (foldl (\<lambda>m p. overlay_own merge m (own p)) [] ps) k) field
      = latest (\<lambda>p. Option.bind (map_of (own p) k) field) ps"
    if "\<And>p. p \<in> set ps \<Longrightarrow> distinct (map fst (own p))" for ps
    using that
  proof (induction ps rule: rev_induct)
    case (snoc p ps)
    let ?m = "foldl (\<lambda>m p. overlay_own merge m (own p)) [] ps"
    from snoc have IH: "Option.bind (map_of ?m k) field
        = latest (\<lambda>p. Option.bind (map_of (own p) k) field) ps" by simp
    from snoc.prems have "distinct (map fst (own p))" by simp
    then show ?case
      using IH by (cases "map_of (own p) k"; cases "map_of ?m k")
        (auto simp: overlay_own_map_of merge_first merge_later)
  qed simp
  from this[of "rev chain"] assms show ?thesis by (simp add: overlay_def)
qed

lemma overlay_field_nearest:
  assumes "\<And>p. p \<in> set chain \<Longrightarrow> distinct (map fst (own p))"
  shows "Option.bind (map_of (overlay merge own chain) k) field
       = nearest (\<lambda>p. Option.bind (map_of (own p) k) field) chain"
  using overlay_field[OF assms] by (simp add: nearest_latest)

end

text \<open>The merge that replaces the whole entry meets the contract: \<open>merged.set(key, value)\<close>.\<close>

definition replace :: "'m option \<Rightarrow> 'm \<Rightarrow> 'm" where
  "replace old new = new"

interpretation replaced: chain_merge replace Some
  by unfold_locales (simp_all add: replace_def)

end
