(* ===== verification/Mq_Schedule_Options.thy ===== *)
theory Mq_Schedule_Options
  imports Mq_Controls_Options Mq_Schema Mq_Chain
begin

text \<open>
  \<open>src/schedules/decorator.ts\<close> and \<open>src/schedules/types.ts\<close>: the declaration of recurring work and
  the scheduler's configuration. The cron parser, the interval check, the time zone check and the
  identity limit come from the engine package, so they are the parameters of \<open>schedule_env\<close>.
\<close>

record schedule_env =
  parse_cron_ok :: "string \<Rightarrow> bool"
  every_ms_ok :: "jsnum option \<Rightarrow> bool"
  time_zone_ok :: "string \<Rightarrow> bool"
  max_identity_length :: nat

datatype overlap_policy = Overlap_Allow | Overlap_Skip | Overlap_Other

datatype misfire_strategy = Misfire_Skip | Misfire_Run_Once | Misfire_Catch_Up | Misfire_Other

record misfire =
  mf_shape :: shape
  mf_strategy :: misfire_strategy
  mf_max :: "jsnum option"

record schedule_metadata =
  sm_shape :: shape
  sm_entries :: "(string \<times> jsval) list"

record schedule_options =
  so_shape :: shape
  so_key :: string
  so_group :: "string option"
  so_payload :: jsval
  so_cron :: "string option"
  so_every_ms :: "jsnum option"
  so_time_zone :: "string option"
  so_metadata :: "schedule_metadata option"
  so_retry :: "retry_options option"
  so_priority :: "jsnum option"
  so_timeout_ms :: "jsnum option"
  so_misfire :: "misfire option"
  so_overlap :: "overlap_policy option"

definition max_occurrences_per_tick :: int where
  "max_occurrences_per_tick = 256"

abbreviation schedule_error :: exn where
  "schedule_error \<equiv> Mq_Schedule ScheduleDefinition"

definition schedule_fields :: "shape \<Rightarrow> string list \<Rightarrow> unit res" where
  "schedule_fields = check_shape schedule_error"

definition schedule_name :: "schedule_env \<Rightarrow> string \<Rightarrow> string res" where
  "schedule_name env value =
     rbind (require_name value) (\<lambda>_.
     rbind (throw_if (length value > max_identity_length env \<or> nul \<in> set value) schedule_error) (\<lambda>_.
     Inr value))"

definition schedule_option_names :: "string list" where
  "schedule_option_names =
     [''key'', ''group'', ''payload'', ''cron'', ''everyMs'', ''timeZone'', ''metadata'', ''retry'',
      ''priority'', ''timeoutMs'', ''misfire'', ''overlap'']"

text \<open>A missing number where one is required is \<open>undefined\<close>, which is no safe integer.\<close>

definition require_present :: "jsnum option \<Rightarrow> int \<Rightarrow> unit res" where
  "require_present x m = (case x of None \<Rightarrow> Inl Contract_Definition | Some n \<Rightarrow> require_integer n m)"

definition check_misfire :: "misfire \<Rightarrow> unit res" where
  "check_misfire m =
     rbind (schedule_fields (mf_shape m) [''strategy'', ''maxOccurrences'']) (\<lambda>_.
     if mf_strategy m = Misfire_Catch_Up then
       rbind (require_present (mf_max m) 1) (\<lambda>_.
       throw_if (case mf_max m of None \<Rightarrow> False | Some n \<Rightarrow> js_less (jint max_occurrences_per_tick) n)
         (Native_Error 0))
     else
       rbind (schedule_fields (mf_shape m) [''strategy'']) (\<lambda>_.
       throw_if (mf_strategy m \<noteq> Misfire_Skip \<and> mf_strategy m \<noteq> Misfire_Run_Once) (Native_Error 0)))"

definition check_metadata :: "schedule_metadata \<Rightarrow> unit res" where
  "check_metadata m =
     rbind (schedule_fields (sm_shape m) (map fst (sm_entries m))) (\<lambda>_.
     each (\<lambda>(_, v). throw_if (case v of VStr _ \<Rightarrow> False | _ \<Rightarrow> True) (Native_Error 0)) (sm_entries m))"

text \<open>
  The body of the \<open>try\<close> of \<open>copySchedule\<close>; a foreign error is an instance of \<open>Error\<close>, which the
  \<open>catch\<close> turns into a definition error.
\<close>

definition copy_schedule_body :: "schedule_env \<Rightarrow> schedule_options \<Rightarrow> schedule_options res" where
  "copy_schedule_body env o' =
     rbind (schedule_fields (so_shape o') schedule_option_names) (\<lambda>_.
     rbind (schedule_name env (so_key o')) (\<lambda>_.
     rbind (when_some (so_group o') (\<lambda>g. rbind (schedule_name env g) (\<lambda>_. Inr ()))) (\<lambda>_.
     rbind (throw_if ((so_cron o' = None) = (so_every_ms o' = None)) (Native_Error 0)) (\<lambda>_.
     rbind (case so_cron o' of
              Some c \<Rightarrow> throw_if (\<not> parse_cron_ok env c) (Native_Error 0)
            | None \<Rightarrow> throw_if (\<not> every_ms_ok env (so_every_ms o')) (Native_Error 0)) (\<lambda>_.
     rbind (when_some (so_time_zone o') (\<lambda>z. throw_if (\<not> time_zone_ok env z) (Native_Error 0))) (\<lambda>_.
     rbind (when_some (so_priority o') (\<lambda>n. require_integer n 0)) (\<lambda>_.
     rbind (when_some (so_timeout_ms o') (\<lambda>n. require_integer n 1)) (\<lambda>_.
     rbind (throw_if (so_overlap o' = Some Overlap_Other) (Native_Error 0)) (\<lambda>_.
     rbind (when_some (so_misfire o') check_misfire) (\<lambda>_.
     rbind (when_some (so_metadata o') check_metadata) (\<lambda>_.
     rbind (case json_of (so_payload o') of
              Text j \<Rightarrow> if deep_equal j (so_payload o') then Inr j else Inl (Native_Error 0)
            | _ \<Rightarrow> Inl (Native_Error 0)) (\<lambda>payload.
     rbind (case so_retry o' of
              None \<Rightarrow> Inr None
            | Some r \<Rightarrow> rbind (copy_retry r) (\<lambda>c. Inr (Some c))) (\<lambda>retry.
     Inr (o'\<lparr>so_payload := payload, so_retry := retry\<rparr>))))))))))))))"

definition to_schedule_error :: "exn \<Rightarrow> exn" where
  "to_schedule_error e = (case e of Mq_Schedule _ \<Rightarrow> e | _ \<Rightarrow> schedule_error)"

definition copy_schedule :: "schedule_env \<Rightarrow> schedule_options \<Rightarrow> schedule_options res" where
  "copy_schedule env o' = catch_res (copy_schedule_body env o') (\<lambda>cause. Inl (to_schedule_error cause))"

text \<open>Schedule metadata: per prototype, a map from properties to the schedules declared on them.\<close>

type_synonym schedule_store = "nat \<Rightarrow> (string \<times> schedule_options list) list"

definition schedule_decorator :: "schedule_env \<Rightarrow> schedule_options \<Rightarrow> target \<Rightarrow> pkey \<Rightarrow> schedule_store
    \<Rightarrow> schedule_store res" where
  "schedule_decorator env opts t key store =
     rbind (copy_schedule env opts) (\<lambda>copied.
     case key of
       PSymbol _ \<Rightarrow> Inl schedule_error
     | PString property \<Rightarrow>
         if \<not> tg_queue_service t then Inl schedule_error
         else
           let own = store (tg_id t); previous = orelse (map_of own property) [] in
           if list_ex (\<lambda>e. so_key e = so_key copied \<and> so_group e = so_group copied) previous
           then Inl schedule_error
           else Inr (store(tg_id t := AList.update property (previous @ [copied]) own)))"

definition schedule_metadata_of :: "schedule_store \<Rightarrow> nat list \<Rightarrow> string \<Rightarrow> schedule_options list" where
  "schedule_metadata_of store chain property =
     orelse (nearest (\<lambda>p. map_of (store p) property) chain) []"

definition assert_schedule_properties :: "schedule_store \<Rightarrow> nat list \<Rightarrow> string set \<Rightarrow> unit res" where
  "assert_schedule_properties store chain properties =
     each (\<lambda>p. each (\<lambda>(property, _). throw_if (property \<notin> properties) schedule_error) (store p)) chain"

record schedule_config =
  sc_mode :: sync_mode
  sc_group :: string
  sc_sweep_interval_ms :: jsnum
  sc_batch_size :: jsnum
  sc_max_store_retries :: jsnum
  sc_retry_delay_ms :: jsnum

record schedule_config_input =
  si_shape :: shape
  si_mode :: "sync_mode option"
  si_group :: "string option"
  si_sweep_interval_ms :: "jsnum option"
  si_batch_size :: "jsnum option"
  si_max_store_retries :: "jsnum option"
  si_retry_delay_ms :: "jsnum option"

definition schedule_config_of :: "schedule_config_input \<Rightarrow> schedule_config" where
  "schedule_config_of i =
     \<lparr>sc_mode = orelse (si_mode i) Validate,
      sc_group = orelse (si_group i) ''nestjs/schedules'',
      sc_sweep_interval_ms = orelse (si_sweep_interval_ms i) (jint 1000),
      sc_batch_size = orelse (si_batch_size i) (jint 100),
      sc_max_store_retries = orelse (si_max_store_retries i) (jint 3),
      sc_retry_delay_ms = orelse (si_retry_delay_ms i) (jint 25)\<rparr>"

definition resolve_schedule_options :: "schedule_env \<Rightarrow> schedule_config_input \<Rightarrow> schedule_config res" where
  "resolve_schedule_options env i = catch_res
     (rbind (schedule_fields (si_shape i)
        [''mode'', ''group'', ''sweepIntervalMs'', ''batchSize'', ''maxStoreRetries'', ''retryDelayMs'']) (\<lambda>_.
      let r = schedule_config_of i in
      rbind (throw_if (sc_mode r \<noteq> Validate \<and> sc_mode r \<noteq> Reconcile) (Native_Error 0)) (\<lambda>_.
      rbind (schedule_name env (sc_group r)) (\<lambda>_.
      rbind (require_integer (sc_sweep_interval_ms r) 1) (\<lambda>_.
      rbind (require_integer (sc_batch_size r) 1) (\<lambda>_.
      rbind (require_integer (sc_max_store_retries r) 1) (\<lambda>_.
      rbind (require_integer (sc_retry_delay_ms r) 0) (\<lambda>_.
      rbind (throw_if (js_less (jint max_timer) (sc_sweep_interval_ms r)
                \<or> js_less (jint max_timer) (sc_retry_delay_ms r)) (Native_Error 0)) (\<lambda>_.
      Inr r))))))))) (\<lambda>cause. Inl (to_schedule_error cause))"

subsection \<open>What a schedule declaration guarantees\<close>

lemma to_schedule_error_phase: "\<exists>p. to_schedule_error e = Mq_Schedule p"
  by (cases e) (simp_all add: to_schedule_error_def)

lemma copy_schedule_error: "copy_schedule env o' = Inl e \<Longrightarrow> \<exists>p. e = Mq_Schedule p"
  unfolding copy_schedule_def catch_res_Inl_iff
  by (metis Inl_inject to_schedule_error_phase)

definition valid_misfire :: "misfire \<Rightarrow> bool" where
  "valid_misfire m \<longleftrightarrow>
     (case mf_strategy m of
        Misfire_Catch_Up \<Rightarrow> (\<exists>n. mf_max m = Some (jint n) \<and> 1 \<le> n \<and> n \<le> max_occurrences_per_tick)
      | Misfire_Other \<Rightarrow> False | _ \<Rightarrow> True)"

lemma check_misfire_ok: "check_misfire m = Inr u \<Longrightarrow> valid_misfire m"
  unfolding check_misfire_def
  by (elim rbind_InrE; cases "mf_strategy m"; cases "mf_max m")
     (auto simp: valid_misfire_def rbind_Inr_iff throw_if_iff require_present_def checks_ok
        int_at_least_def max_occurrences_per_tick_def)

definition valid_schedule :: "schedule_env \<Rightarrow> schedule_options \<Rightarrow> bool" where
  "valid_schedule env s \<longleftrightarrow>
     valid_name (so_key s) \<and> length (so_key s) \<le> max_identity_length env \<and> nul \<notin> set (so_key s)
     \<and> (so_cron s = None) \<noteq> (so_every_ms s = None)
     \<and> (\<forall>c. so_cron s = Some c \<longrightarrow> parse_cron_ok env c)
     \<and> (so_cron s = None \<longrightarrow> every_ms_ok env (so_every_ms s))
     \<and> (\<forall>z. so_time_zone s = Some z \<longrightarrow> time_zone_ok env z)
     \<and> (\<forall>n. so_priority s = Some n \<longrightarrow> int_at_least 0 n)
     \<and> (\<forall>n. so_timeout_ms s = Some n \<longrightarrow> int_at_least 1 n)
     \<and> (\<forall>m. so_misfire s = Some m \<longrightarrow> valid_misfire m)
     \<and> (\<forall>r. so_retry s = Some r \<longrightarrow> valid_retry r)"

lemma schedule_name_ok:
  "schedule_name env s = Inr t \<longleftrightarrow>
     t = s \<and> valid_name s \<and> length s \<le> max_identity_length env \<and> nul \<notin> set s"
  by (auto simp: schedule_name_def res_simps require_name_eq split: if_splits)

lemma copy_schedule_body_valid:
  "copy_schedule_body env o' = Inr s \<Longrightarrow> valid_schedule env s"
  unfolding copy_schedule_body_def
  by (elim rbind_InrE; cases "so_cron o'"; cases "so_retry o'")
     (auto simp: valid_schedule_def throw_if_iff when_some_ok schedule_name_ok checks_ok
        rbind_Inr_iff intro: check_misfire_ok)

lemma copy_schedule_valid: "copy_schedule env o' = Inr s \<Longrightarrow> valid_schedule env s"
  unfolding copy_schedule_def catch_res_Inr_iff by (auto intro: copy_schedule_body_valid)

definition valid_schedule_config :: "schedule_config \<Rightarrow> bool" where
  "valid_schedule_config r \<longleftrightarrow>
     sc_mode r \<in> {Validate, Reconcile} \<and> valid_name (sc_group r)
     \<and> int_at_least 1 (sc_sweep_interval_ms r) \<and> js_leq (sc_sweep_interval_ms r) (jint max_timer)
     \<and> int_at_least 1 (sc_batch_size r) \<and> int_at_least 1 (sc_max_store_retries r)
     \<and> int_at_least 0 (sc_retry_delay_ms r) \<and> js_leq (sc_retry_delay_ms r) (jint max_timer)"

lemma resolve_schedule_options_valid:
  "resolve_schedule_options env i = Inr r \<Longrightarrow> valid_schedule_config r"
  unfolding resolve_schedule_options_def catch_res_Inr_iff Let_def
  by (elim disjE exE conjE rbind_InrE)
     (auto simp: valid_schedule_config_def throw_if_iff schedule_name_ok checks_ok int_at_least_def)

end
