(* ===== verification/Mq_Contracts.thy ===== *)
theory Mq_Contracts
  imports Mq_Identity Mq_Schedule_Options
begin

text \<open>
  \<open>src/contracts/decorators.ts\<close>, \<open>job-definition.ts\<close> and \<open>queue-definition.ts\<close>: what a decorated
  \<open>QueueService\<close> declares, and how the library reads it. Class and prototype metadata are maps from
  identities to what the decorators stored. A job contract is an object with an identity (the
  \<open>Map\<close>s of the engine are keyed by it) and the schemas and callbacks the application gave.
\<close>

subsection \<open>Decorators\<close>

record queue_options =
  qo_name :: string
  qo_connection :: "string option"
  qo_defaults :: "job_policy option"

record queue_metadata =
  qm_name :: string
  qm_connection :: string
  qm_defaults :: job_policy

record job_options =
  jo_name :: string
  jo_version :: jsnum
  jo_defaults :: "job_policy option"

record job_id_metadata =
  jid_name :: string
  jid_version :: nat
  jid_defaults :: job_policy

record job_metadata =
  jm_job :: "job_id_metadata option"
  jm_retry :: "retry_options option"
  jm_timeout_ms :: "jsnum option"

datatype job_kind = Kind_Job | Kind_Retry | Kind_Timeout

definition empty_policy :: job_policy where
  "empty_policy = \<lparr>jp_retry = None, jp_timeout_ms = None, jp_priority = None, jp_delay_ms = None\<rparr>"

definition no_metadata :: job_metadata where
  "no_metadata = \<lparr>jm_job = None, jm_retry = None, jm_timeout_ms = None\<rparr>"

type_synonym job_store = "nat \<Rightarrow> (string \<times> job_metadata) list"

fun has_kind :: "job_kind \<Rightarrow> job_metadata \<Rightarrow> bool" where
  "has_kind Kind_Job m = (jm_job m \<noteq> None)"
| "has_kind Kind_Retry m = (jm_retry m \<noteq> None)"
| "has_kind Kind_Timeout m = (jm_timeout_ms m \<noteq> None)"

text \<open>\<open>{ ...previous, ...patch }\<close>: the patch's own fields win.\<close>

definition spread_metadata :: "job_metadata option \<Rightarrow> job_metadata \<Rightarrow> job_metadata" where
  "spread_metadata previous patch =
     (case previous of
        None \<Rightarrow> patch
      | Some p \<Rightarrow>
          \<lparr>jm_job = orelse_opt (jm_job patch) (jm_job p),
           jm_retry = orelse_opt (jm_retry patch) (jm_retry p),
           jm_timeout_ms = orelse_opt (jm_timeout_ms patch) (jm_timeout_ms p)\<rparr>)"

definition decorate_property :: "job_kind \<Rightarrow> job_metadata \<Rightarrow> target \<Rightarrow> pkey \<Rightarrow> job_store
    \<Rightarrow> job_store res" where
  "decorate_property kind patch t key store =
     (case key of
        PSymbol _ \<Rightarrow> Inl Contract_Definition
      | PString property \<Rightarrow>
          if \<not> tg_queue_service t then Inl Contract_Definition
          else
            let current = store (tg_id t); previous = map_of current property in
            if (case previous of None \<Rightarrow> False | Some m \<Rightarrow> has_kind kind m)
            then Inl Contract_Definition
            else Inr (store(tg_id t := AList.update property (spread_metadata previous patch) current)))"

definition queue_decorator :: "queue_options \<Rightarrow> target \<Rightarrow> (nat \<rightharpoonup> queue_metadata)
    \<Rightarrow> (nat \<rightharpoonup> queue_metadata) res" where
  "queue_decorator opts t store =
     rbind (require_name (qo_name opts)) (\<lambda>_.
     let connection = orelse (qo_connection opts) ''default'' in
     rbind (require_name connection) (\<lambda>_.
     rbind (copy_job_policy (orelse (qo_defaults opts) empty_policy)) (\<lambda>defaults.
     rbind (throw_if (\<not> tg_queue_service t) Contract_Definition) (\<lambda>_.
     rbind (throw_if (store (tg_id t) \<noteq> None) Contract_Definition) (\<lambda>_.
     Inr (store(tg_id t \<mapsto>
       \<lparr>qm_name = qo_name opts, qm_connection = connection, qm_defaults = defaults\<rparr>)))))))"

definition job_decorator :: "job_options \<Rightarrow> target \<Rightarrow> pkey \<Rightarrow> job_store \<Rightarrow> job_store res" where
  "job_decorator opts t key store =
     rbind (require_name (jo_name opts)) (\<lambda>_.
     rbind (require_integer (jo_version opts) 1) (\<lambda>_.
     rbind (copy_job_policy (orelse (jo_defaults opts) empty_policy)) (\<lambda>defaults.
     decorate_property Kind_Job
       (no_metadata\<lparr>jm_job := Some \<lparr>jid_name = jo_name opts, jid_version = js_nat (jo_version opts),
          jid_defaults = defaults\<rparr>\<rparr>) t key store)))"

definition retry_decorator :: "retry_options \<Rightarrow> target \<Rightarrow> pkey \<Rightarrow> job_store \<Rightarrow> job_store res" where
  "retry_decorator opts t key store =
     rbind (copy_retry opts) (\<lambda>r.
     decorate_property Kind_Retry (no_metadata\<lparr>jm_retry := Some r\<rparr>) t key store)"

definition job_timeout_decorator :: "jsnum \<Rightarrow> target \<Rightarrow> pkey \<Rightarrow> job_store \<Rightarrow> job_store res" where
  "job_timeout_decorator timeout t key store =
     rbind (require_integer timeout 0) (\<lambda>_.
     decorate_property Kind_Timeout (no_metadata\<lparr>jm_timeout_ms := Some timeout\<rparr>) t key store)"

definition get_job_metadata :: "job_store \<Rightarrow> nat list \<Rightarrow> (string \<times> job_metadata) list" where
  "get_job_metadata store chain = overlay spread_metadata store chain"

interpretation job_field: chain_merge spread_metadata jm_job
  by unfold_locales (simp_all add: spread_metadata_def)

interpretation retry_field: chain_merge spread_metadata jm_retry
  by unfold_locales (simp_all add: spread_metadata_def)

interpretation timeout_field: chain_merge spread_metadata jm_timeout_ms
  by unfold_locales (simp_all add: spread_metadata_def)

text \<open>A decorator keeps the keys of every prototype's map distinct, as those of a \<open>Map\<close> are.\<close>

definition wf_job_store :: "job_store \<Rightarrow> bool" where
  "wf_job_store store \<longleftrightarrow> (\<forall>p. distinct (map fst (store p)))"

lemma decorate_property_wf:
  "wf_job_store store \<Longrightarrow> decorate_property k m t key store = Inr store' \<Longrightarrow> wf_job_store store'"
  by (auto simp: decorate_property_def wf_job_store_def Let_def distinct_update
      split: pkey.splits if_splits)

text \<open>
  The metadata of a job property is inherited field by field: the identity, the retry policy
  and the timeout each come from the nearest prototype of the chain that declares that field,
  independently of where the other fields are declared.
\<close>

theorem get_job_metadata_nearest:
  assumes "wf_job_store store"
  shows "Option.bind (map_of (get_job_metadata store chain) property) jm_job
           = nearest (\<lambda>p. Option.bind (map_of (store p) property) jm_job) chain
    \<and> Option.bind (map_of (get_job_metadata store chain) property) jm_retry
           = nearest (\<lambda>p. Option.bind (map_of (store p) property) jm_retry) chain
    \<and> Option.bind (map_of (get_job_metadata store chain) property) jm_timeout_ms
           = nearest (\<lambda>p. Option.bind (map_of (store p) property) jm_timeout_ms) chain"
  using assms
  by (simp_all add: get_job_metadata_def wf_job_store_def job_field.overlay_field_nearest
      retry_field.overlay_field_nearest timeout_field.overlay_field_nearest)

definition sample_store :: job_store where
  "sample_store p =
     (if p = 0 then [(''run'', no_metadata\<lparr>jm_timeout_ms := Some (jint 5)\<rparr>)]
      else if p = 1 then [(''run'', no_metadata\<lparr>jm_timeout_ms := Some (jint 9)\<rparr>)] else [])"

theorem get_job_metadata_nearest_witness:
  "wf_job_store sample_store
   \<and> Option.bind (map_of (get_job_metadata sample_store [0, 1, 2]) ''run'') jm_timeout_ms
     = Some (jint 5)"
proof -
  have wf: "wf_job_store sample_store"
    by (auto simp: wf_job_store_def sample_store_def)
  with get_job_metadata_nearest[OF wf, of "[0, 1, 2]" "''run''"] show ?thesis
    by (simp add: sample_store_def no_metadata_def)
qed

subsection \<open>Job contracts\<close>

record job_contract =
  jc_payload :: value_schema
  jc_result :: value_schema
  jc_failure :: "value_schema option"
  jc_dispatch_key :: "(jsval \<Rightarrow> string option res) option"
  jc_idempotency_key :: "(jsval \<Rightarrow> string res) option"
  jc_retryable :: "(jsval \<Rightarrow> bool res) option"

definition job_definition :: "job_contract \<Rightarrow> job_contract res" where
  "job_definition options' =
     rbind (throw_if (jc_failure options' = None \<and> jc_retryable options' \<noteq> None) Contract_Definition)
       (\<lambda>_. Inr options')"

definition encode_failure :: "job_contract \<Rightarrow> jsval \<Rightarrow> jsval res" where
  "encode_failure c v =
     (case jc_failure c of None \<Rightarrow> Inl Contract_Definition | Some s \<Rightarrow> encode_schema s v)"

definition decode_failure :: "job_contract \<Rightarrow> jsval option \<Rightarrow> jsval res" where
  "decode_failure c text =
     (case jc_failure c of None \<Rightarrow> Inl Contract_Definition | Some s \<Rightarrow> decode_schema s text)"

definition get_idempotency_key :: "job_contract \<Rightarrow> jsval \<Rightarrow> string option res" where
  "get_idempotency_key c payload =
     (case jc_idempotency_key c of
        None \<Rightarrow> Inr None
      | Some f \<Rightarrow> rbind (f payload) (\<lambda>key.
          rbind (throw_if (length key = 0 \<or> trim key \<noteq> key) Contract_Definition) (\<lambda>_.
          Inr (Some key))))"

definition get_dispatch_key :: "job_contract \<Rightarrow> jsval \<Rightarrow> string option res" where
  "get_dispatch_key c payload =
     (case jc_dispatch_key c of
        None \<Rightarrow> Inr None
      | Some f \<Rightarrow> rbind (f payload) (\<lambda>key.
          case key of
            None \<Rightarrow> Inr None
          | Some k \<Rightarrow> rbind (validate_dispatch_key k) (\<lambda>k'. Inr (Some k'))))"

definition can_retry :: "job_contract \<Rightarrow> jsval \<Rightarrow> bool res" where
  "can_retry c failure = (case jc_retryable c of None \<Rightarrow> Inr False | Some f \<Rightarrow> f failure)"

text \<open>The options of a publication; metadata stays an arbitrary value until it is checked.\<close>

record enqueue_options =
  eo_job_id :: "string option"
  eo_idempotency_key :: "string option"
  eo_dispatch_key :: "string option"
  eo_metadata :: "jsval option"
  eo_priority :: "jsnum option"
  eo_timeout_ms :: "jsnum option"
  eo_retry :: "retry_options option"
  eo_delay_ms :: "jsnum option"
  eo_at :: "jsnum option"

definition no_options :: enqueue_options where
  "no_options = \<lparr>eo_job_id = None, eo_idempotency_key = None, eo_dispatch_key = None,
     eo_metadata = None, eo_priority = None, eo_timeout_ms = None, eo_retry = None,
     eo_delay_ms = None, eo_at = None\<rparr>"

definition publication_options :: "job_contract \<Rightarrow> jsval \<Rightarrow> enqueue_options option
    \<Rightarrow> enqueue_options option res" where
  "publication_options c payload options' =
     rbind (get_dispatch_key c payload) (\<lambda>derived.
     let supplied = Option.bind options' eo_dispatch_key in
     rbind (when_some supplied (\<lambda>k. rbind (validate_dispatch_key k) (\<lambda>_. Inr ()))) (\<lambda>_.
     rbind (throw_if (derived \<noteq> None \<and> supplied \<noteq> None \<and> derived \<noteq> supplied) Contract_Definition) (\<lambda>_.
     Inr (case derived of
            None \<Rightarrow> options'
          | Some k \<Rightarrow> Some ((orelse options' no_options)\<lparr>eo_dispatch_key := Some k\<rparr>)))))"

text \<open>
  The publication half of \<open>enqueue\<close> and \<open>prepare\<close>: parse, encode, then the options; the result is
  the pair the client is called with.
\<close>

definition publication :: "job_contract \<Rightarrow> jsval \<Rightarrow> enqueue_options option
    \<Rightarrow> (jsval \<times> enqueue_options option) res" where
  "publication c input options' =
     rbind (validate_schema (jc_payload c) input) (\<lambda>v.
     rbind (encode_schema (jc_payload c) v) (\<lambda>text.
     rbind (publication_options c v options') (\<lambda>opts. Inr (text, opts))))"

definition publications :: "job_contract \<Rightarrow> (jsval \<times> enqueue_options option) list
    \<Rightarrow> (jsval \<times> enqueue_options option) list res" where
  "publications c items = collect (\<lambda>(input, opts). publication c input opts) items"

lemma get_dispatch_key_valid: "get_dispatch_key c p = Inr (Some k) \<Longrightarrow> valid_dispatch_key k"
  by (auto simp: get_dispatch_key_def rbind_Inr_iff validate_dispatch_key_eq
      split: option.splits if_splits)

text \<open>
  The dispatch key of an accepted publication is the one the contract derives from the payload
  whenever it derives one; a caller's key is used only otherwise, and a caller can never replace a
  derived key. Whichever is used is a valid key.
\<close>

theorem publication_dispatch_key:
  assumes "publication_options c payload options' = Inr result"
    and "get_dispatch_key c payload = Inr derived"
  shows "Option.bind result eo_dispatch_key = orelse_opt derived (Option.bind options' eo_dispatch_key)
    \<and> (\<forall>k. Option.bind options' eo_dispatch_key = Some k \<longrightarrow> derived = None \<or> derived = Some k)
    \<and> (\<forall>k. Option.bind result eo_dispatch_key = Some k \<longrightarrow> valid_dispatch_key k)"
proof -
  let ?s = "Option.bind options' eo_dispatch_key"
  from assms have s: "\<forall>k. ?s = Some k \<longrightarrow> valid_dispatch_key k"
    and agree: "\<not> (derived \<noteq> None \<and> ?s \<noteq> None \<and> derived \<noteq> ?s)"
    and r: "result = (case derived of None \<Rightarrow> options'
        | Some k \<Rightarrow> Some ((orelse options' no_options)\<lparr>eo_dispatch_key := Some k\<rparr>))"
    by (auto simp: publication_options_def Let_def rbind_Inr_iff throw_if_iff when_some_ok
        validate_dispatch_key_eq split: if_splits)
  show ?thesis
  proof (cases derived)
    case None
    with s r show ?thesis by simp
  next
    case (Some k)
    with assms(2) have "valid_dispatch_key k" by (simp add: get_dispatch_key_valid)
    with Some agree r show ?thesis by (cases ?s) auto
  qed
qed

definition keyed_contract :: job_contract where
  "keyed_contract = \<lparr>jc_payload = tag_schema, jc_result = tag_schema, jc_failure = None,
     jc_dispatch_key = Some (\<lambda>_. Inr (Some ''tenant'')), jc_idempotency_key = None, jc_retryable = None\<rparr>"

lemma keyed_contract_key: "get_dispatch_key keyed_contract v = Inr (Some ''tenant'')"
  by (simp add: get_dispatch_key_def keyed_contract_def validate_dispatch_key_eq
      valid_dispatch_key_def valid_name_def is_js_space_def nul_def)

theorem publication_dispatch_key_witness:
  "publication_options keyed_contract VNull None
     = Inr (Some (no_options\<lparr>eo_dispatch_key := Some ''tenant''\<rparr>))
   \<and> valid_dispatch_key ''tenant''"
proof -
  have p: "publication_options keyed_contract VNull None
      = Inr (Some (no_options\<lparr>eo_dispatch_key := Some ''tenant''\<rparr>))"
    by (simp add: publication_options_def keyed_contract_key)
  from publication_dispatch_key[OF p keyed_contract_key] p show ?thesis by simp
qed

subsection \<open>Queue definitions\<close>

text \<open>An own property of a queue instance, as its descriptor shows it.\<close>

datatype field = Contract_Field nat job_contract | Other_Field | Accessor_Field

record queue_object =
  ob_id :: nat
  ob_class :: nat
  ob_chain :: "nat list"
  ob_fields :: "(pkey \<times> field) list"

record registered_job =
  rj_property :: string
  rj_identity :: job_identity
  rj_policy :: resolved_policy
  rj_contract_id :: nat
  rj_contract :: job_contract
  rj_controls :: "controls_options option"
  rj_schedules :: "schedule_options list"

record queue_definition =
  qd_name :: string
  qd_connection :: string
  qd_controls :: "controls_options option"
  qd_jobs :: "registered_job list"

record metadata_world =
  mw_queues :: "nat \<rightharpoonup> queue_metadata"
  mw_controls :: "nat \<rightharpoonup> controls_options"
  mw_jobs :: job_store
  mw_schedules :: schedule_store

definition pkey_text :: "pkey \<Rightarrow> string" where
  "pkey_text k = (case k of PString s \<Rightarrow> s | PSymbol n \<Rightarrow> ''Symbol('' @ nat_text n @ '')'')"

definition missing_job :: "(string \<times> job_metadata) list \<Rightarrow> string \<Rightarrow> bool" where
  "missing_job properties name = (Option.bind (map_of properties name) jm_job = None)"

text \<open>One round of the loop over the declared properties.\<close>

definition define_job :: "metadata_world \<Rightarrow> queue_object \<Rightarrow> queue_metadata \<Rightarrow> controls_options option
    \<Rightarrow> job_policy \<Rightarrow> registered_job list \<Rightarrow> string \<times> job_metadata \<Rightarrow> registered_job list res" where
  "define_job w queue metadata controls defaults jobs entry =
     (case entry of (property, declaration) \<Rightarrow>
        case jm_job declaration of
          None \<Rightarrow> Inl Contract_Definition
        | Some job \<Rightarrow>
            (case map_of (ob_fields queue) (PString property) of
               Some (Contract_Field cid contract) \<Rightarrow>
                 let key = job_key (qm_connection metadata) (qm_name metadata) (jid_name job)
                             (jid_version job) in
                 rbind (throw_if (key \<in> set (map (ji_key \<circ> rj_identity) jobs)) Contract_Definition) (\<lambda>_.
                 rbind (resolve_job_policy [defaults, qm_defaults metadata, jid_defaults job,
                    empty_policy\<lparr>jp_retry := jm_retry declaration,
                      jp_timeout_ms := jm_timeout_ms declaration\<rparr>]) (\<lambda>policy.
                 Inr (jobs @ [\<lparr>rj_property = property,
                    rj_identity = \<lparr>ji_connection = qm_connection metadata, ji_queue = qm_name metadata,
                      ji_name = jid_name job, ji_version = jid_version job, ji_key = key\<rparr>,
                    rj_policy = policy, rj_contract_id = cid, rj_contract = contract,
                    rj_controls = controls,
                    rj_schedules = schedule_metadata_of (mw_schedules w) (ob_chain queue) property\<rparr>])))
             | _ \<Rightarrow> Inl Contract_Definition))"

definition get_queue_definition :: "metadata_world \<Rightarrow> queue_object \<Rightarrow> job_policy
    \<Rightarrow> queue_definition res" where
  "get_queue_definition w queue defaults =
     (case mw_queues w (ob_class queue) of
        None \<Rightarrow> Inl Contract_Definition
      | Some metadata \<Rightarrow>
          let controls = queue_controls_metadata (mw_controls w) (ob_class queue);
              properties = get_job_metadata (mw_jobs w) (ob_chain queue) in
          rbind (assert_schedule_properties (mw_schedules w) (ob_chain queue) (fst ` set properties)) (\<lambda>_.
          rbind (each (\<lambda>(key, f). throw_if
              (case f of Contract_Field _ _ \<Rightarrow> missing_job properties (pkey_text key) | _ \<Rightarrow> False)
              Contract_Definition) (ob_fields queue)) (\<lambda>_.
          rbind (loop (define_job w queue metadata controls defaults) [] properties) (\<lambda>jobs.
          rbind (throw_if (jobs = []) Contract_Definition) (\<lambda>_.
          Inr \<lparr>qd_name = qm_name metadata, qd_connection = qm_connection metadata,
               qd_controls = controls, qd_jobs = jobs\<rparr>)))))"

text \<open>What holds of every registered job of a queue definition.\<close>

definition job_of_queue :: "string \<Rightarrow> string \<Rightarrow> registered_job \<Rightarrow> bool" where
  "job_of_queue connection queue j \<longleftrightarrow>
     ji_connection (rj_identity j) = connection \<and> ji_queue (rj_identity j) = queue
     \<and> ji_key (rj_identity j) =
         job_key connection queue (ji_name (rj_identity j)) (ji_version (rj_identity j))
     \<and> valid_resolved (rj_policy j)"

definition job_keys :: "registered_job list \<Rightarrow> string list" where
  "job_keys js = map (ji_key \<circ> rj_identity) js"

lemma define_job_inv:
  assumes "define_job w q m ctl d js e = Inr js'"
    and "distinct (job_keys js) \<and> (\<forall>j\<in>set js. job_of_queue (qm_connection m) (qm_name m) j)"
  shows "distinct (job_keys js') \<and> (\<forall>j\<in>set js'. job_of_queue (qm_connection m) (qm_name m) j)"
  using assms
  by (cases e; cases "jm_job (snd e)"; cases "map_of (ob_fields q) (PString (fst e))")
     (auto simp: define_job_def Let_def rbind_Inr_iff throw_if_iff job_keys_def job_of_queue_def
        dest!: resolve_job_policy_valid split: field.splits)

lemma get_queue_definition_jobs:
  assumes "get_queue_definition w q d = Inr def"
  shows "distinct (job_keys (qd_jobs def))
    \<and> (\<forall>j\<in>set (qd_jobs def). job_of_queue (qd_connection def) (qd_name def) j) \<and> qd_jobs def \<noteq> []"
proof -
  from assms obtain m ctl js where
    l: "loop (define_job w q m ctl d) [] (get_job_metadata (mw_jobs w) (ob_chain q)) = Inr js"
    and ne: "js \<noteq> []"
    and def: "qd_jobs def = js" "qd_connection def = qm_connection m" "qd_name def = qm_name m"
    unfolding get_queue_definition_def
    by (auto simp: Let_def throw_if_iff elim!: rbind_InrE split: option.splits)
  have "distinct (job_keys js) \<and> (\<forall>j\<in>set js. job_of_queue (qm_connection m) (qm_name m) j)"
    by (rule loop_invariant[OF l, where I = "\<lambda>js. distinct (job_keys js)
        \<and> (\<forall>j\<in>set js. job_of_queue (qm_connection m) (qm_name m) j)"])
       (simp add: job_keys_def, erule (1) define_job_inv[rotated])
  with ne def show ?thesis by simp
qed

end
