(* ===== verification/Mq_Registry.thy ===== *)
theory Mq_Registry
  imports Mq_Contracts
begin

text \<open>
  \<open>src/module/mq.registry.ts\<close>: the snapshot of every queue and job of one application context. A
  Nest provider wrapper is a record of what the scan reads of it; \<open>pv_instance\<close> is the instance when
  it is a \<open>QueueService\<close>. The JavaScript \<open>Set\<close>s of the scan are lists of their members.
\<close>

datatype provider_scope = Default_Scope | Request_Scope | Transient_Scope

record provider =
  pv_queue_class :: bool
  pv_instance :: "queue_object option"
  pv_scope :: provider_scope
  pv_static :: bool

record registry =
  rg_queues :: "queue_definition list"
  rg_jobs :: "registered_job list"
  rg_by_identity :: "(string \<times> registered_job) list"
  rg_initialized :: bool

definition new_registry :: registry where
  "new_registry = \<lparr>rg_queues = [], rg_jobs = [], rg_by_identity = [], rg_initialized = False\<rparr>"

text \<open>The local variables of \<open>initialize\<close>.\<close>

record registry_scan =
  sn_queues :: "queue_definition list"
  sn_jobs :: "(string \<times> registered_job) list"
  sn_instances :: "nat list"
  sn_queue_keys :: "string list"

definition new_scan :: registry_scan where
  "new_scan = \<lparr>sn_queues = [], sn_jobs = [], sn_instances = [], sn_queue_keys = []\<rparr>"

definition register_job :: "(string \<times> registered_job) list \<Rightarrow> registered_job
    \<Rightarrow> (string \<times> registered_job) list res" where
  "register_job jobs job =
     rbind (throw_if (map_of jobs (ji_key (rj_identity job)) \<noteq> None) Contract_Definition) (\<lambda>_.
     Inr (AList.update (ji_key (rj_identity job)) job jobs))"

definition register_queue :: "metadata_world \<Rightarrow> job_policy \<Rightarrow> registry_scan \<Rightarrow> queue_object
    \<Rightarrow> registry_scan res" where
  "register_queue w defaults s instance' =
     rbind (get_queue_definition w instance' defaults) (\<lambda>d.
     let key = queue_key (qd_connection d) (qd_name d) in
     rbind (throw_if (key \<in> set (sn_queue_keys s)) Contract_Definition) (\<lambda>_.
     rbind (loop register_job (sn_jobs s) (qd_jobs d)) (\<lambda>jobs.
     Inr \<lparr>sn_queues = sn_queues s @ [d], sn_jobs = jobs,
          sn_instances = ob_id instance' # sn_instances s,
          sn_queue_keys = key # sn_queue_keys s\<rparr>)))"

definition scan_provider :: "metadata_world \<Rightarrow> job_policy \<Rightarrow> registry_scan \<Rightarrow> provider
    \<Rightarrow> registry_scan res" where
  "scan_provider w defaults s p =
     (if \<not> pv_queue_class p \<and> pv_instance p = None then Inr s
      else
        rbind (throw_if (pv_scope p = Request_Scope \<or> pv_scope p = Transient_Scope \<or> \<not> pv_static p)
          Contract_Definition) (\<lambda>_.
        case pv_instance p of
          None \<Rightarrow> Inl Contract_Definition
        | Some instance' \<Rightarrow>
            if ob_id instance' \<in> set (sn_instances s) then Inr s
            else register_queue w defaults s instance'))"

definition registry_initialize :: "metadata_world \<Rightarrow> job_policy \<Rightarrow> provider list \<Rightarrow> registry
    \<Rightarrow> registry res" where
  "registry_initialize w defaults providers r =
     (if rg_initialized r then Inr r
      else rbind (loop (scan_provider w defaults) new_scan providers) (\<lambda>s.
        Inr \<lparr>rg_queues = sn_queues s, rg_jobs = map snd (sn_jobs s), rg_by_identity = sn_jobs s,
             rg_initialized = True\<rparr>))"

definition registry_get :: "registry \<Rightarrow> string \<Rightarrow> registered_job option" where
  "registry_get r key = map_of (rg_by_identity r) key"

definition registry_destroy :: "registry \<Rightarrow> registry" where
  "registry_destroy r = r\<lparr>rg_queues := [], rg_jobs := [], rg_by_identity := []\<rparr>"

subsection \<open>The invariant of the scan\<close>

definition scan_ok :: "registry_scan \<Rightarrow> bool" where
  "scan_ok s \<longleftrightarrow>
     map snd (sn_jobs s) = concat (map qd_jobs (sn_queues s))
     \<and> map fst (sn_jobs s) = job_keys (map snd (sn_jobs s))
     \<and> distinct (job_keys (map snd (sn_jobs s)))
     \<and> rev (sn_queue_keys s) = map (\<lambda>d. queue_key (qd_connection d) (qd_name d)) (sn_queues s)
     \<and> distinct (sn_queue_keys s)
     \<and> (\<forall>d\<in>set (sn_queues s). qd_jobs d \<noteq> []
          \<and> (\<forall>j\<in>set (qd_jobs d). job_of_queue (qd_connection d) (qd_name d) j))"

lemma scan_ok_new: "scan_ok new_scan"
  by (simp add: scan_ok_def new_scan_def job_keys_def)

lemma register_job_ok:
  "register_job jobs j = Inr jobs' \<longleftrightarrow>
     ji_key (rj_identity j) \<notin> fst ` set jobs \<and> jobs' = jobs @ [(ji_key (rj_identity j), j)]"
  by (auto simp: register_job_def rbind_Inr_iff throw_if_iff map_of_eq_None_iff update_new)

lemma register_jobs:
  "loop register_job jobs js = Inr jobs' \<Longrightarrow> distinct (map fst jobs) \<Longrightarrow>
     jobs' = jobs @ map (\<lambda>j. (ji_key (rj_identity j), j)) js \<and> distinct (map fst jobs')"
proof (induction js arbitrary: jobs)
  case (Cons j js)
  let ?k = "ji_key (rj_identity j)"
  from Cons.prems have new: "?k \<notin> fst ` set jobs"
    and rest: "loop register_job (jobs @ [(?k, j)]) js = Inr jobs'"
    unfolding loop.simps by (elim rbind_InrE, simp add: register_job_ok)+
  from new Cons.prems(2) have "distinct (map fst (jobs @ [(?k, j)]))"
    by (simp del: set_map add: set_map[symmetric])
  from Cons.IH[OF rest this]
  have "jobs' = (jobs @ [(?k, j)]) @ map (\<lambda>j. (ji_key (rj_identity j), j)) js"
    and "distinct (map fst jobs')" by blast+
  then show ?case by (intro conjI) simp_all
qed simp

lemma register_queue_ok:
  assumes "register_queue w d s i = Inr s'" and "scan_ok s"
  shows "scan_ok s'"
proof -
  from assms(1) obtain def jobs where
    def: "get_queue_definition w i d = Inr def"
    and new: "queue_key (qd_connection def) (qd_name def) \<notin> set (sn_queue_keys s)"
    and jobs: "loop register_job (sn_jobs s) (qd_jobs def) = Inr jobs"
    and s': "s' = \<lparr>sn_queues = sn_queues s @ [def], sn_jobs = jobs,
          sn_instances = ob_id i # sn_instances s,
          sn_queue_keys = queue_key (qd_connection def) (qd_name def) # sn_queue_keys s\<rparr>"
    by (auto simp: register_queue_def Let_def throw_if_iff elim!: rbind_InrE)
  from assms(2) have "distinct (map fst (sn_jobs s))" unfolding scan_ok_def by metis
  note reg = register_jobs[OF jobs this]
  have eq: "jobs = sn_jobs s @ map (\<lambda>j. (ji_key (rj_identity j), j)) (qd_jobs def)"
    and dist: "distinct (map fst jobs)" by (rule conjunct1[OF reg], rule conjunct2[OF reg])
  from assms(2) have fst: "map fst (sn_jobs s) = job_keys (map snd (sn_jobs s))"
    and snd: "map snd (sn_jobs s) = concat (map qd_jobs (sn_queues s))"
    by (simp_all add: scan_ok_def)
  have keys: "map fst jobs = job_keys (map snd jobs)"
    using fst by (simp add: eq job_keys_def comp_def)
  have "map snd jobs = concat (map qd_jobs (sn_queues s @ [def]))"
    by (simp add: eq snd comp_def)
  with keys dist get_queue_definition_jobs[OF def] new assms(2) show ?thesis
    unfolding scan_ok_def by (simp add: s')
qed

lemma scan_provider_ok:
  assumes "scan_provider w d s p = Inr s'" and "scan_ok s"
  shows "scan_ok s'"
  using assms
  by (auto simp: scan_provider_def throw_if_iff elim!: rbind_InrE
      split: if_splits option.splits intro: register_queue_ok)

text \<open>The invariant of a registry: empty before and after its life, and complete in between.\<close>

definition registry_ok :: "registry \<Rightarrow> bool" where
  "registry_ok r \<longleftrightarrow>
     rg_jobs r = map snd (rg_by_identity r)
     \<and> map fst (rg_by_identity r) = job_keys (rg_jobs r)
     \<and> distinct (job_keys (rg_jobs r))
     \<and> rg_jobs r = concat (map qd_jobs (rg_queues r))
     \<and> distinct (map (\<lambda>d. (qd_connection d, qd_name d)) (rg_queues r))
     \<and> (\<forall>d\<in>set (rg_queues r). qd_jobs d \<noteq> []
          \<and> (\<forall>j\<in>set (qd_jobs d). job_of_queue (qd_connection d) (qd_name d) j))"

lemma registry_ok_new: "registry_ok new_registry"
  by (simp add: registry_ok_def new_registry_def job_keys_def)

lemma registry_ok_destroy: "registry_ok (registry_destroy r)"
  by (simp add: registry_ok_def registry_destroy_def job_keys_def)

lemma scan_queues_distinct:
  assumes "scan_ok s"
  shows "distinct (map (\<lambda>d. (qd_connection d, qd_name d)) (sn_queues s))"
proof -
  from assms have "distinct (map (\<lambda>d. queue_key (qd_connection d) (qd_name d)) (sn_queues s))"
    unfolding scan_ok_def by (metis distinct_rev)
  then show ?thesis by (auto simp: distinct_map inj_on_def)
qed

lemma registry_initialize_ok:
  assumes "registry_initialize w d ps r = Inr r'" and "registry_ok r"
  shows "registry_ok r'"
proof (cases "rg_initialized r")
  case True
  with assms show ?thesis by (simp add: registry_initialize_def)
next
  case False
  with assms(1) obtain s where s: "loop (scan_provider w d) new_scan ps = Inr s"
    and r': "r' = \<lparr>rg_queues = sn_queues s, rg_jobs = map snd (sn_jobs s), rg_by_identity = sn_jobs s,
             rg_initialized = True\<rparr>"
    by (auto simp: registry_initialize_def elim!: rbind_InrE)
  have "scan_ok s"
    by (rule loop_invariant[OF s, where I = scan_ok]) (simp add: scan_ok_new, erule (1) scan_provider_ok[rotated])
  with scan_queues_distinct[OF this] show ?thesis
    unfolding scan_ok_def by (elim conjE) (simp add: r' registry_ok_def)
qed

lemma keyed_list:
  "map fst m = map f (map snd m) \<Longrightarrow> m = map (\<lambda>x. (f x, x)) (map snd m)"
  by (induction m) auto

lemma registry_ok_get:
  assumes "registry_ok r"
  shows "registry_get r key = Some j \<longleftrightarrow> j \<in> set (rg_jobs r) \<and> ji_key (rj_identity j) = key"
proof -
  from assms have k: "map fst (rg_by_identity r) = map (ji_key \<circ> rj_identity) (map snd (rg_by_identity r))"
    and jobs: "rg_jobs r = map snd (rg_by_identity r)"
    and d: "distinct (map fst (rg_by_identity r))"
    unfolding registry_ok_def job_keys_def by (metis, metis, metis)
  have m: "rg_by_identity r = map (\<lambda>j. (ji_key (rj_identity j), j)) (rg_jobs r)"
    using keyed_list[OF k] jobs by simp
  from d have "registry_get r key = Some j \<longleftrightarrow> (key, j) \<in> set (rg_by_identity r)"
    by (simp add: registry_get_def map_of_eq_Some_iff)
  with m show ?thesis by auto
qed

subsection \<open>Properties\<close>

text \<open>
  A registry that has initialised holds every job of every discovered queue under its own key
  and nothing else: looking a key up finds a job exactly when that job was declared by a registered
  queue and has this key, no two queues share connection and name, and no two jobs share a key.
\<close>

theorem registry_initialize_lookup:
  assumes "registry_initialize w defaults providers new_registry = Inr r"
  shows "(registry_get r key = Some j \<longleftrightarrow>
            (\<exists>d\<in>set (rg_queues r). j \<in> set (qd_jobs d)) \<and> ji_key (rj_identity j) = key)
    \<and> distinct (map (\<lambda>d. (qd_connection d, qd_name d)) (rg_queues r))
    \<and> distinct (job_keys (rg_jobs r))"
proof -
  have ok: "registry_ok r" by (rule registry_initialize_ok[OF assms registry_ok_new])
  then have "rg_jobs r = concat (map qd_jobs (rg_queues r))"
    and q: "distinct (map (\<lambda>d. (qd_connection d, qd_name d)) (rg_queues r))"
    and k: "distinct (job_keys (rg_jobs r))"
    unfolding registry_ok_def by metis+
  then have "set (rg_jobs r) = (\<Union>d\<in>set (rg_queues r). set (qd_jobs d))"
    by simp
  with registry_ok_get[OF ok, of key j] q k show ?thesis by simp
qed

lemma registry_job_connection:
  assumes "registry_initialize w defaults providers new_registry = Inr r" and "j \<in> set (rg_jobs r)"
  shows "ji_connection (rj_identity j) \<in> qd_connection ` set (rg_queues r)"
proof -
  have ok: "registry_ok r" by (rule registry_initialize_ok[OF assms(1) registry_ok_new])
  then have "rg_jobs r = concat (map qd_jobs (rg_queues r))" unfolding registry_ok_def by metis
  with assms(2) obtain d where d: "d \<in> set (rg_queues r)" "j \<in> set (qd_jobs d)" by auto
  with ok have "job_of_queue (qd_connection d) (qd_name d) j" unfolding registry_ok_def by metis
  with d(1) show ?thesis by (auto simp: job_of_queue_def)
qed

text \<open>A queue class with one job, as decorators would describe it.\<close>

definition sample_world :: metadata_world where
  "sample_world =
     \<lparr>mw_queues = (\<lambda>c. if c = 7 then Some \<lparr>qm_name = ''mail'', qm_connection = ''default'',
        qm_defaults = empty_policy\<rparr> else None),
      mw_controls = (\<lambda>_. None),
      mw_jobs = (\<lambda>p. if p = 1 then [(''send'', no_metadata\<lparr>jm_job := Some
        \<lparr>jid_name = ''send'', jid_version = 1, jid_defaults = empty_policy\<rparr>\<rparr>)] else []),
      mw_schedules = (\<lambda>_. [])\<rparr>"

definition sample_queue :: queue_object where
  "sample_queue = \<lparr>ob_id = 3, ob_class = 7, ob_chain = [1, 0],
     ob_fields = [(PString ''send'', Contract_Field 5 keyed_contract)]\<rparr>"

definition sample_provider :: provider where
  "sample_provider = \<lparr>pv_queue_class = True, pv_instance = Some sample_queue,
     pv_scope = Default_Scope, pv_static = True\<rparr>"

definition sample_job :: registered_job where
  "sample_job = \<lparr>rj_property = ''send'',
     rj_identity = \<lparr>ji_connection = ''default'', ji_queue = ''mail'', ji_name = ''send'', ji_version = 1,
       ji_key = job_key ''default'' ''mail'' ''send'' 1\<rparr>,
     rj_policy = initial_policy, rj_contract_id = 5, rj_contract = keyed_contract,
     rj_controls = None, rj_schedules = []\<rparr>"

lemma sample_definition:
  "get_queue_definition sample_world sample_queue empty_policy =
     Inr \<lparr>qd_name = ''mail'', qd_connection = ''default'', qd_controls = None, qd_jobs = [sample_job]\<rparr>"
proof -
  have "resolve_job_policy [empty_policy, empty_policy, empty_policy, empty_policy] = Inr initial_policy"
    by (simp add: resolve_valid resolution_def latest_def valid_policy_def empty_policy_def
        initial_policy_def)
  then show ?thesis
    by (simp add: get_queue_definition_def sample_world_def sample_queue_def Let_def
        get_job_metadata_def overlay_def overlay_own_def spread_metadata_def define_job_def
        no_metadata_def empty_policy_def queue_controls_metadata_def
        assert_schedule_properties_def missing_job_def pkey_text_def schedule_metadata_of_def
        sample_job_def)
qed

theorem registry_initialize_lookup_witness:
  "\<exists>r. registry_initialize sample_world empty_policy [sample_provider, sample_provider] new_registry = Inr r
     \<and> registry_get r (job_key ''default'' ''mail'' ''send'' 1) = Some sample_job"
proof -
  have "registry_initialize sample_world empty_policy [sample_provider, sample_provider] new_registry
      = Inr \<lparr>rg_queues = [\<lparr>qd_name = ''mail'', qd_connection = ''default'', qd_controls = None,
          qd_jobs = [sample_job]\<rparr>], rg_jobs = [sample_job],
          rg_by_identity = [(job_key ''default'' ''mail'' ''send'' 1, sample_job)], rg_initialized = True\<rparr>"
    (is "_ = Inr ?r")
    by (simp add: registry_initialize_def new_registry_def scan_provider_def sample_provider_def
        new_scan_def register_queue_def register_job_def sample_definition)
       (simp add: sample_job_def sample_queue_def)
  from this registry_initialize_lookup[OF this, of "job_key ''default'' ''mail'' ''send'' 1" sample_job]
  show ?thesis by (auto simp: sample_job_def)
qed

text \<open>
  Initialising is idempotent, and destroying is final: once initialised a registry ignores
  further calls of \<open>initialize\<close> whatever providers are discovered then, and after
  \<open>onModuleDestroy\<close> no job can be looked up or come back.
\<close>

theorem registry_final:
  "(\<forall>r'. registry_initialize w defaults providers r = Inr r' \<longrightarrow>
       registry_initialize w' defaults' providers' r' = Inr r'
       \<and> registry_initialize w' defaults' providers' (registry_destroy r') = Inr (registry_destroy r')
       \<and> registry_get (registry_destroy r') key = None)"
  by (auto simp: registry_initialize_def registry_destroy_def registry_get_def
      elim!: rbind_InrE split: if_splits)

theorem registry_final_witness:
  "registry_get (registry_destroy (new_registry\<lparr>rg_initialized := True\<rparr>)) ''key'' = None"
  using registry_final[of sample_world empty_policy "[]" "new_registry\<lparr>rg_initialized := True\<rparr>"
      sample_world empty_policy "[]" "''key''"]
  by (simp add: registry_initialize_def)

end
