(* ===== verification/Mq_Retry.thy ===== *)
theory Mq_Retry
  imports Mq_Registry
begin

text \<open>
  \<open>src/engine/retry-reference.ts\<close>, \<open>src/engine/retry-policies.ts\<close>, \<open>src/engine/provider-method.ts\<close>
  and \<open>src/retries/policy.ts\<close>: the reference to a custom retry policy that a publication stores in
  its metadata, the check of that reference before a handler or a transactional publication runs,
  and the providers that decide custom retries. Metadata that reached the store is a list of string
  pairs; what a caller passes is an arbitrary value.
\<close>

subsection \<open>References\<close>

definition retry_reference_key :: string where
  "retry_reference_key = ''__better_nest_mq_retry''"

definition policy_key :: "string \<Rightarrow> nat \<Rightarrow> string" where
  "policy_key policy version = json_tuple [JText policy, JNat version]"

definition backoff_reference :: "retry_backoff option \<Rightarrow> string option" where
  "backoff_reference b =
     (case b of Some (Custom policy version) \<Rightarrow> Some (policy_key policy (js_nat version)) | _ \<Rightarrow> None)"

definition retry_reference :: "registered_job \<Rightarrow> string option" where
  "retry_reference job = backoff_reference (backoff (rp_retry (rj_policy job)))"

definition publication_retry :: "registered_job \<Rightarrow> retry_options option \<Rightarrow> retry_options res" where
  "publication_retry job override' =
     rbind (copy_retry (orelse override' (rp_retry (rj_policy job)))) (\<lambda>retry.
     rbind (throw_if (backoff_reference (backoff retry) \<noteq> retry_reference job) Contract_Definition) (\<lambda>_.
     Inr retry))"

definition is_text :: "jsval \<Rightarrow> bool" where
  "is_text v = (case v of VStr _ \<Rightarrow> True | _ \<Rightarrow> False)"

definition check_metadata_entry :: "pkey \<times> bool \<times> jsval \<Rightarrow> (string \<times> string) res" where
  "check_metadata_entry entry =
     (case entry of
        (PString key, False, VStr s) \<Rightarrow> Inr (key, s)
      | _ \<Rightarrow> Inl Contract_Definition)"

definition publication_metadata :: "registered_job \<Rightarrow> jsval option \<Rightarrow> (string \<times> string) list res" where
  "publication_metadata job metadata =
     (case orelse metadata (VObject ObjectProto []) of
        VObject proto entries \<Rightarrow>
          rbind (throw_if (proto \<noteq> ObjectProto \<and> proto \<noteq> NullProto) Contract_Definition) (\<lambda>_.
          rbind (collect check_metadata_entry entries) (\<lambda>copied.
          rbind (throw_if (retry_reference_key \<in> fst ` set copied) Contract_Definition) (\<lambda>_.
          Inr (case retry_reference job of
                 None \<Rightarrow> copied
               | Some reference \<Rightarrow> AList.update retry_reference_key reference copied))))
      | _ \<Rightarrow> Inl Contract_Definition)"

definition assert_retry_reference :: "registered_job \<Rightarrow> (string \<times> string) list \<Rightarrow> unit res" where
  "assert_retry_reference job metadata =
     throw_if (map_of metadata retry_reference_key \<noteq> retry_reference job) Contract_Definition"

subsection \<open>Retry policy providers\<close>

text \<open>An object as \<open>methodDescriptor\<close> sees it: the own properties of each level of its chain.\<close>

datatype descriptor = Data_Function nat | Data_Other | Accessor_Property

type_synonym object_levels = "(string \<times> descriptor) list list"

definition method_descriptor :: "object_levels \<Rightarrow> string \<Rightarrow> descriptor option" where
  "method_descriptor target name = nearest (\<lambda>own. map_of own name) target"

definition is_method :: "object_levels \<Rightarrow> string \<Rightarrow> bool" where
  "is_method target name =
     (case method_descriptor target name of Some (Data_Function _) \<Rightarrow> True | _ \<Rightarrow> False)"

record policy_name =
  pn_name :: string
  pn_version :: nat

definition retry_policy_decorator :: "string \<Rightarrow> jsnum \<Rightarrow> nat \<Rightarrow> (nat \<rightharpoonup> policy_name)
    \<Rightarrow> (nat \<rightharpoonup> policy_name) res" where
  "retry_policy_decorator name version cls store =
     rbind (require_name name) (\<lambda>_.
     rbind (require_integer version 1) (\<lambda>_.
     rbind (throw_if (nul \<in> set name \<or> length name > 256) Contract_Definition) (\<lambda>_.
     rbind (throw_if (store cls \<noteq> None) Contract_Definition) (\<lambda>_.
     Inr (store(cls \<mapsto> \<lparr>pn_name = name, pn_version = js_nat version\<rparr>))))))"

datatype retry_decision = Decide bool | Decide_Delay bool "jsnum option"

record retry_context =
  rc_attempt :: nat
  rc_attempts_max :: nat
  rc_name :: string
  rc_version :: nat

record retry_instance =
  ri_id :: nat
  ri_levels :: object_levels
  ri_decide :: "jsval \<Rightarrow> retry_context \<Rightarrow> retry_decision res"

text \<open>
  A provider wrapper as the scan sees it: \<open>rw_class\<close> is the class when the wrapper has a metatype
  with a prototype, \<open>rw_instance\<close> what \<open>ModuleRef.get\<close> answers for its token.
\<close>

record retry_wrapper =
  rw_alias :: bool
  rw_class :: "nat option"
  rw_scope :: provider_scope
  rw_static :: bool
  rw_instance :: "retry_instance option res"

record retry_policies =
  rps_providers :: "(string \<times> retry_wrapper) list"
  rps_resolved :: "(string \<times> retry_instance) list"

definition add_retry_provider :: "(nat \<rightharpoonup> policy_name) \<Rightarrow> (string \<times> retry_wrapper) list
    \<Rightarrow> retry_wrapper \<Rightarrow> (string \<times> retry_wrapper) list res" where
  "add_retry_provider store providers wrapper =
     (if rw_alias wrapper then Inr providers
      else case Option.bind (rw_class wrapper) store of
        None \<Rightarrow> Inr providers
      | Some n \<Rightarrow>
          let key = policy_key (pn_name n) (pn_version n) in
          rbind (throw_if (map_of providers key \<noteq> None) Contract_Definition) (\<lambda>_.
          Inr (AList.update key wrapper providers)))"

definition new_retry_policies :: "(nat \<rightharpoonup> policy_name) \<Rightarrow> retry_wrapper list \<Rightarrow> retry_policies res" where
  "new_retry_policies store wrappers =
     rbind (loop (add_retry_provider store) [] wrappers) (\<lambda>providers.
     Inr \<lparr>rps_providers = providers, rps_resolved = []\<rparr>)"

definition require_policy :: "retry_policies \<Rightarrow> registered_job
    \<Rightarrow> (retry_instance option \<times> retry_policies) res" where
  "require_policy s job =
     (case retry_reference job of
        None \<Rightarrow> Inr (None, s)
      | Some key \<Rightarrow>
          (case map_of (rps_resolved s) key of
             Some cached \<Rightarrow> Inr (Some cached, s)
           | None \<Rightarrow>
               (case map_of (rps_providers s) key of
                  None \<Rightarrow> Inl Contract_Definition
                | Some wrapper \<Rightarrow>
                    rbind (throw_if (rw_scope wrapper = Request_Scope \<or> rw_scope wrapper = Transient_Scope
                        \<or> \<not> rw_static wrapper) Contract_Definition) (\<lambda>_.
                    rbind (rw_instance wrapper) (\<lambda>found.
                    case found of
                      None \<Rightarrow> Inl Contract_Definition
                    | Some i \<Rightarrow>
                        rbind (throw_if (\<not> is_method (ri_levels i) ''decide'') Contract_Definition) (\<lambda>_.
                        Inr (Some i, s\<lparr>rps_resolved := AList.update key i (rps_resolved s)\<rparr>)))))))"

text \<open>\<open>compile\<close> gives no policy unless the job's backoff is custom; this is its decision function.\<close>

definition custom_decision :: "retry_policies \<Rightarrow> registered_job \<Rightarrow> jsval \<Rightarrow> nat \<Rightarrow> nat
    \<Rightarrow> (retry_decision \<times> retry_policies) res option" where
  "custom_decision s job failure attempt attempts_max =
     (case backoff (rp_retry (rj_policy job)) of
        Some (Custom policy version) \<Rightarrow> Some (
          rbind (require_policy s job) (\<lambda>(provider, s').
          case provider of
            None \<Rightarrow> Inl Contract_Definition
          | Some i \<Rightarrow>
              rbind (ri_decide i failure \<lparr>rc_attempt = attempt, rc_attempts_max = attempts_max,
                  rc_name = policy, rc_version = js_nat version\<rparr>) (\<lambda>decision.
              Inr (decision, s'))))
      | _ \<Rightarrow> None)"

subsection \<open>Properties\<close>

lemma collect_metadata_keys:
  "collect check_metadata_entry entries = Inr copied \<Longrightarrow>
     entries = map (\<lambda>(k, v). (PString k, False, VStr v)) copied"
proof (induction entries arbitrary: copied)
  case (Cons e es)
  then obtain k s rest where "check_metadata_entry e = Inr (k, s)"
    and "collect check_metadata_entry es = Inr rest" and "copied = (k, s) # rest"
    by (auto elim!: rbind_InrE)
  moreover from this(1) have "e = (PString k, False, VStr s)"
    by (auto simp: check_metadata_entry_def split: prod.splits pkey.splits bool.splits jsval.splits)
  ultimately show ?case using Cons.IH by simp
qed simp

lemma publication_metadata_ok:
  assumes "publication_metadata job metadata = Inr out"
  obtains proto copied where
    "orelse metadata (VObject ObjectProto []) =
       VObject proto (map (\<lambda>(k, v). (PString k, False, VStr v)) copied)"
    "proto \<in> {ObjectProto, NullProto}"
    "retry_reference_key \<notin> fst ` set copied"
    "out = copied @ (case retry_reference job of None \<Rightarrow> [] | Some r \<Rightarrow> [(retry_reference_key, r)])"
proof (cases "orelse metadata (VObject ObjectProto [])")
  case (VObject proto entries)
  with assms obtain copied where p: "proto \<in> {ObjectProto, NullProto}"
    and c: "collect check_metadata_entry entries = Inr copied"
    and n: "retry_reference_key \<notin> fst ` set copied"
    and o': "out = (case retry_reference job of None \<Rightarrow> copied
       | Some reference \<Rightarrow> AList.update retry_reference_key reference copied)"
    unfolding publication_metadata_def
    by (auto simp: throw_if_iff elim!: rbind_InrE)
  from o' n have "out = copied @ (case retry_reference job of None \<Rightarrow> []
      | Some r \<Rightarrow> [(retry_reference_key, r)])"
    by (auto simp: update_new split: option.splits)
  with that p n VObject collect_metadata_keys[OF c] show ?thesis by blast
qed (use assms in \<open>simp_all add: publication_metadata_def\<close>)

lemma metadata_reference:
  assumes "publication_metadata job metadata = Inr out"
  shows "map_of out retry_reference_key = retry_reference job"
proof -
  from assms obtain copied where n: "retry_reference_key \<notin> fst ` set copied"
    and o': "out = copied @ (case retry_reference job of None \<Rightarrow> []
         | Some r \<Rightarrow> [(retry_reference_key, r)])"
    by (rule publication_metadata_ok)
  from n have "map_of copied retry_reference_key = None" by (simp add: map_of_eq_None_iff)
  then show ?thesis by (auto simp: o' map_add_def split: option.splits)
qed

lemma metadata_accepted:
  "publication_metadata job metadata = Inr out \<Longrightarrow> assert_retry_reference job out = Inr ()"
  by (simp add: assert_retry_reference_def metadata_reference)

text \<open>
  C30. The metadata of an accepted publication carries the retry reference of the job that published
  it and nothing else is changed: a job accepts it afterwards exactly when its own reference is the
  same, and every other key reads as the caller wrote it.
\<close>

theorem retry_handshake:
  assumes "publication_metadata job metadata = Inr out"
  shows "(assert_retry_reference job' out = Inr () \<longleftrightarrow> retry_reference job' = retry_reference job)
    \<and> (\<forall>k. k \<noteq> retry_reference_key \<longrightarrow>
         map_of out k = (case orelse metadata (VObject ObjectProto []) of
           VObject _ entries \<Rightarrow> (case map_of entries (PString k) of Some (_, VStr s) \<Rightarrow> Some s | _ \<Rightarrow> None)
         | _ \<Rightarrow> None))"
proof -
  from assms obtain proto copied where
    m: "orelse metadata (VObject ObjectProto []) =
       VObject proto (map (\<lambda>(k, v). (PString k, False, VStr v)) copied)"
    and n: "retry_reference_key \<notin> fst ` set copied"
    and o': "out = copied @ (case retry_reference job of None \<Rightarrow> []
         | Some r \<Rightarrow> [(retry_reference_key, r)])"
    by (rule publication_metadata_ok)
  from n have "map_of copied retry_reference_key = None" by (simp add: map_of_eq_None_iff)
  then have "map_of out retry_reference_key = retry_reference job"
    by (auto simp: o' map_add_def split: option.splits)
  moreover have "map_of (map (\<lambda>(k, v). (PString k, False, VStr v)) copied) (PString k)
      = map_option (\<lambda>v. (False, VStr v)) (map_of copied k)" for k
    by (induction copied) auto
  moreover have "map_of out k = map_of copied k" if "k \<noteq> retry_reference_key" for k
    using that by (auto simp: o' map_add_def split: option.splits)
  ultimately show ?thesis
    by (auto simp: assert_retry_reference_def throw_if_iff m split: option.splits)
qed

definition custom_job :: registered_job where
  "custom_job = sample_job\<lparr>rj_policy := initial_policy\<lparr>rp_retry :=
     \<lparr>attempts = jint 3, backoff = Some (Custom ''slow'' (jint 2))\<rparr>\<rparr>\<rparr>"

theorem retry_handshake_witness:
  "\<exists>out. publication_metadata custom_job (Some (VObject ObjectProto [(PString ''k'', False, VStr ''v'')]))
       = Inr out
     \<and> assert_retry_reference custom_job out = Inr ()
     \<and> assert_retry_reference sample_job out \<noteq> Inr ()"
proof -
  have ref: "retry_reference custom_job \<noteq> retry_reference sample_job"
    by (simp add: retry_reference_def backoff_reference_def custom_job_def sample_job_def
        initial_policy_def)
  have "publication_metadata custom_job (Some (VObject ObjectProto [(PString ''k'', False, VStr ''v'')]))
      = Inr (AList.update retry_reference_key (policy_key ''slow'' 2) [(''k'', ''v'')])"
    by (simp add: publication_metadata_def check_metadata_entry_def retry_reference_key_def
        retry_reference_def backoff_reference_def custom_job_def max_safe_def)
  from this retry_handshake[OF this, of custom_job] retry_handshake[OF this, of sample_job] ref
  show ?thesis by metis
qed

text \<open>
  A per-message override can tune the retries of a job but never replace or remove its custom
  policy: the accepted retry options are valid, are the ones asked for (the job's own without an
  override), and refer to the policy and version the job declares, or to none if it declares none.
\<close>

theorem publication_retry_spec:
  "publication_retry job override' =
     (let retry = orelse override' (rp_retry (rj_policy job)) in
      if valid_retry retry \<and> backoff_reference (backoff retry) = retry_reference job
      then Inr retry else Inl Contract_Definition)"
  by (simp add: publication_retry_def copy_retry_eq Let_def throw_if_def)

lemma policy_key_inject [simp, js_simps]:
  "policy_key p v = policy_key p' v' \<longleftrightarrow> p = p' \<and> v = v'"
  by (simp add: policy_key_def)

lemma add_retry_provider_inv:
  assumes "add_retry_provider store providers w = Inr providers'"
    and "\<forall>(k, w')\<in>set providers. \<exists>n. Option.bind (rw_class w') store = Some n
           \<and> k = policy_key (pn_name n) (pn_version n)"
  shows "\<forall>(k, w')\<in>set providers'. \<exists>n. Option.bind (rw_class w') store = Some n
           \<and> k = policy_key (pn_name n) (pn_version n)"
  using assms
  by (auto simp: add_retry_provider_def Let_def throw_if_iff update_new map_of_eq_None_iff
      elim!: rbind_InrE split: if_splits option.splits)

lemma new_retry_policies_keys:
  assumes "new_retry_policies store wrappers = Inr s" and "map_of (rps_providers s) k = Some w"
  shows "\<exists>n. Option.bind (rw_class w) store = Some n \<and> k = policy_key (pn_name n) (pn_version n)"
proof -
  from assms(1) have l: "loop (add_retry_provider store) [] wrappers = Inr (rps_providers s)"
    by (auto simp: new_retry_policies_def elim!: rbind_InrE)
  have "\<forall>(k, w')\<in>set (rps_providers s). \<exists>n. Option.bind (rw_class w') store = Some n
           \<and> k = policy_key (pn_name n) (pn_version n)"
    by (rule loop_invariant[OF l, where I = "\<lambda>ps. \<forall>(k, w')\<in>set ps. \<exists>n.
          Option.bind (rw_class w') store = Some n \<and> k = policy_key (pn_name n) (pn_version n)"])
       (simp, erule (1) add_retry_provider_inv[rotated])
  with map_of_SomeD[OF assms(2)] show ?thesis by auto
qed

text \<open>The cache holds only instances that passed the checks of the provider of the same key.\<close>

definition policies_ok :: "retry_policies \<Rightarrow> bool" where
  "policies_ok s \<longleftrightarrow> (\<forall>k i. map_of (rps_resolved s) k = Some i \<longrightarrow>
     (\<exists>w. map_of (rps_providers s) k = Some w \<and> rw_instance w = Inr (Some i)
        \<and> rw_scope w = Default_Scope \<and> rw_static w \<and> is_method (ri_levels i) ''decide''))"

lemma new_retry_policies_ok: "new_retry_policies store wrappers = Inr s \<Longrightarrow> policies_ok s"
  by (auto simp: new_retry_policies_def policies_ok_def elim!: rbind_InrE)

lemma require_policy_cases:
  assumes "require_policy s job = Inr (found, s')"
  shows "(retry_reference job = None \<and> found = None \<and> s' = s)
    \<or> (\<exists>k i. retry_reference job = Some k \<and> found = Some i \<and> map_of (rps_resolved s) k = Some i \<and> s' = s)
    \<or> (\<exists>k i w. retry_reference job = Some k \<and> found = Some i
         \<and> map_of (rps_providers s) k = Some w \<and> rw_instance w = Inr (Some i)
         \<and> rw_scope w = Default_Scope \<and> rw_static w \<and> is_method (ri_levels i) ''decide''
         \<and> s' = s\<lparr>rps_resolved := AList.update k i (rps_resolved s)\<rparr>)"
proof -
  have scope: "sc = Default_Scope" if "\<not> (sc = Request_Scope \<or> sc = Transient_Scope \<or> x)" for sc x
    using that by (cases sc) simp_all
  show ?thesis
    using assms unfolding require_policy_def
    by (auto simp: throw_if_iff dest: scope elim!: rbind_InrE split: option.splits
        intro: provider_scope.exhaust)
qed

text \<open>
  A custom retry decision is always taken by the singleton provider decorated with the policy
  name and version of the job, whether it is resolved now or comes from the cache, and resolving
  keeps the cache consistent.
\<close>

theorem require_policy_provider:
  assumes "require_policy s job = Inr (found, s')" and "policies_ok s"
  shows "policies_ok s' \<and> rps_providers s' = rps_providers s
    \<and> (case retry_reference job of
         None \<Rightarrow> found = None
       | Some k \<Rightarrow> \<exists>w i. map_of (rps_providers s) k = Some w \<and> found = Some i
           \<and> rw_instance w = Inr (Some i) \<and> rw_scope w = Default_Scope \<and> rw_static w
           \<and> is_method (ri_levels i) ''decide''
           \<and> map_of (rps_resolved s') k = Some i)"
  using require_policy_cases[OF assms(1)] assms(2)
  by (fastforce simp: policies_ok_def map_of_update)

definition slow_instance :: retry_instance where
  "slow_instance = \<lparr>ri_id = 0, ri_levels = [[], [(''decide'', Data_Function 1)]],
     ri_decide = (\<lambda>_ c. Inr (Decide (rc_attempt c < rc_attempts_max c)))\<rparr>"

definition slow_wrapper :: retry_wrapper where
  "slow_wrapper = \<lparr>rw_alias = False, rw_class = Some 4, rw_scope = Default_Scope, rw_static = True,
     rw_instance = Inr (Some slow_instance)\<rparr>"

theorem require_policy_provider_witness:
  "\<exists>s s'. new_retry_policies [4 \<mapsto> \<lparr>pn_name = ''slow'', pn_version = 2\<rparr>] [slow_wrapper] = Inr s
     \<and> require_policy s custom_job = Inr (Some slow_instance, s') \<and> policies_ok s'"
proof -
  let ?s = "\<lparr>rps_providers = [(policy_key ''slow'' 2, slow_wrapper)], rps_resolved = []\<rparr>"
  let ?s' = "?s\<lparr>rps_resolved := [(policy_key ''slow'' 2, slow_instance)]\<rparr>"
  have n: "new_retry_policies [4 \<mapsto> \<lparr>pn_name = ''slow'', pn_version = 2\<rparr>] [slow_wrapper] = Inr ?s"
    by (simp add: new_retry_policies_def add_retry_provider_def slow_wrapper_def)
  have r: "require_policy ?s custom_job = Inr (Some slow_instance, ?s')"
    by (simp add: require_policy_def retry_reference_def backoff_reference_def custom_job_def
        max_safe_def slow_wrapper_def slow_instance_def is_method_def method_descriptor_def)
  from require_policy_provider[OF r new_retry_policies_ok[OF n]] n r show ?thesis by blast
qed

end
