(* ===== verification/Mq_Outbox.thy ===== *)
theory Mq_Outbox
  imports Mq_Retry
begin

text \<open>
  The transactional outbox: \<open>src/outbox/options.ts\<close>, \<open>src/outbox/retry-options.ts\<close>,
  \<open>src/engine/outbox-record.ts\<close>, \<open>src/engine/outbox-retry.ts\<close>, \<open>src/engine/outbox-coordinator.ts\<close>
  and \<open>src/integrations/postgres-outbox-retry.ts\<close>. The package \<open>better-effect-mq-outbox\<close>, the
  validation of prepared requests and the hash are parameters (\<open>outbox_env\<close>). The PostgreSQL table
  is a map from namespace and id to the record of a row.
\<close>

subsection \<open>Publisher options\<close>

record outbox_options =
  oo_concurrency :: "jsnum option"
  oo_lease_ms :: "jsnum option"
  oo_heartbeat_ms :: "jsnum option"
  oo_poll_ms :: "jsnum option"
  oo_retry_base_ms :: "jsnum option"
  oo_retry_max_ms :: "jsnum option"

record outbox_config =
  oc_concurrency :: jsnum
  oc_lease_ms :: jsnum
  oc_heartbeat_ms :: jsnum
  oc_poll_ms :: jsnum
  oc_retry_base_ms :: jsnum
  oc_retry_max_ms :: jsnum

definition outbox_config_of :: "outbox_options \<Rightarrow> outbox_config" where
  "outbox_config_of opts =
     (let lease = orelse (oo_lease_ms opts) (jint 30000) in
      \<lparr>oc_concurrency = orelse (oo_concurrency opts) (jint 1),
       oc_lease_ms = lease,
       oc_heartbeat_ms = orelse (oo_heartbeat_ms opts) (js_max (jint 1) (js_floor (js_div lease 3))),
       oc_poll_ms = orelse (oo_poll_ms opts) (jint 100),
       oc_retry_base_ms = orelse (oo_retry_base_ms opts) (jint 1000),
       oc_retry_max_ms = orelse (oo_retry_max_ms opts) (jint 60000)\<rparr>)"

definition config_values :: "outbox_config \<Rightarrow> jsnum list" where
  "config_values r = [oc_concurrency r, oc_lease_ms r, oc_heartbeat_ms r, oc_poll_ms r,
     oc_retry_base_ms r, oc_retry_max_ms r]"

definition resolve_outbox_options :: "outbox_options \<Rightarrow> outbox_config res" where
  "resolve_outbox_options opts =
     (let r = outbox_config_of opts; err = Mq_Outbox OutboxConfiguration in
      rbind (each (\<lambda>v. throw_if (\<not> is_safe_integer v \<or> js_less v (jint 1) \<or> js_less (jint max_timer) v) err)
        (config_values r)) (\<lambda>_.
      rbind (throw_if (js_leq (oc_lease_ms r) (oc_heartbeat_ms r)) err) (\<lambda>_.
      rbind (throw_if (js_less (oc_retry_max_ms r) (oc_retry_base_ms r)) err) (\<lambda>_.
      Inr r))))"

definition timer_int :: "int \<Rightarrow> bool" where
  "timer_int i \<longleftrightarrow> 1 \<le> i \<and> i \<le> max_timer"

lemma timer_check:
  "\<not> (\<not> is_safe_integer v \<or> js_less v (jint 1) \<or> js_less (jint max_timer) v)
     \<longleftrightarrow> (\<exists>i. v = jint i \<and> timer_int i)"
proof (cases "is_safe_integer v")
  case True
  then obtain i where "v = jint i" by (rule is_safe_integerE)
  with True show ?thesis by (auto simp: timer_int_def)
next
  case False
  then have "v \<noteq> jint i" if "timer_int i" for i
    using that by (auto simp: timer_int_def max_timer_def max_safe_def)
  with False show ?thesis by auto
qed

text \<open>
  An accepted outbox configuration always has a lease that outlives its heartbeat and a maximum
  delay that is at least the base delay, with every value a positive timer delay; without an explicit
  heartbeat the default is a third of the lease, and a lease of one millisecond is refused.
\<close>

theorem resolve_outbox_options_bounds:
  assumes "resolve_outbox_options opts = Inr r"
  shows "\<exists>c l h p b m. r = \<lparr>oc_concurrency = jint c, oc_lease_ms = jint l, oc_heartbeat_ms = jint h,
            oc_poll_ms = jint p, oc_retry_base_ms = jint b, oc_retry_max_ms = jint m\<rparr>
      \<and> list_all timer_int [c, l, h, p, b, m] \<and> h < l \<and> b \<le> m
      \<and> (oo_heartbeat_ms opts = None \<longrightarrow> h = max 1 (l div 3) \<and> 2 \<le> l)"
proof -
  from assms have r: "r = outbox_config_of opts"
    and all: "\<forall>v\<in>set (config_values r). \<exists>i. v = jint i \<and> timer_int i"
    and hb: "\<not> js_leq (oc_lease_ms r) (oc_heartbeat_ms r)"
    and mx: "\<not> js_less (oc_retry_max_ms r) (oc_retry_base_ms r)"
    by (auto simp: resolve_outbox_options_def Let_def throw_if_iff each_ok simp flip: timer_check
        elim!: rbind_InrE)
  from all obtain c l h p b m where
    v: "oc_concurrency r = jint c" "oc_lease_ms r = jint l" "oc_heartbeat_ms r = jint h"
       "oc_poll_ms r = jint p" "oc_retry_base_ms r = jint b" "oc_retry_max_ms r = jint m"
    and t: "list_all timer_int [c, l, h, p, b, m]"
    by (auto simp: config_values_def)
  from hb mx v have less: "h < l" and le: "b \<le> m" by simp_all
  have "h = max 1 (l div 3)" if "oo_heartbeat_ms opts = None"
    using v(2,3) that by (simp add: r outbox_config_of_def Let_def)
  moreover have "2 \<le> l" using less t by (simp add: timer_int_def)
  moreover have "r = \<lparr>oc_concurrency = jint c, oc_lease_ms = jint l, oc_heartbeat_ms = jint h,
      oc_poll_ms = jint p, oc_retry_base_ms = jint b, oc_retry_max_ms = jint m\<rparr>"
    using v by (cases r) simp
  ultimately show ?thesis
    using t less le
    by - (rule exI[of _ c], rule exI[of _ l], rule exI[of _ h], rule exI[of _ p], rule exI[of _ b],
          rule exI[of _ m], simp)
qed

theorem resolve_outbox_options_bounds_witness:
  "\<exists>r. resolve_outbox_options \<lparr>oo_concurrency = None, oo_lease_ms = Some (jint 9000),
        oo_heartbeat_ms = None, oo_poll_ms = None, oo_retry_base_ms = None, oo_retry_max_ms = None\<rparr> = Inr r
     \<and> oc_heartbeat_ms r = jint 3000"
proof -
  let ?o = "\<lparr>oo_concurrency = None, oo_lease_ms = Some (jint 9000),
        oo_heartbeat_ms = None, oo_poll_ms = None, oo_retry_base_ms = None, oo_retry_max_ms = None\<rparr>"
  have "resolve_outbox_options ?o = Inr (outbox_config_of ?o)"
    by (simp add: resolve_outbox_options_def config_values_def outbox_config_of_def Let_def
        max_timer_def max_safe_def)
  from this resolve_outbox_options_bounds[OF this] show ?thesis
    by (simp add: outbox_config_of_def Let_def)
qed

subsection \<open>Records\<close>

record prepared_request =
  pr_id :: "string option"
  pr_queue :: string
  pr_name :: string
  pr_version :: nat
  pr_payload :: jsval
  pr_metadata :: "(string \<times> string) list"
  pr_dispatch_key :: "string option"
  pr_policy :: jsval

datatype outbox_state = Outbox_Pending | Outbox_Active | Outbox_Published | Outbox_Failed

record outbox_lease =
  ol_owner :: string
  ol_token :: string
  ol_expires :: int

record outbox_record =
  or_id :: string
  or_target :: string
  or_state :: outbox_state
  or_request :: prepared_request
  or_digest :: string
  or_attempts_max :: int
  or_attempts_made :: int
  or_run_at :: int
  or_created_at :: int
  or_updated_at :: int
  or_published_at :: "int option"
  or_failure :: "jsval option"
  or_lease :: "outbox_lease option"

record outbox_entry =
  oe_id :: string
  oe_connection :: string
  oe_request :: prepared_request
  oe_attempts :: "jsnum option"
  oe_run_at :: "jsnum option"

record outbox_input =
  oi_id :: string
  oi_target :: string
  oi_request :: prepared_request
  oi_attempts_max :: jsnum
  oi_now :: jsnum
  oi_run_at :: "jsnum option"

text \<open>
  The packages: \<open>makeOutboxId\<close>, SHA-256 as text, \<open>validatePreparedEnqueue\<close>, \<open>makeOutboxRecord\<close> and
  \<open>validateOutboxRecord\<close>; \<open>None\<close> is their \<open>Result\<close> error.
\<close>

record outbox_env =
  make_outbox_id :: "string \<Rightarrow> string option"
  sha256 :: "string \<Rightarrow> string"
  validate_prepared :: "prepared_request \<Rightarrow> prepared_request option"
  make_outbox_record :: "outbox_input \<Rightarrow> outbox_record option"
  validate_outbox_record :: "outbox_record \<Rightarrow> outbox_record option"

definition stable_job_id :: "outbox_env \<Rightarrow> string \<Rightarrow> string \<Rightarrow> string \<Rightarrow> string" where
  "stable_job_id env source entry_id connection =
     ''outbox-'' @ sha256 env (json_tuple [JText source, JText entry_id, JText connection])"

definition destination :: "registered_job list \<Rightarrow> string \<Rightarrow> prepared_request \<Rightarrow> registered_job option" where
  "destination jobs connection request =
     find (\<lambda>job. ji_connection (rj_identity job) = connection
        \<and> ji_queue (rj_identity job) = pr_queue request
        \<and> ji_name (rj_identity job) = pr_name request
        \<and> ji_version (rj_identity job) = pr_version request) jobs"

definition check_destination :: "registered_job \<Rightarrow> prepared_request \<Rightarrow> unit res" where
  "check_destination job request =
     rbind (catch_res (assert_retry_reference job (pr_metadata request))
       (\<lambda>_. Inl (Mq_Outbox OutboxPrepare))) (\<lambda>_.
     rbind (validate_schema (jc_payload (rj_contract job)) (pr_payload request)) (\<lambda>payload.
     rbind (encode_schema (jc_payload (rj_contract job)) payload) (\<lambda>encoded.
     rbind (throw_if (\<not> deep_equal encoded (pr_payload request)) (Mq_Outbox OutboxPrepare)) (\<lambda>_.
     rbind (get_dispatch_key (rj_contract job) payload) (\<lambda>derived.
     rbind (when_some (pr_dispatch_key request)
       (\<lambda>k. rbind (validate_dispatch_key k) (\<lambda>_. Inr ()))) (\<lambda>_.
     rbind (throw_if (derived \<noteq> None \<and> derived \<noteq> pr_dispatch_key request) (Mq_Outbox OutboxPrepare)) (\<lambda>_.
     throw_if (Option.bind (rj_controls job) co_per_key \<noteq> None \<and> pr_dispatch_key request = None)
       (Mq_Outbox OutboxPrepare))))))))"

definition compile_outbox_record :: "outbox_env \<Rightarrow> string \<Rightarrow> registered_job list \<Rightarrow> jsnum \<Rightarrow> outbox_entry
    \<Rightarrow> outbox_record res" where
  "compile_outbox_record env source jobs now entry =
     (let err = Mq_Outbox OutboxPrepare in
      rbind (need (make_outbox_id env (oe_id entry)) err) (\<lambda>id'.
      let stable = stable_job_id env source (oe_id entry) (oe_connection entry) in
      rbind (need (validate_prepared env ((oe_request entry)\<lparr>pr_id := Some
        (orelse (pr_id (oe_request entry)) stable)\<rparr>)) err) (\<lambda>request.
      rbind (need (destination jobs (oe_connection entry) request) err) (\<lambda>job.
      rbind (check_destination job request) (\<lambda>_.
      need (make_outbox_record env
        \<lparr>oi_id = id', oi_target = oe_connection entry, oi_request = request,
         oi_attempts_max = orelse (oe_attempts entry) (jint 10), oi_now = now,
         oi_run_at = oe_run_at entry\<rparr>) err)))))"

definition request_equal :: "prepared_request \<Rightarrow> prepared_request \<Rightarrow> bool" where
  "request_equal a b \<longleftrightarrow>
     pr_id a = pr_id b \<and> pr_queue a = pr_queue b \<and> pr_name a = pr_name b
     \<and> pr_version a = pr_version b \<and> deep_equal (pr_payload a) (pr_payload b)
     \<and> same_entries (pr_metadata a) (pr_metadata b)
     \<and> pr_dispatch_key a = pr_dispatch_key b \<and> deep_equal (pr_policy a) (pr_policy b)"

definition assert_same_outbox_content :: "outbox_record \<Rightarrow> outbox_record \<Rightarrow> unit res" where
  "assert_same_outbox_content existing incoming =
     throw_if (or_target existing \<noteq> or_target incoming
       \<or> or_attempts_max existing \<noteq> or_attempts_max incoming
       \<or> \<not> request_equal (or_request existing) (or_request incoming)) (Mq_Outbox OutboxConflict)"

text \<open>The read model: everything but the lease and the digest.\<close>

record outbox_snapshot =
  os_source :: string
  os_id :: string
  os_target :: string
  os_state :: outbox_state
  os_request :: prepared_request
  os_attempts_max :: int
  os_attempts_made :: int
  os_run_at :: int
  os_created_at :: int
  os_updated_at :: int
  os_published_at :: "int option"
  os_failure :: "jsval option"

definition outbox_snapshot_of :: "string \<Rightarrow> outbox_record \<Rightarrow> outbox_snapshot" where
  "outbox_snapshot_of source r =
     \<lparr>os_source = source, os_id = or_id r, os_target = or_target r, os_state = or_state r,
      os_request = or_request r, os_attempts_max = or_attempts_max r,
      os_attempts_made = or_attempts_made r, os_run_at = or_run_at r,
      os_created_at = or_created_at r, os_updated_at = or_updated_at r,
      os_published_at = or_published_at r, os_failure = or_failure r\<rparr>"

end
