(* ===== verification/Mq_Outbox_Retry.thy ===== *)
theory Mq_Outbox_Retry
  imports Mq_Outbox
begin

text \<open>
  Administrative retry of failed publications: \<open>src/outbox/retry-options.ts\<close>,
  \<open>retryOutboxRecord\<close> of \<open>src/engine/outbox-retry.ts\<close>, the conditional update of
  \<open>src/integrations/postgres-outbox-retry.ts\<close> and the reads and \<open>retryFailed\<close> of
  \<open>src/engine/outbox-coordinator.ts\<close>. The table of a source is a map from namespace and id to rows.
\<close>

subsection \<open>Options\<close>

record retry_expected =
  re_shape :: shape
  re_updated_at :: jsnum
  re_attempts_made :: jsnum
  re_attempts_max :: jsnum

record outbox_retry_options =
  ro_shape :: shape
  ro_expected :: "retry_expected option"
  ro_attempts :: jsnum
  ro_run_at :: "jsnum option"

definition retry_integer :: "jsnum \<Rightarrow> int \<Rightarrow> unit res" where
  "retry_integer value minimum =
     throw_if (\<not> is_safe_integer value \<or> js_less value (jint minimum)) (Mq_Outbox OutboxRetry)"

lemma retry_integer_eq [js_simps]:
  "retry_integer x m = (if int_at_least m x then Inr () else Inl (Mq_Outbox OutboxRetry))"
proof (cases "is_safe_integer x")
  case True
  then obtain i where "x = jint i" "\<bar>i\<bar> \<le> max_safe" by (rule is_safe_integerE)
  then show ?thesis by (auto simp: retry_integer_def throw_if_def)
next
  case False
  then have "\<not> int_at_least m x" by (auto simp: int_at_least_def)
  with False show ?thesis by (simp add: retry_integer_def)
qed

text \<open>The guard as the checks leave it: three integers, the attempts granted, the eligibility.\<close>

record retry_guard =
  rg_updated_at :: int
  rg_attempts_made :: int
  rg_attempts_max :: int
  rg_attempts :: int
  rg_run_at :: "int option"

definition js_int :: "jsnum \<Rightarrow> int" where
  "js_int x = (case safe_int x of Some i \<Rightarrow> i | None \<Rightarrow> 0)"

definition guard_of :: "outbox_retry_options \<Rightarrow> retry_expected \<Rightarrow> retry_guard" where
  "guard_of opts e =
     \<lparr>rg_updated_at = js_int (re_updated_at e), rg_attempts_made = js_int (re_attempts_made e),
      rg_attempts_max = js_int (re_attempts_max e), rg_attempts = js_int (ro_attempts opts),
      rg_run_at = map_option js_int (ro_run_at opts)\<rparr>"

definition copy_outbox_retry_options :: "outbox_retry_options option \<Rightarrow> retry_guard res" where
  "copy_outbox_retry_options input =
     (let err = Mq_Outbox OutboxRetry in
      rbind (need input err) (\<lambda>opts.
      rbind (check_shape err (ro_shape opts) [''expected'', ''attempts'', ''runAtMs'']) (\<lambda>_.
      rbind (need (ro_expected opts) err) (\<lambda>e.
      rbind (check_shape err (re_shape e) [''updatedAtMs'', ''attemptsMade'', ''attemptsMax'']) (\<lambda>_.
      rbind (retry_integer (ro_attempts opts) 1) (\<lambda>_.
      rbind (retry_integer (re_updated_at e) 0) (\<lambda>_.
      rbind (retry_integer (re_attempts_made e) 0) (\<lambda>_.
      rbind (retry_integer (re_attempts_max e) 1) (\<lambda>_.
      rbind (throw_if (js_less (re_attempts_max e) (re_attempts_made e)) err) (\<lambda>_.
      rbind (when_some (ro_run_at opts) (\<lambda>n. retry_integer n 0)) (\<lambda>_.
      Inr (guard_of opts e))))))))))))"

definition guard_ok :: "retry_guard \<Rightarrow> bool" where
  "guard_ok g \<longleftrightarrow> 1 \<le> rg_attempts g \<and> rg_attempts g \<le> max_safe \<and> 0 \<le> rg_updated_at g
     \<and> 0 \<le> rg_attempts_made g \<and> 1 \<le> rg_attempts_max g \<and> rg_attempts_made g \<le> rg_attempts_max g
     \<and> (\<forall>n. rg_run_at g = Some n \<longrightarrow> 0 \<le> n)"

lemma js_int_jint: "int_at_least m x \<Longrightarrow> x = jint (js_int x) \<and> m \<le> js_int x \<and> \<bar>js_int x\<bar> \<le> max_safe"
  by (auto simp: int_at_least_def js_int_def)

lemma retry_integer_ok: "retry_integer x m = Inr u \<longleftrightarrow> int_at_least m x"
  by (simp add: retry_integer_eq)

lemma copy_outbox_retry_options_ok:
  assumes "copy_outbox_retry_options input = Inr g"
  shows "guard_ok g"
proof -
  from assms obtain opts e where
    a: "int_at_least 1 (ro_attempts opts)" "int_at_least 0 (re_updated_at e)"
       "int_at_least 0 (re_attempts_made e)" "int_at_least 1 (re_attempts_max e)"
    and le: "\<not> js_less (re_attempts_max e) (re_attempts_made e)"
    and run: "\<forall>n. ro_run_at opts = Some n \<longrightarrow> int_at_least 0 n"
    and g: "g = guard_of opts e"
    unfolding copy_outbox_retry_options_def Let_def
    by (elim rbind_InrE, simp add: retry_integer_ok throw_if_iff when_some_ok)
  note ints = a[THEN js_int_jint]
  from ints(3,4) le have "js_int (re_attempts_made e) \<le> js_int (re_attempts_max e)"
    by (metis js_less_jint linorder_not_less)
  moreover have "0 \<le> js_int n" if "ro_run_at opts = Some n" for n
    using that run js_int_jint by blast
  ultimately show ?thesis
    using ints by (auto simp: guard_ok_def g guard_of_def)
qed

subsection \<open>The transition\<close>

definition retry_outbox_record :: "outbox_env \<Rightarrow> outbox_record \<Rightarrow> retry_guard \<Rightarrow> jsnum
    \<Rightarrow> outbox_record res" where
  "retry_outbox_record env record g now =
     (let err = Mq_Outbox OutboxRetry in
      rbind (throw_if (or_state record \<noteq> Outbox_Failed) err) (\<lambda>_.
      rbind (throw_if (or_updated_at record \<noteq> rg_updated_at g
          \<or> or_attempts_made record \<noteq> rg_attempts_made g
          \<or> or_attempts_max record \<noteq> rg_attempts_max g) (Mq_Outbox OutboxConflict)) (\<lambda>_.
      rbind (throw_if (pr_id (or_request record) = None) err) (\<lambda>_.
      rbind (throw_if (\<not> is_safe_integer now \<or> js_less now (jint 0)) err) (\<lambda>_.
      let updated = max (js_int now) (or_updated_at record + 1);
          attempts_max = or_attempts_made record + rg_attempts g in
      rbind (throw_if (\<not> is_safe_integer (jint updated) \<or> \<not> is_safe_integer (jint attempts_max)) err) (\<lambda>_.
      need (validate_outbox_record env
        (record\<lparr>or_state := Outbox_Pending, or_attempts_max := attempts_max, or_updated_at := updated,
           or_run_at := max (orelse (rg_run_at g) updated) updated\<rparr>)) err))))))"

text \<open>What the package documents: validating a record accepts or refuses it, and never changes it.\<close>

definition validates :: "outbox_env \<Rightarrow> bool" where
  "validates env \<longleftrightarrow> (\<forall>r r'. validate_outbox_record env r = Some r' \<longrightarrow> r' = r)"

definition requeued :: "outbox_record \<Rightarrow> retry_guard \<Rightarrow> int \<Rightarrow> outbox_record" where
  "requeued record g now =
     (let updated = max now (or_updated_at record + 1) in
      record\<lparr>or_state := Outbox_Pending, or_attempts_max := or_attempts_made record + rg_attempts g,
        or_updated_at := updated, or_run_at := max (orelse (rg_run_at g) updated) updated\<rparr>)"

lemma retry_outbox_record_ok:
  assumes "retry_outbox_record env record g now = Inr next'" and "validates env"
  obtains n where "now = jint n" "0 \<le> n" "next' = requeued record g n"
    "or_state record = Outbox_Failed" "or_updated_at record = rg_updated_at g"
    "or_attempts_made record = rg_attempts_made g" "or_attempts_max record = rg_attempts_max g"
    "pr_id (or_request record) \<noteq> None" "\<bar>or_updated_at next'\<bar> \<le> max_safe"
    "\<bar>or_attempts_max next'\<bar> \<le> max_safe"
proof -
  let ?u = "max (js_int now) (or_updated_at record + 1)"
  from assms(1) have st: "or_state record = Outbox_Failed" "or_updated_at record = rg_updated_at g"
    "or_attempts_made record = rg_attempts_made g" "or_attempts_max record = rg_attempts_max g"
    "pr_id (or_request record) \<noteq> None"
    and now: "is_safe_integer now" "\<not> js_less now (jint 0)"
    and b: "\<bar>?u\<bar> \<le> max_safe" "\<bar>or_attempts_made record + rg_attempts g\<bar> \<le> max_safe"
    and v: "validate_outbox_record env
        (record\<lparr>or_state := Outbox_Pending, or_attempts_max := or_attempts_made record + rg_attempts g,
           or_updated_at := ?u, or_run_at := max (orelse (rg_run_at g) ?u) ?u\<rparr>) = Some next'"
    unfolding retry_outbox_record_def Let_def
    by (elim rbind_InrE; simp add: throw_if_iff need_ok)+
  from now(1) obtain n where n: "now = jint n" "\<bar>n\<bar> \<le> max_safe" by (rule is_safe_integerE)
  then have "js_int now = n" by (simp add: js_int_def)
  with v assms(2) have "next' = requeued record g n"
    by (auto simp: validates_def requeued_def Let_def)
  with that st now n b \<open>js_int now = n\<close> show ?thesis
    by (simp add: requeued_def Let_def)
qed

text \<open>
  Requeueing a failed publication never rewrites its content or its history and never moves time
  backwards: only state, attempt limit, update time and eligibility change, the record is pending
  with exactly the granted number of attempts left, its update time grows strictly, and it is not
  eligible before it.
\<close>

theorem retry_outbox_record_monotone:
  assumes "retry_outbox_record env record g now = Inr next'" and "validates env" and "guard_ok g"
  shows "or_state record = Outbox_Failed \<and> or_state next' = Outbox_Pending
    \<and> or_attempts_max next' - or_attempts_made next' = rg_attempts g
    \<and> or_attempts_made next' = or_attempts_made record
    \<and> or_updated_at record < or_updated_at next' \<and> or_updated_at next' \<le> or_run_at next'
    \<and> jint (or_updated_at next') \<noteq> NaN \<and> js_leq now (jint (or_updated_at next'))
    \<and> next'\<lparr>or_state := or_state record, or_attempts_max := or_attempts_max record,
        or_updated_at := or_updated_at record, or_run_at := or_run_at record\<rparr> = record"
proof -
  from assms(1,2) obtain n where "now = jint n" "next' = requeued record g n"
    "or_state record = Outbox_Failed"
    by (rule retry_outbox_record_ok)
  then show ?thesis by (simp add: requeued_def Let_def)
qed

subsection \<open>The conditional update\<close>

type_synonym outbox_table = "string \<times> string \<Rightarrow> outbox_record option"

definition update_matches :: "outbox_record \<Rightarrow> outbox_record \<Rightarrow> bool" where
  "update_matches row previous \<longleftrightarrow>
     or_state row = Outbox_Failed
     \<and> or_attempts_made row = or_attempts_made previous
     \<and> or_attempts_max row = or_attempts_max previous
     \<and> or_updated_at row = or_updated_at previous
     \<and> or_target row = or_target previous
     \<and> or_digest row = or_digest previous
     \<and> request_equal (or_request row) (or_request previous)
     \<and> or_created_at row = or_created_at previous
     \<and> or_run_at row = or_run_at previous
     \<and> or_failure row = or_failure previous
     \<and> or_published_at row = None
     \<and> or_lease row = None"

text \<open>
  The statement returns the rows it changed. The driver may fail before the database has run it, or after: the
  caller of \<open>postgresOutboxRetry\<close> cannot tell, and is told that the retry could not be confirmed. The write is
  never repeated. A write whose answer was lost takes effect, if it does, before the failure is reported; one that
  the database still runs later is a further statement on the table it then meets.
\<close>

datatype statement_answer = Answered | Never_Run | Answer_Lost

definition requeue_row :: "outbox_record \<Rightarrow> outbox_record \<Rightarrow> outbox_record" where
  "requeue_row next' row =
     row\<lparr>or_state := Outbox_Pending, or_attempts_max := or_attempts_max next',
       or_updated_at := or_updated_at next', or_run_at := or_run_at next'\<rparr>"

definition conditional_update :: "string \<Rightarrow> outbox_record \<Rightarrow> outbox_record \<Rightarrow> outbox_table
    \<Rightarrow> string list \<times> outbox_table" where
  "conditional_update namespace previous next' table =
     (case table (namespace, or_id previous) of
        None \<Rightarrow> ([], table)
      | Some row \<Rightarrow>
          if update_matches row previous
          then ([or_id previous], table((namespace, or_id previous) \<mapsto> requeue_row next' row))
          else ([], table))"

definition postgres_outbox_retry :: "string \<Rightarrow> statement_answer \<Rightarrow> outbox_record \<Rightarrow> outbox_record \<Rightarrow> outbox_table
    \<Rightarrow> unit res \<times> outbox_table" where
  "postgres_outbox_retry namespace answer previous next' table =
     (let (rows, table') = conditional_update namespace previous next' table in
      case answer of
        Never_Run \<Rightarrow> (Inl (Mq_Outbox OutboxRetry), table)
      | Answer_Lost \<Rightarrow> (Inl (Mq_Outbox OutboxRetry), table')
      | Answered \<Rightarrow> (if rows \<noteq> [or_id previous] then Inl (Mq_Outbox OutboxConflict) else Inr (), table'))"

text \<open>What one statement can do: nothing, or requeue the row that still matches the inspected record.\<close>

definition row_requeued :: "string \<Rightarrow> outbox_record \<Rightarrow> outbox_record \<Rightarrow> outbox_table \<Rightarrow> outbox_table \<Rightarrow> bool" where
  "row_requeued ns previous next' table table' \<longleftrightarrow> (\<exists>row. table (ns, or_id previous) = Some row
     \<and> update_matches row previous \<and> table' = table((ns, or_id previous) \<mapsto> requeue_row next' row))"

lemma postgres_outbox_retry_cases:
  assumes "postgres_outbox_retry ns answer previous next' table = (out, table')"
  obtains (conflict) "answer = Answered" "out = Inl (Mq_Outbox OutboxConflict)" "table' = table"
  | (unconfirmed) "answer \<noteq> Answered" "out = Inl (Mq_Outbox OutboxRetry)" "table' = table"
  | (uncertain) "answer = Answer_Lost" "out = Inl (Mq_Outbox OutboxRetry)" "row_requeued ns previous next' table table'"
  | (written) "answer = Answered" "out = Inr ()" "row_requeued ns previous next' table table'"
proof (cases "\<exists>row. table (ns, or_id previous) = Some row \<and> update_matches row previous")
  case True
  then obtain row where row: "table (ns, or_id previous) = Some row" "update_matches row previous" by blast
  then have u: "conditional_update ns previous next' table
      = ([or_id previous], table((ns, or_id previous) \<mapsto> requeue_row next' row))"
    by (simp add: conditional_update_def)
  then have "row_requeued ns previous next' table (table((ns, or_id previous) \<mapsto> requeue_row next' row))"
    using row by (auto simp: row_requeued_def)
  with u assms that show thesis by (cases answer) (auto simp: postgres_outbox_retry_def)
next
  case False
  then have "conditional_update ns previous next' table = ([], table)"
    by (auto simp: conditional_update_def split: option.splits)
  with assms that show thesis by (cases answer) (auto simp: postgres_outbox_retry_def)
qed

text \<open>
  C9. The conditional update is an optimistic lock: of any two retries prepared from the same
  inspected record, at most one is written, whatever happens to the row and to other rows between
  the two statements as long as no one sets its update time back. That holds too when the first was
  written and its answer lost. A retry that is not written leaves the table as it was.
\<close>

theorem outbox_retry_exclusive:
  assumes "postgres_outbox_retry ns a1 previous next1 table = (out, table1)" and "out = Inr () \<or> table1 \<noteq> table"
    and "or_updated_at previous < or_updated_at next1"
    and "\<And>row row'. table1 (ns, or_id previous) = Some row \<Longrightarrow> table2 (ns, or_id previous) = Some row'
           \<Longrightarrow> or_updated_at row \<le> or_updated_at row'"
  shows "\<exists>e. postgres_outbox_retry ns a2 previous next2 table2 = (Inl e, table2)"
proof -
  from assms(1,2) have "row_requeued ns previous next1 table table1"
    by (cases rule: postgres_outbox_retry_cases) auto
  then obtain row where "table1 (ns, or_id previous) = Some row" and "or_updated_at row = or_updated_at next1"
    by (auto simp: row_requeued_def requeue_row_def)
  with assms(3,4) have "\<not> row_requeued ns previous next2 table2 t" for t
    by (fastforce simp: row_requeued_def update_matches_def)
  moreover obtain out2 t where r: "postgres_outbox_retry ns a2 previous next2 table2 = (out2, t)" by fastforce
  ultimately show ?thesis
    by (cases rule: postgres_outbox_retry_cases[OF r]) simp_all
qed

subsection \<open>The coordinator\<close>

text \<open>
  A source is a table and a namespace; the read of a record may fail, and so may the statement. The schema
  validation of \<open>prepare\<close> lies between the two checks of the guard, so the clock is read twice; and whatever
  other processes do to the table between the read and the write, the write meets the table they leave.
\<close>

record outbox_source =
  src_name :: string
  src_namespace :: string
  src_administrative :: bool
  src_readable :: bool
  src_answer :: statement_answer

definition outbox_read :: "outbox_source \<Rightarrow> outbox_table \<Rightarrow> string \<Rightarrow> outbox_record option res" where
  "outbox_read s table id' =
     (if src_readable s then Inr (table (src_namespace s, id')) else Inl (Mq_Outbox OutboxRead))"

definition outbox_get :: "outbox_env \<Rightarrow> outbox_source \<Rightarrow> outbox_table \<Rightarrow> string
    \<Rightarrow> outbox_snapshot option res" where
  "outbox_get env s table id' =
     rbind (need (make_outbox_id env id') (Mq_Outbox OutboxRead)) (\<lambda>parsed.
     rbind (outbox_read s table parsed) (\<lambda>found.
     Inr (map_option (outbox_snapshot_of (src_name s)) found)))"

definition prepare_retry :: "outbox_env \<Rightarrow> outbox_source \<Rightarrow> registered_job list \<Rightarrow> retry_guard
    \<Rightarrow> jsnum \<Rightarrow> jsnum \<Rightarrow> outbox_record \<Rightarrow> outbox_record res" where
  "prepare_retry env s jobs g now1 now2 record =
     rbind (retry_outbox_record env record g now1) (\<lambda>_.
     rbind (compile_outbox_record env (src_name s) jobs now1
       \<lparr>oe_id = or_id record, oe_connection = or_target record, oe_request = or_request record,
        oe_attempts = Some (jint (or_attempts_max record)), oe_run_at = None\<rparr>) (\<lambda>validated.
     rbind (throw_if (\<not> request_equal (or_request validated) (or_request record))
       (Mq_Outbox OutboxRetry)) (\<lambda>_.
     retry_outbox_record env record g now2)))"

definition inspect_failed :: "outbox_env \<Rightarrow> outbox_source \<Rightarrow> registered_job list \<Rightarrow> jsnum \<Rightarrow> jsnum
    \<Rightarrow> string \<Rightarrow> outbox_retry_options option \<Rightarrow> outbox_table \<Rightarrow> (outbox_record \<times> outbox_record) res" where
  "inspect_failed env s jobs now1 now2 id' options' inspected =
     rbind (copy_outbox_retry_options options') (\<lambda>g.
     rbind (need (make_outbox_id env id') (Mq_Outbox OutboxRetry)) (\<lambda>parsed.
     rbind (throw_if (\<not> src_administrative s) (Mq_Outbox OutboxUnavailable)) (\<lambda>_.
     rbind (outbox_read s inspected parsed) (\<lambda>found.
     rbind (need found (Mq_Outbox OutboxRetry)) (\<lambda>record.
     rbind (prepare_retry env s jobs g now1 now2 record) (\<lambda>next'. Inr (record, next')))))))"

definition retry_failed :: "outbox_env \<Rightarrow> outbox_source \<Rightarrow> registered_job list \<Rightarrow> jsnum \<Rightarrow> jsnum
    \<Rightarrow> string \<Rightarrow> outbox_retry_options option \<Rightarrow> outbox_table \<Rightarrow> outbox_table
    \<Rightarrow> outbox_snapshot res \<times> outbox_table" where
  "retry_failed env s jobs now1 now2 id' options' inspected table =
     (case inspect_failed env s jobs now1 now2 id' options' inspected of
        Inl e \<Rightarrow> (Inl e, table)
      | Inr (record, next') \<Rightarrow>
          (case postgres_outbox_retry (src_namespace s) (src_answer s) record next' table of
             (Inl e, table') \<Rightarrow> (Inl e, table')
           | (Inr _, table') \<Rightarrow> (Inr (outbox_snapshot_of (src_name s) next'), table')))"

text \<open>The table holds each record under its own id.\<close>

definition wf_table :: "outbox_table \<Rightarrow> bool" where
  "wf_table table \<longleftrightarrow> (\<forall>ns i r. table (ns, i) = Some r \<longrightarrow> or_id r = i)"

lemma inspect_failed_ok:
  assumes "inspect_failed env s jobs now1 now2 id' options' inspected = Inr (record, next')"
    and "validates env" and "wf_table inspected"
  obtains g n where "copy_outbox_retry_options options' = Inr g" "make_outbox_id env id' = Some (or_id record)"
    "inspected (src_namespace s, or_id record) = Some record" "next' = requeued record g n"
    "or_state record = Outbox_Failed" "or_updated_at record = rg_updated_at g"
    "or_attempts_made record = rg_attempts_made g" "or_attempts_max record = rg_attempts_max g"
proof -
  from assms(1) obtain g i where
    g: "copy_outbox_retry_options options' = Inr g" and i: "make_outbox_id env id' = Some i"
    and read: "outbox_read s inspected i = Inr (Some record)"
    and prep: "prepare_retry env s jobs g now1 now2 record = Inr next'"
    unfolding inspect_failed_def by (auto simp: need_ok throw_if_iff elim!: rbind_InrE)
  from read have rec: "inspected (src_namespace s, i) = Some record"
    by (simp add: outbox_read_def split: if_splits)
  with assms(3) have oid: "or_id record = i" by (simp add: wf_table_def)
  from prep have "retry_outbox_record env record g now2 = Inr next'"
    by (auto simp: prepare_retry_def elim!: rbind_InrE)
  then show ?thesis
    by (rule retry_outbox_record_ok[OF _ assms(2)]) (rule that[OF g]; use i rec oid in simp)
qed

text \<open>
  A requeued row: it was failed, unleased and unpublished, and of the very version that was inspected and that
  the caller's guard names; it keeps its request and its attempts, has the granted attempts left and a
  strictly later update time, and is the only row that changed.
\<close>

definition guarded_requeue :: "string \<Rightarrow> retry_guard \<Rightarrow> string \<Rightarrow> outbox_table \<Rightarrow> outbox_table \<Rightarrow> bool" where
  "guarded_requeue ns g i table table' \<longleftrightarrow>
     (\<exists>row row'. table (ns, i) = Some row \<and> table' = table((ns, i) \<mapsto> row')
        \<and> or_state row = Outbox_Failed \<and> or_lease row = None \<and> or_published_at row = None
        \<and> or_updated_at row = rg_updated_at g \<and> or_attempts_made row = rg_attempts_made g
        \<and> or_attempts_max row = rg_attempts_max g
        \<and> or_state row' = Outbox_Pending \<and> or_request row' = or_request row
        \<and> or_attempts_made row' = or_attempts_made row
        \<and> or_attempts_max row' = or_attempts_made row + rg_attempts g
        \<and> or_updated_at row < or_updated_at row' \<and> or_updated_at row' \<le> or_run_at row')"

lemma row_requeued_guarded:
  assumes "row_requeued ns record (requeued record g n) table table'"
    and "or_updated_at record = rg_updated_at g" "or_attempts_made record = rg_attempts_made g"
    "or_attempts_max record = rg_attempts_max g"
  shows "guarded_requeue ns g (or_id record) table table'"
proof -
  from assms(1) obtain row where row: "table (ns, or_id record) = Some row" "update_matches row record"
    "table' = table((ns, or_id record) \<mapsto> requeue_row (requeued record g n) row)"
    by (auto simp: row_requeued_def)
  with assms(2-4) show ?thesis
    unfolding guarded_requeue_def
    by (intro exI[of _ row] exI[of _ "requeue_row (requeued record g n) row"])
      (simp add: update_matches_def requeue_row_def requeued_def Let_def)
qed

text \<open>
  C8. An administrative retry writes at most one row, once, and only under its guard, whatever other processes
  did to the table since the record was inspected. If it succeeds, exactly that row was requeued and the
  snapshot shows it pending with the granted attempts. If it reports anything else, the table is untouched,
  except when the database ran the statement and the answer was lost: then the retry is reported as
  unconfirmed, and the table is either untouched or has exactly the requeued row.
\<close>

theorem retry_failed_atomic:
  assumes "retry_failed env s jobs now1 now2 id' options' inspected table = (out, table')"
    and "validates env" and "wf_table inspected"
  shows "case out of
      Inl e \<Rightarrow> table' = table \<or>
        (e = Mq_Outbox OutboxRetry \<and> src_answer s = Answer_Lost
         \<and> (\<exists>g i. copy_outbox_retry_options options' = Inr g \<and> make_outbox_id env id' = Some i
              \<and> guarded_requeue (src_namespace s) g i table table'))
    | Inr snap \<Rightarrow> \<exists>g i record record'.
        copy_outbox_retry_options options' = Inr g \<and> make_outbox_id env id' = Some i
        \<and> guarded_requeue (src_namespace s) g i table table'
        \<and> inspected (src_namespace s, i) = Some record \<and> or_request record' = or_request record
        \<and> snap = outbox_snapshot_of (src_name s) record' \<and> or_id record' = i \<and> or_state record' = Outbox_Pending
        \<and> or_attempts_max record' - or_attempts_made record' = rg_attempts g
        \<and> map_option or_updated_at (table' (src_namespace s, i)) = Some (or_updated_at record')"
proof (cases "inspect_failed env s jobs now1 now2 id' options' inspected")
  case (Inl e)
  with assms(1) show ?thesis by (auto simp: retry_failed_def)
next
  case (Inr p)
  obtain r0 next' where p: "p = (r0, next')" by fastforce
  from Inr have "inspect_failed env s jobs now1 now2 id' options' inspected = Inr (r0, next')" by (simp add: p)
  then obtain g n where g: "copy_outbox_retry_options options' = Inr g" "make_outbox_id env id' = Some (or_id r0)"
    and rec: "inspected (src_namespace s, or_id r0) = Some r0"
    and next': "next' = requeued r0 g n"
    and version: "or_updated_at r0 = rg_updated_at g" "or_attempts_made r0 = rg_attempts_made g"
      "or_attempts_max r0 = rg_attempts_max g"
    by (rule inspect_failed_ok[OF _ assms(2,3)])
  obtain r v where pg: "postgres_outbox_retry (src_namespace s) (src_answer s) r0 next' table = (r, v)" by fastforce
  with assms(1) Inr have v: "v = table'" and out: "out = rbind r (\<lambda>_. Inr (outbox_snapshot_of (src_name s) next'))"
    by (cases r; simp add: retry_failed_def p)+
  have guarded: "guarded_requeue (src_namespace s) g (or_id r0) table table'"
    if "row_requeued (src_namespace s) r0 next' table table'"
    using row_requeued_guarded that version unfolding next' by blast
  from pg show ?thesis
  proof (cases rule: postgres_outbox_retry_cases)
    case conflict
    with v out show ?thesis by simp
  next
    case unconfirmed
    with v out show ?thesis by simp
  next
    case uncertain
    with v out g guarded show ?thesis by auto
  next
    case written
    then obtain row where "table' = table((src_namespace s, or_id r0) \<mapsto> requeue_row next' row)"
      by (auto simp: row_requeued_def v)
    then have "map_option or_updated_at (table' (src_namespace s, or_id r0)) = Some (or_updated_at next')"
      by (simp add: requeue_row_def)
    moreover from written(2) out have o: "out = Inr (outbox_snapshot_of (src_name s) next')" by simp
    moreover from written(3) guarded have "guarded_requeue (src_namespace s) g (or_id r0) table table'" by (simp add: v)
    moreover have "or_request next' = or_request r0" "or_id next' = or_id r0" "or_state next' = Outbox_Pending"
      "or_attempts_max next' - or_attempts_made next' = rg_attempts g"
      by (simp_all add: next' requeued_def Let_def)
    ultimately show ?thesis
      using g rec by (simp only: o sum.case) blast
  qed
qed

subsection \<open>A concrete source\<close>

definition plain_env :: outbox_env where
  "plain_env = \<lparr>make_outbox_id = Some, sha256 = id, validate_prepared = Some,
     make_outbox_record = (\<lambda>i. Some \<lparr>or_id = oi_id i, or_target = oi_target i, or_state = Outbox_Pending,
       or_request = oi_request i, or_digest = [], or_attempts_max = js_int (oi_attempts_max i),
       or_attempts_made = 0, or_run_at = js_int (oi_now i), or_created_at = js_int (oi_now i),
       or_updated_at = js_int (oi_now i), or_published_at = None, or_failure = None, or_lease = None\<rparr>),
     validate_outbox_record = Some\<rparr>"

definition plain_request :: prepared_request where
  "plain_request = \<lparr>pr_id = Some ''j1'', pr_queue = ''mail'', pr_name = ''send'', pr_version = 1,
     pr_payload = VStr ''x'', pr_metadata = [], pr_dispatch_key = Some ''tenant'', pr_policy = VNull\<rparr>"

definition failed_record :: outbox_record where
  "failed_record = \<lparr>or_id = ''o1'', or_target = ''default'', or_state = Outbox_Failed,
     or_request = plain_request, or_digest = [], or_attempts_max = 3, or_attempts_made = 3,
     or_run_at = 40, or_created_at = 10, or_updated_at = 50, or_published_at = None,
     or_failure = Some VNull, or_lease = None\<rparr>"

definition plain_guard :: retry_guard where
  "plain_guard = \<lparr>rg_updated_at = 50, rg_attempts_made = 3, rg_attempts_max = 3, rg_attempts = 2,
     rg_run_at = None\<rparr>"

definition plain_options :: outbox_retry_options where
  "plain_options = \<lparr>ro_shape = plain_shape [''expected'', ''attempts''],
     ro_expected = Some \<lparr>re_shape = plain_shape [''updatedAtMs'', ''attemptsMade'', ''attemptsMax''],
       re_updated_at = jint 50, re_attempts_made = jint 3, re_attempts_max = jint 3\<rparr>,
     ro_attempts = jint 2, ro_run_at = None\<rparr>"

definition plain_source :: outbox_source where
  "plain_source = \<lparr>src_name = ''main'', src_namespace = ''ns'', src_administrative = True,
     src_readable = True, src_answer = Answered\<rparr>"

definition plain_table :: outbox_table where
  "plain_table = [(''ns'', ''o1'') \<mapsto> failed_record]"

lemma plain_validates: "validates plain_env"
  by (simp add: validates_def plain_env_def)

lemma plain_retry:
  "retry_outbox_record plain_env failed_record plain_guard (jint 20)
     = Inr (requeued failed_record plain_guard 20)"
  by (simp add: retry_outbox_record_def requeued_def failed_record_def plain_guard_def plain_env_def
      plain_request_def js_int_def max_safe_def)

theorem retry_outbox_record_monotone_witness:
  "\<exists>next'. retry_outbox_record plain_env failed_record plain_guard (jint 20) = Inr next'
     \<and> or_updated_at next' = 51 \<and> or_updated_at failed_record < or_updated_at next'"
proof -
  have g: "guard_ok plain_guard" by (simp add: guard_ok_def plain_guard_def max_safe_def)
  from retry_outbox_record_monotone[OF plain_retry plain_validates g] plain_retry
  show ?thesis by (simp add: requeued_def failed_record_def plain_guard_def)
qed

lemma plain_update:
  "row_requeued ''ns'' failed_record next' plain_table
     (plain_table((''ns'', ''o1'') \<mapsto> requeue_row next' failed_record))"
  by (simp add: row_requeued_def plain_table_def failed_record_def update_matches_def request_equal_def
      same_entries_def plain_request_def)

text \<open>The answer to the first retry is lost.\<close>

theorem outbox_retry_exclusive_witness:
  "\<exists>table1 e. postgres_outbox_retry ''ns'' Answer_Lost failed_record (requeued failed_record plain_guard 20)
       plain_table = (Inl (Mq_Outbox OutboxRetry), table1) \<and> table1 \<noteq> plain_table
     \<and> postgres_outbox_retry ''ns'' Answered failed_record (requeued failed_record plain_guard 60) table1
       = (Inl e, table1)"
proof -
  let ?next = "requeued failed_record plain_guard 20"
  let ?t = "plain_table((''ns'', ''o1'') \<mapsto> requeue_row ?next failed_record)"
  have t: "postgres_outbox_retry ''ns'' Answer_Lost failed_record ?next plain_table = (Inl (Mq_Outbox OutboxRetry), ?t)"
    using plain_update[of ?next]
    by (simp add: postgres_outbox_retry_def conditional_update_def row_requeued_def plain_table_def failed_record_def)
  have "or_state (requeue_row ?next failed_record) \<noteq> or_state failed_record"
    by (simp add: requeue_row_def failed_record_def)
  then have n: "?t \<noteq> plain_table" by (metis fun_upd_same option.inject plain_table_def)
  have "or_updated_at failed_record < or_updated_at ?next"
    by (simp add: requeued_def failed_record_def plain_guard_def)
  from outbox_retry_exclusive[OF t _ this, of ?t] t n show ?thesis by fastforce
qed

theorem retry_failed_atomic_witness:
  "\<exists>snap table'. retry_failed plain_env plain_source [sample_job] (jint 20) (jint 30) ''o1''
       (Some plain_options) plain_table plain_table = (Inr snap, table')
     \<and> table' \<noteq> plain_table"
proof -
  have opts: "copy_outbox_retry_options (Some plain_options) = Inr plain_guard"
    by (simp add: copy_outbox_retry_options_def plain_options_def plain_guard_def guard_of_def
        check_shape_eq retry_integer_eq max_safe_def js_int_def)
  have enc: "encode_schema tag_schema (VStr ''x'') = Inr (VStr ''x'')"
    by (simp add: encode_schema_def tag_schema_def validate_schema_def json_text_def)
  have dest: "check_destination sample_job plain_request = Inr ()"
    by (simp add: check_destination_def sample_job_def plain_request_def assert_retry_reference_def
        retry_reference_def backoff_reference_def initial_policy_def keyed_contract_key
        validate_dispatch_key_eq)
       (simp add: keyed_contract_def tag_schema_def validate_schema_def enc[unfolded tag_schema_def]
        valid_dispatch_key_def valid_name_def is_js_space_def nul_def)
  have comp: "\<exists>r. compile_outbox_record plain_env ''main'' [sample_job] (jint 20)
      \<lparr>oe_id = ''o1'', oe_connection = ''default'', oe_request = plain_request,
       oe_attempts = Some (jint 3), oe_run_at = None\<rparr> = Inr r \<and> or_request r = plain_request"
    using dest
    by (simp add: compile_outbox_record_def plain_env_def destination_def plain_request_def
        sample_job_def)
  have eq: "request_equal plain_request plain_request"
    by (simp add: request_equal_def same_entries_def plain_request_def)
  have r2: "retry_outbox_record plain_env failed_record plain_guard (jint 30)
     = Inr (requeued failed_record plain_guard 30)"
    by (simp add: retry_outbox_record_def requeued_def failed_record_def plain_guard_def plain_env_def
        plain_request_def js_int_def max_safe_def)
  have prep: "prepare_retry plain_env plain_source [sample_job] plain_guard (jint 20) (jint 30)
      failed_record = Inr (requeued failed_record plain_guard 30)"
    using comp eq r2 plain_retry
    by (auto simp: prepare_retry_def plain_source_def failed_record_def)
  have wf: "wf_table plain_table" by (auto simp: wf_table_def plain_table_def failed_record_def)
  have insp: "inspect_failed plain_env plain_source [sample_job] (jint 20) (jint 30) ''o1'' (Some plain_options) plain_table
      = Inr (failed_record, requeued failed_record plain_guard 30)"
    using opts prep by (simp add: inspect_failed_def outbox_read_def plain_source_def plain_table_def plain_env_def)
  obtain snap table' where ok: "retry_failed plain_env plain_source [sample_job] (jint 20) (jint 30)
      ''o1'' (Some plain_options) plain_table plain_table = (Inr snap, table')"
    using insp eq
    by (simp add: retry_failed_def plain_source_def plain_table_def conditional_update_def
        postgres_outbox_retry_def update_matches_def failed_record_def requeued_def Let_def)
  from retry_failed_atomic[OF ok plain_validates wf] obtain g i where
    "guarded_requeue (src_namespace plain_source) g i plain_table table'" by auto
  then have "table' \<noteq> plain_table"
    unfolding guarded_requeue_def by (metis fun_upd_same option.inject outbox_state.distinct(5))
  with ok show ?thesis by blast
qed

end
