(* ===== verification/Mq_Scope.thy ===== *)
theory Mq_Scope
  imports Mq_Values "HOL-Library.Multiset"
begin

text \<open>
  The admission discipline shared by several classes of the sources: an object accepts operations
  while it is open, remembers the ones that have not completed, stops accepting when it is closed,
  and its owner waits for the rest (\<open>TransactionScope\<close>, the Kysely \<open>ScopedDriver\<close>,
  \<open>OutboxRetryAdapter\<close>, \<open>FlowResultReader\<close>). The interface is a locale; what an owner may rely on is
  proved once for any sequence of admissions, completions and the closing. Operations are numbers;
  the pending ones are a list, since the same operation may be running more than once.
\<close>

datatype scope_event = Admit nat | Settle nat "exn option" | Close

fun scope_run :: "(nat \<Rightarrow> 's \<Rightarrow> bool \<times> 's) \<Rightarrow> (nat \<Rightarrow> exn option \<Rightarrow> 's \<Rightarrow> 's) \<Rightarrow> ('s \<Rightarrow> 's)
    \<Rightarrow> scope_event list \<Rightarrow> 's \<Rightarrow> 's" where
  "scope_run admit settle close [] s = s"
| "scope_run admit settle close (Admit i # evs) s = scope_run admit settle close evs (snd (admit i s))"
| "scope_run admit settle close (Settle i r # evs) s = scope_run admit settle close evs (settle i r s)"
| "scope_run admit settle close (Close # evs) s = scope_run admit settle close evs (close s)"

lemma scope_run_append:
  "scope_run admit settle close (as @ bs) s
     = scope_run admit settle close bs (scope_run admit settle close as s)"
proof (induction as arbitrary: s)
  case (Cons ev as)
  then show ?case by (cases ev) simp_all
qed simp

locale drain_scope =
  fixes is_open :: "'s \<Rightarrow> bool"
    and pending :: "'s \<Rightarrow> nat list"
    and admit :: "nat \<Rightarrow> 's \<Rightarrow> bool \<times> 's"
    and settle :: "nat \<Rightarrow> exn option \<Rightarrow> 's \<Rightarrow> 's"
    and close :: "'s \<Rightarrow> 's"
  assumes admit_accepts: "fst (admit i s) = is_open s"
    and admit_pending: "is_open s \<Longrightarrow> pending (snd (admit i s)) = i # pending s"
    and admit_open: "is_open (snd (admit i s)) = is_open s"
    and admit_closed: "\<not> is_open s \<Longrightarrow> snd (admit i s) = s"
    and settle_pending: "pending (settle i r s) = remove1 i (pending s)"
    and settle_open: "is_open (settle i r s) = is_open s"
    and close_closed: "\<not> is_open (close s)"
    and close_pending: "pending (close s) = pending s"
begin

text \<open>Closing is final, and a closed scope only ever drains.\<close>

lemma closed_run:
  "\<not> is_open s \<Longrightarrow> \<not> is_open (scope_run admit settle close evs s)
     \<and> mset (pending (scope_run admit settle close evs s)) \<subseteq># mset (pending s)"
proof (induction evs arbitrary: s)
  case (Cons ev evs)
  show ?case
  proof (cases ev)
    case (Admit i)
    with Cons show ?thesis by (simp add: admit_closed)
  next
    case (Settle i r)
    have "mset (remove1 i (pending s)) \<subseteq># mset (pending s)" by simp
    moreover have "\<not> is_open (settle i r s)" using Cons.prems by (simp add: settle_open)
    ultimately show ?thesis
      using Cons.IH[of "settle i r s"] Settle
      by (auto simp: settle_pending intro: subset_mset.order_trans)
  next
    case Close
    with Cons.IH[of "close s"] show ?thesis by (simp add: close_closed close_pending)
  qed
qed simp

lemma closed_refuses:
  "\<not> is_open s \<Longrightarrow> fst (admit i (scope_run admit settle close evs s)) = False"
  using closed_run by (simp add: admit_accepts)

text \<open>Once closed and drained a scope stays quiet: nothing it owned can start again.\<close>

lemma drained_run:
  "\<not> is_open s \<Longrightarrow> pending s = [] \<Longrightarrow> pending (scope_run admit settle close evs s) = []"
  using closed_run[of s evs] by simp

text \<open>Completing every pending operation drains a closed scope.\<close>

lemma settle_run:
  "pending (scope_run admit settle close (map (\<lambda>i. Settle i None) xs) s) = fold remove1 xs (pending s)"
  by (induction xs arbitrary: s) (simp_all add: settle_pending)

lemma settle_all:
  "pending (scope_run admit settle close (map (\<lambda>i. Settle i None) (pending s)) s) = []"
proof -
  have "fold remove1 xs xs = []" for xs :: "nat list"
    by (induction xs) simp_all
  then show ?thesis by (simp add: settle_run)
qed

end

text \<open>
  A scope that is poisoned by the first failing operation and reports that failure to its owner.
\<close>

locale poisoned_scope = drain_scope +
  fixes failure :: "'s \<Rightarrow> exn option"
    and poison :: "exn \<Rightarrow> 's \<Rightarrow> 's"
  assumes admit_failure: "failure (snd (admit i s)) = failure s"
    and settle_failure: "failure (settle i r s) = orelse_opt (failure s) (if i \<in> set (pending s) then r else None)"
    and close_failure: "failure (close s) = failure s"
    and poison_failure: "failure (poison e s) = orelse_opt (failure s) (Some e)"
    and poison_pending: "pending (poison e s) = pending s"
    and poison_open: "is_open (poison e s) = is_open s"
begin

text \<open>The first failure is the one that is reported.\<close>

lemma failure_stays:
  "failure s = Some e \<Longrightarrow> failure (scope_run admit settle close evs s) = Some e"
proof (induction evs arbitrary: s)
  case (Cons ev evs)
  then show ?case
    by (cases ev) (simp_all add: admit_failure settle_failure close_failure)
qed simp

text \<open>A scope that reports no failure saw no pending operation fail.\<close>

lemma no_failure_settled:
  assumes "failure (scope_run admit settle close (as @ Settle i r # bs) s) = None"
    and "i \<in> set (pending (scope_run admit settle close as s))"
  shows "r = None"
proof (rule ccontr)
  assume "r \<noteq> None"
  then obtain e where r: "r = Some e" by auto
  have split: "scope_run admit settle close (as @ cs) s = scope_run admit settle close cs
      (scope_run admit settle close as s)" for cs
    by (rule scope_run_append)
  let ?t = "scope_run admit settle close as s"
  have "\<exists>e'. failure (settle i r ?t) = Some e'"
    using assms(2) r by (cases "failure ?t") (simp_all add: settle_failure)
  then show False
    using assms(1) failure_stays[of "settle i r ?t"] by (auto simp: split)
qed

end

end
