(* ===== verification/Mq_Transaction.thy ===== *)
theory Mq_Transaction
  imports Mq_Outbox Mq_Scope
begin

text \<open>
  \<open>src/integrations/postgres-outbox-transaction.ts\<close>, the driver of
  \<open>src/integrations/kysely-outbox-scope.ts\<close> and the adapter of \<open>src/engine/outbox-retry.ts\<close>: the
  business transaction that appends outbox records. What the application and the database do is a
  script: which operations the callback starts, how and when each completes, connection errors, and
  the answers to \<open>BEGIN\<close>, \<open>COMMIT\<close>, \<open>ROLLBACK\<close> and the release of the client. The model runs the
  library against any script and records the commands it sends. A thrown value is an \<open>Error\<close> here,
  so \<open>asError\<close> is the identity.
\<close>

subsection \<open>Scopes\<close>

record tx_scope =
  tx_accepting :: bool
  tx_pending :: "nat list"
  tx_failure :: "exn option"

definition new_tx_scope :: tx_scope where
  "new_tx_scope = \<lparr>tx_accepting = True, tx_pending = [], tx_failure = None\<rparr>"

definition tx_poison :: "exn \<Rightarrow> tx_scope \<Rightarrow> tx_scope" where
  "tx_poison cause s = s\<lparr>tx_failure := orelse_opt (tx_failure s) (Some cause)\<rparr>"

text \<open>\<open>execute\<close>: a refused operation is rejected, an admitted one joins the pending set.\<close>

definition tx_execute :: "nat \<Rightarrow> tx_scope \<Rightarrow> bool \<times> tx_scope" where
  "tx_execute i s = (if \<not> tx_accepting s then (False, s) else (True, s\<lparr>tx_pending := i # tx_pending s\<rparr>))"

definition tx_complete :: "nat \<Rightarrow> exn option \<Rightarrow> tx_scope \<Rightarrow> tx_scope" where
  "tx_complete i outcome s =
     (let s' = (case outcome of Some cause \<Rightarrow> if i \<in> set (tx_pending s) then tx_poison cause s else s
                | None \<Rightarrow> s)
      in s'\<lparr>tx_pending := remove1 i (tx_pending s')\<rparr>)"

definition tx_stop :: "tx_scope \<Rightarrow> tx_scope" where
  "tx_stop s = s\<lparr>tx_accepting := False\<rparr>"

interpretation txs: poisoned_scope tx_accepting tx_pending tx_execute tx_complete tx_stop tx_failure tx_poison
  by unfold_locales
     (auto simp: tx_execute_def tx_complete_def tx_stop_def tx_poison_def Let_def split: option.splits)

text \<open>
  The Kysely driver: the same discipline around the statements of the managed transaction. An
  operation the driver does not support (nested transactions, manual commit or rollback, streaming,
  destroying the driver) is refused, and poisons a driver that is still accepting.
\<close>

record scoped_driver =
  sd_accepting :: bool
  sd_pending :: "nat list"
  sd_failure :: "exn option"

definition new_driver :: scoped_driver where
  "new_driver = \<lparr>sd_accepting = True, sd_pending = [], sd_failure = None\<rparr>"

definition driver_poison :: "exn \<Rightarrow> scoped_driver \<Rightarrow> scoped_driver" where
  "driver_poison cause d = d\<lparr>sd_failure := orelse_opt (sd_failure d) (Some cause)\<rparr>"

definition driver_unsupported :: "scoped_driver \<Rightarrow> exn \<times> scoped_driver" where
  "driver_unsupported d =
     (let e = Mq_Outbox OutboxTransaction in (e, if sd_accepting d then driver_poison e d else d))"

definition driver_admit :: "nat \<Rightarrow> scoped_driver \<Rightarrow> bool \<times> scoped_driver" where
  "driver_admit i d = (if \<not> sd_accepting d then (False, d) else (True, d\<lparr>sd_pending := i # sd_pending d\<rparr>))"

definition driver_settle :: "nat \<Rightarrow> exn option \<Rightarrow> scoped_driver \<Rightarrow> scoped_driver" where
  "driver_settle i outcome d =
     (let d' = (case outcome of Some cause \<Rightarrow> if i \<in> set (sd_pending d) then driver_poison cause d else d
                | None \<Rightarrow> d)
      in d'\<lparr>sd_pending := remove1 i (sd_pending d')\<rparr>)"

definition driver_stop :: "scoped_driver \<Rightarrow> scoped_driver" where
  "driver_stop d = d\<lparr>sd_accepting := False\<rparr>"

interpretation drv: poisoned_scope sd_accepting sd_pending driver_admit driver_settle driver_stop sd_failure driver_poison
  by unfold_locales
     (auto simp: driver_admit_def driver_settle_def driver_stop_def driver_poison_def Let_def
        split: option.splits)

datatype driver_event = Driver_Query nat | Driver_Done nat "exn option" | Driver_Unsupported

fun driver_step :: "driver_event \<Rightarrow> scoped_driver \<Rightarrow> scoped_driver" where
  "driver_step (Driver_Query i) d = snd (driver_admit i d)"
| "driver_step (Driver_Done i r) d = driver_settle i r d"
| "driver_step Driver_Unsupported d = snd (driver_unsupported d)"

text \<open>
  \<open>runKyselyOutbox\<close>: the callback with the events before it returns, then \<open>finish\<close> with the events
  until nothing is pending. \<open>None\<close>: an operation never completes, so the call never returns.
\<close>

definition run_kysely :: "driver_event list \<Rightarrow> 'v res \<Rightarrow> driver_event list \<Rightarrow> ('v res \<times> scoped_driver) option" where
  "run_kysely before callback after =
     (let d1 = fold driver_step before new_driver;
          d2 = (case callback of Inl cause \<Rightarrow> driver_poison cause d1 | Inr _ \<Rightarrow> d1);
          d3 = fold driver_step after (driver_stop d2) in
      if sd_pending d3 \<noteq> [] then None
      else Some (case sd_failure d3 of Some e \<Rightarrow> Inl e | None \<Rightarrow> callback, d3))"

text \<open>The retry adapter closes the same way, but keeps no failure.\<close>

record retry_adapter =
  ra_closed :: bool
  ra_pending :: "nat list"

definition adapter_retry :: "nat \<Rightarrow> retry_adapter \<Rightarrow> bool \<times> retry_adapter" where
  "adapter_retry i a = (if ra_closed a then (False, a) else (True, a\<lparr>ra_pending := i # ra_pending a\<rparr>))"

definition adapter_settle :: "nat \<Rightarrow> exn option \<Rightarrow> retry_adapter \<Rightarrow> retry_adapter" where
  "adapter_settle i outcome a = a\<lparr>ra_pending := remove1 i (ra_pending a)\<rparr>"

definition adapter_close :: "retry_adapter \<Rightarrow> retry_adapter" where
  "adapter_close a = a\<lparr>ra_closed := True\<rparr>"

interpretation adapter: drain_scope "\<lambda>a. \<not> ra_closed a" ra_pending adapter_retry adapter_settle adapter_close
  by unfold_locales (auto simp: adapter_retry_def adapter_settle_def adapter_close_def)

subsection \<open>Appending\<close>

text \<open>\<open>appended\<close> is what the store's locked append answers: the stored record and whether it existed.\<close>

definition append_direct :: "string \<Rightarrow> outbox_record \<Rightarrow> (outbox_record \<times> bool) res
    \<Rightarrow> (outbox_snapshot \<times> bool) res" where
  "append_direct source incoming appended =
     catch_res
       (rbind appended (\<lambda>(existing, duplicate).
        rbind (if duplicate then assert_same_outbox_content existing incoming else Inr ()) (\<lambda>_.
        Inr (outbox_snapshot_of source existing, duplicate))))
       (\<lambda>cause. Inl (case cause of Mq_Outbox _ \<Rightarrow> cause | _ \<Rightarrow> Mq_Outbox OutboxAppend))"

subsection \<open>The transaction\<close>

datatype tx_event = Tx_Call nat | Tx_Done nat "exn option" | Tx_Connection_Error exn

datatype tx_command =
  Sent_Begin | Sent_Statement nat | Completed nat | Sent_Commit | Sent_Rollback | Released "exn option"

record tx_state =
  xs_scope :: tx_scope
  xs_callback_open :: bool
  xs_discard :: "exn option"
  xs_log :: "tx_command list"

text \<open>
  An operation of the callback's view is refused once the callback has returned, even though the
  scope still accepts the library's own appends. The log keeps the admitted operations and the
  successful completions.
\<close>

fun tx_step :: "tx_event \<Rightarrow> tx_state \<Rightarrow> tx_state" where
  "tx_step (Tx_Call i) x =
     (if \<not> xs_callback_open x then x
      else case tx_execute i (xs_scope x) of
        (False, _) \<Rightarrow> x
      | (True, s) \<Rightarrow> x\<lparr>xs_scope := s, xs_log := xs_log x @ [Sent_Statement i]\<rparr>)"
| "tx_step (Tx_Done i outcome) x =
     x\<lparr>xs_scope := tx_complete i outcome (xs_scope x),
       xs_log := xs_log x @ (if i \<in> set (tx_pending (xs_scope x)) \<and> outcome = None then [Completed i] else [])\<rparr>"
| "tx_step (Tx_Connection_Error e) x =
     x\<lparr>xs_scope := tx_poison e (xs_scope x), xs_discard := Some e\<rparr>"

definition tx_events :: "tx_event list \<Rightarrow> tx_state \<Rightarrow> tx_state" where
  "tx_events evs x = fold tx_step evs x"

definition tx_log :: "tx_command list \<Rightarrow> tx_state \<Rightarrow> tx_state" where
  "tx_log cs x = x\<lparr>xs_log := xs_log x @ cs\<rparr>"

record 'v tx_script =
  sc_connect :: "exn option"
  sc_begin :: "exn option"
  sc_during :: "tx_event list"
  sc_callback :: "'v res"
  sc_appends :: "(tx_event list \<times> exn option) list"
  sc_drain :: "tx_event list"
  sc_before_commit :: "tx_event list"
  sc_commit :: "exn option"
  sc_late :: "tx_event list"
  sc_rollback :: "exn option"
  sc_release :: "exn option"

text \<open>The appends of the prepared records, in order; the first that fails ends the loop.\<close>

fun tx_appends :: "(tx_event list \<times> exn option) list \<Rightarrow> tx_state \<Rightarrow> tx_state" where
  "tx_appends [] x = x"
| "tx_appends ((evs, outcome) # rest) x =
     (let x' = tx_events evs x in
      case outcome of
        None \<Rightarrow> tx_appends rest x'
      | Some cause \<Rightarrow> x'\<lparr>xs_scope := tx_poison cause (xs_scope x')\<rparr>)"

text \<open>The body of the inner \<open>try\<close>, and the poisoning in its \<open>catch\<close>.\<close>

definition tx_body :: "'v tx_script \<Rightarrow> tx_state \<Rightarrow> tx_state" where
  "tx_body sc x =
     (let x1 = (tx_events (sc_during sc) x)\<lparr>xs_callback_open := False\<rparr> in
      case sc_callback sc of
        Inr _ \<Rightarrow> tx_appends (sc_appends sc) x1
      | Inl cause \<Rightarrow> x1\<lparr>xs_scope := tx_poison cause (xs_scope x1)\<rparr>)"

text \<open>\<open>finish\<close>: stop accepting, wait for the pending operations, report the failure.\<close>

definition tx_finish :: "tx_event list \<Rightarrow> tx_state \<Rightarrow> (exn option \<times> tx_state) option" where
  "tx_finish evs x =
     (let x' = tx_events evs (x\<lparr>xs_scope := tx_stop (xs_scope x)\<rparr>) in
      if tx_pending (xs_scope x') \<noteq> [] then None else Some (tx_failure (xs_scope x'), x'))"

text \<open>The outer \<open>try\<close>: the primary error if any, and whether the commit was confirmed.\<close>

definition tx_commit_phase :: "'v tx_script \<Rightarrow> tx_state \<Rightarrow> (exn option \<times> bool \<times> tx_state) option" where
  "tx_commit_phase sc x =
     (let x0 = tx_log [Sent_Begin] x in
      case sc_begin sc of
        Some e \<Rightarrow> map_option (\<lambda>(_, x'). (Some e, False, x')) (tx_finish (sc_late sc) x0)
      | None \<Rightarrow>
          (case tx_finish (sc_drain sc) (tx_body sc x0) of
             None \<Rightarrow> None
           | Some (Some failure, x1) \<Rightarrow>
               map_option (\<lambda>(_, x'). (Some failure, False, x')) (tx_finish (sc_late sc) x1)
           | Some (None, x1) \<Rightarrow>
               let x2 = tx_log [Sent_Commit] (tx_events (sc_before_commit sc) x1) in
               (case sc_commit sc of
                  None \<Rightarrow> Some (None, True, x2)
                | Some e \<Rightarrow>
                    map_option (\<lambda>(_, x'). (Some e, False, x'))
                      (tx_finish (sc_late sc) (x2\<lparr>xs_discard := Some e\<rparr>)))))"

definition tx_result :: "'v tx_script \<Rightarrow> exn option \<Rightarrow> bool \<Rightarrow> exn list \<Rightarrow> 'v res" where
  "tx_result sc primary committed cleanup =
     (if cleanup \<noteq> [] then
        Inl (Aggregate (case primary of None \<Rightarrow> cleanup | Some p \<Rightarrow> p # cleanup))
      else case primary of
        Some p \<Rightarrow> Inl p
      | None \<Rightarrow> if \<not> committed then Inl (Mq_Outbox OutboxTransaction) else sc_callback sc)"

definition outbox_transaction :: "'v tx_script \<Rightarrow> ('v res \<times> tx_command list) option" where
  "outbox_transaction sc =
     (case sc_connect sc of
        Some e \<Rightarrow> Some (Inl e, [])
      | None \<Rightarrow>
          (case tx_commit_phase sc \<lparr>xs_scope = new_tx_scope, xs_callback_open = True,
               xs_discard = None, xs_log = []\<rparr> of
             None \<Rightarrow> None
           | Some (primary, committed, x) \<Rightarrow>
               let rolled = (if committed then [] else [Sent_Rollback]);
                   failed = (if committed then None else sc_rollback sc);
                   discard = orelse_opt failed (xs_discard x);
                   cleanup = (case failed of None \<Rightarrow> [] | Some e \<Rightarrow> [e])
                     @ (case sc_release sc of None \<Rightarrow> [] | Some e \<Rightarrow> [e]) in
               Some (tx_result sc primary committed cleanup,
                     xs_log x @ rolled @ [Released discard])))"

subsection \<open>Atomicity\<close>

fun started :: "tx_command list \<Rightarrow> nat list" where
  "started [] = []"
| "started (Sent_Statement i # cs) = i # started cs"
| "started (c # cs) = started cs"

fun completed :: "tx_command list \<Rightarrow> nat list" where
  "completed [] = []"
| "completed (Completed i # cs) = i # completed cs"
| "completed (c # cs) = completed cs"

definition is_statement :: "tx_command \<Rightarrow> bool" where
  "is_statement c = (case c of Sent_Statement _ \<Rightarrow> True | Completed _ \<Rightarrow> True | _ \<Rightarrow> False)"

lemma started_append [simp]: "started (as @ bs) = started as @ started bs"
  by (induction as rule: started.induct) simp_all

lemma completed_append [simp]: "completed (as @ bs) = completed as @ completed bs"
  by (induction as rule: completed.induct) simp_all

text \<open>
  The invariant of the events: as long as nothing failed, what was started is what completed and
  what is pending. \<open>grows\<close> says that only statements and completions are logged, and that neither the
  closed view nor the closed scope opens again.
\<close>

definition tx_ok :: "tx_state \<Rightarrow> bool" where
  "tx_ok x \<longleftrightarrow> (tx_failure (xs_scope x) = None \<longrightarrow>
     mset (started (xs_log x)) = mset (completed (xs_log x)) + mset (tx_pending (xs_scope x)))"

definition grows :: "tx_state \<Rightarrow> tx_state \<Rightarrow> bool" where
  "grows x y \<longleftrightarrow> (\<exists>cs. xs_log y = xs_log x @ cs \<and> list_all is_statement cs
      \<and> (\<not> xs_callback_open x \<longrightarrow> started cs = []))
    \<and> (\<not> xs_callback_open x \<longrightarrow> \<not> xs_callback_open y)
    \<and> (tx_failure (xs_scope x) \<noteq> None \<longrightarrow> tx_failure (xs_scope y) \<noteq> None)"

lemma grows_refl [simp]: "grows x x"
  by (simp add: grows_def)

lemma growsI:
  "xs_log y = xs_log x @ cs \<Longrightarrow> list_all is_statement cs \<Longrightarrow> (\<not> xs_callback_open x \<Longrightarrow> started cs = [])
     \<Longrightarrow> (\<not> xs_callback_open x \<Longrightarrow> \<not> xs_callback_open y)
     \<Longrightarrow> (tx_failure (xs_scope x) \<noteq> None \<Longrightarrow> tx_failure (xs_scope y) \<noteq> None) \<Longrightarrow> grows x y"
  by (simp add: grows_def)

lemma growsE:
  assumes "grows x y"
  obtains cs where "xs_log y = xs_log x @ cs" "list_all is_statement cs"
    "\<not> xs_callback_open x \<Longrightarrow> started cs = []" "\<not> xs_callback_open x \<Longrightarrow> \<not> xs_callback_open y"
    "tx_failure (xs_scope x) \<noteq> None \<Longrightarrow> tx_failure (xs_scope y) \<noteq> None"
  using assms by (auto simp: grows_def)

lemma grows_trans:
  assumes "grows x y" and "grows y z"
  shows "grows x z"
proof -
  from assms(1) obtain cs where c: "xs_log y = xs_log x @ cs" "list_all is_statement cs"
    "\<not> xs_callback_open x \<Longrightarrow> started cs = []" "\<not> xs_callback_open x \<Longrightarrow> \<not> xs_callback_open y"
    "tx_failure (xs_scope x) \<noteq> None \<Longrightarrow> tx_failure (xs_scope y) \<noteq> None"
    by (rule growsE) blast
  from assms(2) obtain ds where d: "xs_log z = xs_log y @ ds" "list_all is_statement ds"
    "\<not> xs_callback_open y \<Longrightarrow> started ds = []" "\<not> xs_callback_open y \<Longrightarrow> \<not> xs_callback_open z"
    "tx_failure (xs_scope y) \<noteq> None \<Longrightarrow> tx_failure (xs_scope z) \<noteq> None"
    by (rule growsE) blast
  show ?thesis
    by (rule growsI[of _ _ "cs @ ds"]) (use c d in simp_all)
qed

lemma tx_step_grows: "grows x (tx_step ev x)"
  by (cases ev)
     (auto simp: grows_def tx_execute_def tx_complete_def tx_poison_def Let_def is_statement_def
        split: option.splits)

lemma tx_complete_parts:
  "tx_pending (tx_complete i outcome s) = remove1 i (tx_pending s)"
  "tx_failure (tx_complete i outcome s)
     = orelse_opt (tx_failure s) (if i \<in> set (tx_pending s) then outcome else None)"
  by (rule txs.settle_pending, rule txs.settle_failure)

lemma tx_step_ok:
  assumes "tx_ok x"
  shows "tx_ok (tx_step ev x)"
proof (cases ev)
  case (Tx_Call i)
  with assms show ?thesis by (simp add: tx_ok_def tx_execute_def)
next
  case (Tx_Done i outcome)
  show ?thesis
  proof (cases "i \<in> set (tx_pending (xs_scope x))")
    case True
    then have p: "mset (tx_pending (xs_scope x)) = add_mset i (mset (remove1 i (tx_pending (xs_scope x))))"
      by simp
    show ?thesis
    proof (cases "tx_failure (xs_scope x)")
      case None
      with assms p have "mset (started (xs_log x)) = mset (completed (xs_log x))
          + add_mset i (mset (remove1 i (tx_pending (xs_scope x))))"
        by (simp only: tx_ok_def simp_thms)
      with Tx_Done True None show ?thesis
        by (cases outcome) (simp_all add: tx_ok_def tx_complete_parts)
    qed (simp add: Tx_Done tx_ok_def tx_complete_parts)
  next
    case False
    with assms Tx_Done show ?thesis
      by (cases "tx_failure (xs_scope x)") (simp_all add: tx_ok_def tx_complete_parts remove1_idem)
  qed
next
  case (Tx_Connection_Error e)
  then show ?thesis by (cases "tx_failure (xs_scope x)") (simp_all add: tx_ok_def tx_poison_def)
qed

lemma tx_events_grows: "grows x (tx_events evs x)"
  unfolding tx_events_def
  by (induction evs arbitrary: x) (auto intro: grows_trans tx_step_grows)

lemma tx_events_ok: "tx_ok x \<Longrightarrow> tx_ok (tx_events evs x)"
  unfolding tx_events_def by (induction evs arbitrary: x) (simp_all add: tx_step_ok)

lemma poison_grows [simp]: "grows x (x\<lparr>xs_scope := tx_poison e (xs_scope x)\<rparr>)"
  by (rule growsI[of _ _ "[]"]) (auto simp: tx_poison_def)

lemma poison_fails [simp]: "tx_failure (tx_poison e s) \<noteq> None"
  by (cases "tx_failure s") (simp_all add: tx_poison_def)

lemma poison_ok [simp]: "tx_ok (x\<lparr>xs_scope := tx_poison e (xs_scope x)\<rparr>)"
  using poison_fails[of e "xs_scope x"] by (simp add: tx_ok_def)

lemma tx_appends_spec:
  "grows x (tx_appends rs x) \<and> (tx_ok x \<longrightarrow> tx_ok (tx_appends rs x))
     \<and> (tx_failure (xs_scope (tx_appends rs x)) = None \<longrightarrow> (\<forall>r\<in>set rs. snd r = None))"
proof (induction rs x rule: tx_appends.induct)
  case (2 evs outcome rest x)
  let ?x = "tx_events evs x"
  show ?case
  proof (cases outcome)
    case None
    with 2[OF refl None] tx_events_ok[of x evs] grows_trans[OF tx_events_grows]
    show ?thesis by auto
  next
    case (Some e)
    have "grows x (?x\<lparr>xs_scope := tx_poison e (xs_scope ?x)\<rparr>)"
      by (rule grows_trans[OF tx_events_grows poison_grows])
    moreover have "tx_appends ((evs, outcome) # rest) x = ?x\<lparr>xs_scope := tx_poison e (xs_scope ?x)\<rparr>"
      using Some by (simp add: Let_def)
    ultimately show ?thesis
      using poison_fails[of e "xs_scope ?x"] by simp
  qed
qed simp

lemma shut_view: "grows x (x\<lparr>xs_callback_open := False\<rparr>)"
  by (rule growsI[of _ _ "[]"]) simp_all

lemma tx_ok_shut [simp]: "tx_ok (x\<lparr>xs_callback_open := b\<rparr>) = tx_ok x"
  by (simp add: tx_ok_def)

lemma tx_body_spec:
  assumes "tx_ok x"
  shows "grows x (tx_body sc x)" "tx_ok (tx_body sc x)" "\<not> xs_callback_open (tx_body sc x)"
    and "tx_failure (xs_scope (tx_body sc x)) = None \<Longrightarrow>
      (\<exists>v. sc_callback sc = Inr v) \<and> (\<forall>r\<in>set (sc_appends sc). snd r = None)"
proof -
  let ?x = "(tx_events (sc_during sc) x)\<lparr>xs_callback_open := False\<rparr>"
  have g: "grows x ?x" by (rule grows_trans[OF tx_events_grows shut_view])
  have ok: "tx_ok ?x" using tx_events_ok[OF assms] by simp
  have parts: "grows ?x (tx_body sc x) \<and> tx_ok (tx_body sc x)
    \<and> (tx_failure (xs_scope (tx_body sc x)) = None \<longrightarrow>
      (\<exists>v. sc_callback sc = Inr v) \<and> (\<forall>r\<in>set (sc_appends sc). snd r = None))"
  proof (cases "sc_callback sc")
    case (Inl e)
    then have "tx_body sc x = ?x\<lparr>xs_scope := tx_poison e (xs_scope ?x)\<rparr>"
      by (simp add: tx_body_def Let_def)
    with poison_grows[of ?x e] poison_ok[of e ?x] poison_fails[of e "xs_scope ?x"]
    show ?thesis by simp
  next
    case (Inr v)
    then have "tx_body sc x = tx_appends (sc_appends sc) ?x"
      by (simp add: tx_body_def Let_def)
    with tx_appends_spec[of ?x "sc_appends sc"] ok Inr show ?thesis by metis
  qed
  show "grows x (tx_body sc x)" by (rule grows_trans[OF g conjunct1[OF parts]])
  show "tx_ok (tx_body sc x)" using parts by blast
  show "\<not> xs_callback_open (tx_body sc x)" using parts by (auto elim: growsE)
  show "tx_failure (xs_scope (tx_body sc x)) = None \<Longrightarrow>
      (\<exists>v. sc_callback sc = Inr v) \<and> (\<forall>r\<in>set (sc_appends sc). snd r = None)"
    using parts by blast
qed

lemma stop_grows: "grows x (x\<lparr>xs_scope := tx_stop (xs_scope x)\<rparr>)"
  by (rule growsI[of _ _ "[]"]) (simp_all add: tx_stop_def)

lemma tx_finish_spec:
  assumes "tx_finish evs x = Some (f, y)"
  shows "grows x y" "f = tx_failure (xs_scope y)" "tx_pending (xs_scope y) = []"
    and "tx_ok x \<Longrightarrow> tx_ok y"
proof -
  let ?x = "x\<lparr>xs_scope := tx_stop (xs_scope x)\<rparr>"
  from assms have y: "y = tx_events evs ?x" and f: "f = tx_failure (xs_scope y)"
    and p: "tx_pending (xs_scope y) = []"
    by (auto simp: tx_finish_def Let_def split: if_splits)
  show "grows x y" unfolding y by (rule grows_trans[OF stop_grows tx_events_grows])
  show "f = tx_failure (xs_scope y)" "tx_pending (xs_scope y) = []" by (fact f, fact p)
  assume "tx_ok x"
  then have "tx_ok ?x" by (simp add: tx_ok_def tx_stop_def)
  then show "tx_ok y" unfolding y by (rule tx_events_ok)
qed

text \<open>What the outer \<open>try\<close> sends: without a commit only statements, with one everything settled before it.\<close>

definition no_commit_log :: "tx_command list \<Rightarrow> bool" where
  "no_commit_log l \<longleftrightarrow> (\<exists>cs. l = Sent_Begin # cs \<and> list_all is_statement cs)"

definition commit_log :: "tx_command list \<Rightarrow> bool" where
  "commit_log l \<longleftrightarrow> (\<exists>cs. l = Sent_Begin # cs @ [Sent_Commit] \<and> list_all is_statement cs
     \<and> mset (started cs) = mset (completed cs))"

text \<open>Once the view is shut and nothing is pending, no event adds a statement or a completion.\<close>

definition quiet :: "tx_state \<Rightarrow> bool" where
  "quiet x \<longleftrightarrow> \<not> xs_callback_open x \<and> tx_pending (xs_scope x) = []"

lemma quiet_step: "quiet x \<Longrightarrow> quiet (tx_step ev x) \<and> xs_log (tx_step ev x) = xs_log x"
  by (cases ev) (simp_all add: quiet_def tx_complete_parts tx_poison_def)

lemma quiet_events: "quiet x \<Longrightarrow> quiet (tx_events evs x) \<and> xs_log (tx_events evs x) = xs_log x"
  unfolding tx_events_def by (induction evs arbitrary: x) (simp_all add: quiet_step)

definition start_state :: tx_state where
  "start_state = \<lparr>xs_scope = new_tx_scope, xs_callback_open = True, xs_discard = None, xs_log = []\<rparr>"

lemma start_ok: "tx_ok (tx_log [Sent_Begin] start_state)"
  by (simp add: tx_ok_def tx_log_def start_state_def new_tx_scope_def)

lemma no_commit_grows:
  "grows (tx_log [Sent_Begin] start_state) y \<Longrightarrow> no_commit_log (xs_log y)"
  by (erule growsE) (simp add: no_commit_log_def tx_log_def start_state_def)

lemma tx_commit_phase_cases:
  assumes "tx_commit_phase sc start_state = Some (primary, committed, y)"
  obtains (aborted) e where "primary = Some e" "\<not> committed" "no_commit_log (xs_log y)"
  | (attempted) v where "commit_log (xs_log y)" "sc_callback sc = Inr v"
      "\<forall>r\<in>set (sc_appends sc). snd r = None" "primary = sc_commit sc"
      "committed \<longleftrightarrow> sc_commit sc = None"
proof -
  let ?x0 = "tx_log [Sent_Begin] start_state"
  let ?b = "tx_body sc ?x0"
  note body = tx_body_spec[OF start_ok, of sc]
  show thesis
  proof (cases "sc_begin sc")
    case (Some e)
    with assms obtain f where "primary = Some e" "\<not> committed" "tx_finish (sc_late sc) ?x0 = Some (f, y)"
      by (auto simp: tx_commit_phase_def Let_def)
    with no_commit_grows[OF tx_finish_spec(1)] show thesis by (intro aborted)
  next
    case None
    with assms obtain f x1 where fin: "tx_finish (sc_drain sc) ?b = Some (f, x1)"
      by (auto simp: tx_commit_phase_def Let_def split: option.splits)
    note fins = tx_finish_spec[OF fin]
    have g1: "grows ?x0 x1" by (rule grows_trans[OF body(1) fins(1)])
    show thesis
    proof (cases f)
      case (Some e)
      with None fin assms obtain f' where "primary = Some e" "\<not> committed"
        "tx_finish (sc_late sc) x1 = Some (f', y)"
        by (auto simp: tx_commit_phase_def Let_def)
      with no_commit_grows[OF grows_trans[OF g1 tx_finish_spec(1)]] show thesis by (intro aborted)
    next
      case fNone: None
      let ?x2 = "tx_events (sc_before_commit sc) x1"
      let ?x3 = "tx_log [Sent_Commit] ?x2"
      from fins(2) fNone have nf: "tx_failure (xs_scope x1) = None" by simp
      with fins(1) have "tx_failure (xs_scope ?b) = None" by (auto elim: growsE)
      with body(4) obtain v where cb: "sc_callback sc = Inr v"
        and ap: "\<forall>r\<in>set (sc_appends sc). snd r = None" by blast
      from fins(4)[OF body(2)] nf fins(3)
      have even: "mset (started (xs_log x1)) = mset (completed (xs_log x1))" by (simp add: tx_ok_def)
      from g1 obtain cs where cs: "xs_log x1 = Sent_Begin # cs" "list_all is_statement cs"
        by (rule growsE) (simp add: tx_log_def start_state_def)
      have shut: "\<not> xs_callback_open x1" using body(3) fins(1) by (auto elim: growsE)
      have q1: "quiet x1" using shut fins(3) by (simp add: quiet_def)
      then have q2: "quiet ?x2" and l2: "xs_log ?x2 = xs_log x1" by (simp_all add: quiet_events)
      have q3: "quiet (?x3\<lparr>xs_discard := d, xs_scope := tx_stop (xs_scope ?x3)\<rparr>)" for d
        using q2 by (simp add: quiet_def tx_log_def tx_stop_def)
      have c3: "commit_log (xs_log ?x3)"
        using cs even l2 by (auto simp: commit_log_def tx_log_def)
      show thesis
      proof (cases "sc_commit sc")
        case None
        with \<open>sc_begin sc = None\<close> fin fNone assms have "primary = None" "committed" "y = ?x3"
          by (auto simp: tx_commit_phase_def Let_def)
        with None c3 cb ap show thesis by (intro attempted) simp_all
      next
        case (Some e)
        with \<open>sc_begin sc = None\<close> fin fNone assms obtain f' where "primary = Some e" "\<not> committed"
          and last: "tx_finish (sc_late sc) (?x3\<lparr>xs_discard := Some e\<rparr>) = Some (f', y)"
          by (auto simp: tx_commit_phase_def Let_def)
        moreover from last have "xs_log y = xs_log ?x3"
          using quiet_events[OF q3[of "Some e"], of "sc_late sc"]
          by (auto simp: tx_finish_def Let_def split: if_splits)
        ultimately show thesis using Some c3 cb ap by (intro attempted) simp_all
      qed
    qed
  qed
qed

text \<open>
  C1. The business transaction is atomic whatever the callback and the database do. \<open>COMMIT\<close> is sent
  only after the callback returned normally, every prepared record was appended, and every statement
  that was ever admitted, awaited by the callback or not, completed successfully before it. The
  caller gets a value only if the commit was confirmed, and then it is the callback's; without a
  confirmed commit \<open>ROLLBACK\<close> is sent. The client is released exactly once, at the end.
\<close>

theorem outbox_transaction_atomic:
  assumes "outbox_transaction sc = Some (out, cs)" and "sc_connect sc = None"
  shows "(Sent_Commit \<in> set cs \<longrightarrow>
       (\<exists>before after. cs = before @ Sent_Commit # after
          \<and> mset (started before) = mset (completed before) \<and> started after = [])
       \<and> (\<exists>v. sc_callback sc = Inr v) \<and> (\<forall>r\<in>set (sc_appends sc). snd r = None))
    \<and> (\<forall>v. out = Inr v \<longrightarrow> sc_callback sc = Inr v \<and> Sent_Commit \<in> set cs \<and> sc_commit sc = None)
    \<and> (Sent_Rollback \<in> set cs \<longleftrightarrow> \<not> (Sent_Commit \<in> set cs \<and> sc_commit sc = None))
    \<and> (\<exists>body discard. cs = body @ [Released discard] \<and> (\<forall>d. Released d \<notin> set body))"
proof -
  from assms obtain primary committed x discard cleanup where
    ph: "tx_commit_phase sc start_state = Some (primary, committed, x)"
    and out: "out = tx_result sc primary committed cleanup"
    and cs: "cs = xs_log x @ (if committed then [] else [Sent_Rollback]) @ [Released discard]"
    unfolding outbox_transaction_def start_state_def Let_def
    by (auto split: option.splits)
  have st: "list_all is_statement l \<Longrightarrow> Sent_Commit \<notin> set l \<and> Sent_Rollback \<notin> set l \<and> (\<forall>d. Released d \<notin> set l)" for l
    by (auto simp: list_all_iff is_statement_def)
  from ph show ?thesis
  proof (cases rule: tx_commit_phase_cases)
    case (aborted e)
    from aborted(3) obtain l where l: "xs_log x = Sent_Begin # l" "list_all is_statement l"
      by (auto simp: no_commit_log_def)
    have "out \<noteq> Inr v" for v using out aborted(1) by (auto simp: tx_result_def)
    moreover have "Sent_Commit \<notin> set cs" "Sent_Rollback \<in> set cs"
      using cs l st[OF l(2)] aborted(2) by auto
    moreover have "cs = (Sent_Begin # l @ [Sent_Rollback]) @ [Released discard]"
      using cs l(1) aborted(2) by simp
    moreover have "\<forall>d. Released d \<notin> set (Sent_Begin # l @ [Sent_Rollback])"
      using st[OF l(2)] by simp
    ultimately show ?thesis by blast
  next
    case (attempted v)
    from attempted(1) obtain l where l: "xs_log x = Sent_Begin # l @ [Sent_Commit]"
      "list_all is_statement l" "mset (started l) = mset (completed l)"
      by (auto simp: commit_log_def)
    let ?r = "if committed then [] else [Sent_Rollback]"
    have split: "cs = (Sent_Begin # l) @ Sent_Commit # ?r @ [Released discard]"
      using cs l(1) by simp
    have before: "mset (started (Sent_Begin # l)) = mset (completed (Sent_Begin # l))"
      and after: "started (?r @ [Released discard]) = []"
      using l(3) by simp_all
    have rb: "Sent_Rollback \<in> set cs \<longleftrightarrow> \<not> committed"
      using split st[OF l(2)] by auto
    have cm: "Sent_Commit \<in> set cs" using split by simp
    have value': "sc_callback sc = Inr w \<and> sc_commit sc = None" if "out = Inr w" for w
      using that out attempted(2,4) by (auto simp: tx_result_def split: if_splits option.splits)
    have rel: "cs = (Sent_Begin # l @ Sent_Commit # ?r) @ [Released discard]"
      "\<forall>d. Released d \<notin> set (Sent_Begin # l @ Sent_Commit # ?r)"
      using split st[OF l(2)] by simp_all
    have c1: "\<exists>before after. cs = before @ Sent_Commit # after
          \<and> mset (started before) = mset (completed before) \<and> started after = []"
      using split before after by blast
    show ?thesis
      using c1 cm attempted(2,3,5) rb value' rel by blast
  qed
qed

text \<open>
  A callback that starts two statements, one of which is not awaited and completes while the library
  drains; the connection commits.
\<close>

definition sample_script :: "nat tx_script" where
  "sample_script = \<lparr>sc_connect = None, sc_begin = None,
     sc_during = [Tx_Call 1, Tx_Call 2, Tx_Done 1 None], sc_callback = Inr 7,
     sc_appends = [([], None)], sc_drain = [Tx_Call 3, Tx_Done 2 None], sc_before_commit = [],
     sc_commit = None, sc_late = [], sc_rollback = None, sc_release = None\<rparr>"

lemma sample_transaction:
  "outbox_transaction sample_script = Some (Inr 7, [Sent_Begin, Sent_Statement 1, Sent_Statement 2,
     Completed 1, Completed 2, Sent_Commit, Released None])"
  by (simp add: outbox_transaction_def sample_script_def tx_commit_phase_def tx_body_def tx_events_def
      tx_finish_def tx_log_def new_tx_scope_def tx_execute_def tx_complete_def tx_stop_def tx_result_def
      Let_def)

theorem outbox_transaction_atomic_witness:
  "\<exists>cs. outbox_transaction sample_script = Some (Inr 7, cs) \<and> Sent_Commit \<in> set cs
     \<and> Sent_Rollback \<notin> set cs"
proof -
  have c: "sc_connect sample_script = None" by (simp add: sample_script_def)
  from outbox_transaction_atomic[OF sample_transaction c] sample_transaction c
  show ?thesis by (intro exI conjI) (assumption, blast+)
qed

lemma driver_open_fold:
  "sd_accepting d \<Longrightarrow> sd_accepting (fold driver_step evs d)"
proof (induction evs arbitrary: d)
  case (Cons ev evs)
  then have "sd_accepting (driver_step ev d)"
    by (cases ev) (simp_all add: drv.admit_open drv.settle_open driver_unsupported_def drv.poison_open Let_def)
  with Cons.IH show ?case by simp
qed simp

lemma driver_closed_fold:
  "\<not> sd_accepting d \<Longrightarrow> \<not> sd_accepting (fold driver_step evs d)"
proof (induction evs arbitrary: d)
  case (Cons ev evs)
  then have "\<not> sd_accepting (driver_step ev d)"
    by (cases ev) (simp_all add: drv.admit_open drv.settle_open driver_unsupported_def Let_def)
  with Cons.IH show ?case by simp
qed simp

lemma driver_failure_fold:
  "sd_failure d \<noteq> None \<Longrightarrow> sd_failure (fold driver_step evs d) \<noteq> None"
proof (induction evs arbitrary: d)
  case (Cons ev evs)
  then have "sd_failure (driver_step ev d) \<noteq> None"
    by (cases ev) (auto simp: drv.admit_failure drv.settle_failure driver_unsupported_def
        drv.poison_failure Let_def)
  with Cons.IH show ?case by simp
qed simp

text \<open>
  The Kysely driver is a faithful gate in front of the managed transaction: a call that returns a
  value returned the callback's value, after every statement it admitted had completed successfully
  and without the callback having tried to begin, commit, roll back, stream or destroy; once it has
  returned no further statement is admitted.
\<close>

theorem run_kysely_gate:
  assumes "run_kysely before callback after = Some (Inr v, d)"
  shows "callback = Inr v \<and> sd_pending d = [] \<and> Driver_Unsupported \<notin> set before
    \<and> (\<forall>i e as bs. before = as @ Driver_Done i (Some e) # bs \<longrightarrow>
         i \<notin> set (sd_pending (fold driver_step as new_driver)))
    \<and> (\<forall>i evs. fst (driver_admit i (fold driver_step evs d)) = False)"
proof -
  let ?d1 = "fold driver_step before new_driver"
  from assms have cb: "callback = Inr v" and p: "sd_pending d = []" and nf: "sd_failure d = None"
    and d: "d = fold driver_step after (driver_stop ?d1)"
    by (auto simp: run_kysely_def Let_def split: if_splits option.splits sum.splits)
  have "sd_failure (driver_stop ?d1) = None"
    using nf driver_failure_fold[of "driver_stop ?d1" after] d by (cases "sd_failure (driver_stop ?d1)") auto
  then have nf1: "sd_failure ?d1 = None" by (simp add: drv.close_failure)
  have open': "sd_accepting (fold driver_step as new_driver)" for as
    by (rule driver_open_fold) (simp add: new_driver_def)
  have "Driver_Unsupported \<notin> set before"
  proof
    assume "Driver_Unsupported \<in> set before"
    then obtain as bs where b: "before = as @ Driver_Unsupported # bs" by (auto simp: in_set_conv_decomp)
    have "sd_failure (driver_step Driver_Unsupported (fold driver_step as new_driver)) \<noteq> None"
      using open'[of as] by (cases "sd_failure (fold driver_step as new_driver)")
        (simp_all add: driver_unsupported_def drv.poison_failure Let_def)
    from driver_failure_fold[OF this, of bs] nf1 b show False by simp
  qed
  moreover have "i \<notin> set (sd_pending (fold driver_step as new_driver))"
    if b: "before = as @ Driver_Done i (Some e) # bs" for i e as bs
  proof
    assume "i \<in> set (sd_pending (fold driver_step as new_driver))"
    then have "sd_failure (driver_step (Driver_Done i (Some e)) (fold driver_step as new_driver)) \<noteq> None"
      by (cases "sd_failure (fold driver_step as new_driver)") (simp_all add: drv.settle_failure)
    from driver_failure_fold[OF this, of bs] nf1 b show False by simp
  qed
  moreover have "\<not> sd_accepting d"
    unfolding d by (rule driver_closed_fold) (simp add: driver_stop_def)
  then have "fst (driver_admit i (fold driver_step evs d)) = False" for i evs
    using driver_closed_fold by (simp add: drv.admit_accepts)
  ultimately show ?thesis using cb p by blast
qed

theorem run_kysely_gate_witness:
  "\<exists>d. run_kysely [Driver_Query 1] (Inr True) [Driver_Done 1 None] = Some (Inr True, d)
     \<and> fst (driver_admit 2 d) = False"
proof -
  let ?d = "\<lparr>sd_accepting = False, sd_pending = [], sd_failure = None\<rparr>"
  have r: "run_kysely [Driver_Query 1] (Inr True) [Driver_Done 1 None] = Some (Inr True, ?d)"
    by (simp add: run_kysely_def new_driver_def driver_admit_def driver_settle_def driver_stop_def Let_def)
  from run_kysely_gate[OF r] have "fst (driver_admit 2 (fold driver_step [] ?d)) = False" by blast
  with r show ?thesis by auto
qed

end
