(* ===== verification/Mq_Controlled_Store.thy ===== *)
theory Mq_Controlled_Store
  imports Mq_Contracts
begin

text \<open>
  \<open>src/engine/controlled-clock.ts\<close>, \<open>src/engine/controlled-store.ts\<close> and
  \<open>src/engine/flow-read-store.ts\<close>: the store the workers of a connection use. It sends the
  operations of queues with an enabled policy to the controlled protocol of the adapter, and the
  rest to the ordinary one. The adapter is a parameter: its operations are functions on a state
  \<open>'w\<close> of any type, reads leave the state as it is. Times and limits are integers.
\<close>

datatype store_error =
    Store_Failure string bool
  | Revision_Mismatch
  | Lease_Lost
  | Settlement_Conflict
  | Not_Cancellable
  | Stale_Now
  | Other_Store_Error nat

datatype job_state = Job_Waiting | Job_Active | Job_Waiting_Children | Job_Completed | Job_Failed | Job_Cancelled_State

record job_view =
  jv_id :: nat
  jv_queue :: string
  jv_state :: job_state
  jv_updated_at :: int

record controls_record =
  cr_queue :: string
  cr_group :: string
  cr_enabled :: bool
  cr_revision :: nat
  cr_global :: "jsnum option"
  cr_per_key :: "jsnum option"
  cr_rate_limit :: "rate_limit option"

type_synonym ('w, 'v) store_op = "'w \<Rightarrow> (store_error + 'v) \<times> 'w"

record claim_request =
  cq_queue :: string
  cq_limit :: nat
  cq_now :: int

record claim_result =
  cl_jobs :: "nat list"
  cl_wake :: nat
  cl_next_run_at :: "int option"

record controlled_claim =
  kl_jobs :: "nat list"
  kl_wake :: nat
  kl_next_eligible :: "int option"
  kl_next_run_at :: "int option"

datatype outcome = Outcome_Done jsval | Outcome_Fail jsval | Outcome_Retry int jsval

record settle_request =
  sq_job :: nat
  sq_token :: nat
  sq_now :: int
  sq_outcome :: outcome

record lease_request =
  lq_job :: nat
  lq_token :: nat
  lq_now :: int

record recover_request =
  rq_queue :: "string option"
  rq_limit :: "int option"
  rq_now :: int

record 'w controlled_ext =
  ce_get_controls :: "string \<Rightarrow> 'w \<Rightarrow> store_error + controls_record option"
  ce_claim :: "claim_request \<Rightarrow> nat \<Rightarrow> ('w, controlled_claim) store_op"
  ce_settle :: "settle_request \<Rightarrow> nat \<Rightarrow> ('w, nat) store_op"
  ce_release :: "lease_request \<Rightarrow> nat \<Rightarrow> ('w, nat) store_op"
  ce_cancel :: "lease_request \<Rightarrow> nat \<Rightarrow> ('w, nat) store_op"
  ce_recover :: "string \<Rightarrow> int option \<Rightarrow> int \<Rightarrow> nat \<Rightarrow> ('w, nat list) store_op"

record 'w job_store =
  js_methods :: "string list"
  js_ext :: "'w controlled_ext"
  js_get_job :: "nat \<Rightarrow> 'w \<Rightarrow> store_error + job_view option"
  js_claim :: "claim_request \<Rightarrow> ('w, claim_result) store_op"
  js_settle :: "settle_request \<Rightarrow> ('w, nat) store_op"
  js_release :: "lease_request \<Rightarrow> ('w, nat) store_op"
  js_cancel :: "lease_request \<Rightarrow> ('w, nat) store_op"
  js_recover :: "recover_request \<Rightarrow> ('w, nat list) store_op"

subsection \<open>Refreshing a rejected time\<close>

text \<open>
  \<open>mutate\<close> is called with a time and answers on the current state; \<open>date_now\<close> is the clock read in
  each refresh. The third component records the times \<open>mutate\<close> was called with.
\<close>

fun refresh_clock :: "(nat \<Rightarrow> 'w \<Rightarrow> store_error + job_view option) \<Rightarrow> nat \<Rightarrow> (nat \<Rightarrow> int)
    \<Rightarrow> (int \<Rightarrow> ('w, 'v) store_op) \<Rightarrow> nat \<Rightarrow> int \<Rightarrow> (store_error + 'v) \<Rightarrow> 'w
    \<Rightarrow> (store_error + 'v) \<times> 'w \<times> int list" where
  "refresh_clock get_job job date_now mutate 0 now result w = (result, w, [])"
| "refresh_clock get_job job date_now mutate (Suc n) now result w =
     (if result \<noteq> Inl Stale_Now then (result, w, [])
      else case get_job job w of
        Inl e \<Rightarrow> (Inl e, w, [])
      | Inr None \<Rightarrow> (result, w, [])
      | Inr (Some current) \<Rightarrow>
          let refreshed = max now (max (jv_updated_at current) (date_now n)) in
          if refreshed \<le> now then (result, w, [])
          else case mutate refreshed w of
            (result', w') \<Rightarrow>
              (case refresh_clock get_job job date_now mutate n refreshed result' w' of
                 (r, w'', nows) \<Rightarrow> (r, w'', refreshed # nows)))"

definition with_fresh_clock :: "(nat \<Rightarrow> 'w \<Rightarrow> store_error + job_view option) \<Rightarrow> nat \<Rightarrow> (nat \<Rightarrow> int)
    \<Rightarrow> int \<Rightarrow> (int \<Rightarrow> ('w, 'v) store_op) \<Rightarrow> 'w \<Rightarrow> (store_error + 'v) \<times> 'w \<times> int list" where
  "with_fresh_clock get_job job date_now sampled mutate w =
     (case mutate sampled w of (result, w') \<Rightarrow>
        case refresh_clock get_job job date_now mutate 3 sampled result w' of
          (r, w'', nows) \<Rightarrow> (r, w'', sampled # nows))"

text \<open>
  The calls of \<open>mutate\<close> as a chain: each starts in the state the one before it left, and every call
  but the last was refused for its time. \<open>chain\<close> gives the answer and the state of the last call.
\<close>

fun chain :: "(int \<Rightarrow> ('w, 'v) store_op) \<Rightarrow> int list \<Rightarrow> 'w \<Rightarrow> (store_error + 'v) \<Rightarrow> 'w \<Rightarrow> bool" where
  "chain mutate [] w r w' = False"
| "chain mutate [now] w r w' = (mutate now w = (r, w'))"
| "chain mutate (now # later # nows) w r w' =
     (\<exists>v. mutate now w = (Inl Stale_Now, v) \<and> chain mutate (later # nows) v r w')"

lemma refresh_clock_spec:
  assumes "refresh_clock get_job job date_now mutate n now result w = (r, w', nows)"
    and "mutate now v = (result, w)"
  shows "length nows \<le> n \<and> sorted_wrt (<) (now # nows)
    \<and> (\<exists>answer. chain mutate (now # nows) v answer w'
         \<and> (r = answer \<or> answer = Inl Stale_Now \<and> (\<exists>e. get_job job w' = Inl e \<and> r = Inl e)))"
  using assms
proof (induction n arbitrary: now result w v nows)
  case (Suc n)
  show ?case
  proof (cases "nows")
    case Nil
    with Suc.prems show ?thesis
      by (auto simp: Let_def split: if_splits sum.splits option.splits prod.splits)
  next
    case (Cons now' rest)
    with Suc.prems(1) have res: "result = Inl Stale_Now"
      by (auto split: if_splits)
    from Cons Suc.prems(1) obtain current result' w1 where
      less: "now < now'" and m: "mutate now' w = (result', w1)"
      and rec: "refresh_clock get_job job date_now mutate n now' result' w1 = (r, w', rest)"
      by (auto simp: Let_def split: if_splits sum.splits option.splits prod.splits)
    from Suc.IH[OF rec m] obtain answer where
      len: "length rest \<le> n" and so: "sorted_wrt (<) (now' # rest)"
      and ch: "chain mutate (now' # rest) w answer w'"
      and r: "r = answer \<or> answer = Inl Stale_Now \<and> (\<exists>e. get_job job w' = Inl e \<and> r = Inl e)"
      by blast
    from so less have "sorted_wrt (<) (now # now' # rest)" by auto
    moreover have "chain mutate (now # now' # rest) v answer w'"
      using ch Suc.prems(2) res by auto
    ultimately show ?thesis using len r Cons by auto
  qed
qed auto

text \<open>
  C13. A mutation of a controlled job is attempted at most four times, at strictly increasing times,
  and is repeated only after the store refused it for its time: any other answer, success or error,
  certain or not, is final and is what the caller gets. The only answer that is not the store's answer
  to the last attempt is the error of the read that would have justified another one.
\<close>

theorem with_fresh_clock_at_most_once:
  assumes "with_fresh_clock get_job job date_now sampled mutate w = (r, w', nows)"
  shows "length nows \<le> 4 \<and> hd nows = sampled \<and> sorted_wrt (<) nows
    \<and> (\<exists>answer. chain mutate nows w answer w'
         \<and> (r = answer \<or> answer = Inl Stale_Now \<and> (\<exists>e. get_job job w' = Inl e \<and> r = Inl e)))"
proof -
  obtain result w1 where m: "mutate sampled w = (result, w1)" by fastforce
  with assms obtain rest where nows: "nows = sampled # rest"
    and rec: "refresh_clock get_job job date_now mutate 3 sampled result w1 = (r, w', rest)"
    by (auto simp: with_fresh_clock_def split: prod.splits)
  from refresh_clock_spec[OF rec m] nows show ?thesis by auto
qed

text \<open>A store that refuses times before 8: the sampled time 5 is refused once.\<close>

definition strict_mutate :: "int \<Rightarrow> (nat, nat) store_op" where
  "strict_mutate now w = (if now < 8 then (Inl Stale_Now, w) else (Inr 1, Suc w))"

definition strict_job :: "nat \<Rightarrow> nat \<Rightarrow> store_error + job_view option" where
  "strict_job i w = Inr (Some \<lparr>jv_id = i, jv_queue = ''q'', jv_state = Job_Active, jv_updated_at = 8\<rparr>)"

theorem with_fresh_clock_at_most_once_witness:
  "with_fresh_clock strict_job 0 (\<lambda>_. 6) 5 strict_mutate 0 = (Inr 1, 1, [5, 8])
   \<and> chain strict_mutate [5, 8] 0 (Inr 1) 1"
proof -
  have e: "with_fresh_clock strict_job 0 (\<lambda>_. 6) 5 strict_mutate 0 = (Inr 1, 1, [5, 8])"
    by (simp add: with_fresh_clock_def strict_mutate_def strict_job_def numeral_3_eq_3)
  from with_fresh_clock_at_most_once[OF e] e show ?thesis by auto
qed

subsection \<open>The controlled protocol\<close>

definition controlled_methods :: "string list" where
  "controlled_methods = [''getControls'', ''reconcile'', ''claimControlled'', ''settleControlled'',
     ''releaseControlled'', ''recoverStalledControlled'', ''cancelControlled'']"

definition controlled_store :: "'w job_store \<Rightarrow> 'w controlled_ext option" where
  "controlled_store store =
     (if \<forall>m\<in>set controlled_methods. m \<in> set (js_methods store) then Some (js_ext store) else None)"

definition require_controlled_store :: "'w job_store \<Rightarrow> 'w controlled_ext res" where
  "require_controlled_store store =
     (case controlled_store store of
        None \<Rightarrow> Inl (Queue_Controls ControlsCapability) | Some e \<Rightarrow> Inr e)"

definition normalize_error :: "store_error + 'v \<Rightarrow> string \<Rightarrow> store_error + 'v" where
  "normalize_error r operation =
     (case r of
        Inr v \<Rightarrow> Inr v
      | Inl (Store_Failure op retryable) \<Rightarrow> Inl (Store_Failure op retryable)
      | Inl e \<Rightarrow> Inl (Store_Failure operation (e = Revision_Mismatch)))"

text \<open>The names of the registered queues that declare controls.\<close>

definition required_queues :: "queue_definition list \<Rightarrow> string list" where
  "required_queues queues = map qd_name (filter (\<lambda>q. qd_controls q \<noteq> None) queues)"

definition queue_policy :: "'w controlled_ext \<Rightarrow> queue_definition list \<Rightarrow> string \<Rightarrow> bool \<Rightarrow> 'w
    \<Rightarrow> store_error + controls_record option" where
  "queue_policy ext queues queue fail_closed w =
     (case normalize_error (ce_get_controls ext queue w) ''getControls'' of
        Inl e \<Rightarrow> Inl e
      | Inr found \<Rightarrow>
          let enabled = (case found of Some c \<Rightarrow> cr_enabled c | None \<Rightarrow> False) in
          if fail_closed \<and> queue \<in> set (required_queues queues) \<and> \<not> enabled
          then Inl (Store_Failure ''claim'' False)
          else Inr (if enabled then found else None))"

definition job_policy_of :: "'w job_store \<Rightarrow> 'w controlled_ext \<Rightarrow> queue_definition list \<Rightarrow> nat \<Rightarrow> 'w
    \<Rightarrow> store_error + controls_record option" where
  "job_policy_of store ext queues job w =
     (case normalize_error (js_get_job store job w) ''getJob'' of
        Inl e \<Rightarrow> Inl e
      | Inr None \<Rightarrow> Inr None
      | Inr (Some j) \<Rightarrow> queue_policy ext queues (jv_queue j) False w)"

definition dispatch_claim :: "'w job_store \<Rightarrow> queue_definition list \<Rightarrow> claim_request
    \<Rightarrow> ('w, claim_result) store_op" where
  "dispatch_claim store queues request w =
     (case controlled_store store of
        None \<Rightarrow> js_claim store request w
      | Some ext \<Rightarrow>
          (case queue_policy ext queues (cq_queue request) True w of
             Inl e \<Rightarrow> (Inl e, w)
           | Inr None \<Rightarrow> js_claim store request w
           | Inr (Some controls) \<Rightarrow>
               (case ce_claim ext request (cr_revision controls) w of
                  (claimed, w') \<Rightarrow>
                    ((case normalize_error claimed ''claim'' of
                        Inl e \<Rightarrow> Inl e
                      | Inr c \<Rightarrow> Inr \<lparr>cl_jobs = kl_jobs c, cl_wake = kl_wake c,
                          cl_next_run_at = orelse_opt (kl_next_eligible c) (kl_next_run_at c)\<rparr>), w'))))"

text \<open>A settlement at a refreshed time keeps the lease token, and a retry keeps its delay.\<close>

definition settle_at :: "settle_request \<Rightarrow> int \<Rightarrow> settle_request" where
  "settle_at request now = request\<lparr>sq_now := now,
     sq_outcome := (case sq_outcome request of
        Outcome_Retry run_at v \<Rightarrow> Outcome_Retry (run_at + (now - sq_now request)) v
      | x \<Rightarrow> x)\<rparr>"

definition dispatch_settle :: "(nat \<Rightarrow> int) \<Rightarrow> 'w job_store \<Rightarrow> queue_definition list \<Rightarrow> settle_request
    \<Rightarrow> ('w, nat) store_op" where
  "dispatch_settle date_now store queues request w =
     (case controlled_store store of
        None \<Rightarrow> js_settle store request w
      | Some ext \<Rightarrow>
          (case job_policy_of store ext queues (sq_job request) w of
             Inl e \<Rightarrow> (Inl e, w)
           | Inr None \<Rightarrow> js_settle store request w
           | Inr (Some controls) \<Rightarrow>
               (case with_fresh_clock (js_get_job store) (sq_job request) date_now (sq_now request)
                   (\<lambda>now. ce_settle ext (settle_at request now) (cr_revision controls)) w of
                  (settled, w', _) \<Rightarrow>
                    ((if settled \<in> {Inl Lease_Lost, Inl Settlement_Conflict} then settled
                      else normalize_error settled ''settle''), w'))))"

definition dispatch_release :: "(nat \<Rightarrow> int) \<Rightarrow> 'w job_store \<Rightarrow> queue_definition list \<Rightarrow> lease_request
    \<Rightarrow> ('w, nat) store_op" where
  "dispatch_release date_now store queues request w =
     (case controlled_store store of
        None \<Rightarrow> js_release store request w
      | Some ext \<Rightarrow>
          (case job_policy_of store ext queues (lq_job request) w of
             Inl e \<Rightarrow> (Inl e, w)
           | Inr None \<Rightarrow> js_release store request w
           | Inr (Some controls) \<Rightarrow>
               (case with_fresh_clock (js_get_job store) (lq_job request) date_now (lq_now request)
                   (\<lambda>now. ce_release ext (request\<lparr>lq_now := now\<rparr>) (cr_revision controls)) w of
                  (released, w', _) \<Rightarrow>
                    ((if released = Inl Lease_Lost then released else normalize_error released ''release''), w'))))"

definition dispatch_cancel :: "(nat \<Rightarrow> int) \<Rightarrow> 'w job_store \<Rightarrow> queue_definition list \<Rightarrow> lease_request
    \<Rightarrow> ('w, nat) store_op" where
  "dispatch_cancel date_now store queues request w =
     (case controlled_store store of
        None \<Rightarrow> js_cancel store request w
      | Some ext \<Rightarrow>
          (case job_policy_of store ext queues (lq_job request) w of
             Inl e \<Rightarrow> (Inl e, w)
           | Inr None \<Rightarrow> js_cancel store request w
           | Inr (Some controls) \<Rightarrow>
               (case with_fresh_clock (js_get_job store) (lq_job request) date_now (lq_now request)
                   (\<lambda>now. ce_cancel ext (request\<lparr>lq_now := now\<rparr>) (cr_revision controls)) w of
                  (cancelled, w', _) \<Rightarrow>
                    ((if cancelled = Inl Not_Cancellable then cancelled
                      else normalize_error cancelled ''cancel''), w'))))"

text \<open>What is left of the limit of a recovery after the transitions so far.\<close>

definition remaining :: "int option \<Rightarrow> nat list \<Rightarrow> int option" where
  "remaining limit transitions = map_option (\<lambda>l. l - int (length transitions)) limit"

definition native_sweep :: "'w job_store \<Rightarrow> recover_request \<Rightarrow> nat list \<Rightarrow> ('w, nat list) store_op" where
  "native_sweep store request transitions w =
     (let limit = remaining (rq_limit request) transitions in
      if limit = Some 0 then (Inr transitions, w)
      else case js_recover store (request\<lparr>rq_limit := limit\<rparr>) w of
        (Inl e, w') \<Rightarrow> (Inl e, w')
      | (Inr recovered, w') \<Rightarrow> (Inr (transitions @ recovered), w'))"

fun recover_queues :: "(string \<Rightarrow> bool) \<Rightarrow> 'w job_store \<Rightarrow> 'w controlled_ext \<Rightarrow> queue_definition list
    \<Rightarrow> recover_request \<Rightarrow> queue_definition list \<Rightarrow> bool \<Rightarrow> nat list \<Rightarrow> ('w, nat list) store_op" where
  "recover_queues name_ok store ext queues request [] native transitions w =
     (if native then native_sweep store request transitions w else (Inr transitions, w))"
| "recover_queues name_ok store ext queues request (q # qs) native transitions w =
     (if \<not> name_ok (qd_name q) then (Inl (Store_Failure ''recoverStalled'' False), w)
      else case queue_policy ext queues (qd_name q) False w of
        Inl e \<Rightarrow> (Inl e, w)
      | Inr None \<Rightarrow> recover_queues name_ok store ext queues request qs True transitions w
      | Inr (Some controls) \<Rightarrow>
          let limit = remaining (rq_limit request) transitions in
          if limit = Some 0 then (Inr transitions, w)
          else (case ce_recover ext (qd_name q) limit (rq_now request) (cr_revision controls) w of
              (recovered, w') \<Rightarrow>
                (case normalize_error recovered ''recoverStalled'' of
                   Inl e \<Rightarrow> (Inl e, w')
                 | Inr found \<Rightarrow>
                     recover_queues name_ok store ext queues request qs native (transitions @ found) w')))"

definition dispatch_recover :: "(string \<Rightarrow> bool) \<Rightarrow> 'w job_store \<Rightarrow> queue_definition list
    \<Rightarrow> recover_request \<Rightarrow> ('w, nat list) store_op" where
  "dispatch_recover name_ok store queues request w =
     (case controlled_store store of
        None \<Rightarrow> js_recover store request w
      | Some ext \<Rightarrow>
          (case rq_queue request of
             Some queue \<Rightarrow>
               (case queue_policy ext queues queue False w of
                  Inl e \<Rightarrow> (Inl e, w)
                | Inr None \<Rightarrow> js_recover store request w
                | Inr (Some controls) \<Rightarrow>
                    (case ce_recover ext queue (rq_limit request) (rq_now request) (cr_revision controls) w of
                       (recovered, w') \<Rightarrow> (normalize_error recovered ''recoverStalled'', w')))
           | None \<Rightarrow>
               if queues = [] then js_recover store request w
               else recover_queues name_ok store ext queues request queues False [] w))"

lemma normal_value [simp]: "normalize_error (Inr v) op = Inr v"
  by (simp add: normalize_error_def)

lemma normal_ok [simp]: "normalize_error r op = Inr v \<longleftrightarrow> r = Inr v"
  by (cases r) (auto simp: normalize_error_def split: store_error.splits)

lemma queue_policy_Some:
  "queue_policy ext queues q fc w = Inr (Some c) \<longleftrightarrow>
     ce_get_controls ext q w = Inr (Some c) \<and> cr_enabled c"
  by (auto simp: queue_policy_def Let_def split: sum.splits option.splits if_splits)

lemma queue_policy_None_closed:
  "queue_policy ext queues q True w = Inr None \<Longrightarrow> q \<notin> set (required_queues queues)"
  by (auto simp: queue_policy_def Let_def split: sum.splits option.splits if_splits)

text \<open>
  C14. Claims fail closed. On an adapter with the controlled protocol no job of a queue that declares
  controls is ever claimed through the ordinary protocol: either its policy is persisted and enabled
  and the claim goes to the controlled operation with the policy's current revision, or the claim
  fails and nothing changed.
\<close>

theorem claim_fails_closed:
  assumes "controlled_store store = Some ext"
    and "cq_queue request \<in> set (required_queues queues)"
    and "dispatch_claim store queues request w = (r, w')"
  shows "(\<exists>c. ce_get_controls ext (cq_queue request) w = Inr (Some c) \<and> cr_enabled c
           \<and> w' = snd (ce_claim ext request (cr_revision c) w)
           \<and> (is_ok r \<longleftrightarrow> is_ok (fst (ce_claim ext request (cr_revision c) w))))
         \<or> (w' = w \<and> \<not> is_ok r)"
proof (cases "queue_policy ext queues (cq_queue request) True w")
  case (Inl e)
  with assms show ?thesis by (auto simp: dispatch_claim_def)
next
  case (Inr found)
  have "found \<noteq> None"
    using queue_policy_None_closed[of ext queues "cq_queue request" w] Inr assms(2) by auto
  then obtain c where c: "found = Some c" by auto
  obtain claimed v where k: "ce_claim ext request (cr_revision c) w = (claimed, v)" by fastforce
  from Inr c have "ce_get_controls ext (cq_queue request) w = Inr (Some c) \<and> cr_enabled c"
    by (simp add: queue_policy_Some)
  moreover have "w' = v \<and> (is_ok r \<longleftrightarrow> is_ok claimed)"
    using assms(1,3) Inr c k
    by (cases "normalize_error claimed ''claim''"; cases claimed)
       (auto simp: dispatch_claim_def)
  ultimately show ?thesis using k by auto
qed

text \<open>The adapter respects the limits it is given.\<close>

definition respects_limits :: "'w job_store \<Rightarrow> bool" where
  "respects_limits store \<longleftrightarrow>
     (\<forall>q l now rev w found w'. 0 \<le> l \<longrightarrow>
        ce_recover (js_ext store) q (Some l) now rev w = (Inr found, w') \<longrightarrow> int (length found) \<le> l)
     \<and> (\<forall>request l w found w'. rq_limit request = Some l \<longrightarrow> 0 \<le> l \<longrightarrow> js_recover store request w = (Inr found, w') \<longrightarrow>
        int (length found) \<le> l)"

lemma native_sweep_limit:
  assumes "native_sweep store request transitions w = (Inr found, w')"
    and "respects_limits store" and "rq_limit request = Some l"
    and "int (length transitions) \<le> l"
  shows "int (length found) \<le> l"
proof (cases "l = int (length transitions)")
  case True
  with assms(1,3,4) show ?thesis by (simp add: native_sweep_def remaining_def)
next
  case False
  with assms(1,3) obtain more v where f: "found = transitions @ more"
    and j: "js_recover store (request\<lparr>rq_limit := Some (l - int (length transitions))\<rparr>) w = (Inr more, v)"
    by (auto simp: native_sweep_def remaining_def split: prod.splits sum.splits)
  have "rq_limit (request\<lparr>rq_limit := Some (l - int (length transitions))\<rparr>) = Some (l - int (length transitions))"
    by simp
  moreover have "0 \<le> l - int (length transitions)" using assms(4) by simp
  ultimately have "int (length more) \<le> l - int (length transitions)"
    using assms(2) j unfolding respects_limits_def by blast
  with f show ?thesis by simp
qed

lemma recover_queues_limit:
  assumes "recover_queues name_ok store (js_ext store) queues request qs native transitions w = (Inr found, w')"
    and "respects_limits store" and "rq_limit request = Some l"
    and "int (length transitions) \<le> l"
  shows "int (length found) \<le> l"
  using assms(1,4)
proof (induction qs arbitrary: native transitions w)
  case Nil
  then show ?case
    using native_sweep_limit[OF _ assms(2,3)] by (cases native) auto
next
  case (Cons q qs)
  let ?p = "queue_policy (js_ext store) queues (qd_name q) False w"
  from Cons.prems(1) have nm: "name_ok (qd_name q)" by (auto split: if_splits)
  show ?case
  proof (cases ?p)
    case (Inl e)
    with Cons.prems(1) nm show ?thesis by simp
  next
    case (Inr controls)
    show ?thesis
    proof (cases controls)
      case None
      with Inr nm Cons.prems Cons.IH show ?thesis by simp
    next
      case (Some c)
      let ?l = "l - int (length transitions)"
      show ?thesis
      proof (cases "?l = 0")
        case True
        with Some Inr nm Cons.prems assms(3) show ?thesis by (simp add: remaining_def)
      next
        case False
        obtain recovered v where r: "ce_recover (js_ext store) (qd_name q) (Some ?l) (rq_now request)
            (cr_revision c) w = (recovered, v)" by fastforce
        with False Some Inr nm Cons.prems(1) assms(3) obtain more where
          m: "recovered = Inr more"
          and rec: "recover_queues name_ok store (js_ext store) queues request qs native (transitions @ more) v
             = (Inr found, w')"
          by (cases "normalize_error recovered ''recoverStalled''")
             (auto simp: remaining_def Let_def dest: normal_ok[THEN iffD1])
        from Cons.prems(2) have "0 \<le> ?l" by simp
        with r m assms(2) have "int (length more) \<le> ?l"
          unfolding respects_limits_def by blast
        then have "int (length (transitions @ more)) \<le> l" by simp
        with Cons.IH[OF rec] show ?thesis by simp
      qed
    qed
  qed
qed

text \<open>
  C15. A bounded recovery stays within its bound over all queues together: if every recovery operation
  of the adapter returns at most as many transitions as it was allowed, so does the sweep over any
  mixture of controlled and ordinary queues.
\<close>

theorem recover_within_limit:
  assumes "dispatch_recover name_ok store queues request w = (Inr found, w')"
    and "respects_limits store" and "rq_limit request = Some l" and "0 \<le> l"
  shows "int (length found) \<le> l"
proof -
  have native: "int (length found) \<le> l" if "js_recover store request w = (Inr found, w')"
    using that assms(2,3,4) unfolding respects_limits_def by blast
  have ctl: "int (length found) \<le> l"
    if "ce_recover (js_ext store) q (Some l) now rev w = (Inr found, w')" for q now rev
    using that assms(2,4) unfolding respects_limits_def by blast
  show ?thesis
  proof (cases "controlled_store store")
    case None
    with assms(1) native show ?thesis by (simp add: dispatch_recover_def)
  next
    case (Some ext)
    then have ext: "ext = js_ext store" by (auto simp: controlled_store_def split: if_splits)
    show ?thesis
    proof (cases "rq_queue request")
      case None
      with assms(1) Some native recover_queues_limit[OF _ assms(2,3)] assms(4) ext show ?thesis
        by (auto simp: dispatch_recover_def split: if_splits)
    next
      case (Some queue)
      with assms(1,3) \<open>controlled_store store = Some ext\<close> native ctl ext show ?thesis
        by (auto simp: dispatch_recover_def split: sum.splits option.splits prod.splits)
    qed
  qed
qed

subsection \<open>A concrete adapter\<close>

text \<open>One queue with an enabled policy of revision 3; the state counts the controlled claims.\<close>

definition demo_policy :: controls_record where
  "demo_policy = \<lparr>cr_queue = ''mail'', cr_group = ''g'', cr_enabled = True, cr_revision = 3,
     cr_global = Some (jint 1), cr_per_key = None, cr_rate_limit = None\<rparr>"

definition demo_store :: "nat job_store" where
  "demo_store = \<lparr>js_methods = controlled_methods,
     js_ext = \<lparr>ce_get_controls = (\<lambda>q _. Inr (if q = ''mail'' then Some demo_policy else None)),
       ce_claim = (\<lambda>_ rev w. (Inr \<lparr>kl_jobs = [rev], kl_wake = 0, kl_next_eligible = None,
         kl_next_run_at = None\<rparr>, Suc w)),
       ce_settle = (\<lambda>_ _ w. (Inr 0, w)), ce_release = (\<lambda>_ _ w. (Inr 0, w)),
       ce_cancel = (\<lambda>_ _ w. (Inr 0, w)),
       ce_recover = (\<lambda>_ l _ _ w. (Inr (case l of None \<Rightarrow> [] | Some n \<Rightarrow> if 1 \<le> n then [0] else []), w))\<rparr>,
     js_get_job = strict_job,
     js_claim = (\<lambda>_ w. (Inr \<lparr>cl_jobs = [], cl_wake = 0, cl_next_run_at = None\<rparr>, w)),
     js_settle = (\<lambda>_ w. (Inr 0, w)), js_release = (\<lambda>_ w. (Inr 0, w)), js_cancel = (\<lambda>_ w. (Inr 0, w)),
     js_recover = (\<lambda>r w. (case rq_limit r of None \<Rightarrow> Inr [] | Some n \<Rightarrow> if n < 0 then Inl (Other_Store_Error 0)
        else Inr [], w))\<rparr>"

definition demo_queues :: "queue_definition list" where
  "demo_queues =
     [\<lparr>qd_name = ''mail'', qd_connection = ''default'', qd_controls = Some \<lparr>co_global = Some (jint 1),
        co_per_key = None, co_rate_limit = None\<rparr>, qd_jobs = []\<rparr>,
      \<lparr>qd_name = ''other'', qd_connection = ''default'', qd_controls = None, qd_jobs = []\<rparr>]"

lemma demo_controlled: "controlled_store demo_store = Some (js_ext demo_store)"
  by (simp add: controlled_store_def demo_store_def)

theorem claim_fails_closed_witness:
  "\<exists>r. dispatch_claim demo_store demo_queues \<lparr>cq_queue = ''mail'', cq_limit = 1, cq_now = 0\<rparr> 0 = (r, 1)
     \<and> is_ok r"
proof -
  let ?q = "\<lparr>cq_queue = ''mail'', cq_limit = 1, cq_now = 0\<rparr>"
  have req: "cq_queue ?q \<in> set (required_queues demo_queues)"
    by (simp add: required_queues_def demo_queues_def)
  obtain r w' where d: "dispatch_claim demo_store demo_queues ?q 0 = (r, w')" by fastforce
  have "queue_policy (js_ext demo_store) demo_queues ''mail'' True 0 = Inr (Some demo_policy)"
    by (simp add: queue_policy_Some demo_store_def) (simp add: demo_policy_def)
  then have "is_ok (fst (dispatch_claim demo_store demo_queues ?q 0))"
    by (simp add: dispatch_claim_def demo_controlled) (simp add: demo_store_def)
  with d claim_fails_closed[OF demo_controlled req d] show ?thesis
    by (auto simp: demo_store_def)
qed

lemma demo_limits: "respects_limits demo_store"
  by (auto simp: respects_limits_def demo_store_def split: if_splits)

theorem recover_within_limit_witness:
  "\<exists>found. dispatch_recover (\<lambda>_. True) demo_store demo_queues
       \<lparr>rq_queue = None, rq_limit = Some 1, rq_now = 0\<rparr> 0 = (Inr found, 0) \<and> length found \<le> 1"
proof -
  let ?q = "\<lparr>rq_queue = None, rq_limit = Some 1, rq_now = 0\<rparr>"
  have pol: "queue_policy (js_ext demo_store) demo_queues n False 0
      = Inr (if n = ''mail'' then Some demo_policy else None)" for n
    by (simp add: queue_policy_def demo_store_def demo_policy_def)
  have rec: "ce_recover (js_ext demo_store) n (Some 1) t v 0 = (Inr [0], 0)" for n t v
    by (simp add: demo_store_def)
  have "dispatch_recover (\<lambda>_. True) demo_store demo_queues ?q 0 = (Inr [0], 0)"
    by (simp add: dispatch_recover_def demo_controlled)
       (simp add: demo_queues_def pol[unfolded demo_queues_def] rec remaining_def native_sweep_def)
  from this recover_within_limit[OF this demo_limits, of 1] show ?thesis by auto
qed

subsection \<open>Flow parents\<close>

text \<open>
  The read projection: reads go to the flow-aware reader, and cancelling a parent that waits for its
  children goes to the flow store, if one is acquired; a success is reported only after the parent is
  read back as cancelled.
\<close>

definition flow_read_cancel :: "(nat \<Rightarrow> 'w \<Rightarrow> store_error + job_view option) \<Rightarrow> 'w job_store
    \<Rightarrow> (nat \<Rightarrow> int \<Rightarrow> ('w, unit) store_op) option \<Rightarrow> lease_request \<Rightarrow> ('w, nat \<times> job_view option) store_op" where
  "flow_read_cancel get_job store flow request w =
     (case get_job (lq_job request) w of
        Inl e \<Rightarrow> (Inl e, w)
      | Inr found \<Rightarrow>
          if map_option jv_state found \<noteq> Some Job_Waiting_Children
          then (case js_cancel store request w of
                  (Inl e, w') \<Rightarrow> (Inl e, w') | (Inr n, w') \<Rightarrow> (Inr (n, None), w'))
          else case flow of
            None \<Rightarrow> (Inl (Store_Failure ''cancelFlow'' False), w)
          | Some cancel \<Rightarrow>
              (case cancel (lq_job request) (lq_now request) w of
                 (Inl _, w') \<Rightarrow> (Inl (Store_Failure ''cancelFlow'' False), w')
               | (Inr _, w') \<Rightarrow>
                   (case get_job (lq_job request) w' of
                      Inl e \<Rightarrow> (Inl e, w')
                    | Inr (Some j) \<Rightarrow>
                        if jv_state j \<noteq> Job_Cancelled_State
                        then (Inl (Store_Failure ''cancelFlow'' False), w')
                        else (Inr (0, Some j), w')
                    | Inr None \<Rightarrow> (Inl (Store_Failure ''cancelFlow'' False), w'))))"

text \<open>
  C20. Cancelling a flow parent that waits for its children never uses the ordinary cancellation and
  never reports a cancellation that cannot be observed: a success means the flow store accepted it
  and the parent is then read as cancelled; without an acquired flow store it fails and changes
  nothing.
\<close>

theorem flow_cancel_observed:
  assumes "get_job (lq_job request) w = Inr (Some parent)"
    and "jv_state parent = Job_Waiting_Children"
    and "flow_read_cancel get_job store flow request w = (r, w')"
  shows "(case flow of
       None \<Rightarrow> w' = w \<and> \<not> is_ok r
     | Some cancel \<Rightarrow> w' = snd (cancel (lq_job request) (lq_now request) w)
         \<and> (is_ok r \<longrightarrow> is_ok (fst (cancel (lq_job request) (lq_now request) w))
              \<and> (\<exists>j. get_job (lq_job request) w' = Inr (Some j) \<and> jv_state j = Job_Cancelled_State
                   \<and> r = Inr (0, Some j))))"
  using assms
  by (cases flow) (auto simp: flow_read_cancel_def split: prod.splits sum.splits option.splits if_splits)

definition demo_parent :: "nat \<Rightarrow> bool \<Rightarrow> store_error + job_view option" where
  "demo_parent i cancelled = Inr (Some \<lparr>jv_id = i, jv_queue = ''mail'',
     jv_state = (if cancelled then Job_Cancelled_State else Job_Waiting_Children), jv_updated_at = 0\<rparr>)"

theorem flow_cancel_observed_witness:
  "\<forall>store. is_ok (fst (flow_read_cancel demo_parent store (Some (\<lambda>_ _ _. (Inr (), True)))
      \<lparr>lq_job = 1, lq_token = 0, lq_now = 0\<rparr> False))
    \<and> snd (flow_read_cancel demo_parent store (Some (\<lambda>_ _ _. (Inr (), True)))
      \<lparr>lq_job = 1, lq_token = 0, lq_now = 0\<rparr> False)"
proof
  fix store :: "bool job_store"
  let ?r = "\<lparr>lq_job = 1, lq_token = 0, lq_now = 0\<rparr>"
  let ?c = "\<lambda>_ _ _. (Inr () :: store_error + unit, True)"
  obtain r w' where e: "flow_read_cancel demo_parent store (Some ?c) ?r False = (r, w')" by fastforce
  have p: "demo_parent (lq_job ?r) False = Inr (Some \<lparr>jv_id = 1, jv_queue = ''mail'',
      jv_state = Job_Waiting_Children, jv_updated_at = 0\<rparr>)" by (simp add: demo_parent_def)
  have "is_ok r" using e by (auto simp: flow_read_cancel_def demo_parent_def)
  with flow_cancel_observed[OF p _ e] e
  show "is_ok (fst (flow_read_cancel demo_parent store (Some ?c) ?r False))
    \<and> snd (flow_read_cancel demo_parent store (Some ?c) ?r False)" by simp
qed

end
