(* ===== verification/Mq_Job_Client.thy ===== *)
theory Mq_Job_Client
  imports Mq_Retry
begin

text \<open>
  \<open>src/engine/job-compiler.ts\<close>, \<open>src/engine/job-client.ts\<close>, \<open>src/engine/wait-options.ts\<close> and
  \<open>src/jobs/binding.ts\<close>: what a job contract becomes for the engine, the client bound to it, and its
  operations. The engine's answers are parameters: an operation of the engine may throw (\<open>exn\<close>, for
  example because the application is not ready), or answer with an engine error or a value.
\<close>

subsection \<open>Compiling a contract\<close>

datatype backoff_kind = Constant_Backoff | Linear_Backoff | Exponential_Backoff

record persisted_backoff =
  pb_kind :: backoff_kind
  pb_delay_ms :: jsnum
  pb_increment_ms :: "jsnum option"
  pb_factor :: "jsnum option"
  pb_max_delay_ms :: "jsnum option"
  pb_jitter :: "jsnum option"

definition persisted :: "backoff_kind \<Rightarrow> jsnum \<Rightarrow> jsnum option \<Rightarrow> jsnum option \<Rightarrow> backoff_bounds \<Rightarrow> persisted_backoff" where
  "persisted kind delay increment factor bounds =
     \<lparr>pb_kind = kind, pb_delay_ms = delay, pb_increment_ms = increment, pb_factor = factor,
      pb_max_delay_ms = max_delay_ms bounds, pb_jitter = jitter bounds\<rparr>"

definition compile_backoff :: "retry_options \<Rightarrow> persisted_backoff option res" where
  "compile_backoff options' =
     rbind (copy_retry options') (\<lambda>retry.
     Inr (case backoff retry of
        None \<Rightarrow> Some (persisted Constant_Backoff (jint 0) None None \<lparr>max_delay_ms = None, jitter = None\<rparr>)
      | Some (Custom _ _) \<Rightarrow> None
      | Some (Fixed delay b) \<Rightarrow> Some (persisted Constant_Backoff delay None None b)
      | Some (Linear initial increment b) \<Rightarrow>
          Some (persisted Linear_Backoff initial (Some increment) None b)
      | Some (Exponential initial factor b) \<Rightarrow>
          Some (persisted Exponential_Backoff initial None (Some factor) b)
      | Some (Unsupported _) \<Rightarrow> None))"

text \<open>The codecs: every failure of the schema becomes the engine's encode or decode failure.\<close>

datatype codec_failure = Encode_Failure | Decode_Failure

definition codec_encode :: "value_schema \<Rightarrow> jsval \<Rightarrow> codec_failure + jsval" where
  "codec_encode schema v = catch_res (encode_schema schema v) (\<lambda>_. Inl Encode_Failure)"

definition codec_decode :: "value_schema \<Rightarrow> jsval \<Rightarrow> codec_failure + jsval" where
  "codec_decode schema v = catch_res (validate_schema schema v) (\<lambda>_. Inl Decode_Failure)"

definition failure_encode :: "value_schema option \<Rightarrow> exn \<Rightarrow> codec_failure + jsval" where
  "failure_encode schema failure =
     (case (schema, failure) of
        (Some s, Job_Failure v) \<Rightarrow> catch_res (encode_schema s v) (\<lambda>_. Inl Encode_Failure)
      | _ \<Rightarrow> Inl Encode_Failure)"

definition failure_decode :: "value_schema option \<Rightarrow> jsval \<Rightarrow> codec_failure + exn" where
  "failure_decode schema v =
     (case schema of
        None \<Rightarrow> Inl Decode_Failure
      | Some s \<Rightarrow> rbind (catch_res (validate_schema s v) (\<lambda>_. Inl Decode_Failure)) (\<lambda>w. Inr (Job_Failure w)))"

definition validate_domain_failure :: "registered_job \<Rightarrow> jsval \<Rightarrow> exn res" where
  "validate_domain_failure job failure =
     (case jc_failure (rj_contract job) of
        None \<Rightarrow> Inl Contract_Definition
      | Some s \<Rightarrow>
          rbind (encode_schema s failure) (\<lambda>text.
          rbind (decode_schema s (Some text)) (\<lambda>v. Inr (Job_Failure v))))"

datatype compiled_backoff = Persisted persisted_backoff | Custom_Decision

record compiled_job =
  cj_queue :: string
  cj_name :: string
  cj_version :: nat
  cj_connection :: string
  cj_attempts :: jsnum
  cj_priority :: jsnum
  cj_backoff :: "compiled_backoff option"
  cj_timeout_ms :: "jsnum option"
  cj_payload :: value_schema
  cj_result :: value_schema
  cj_failure :: "value_schema option"

definition is_custom :: "retry_backoff option \<Rightarrow> bool" where
  "is_custom b = (case b of Some (Custom _ _) \<Rightarrow> True | _ \<Rightarrow> False)"

text \<open>A codec is known by the schema it is made of. \<open>retries\<close>: whether the worker's retry policies are at hand, which decide a custom backoff.\<close>

definition compile_job :: "registered_job \<Rightarrow> bool \<Rightarrow> compiled_job res" where
  "compile_job registered retries =
     (let policy = rj_policy registered; identity = rj_identity registered;
          custom = is_custom (backoff (rp_retry policy)) in
      rbind (throw_if (rp_timeout_ms policy = Some (jint 0)) Contract_Definition) (\<lambda>_.
      rbind (throw_if (custom \<and> jc_failure (rj_contract registered) = None) Contract_Definition) (\<lambda>_.
      rbind (if retries \<and> custom then Inr (Some Custom_Decision)
             else rbind (compile_backoff (rp_retry policy)) (\<lambda>b. Inr (map_option Persisted b))) (\<lambda>b.
      Inr \<lparr>cj_queue = ji_queue identity, cj_name = ji_name identity, cj_version = ji_version identity,
           cj_connection = ji_connection identity, cj_attempts = attempts (rp_retry policy),
           cj_priority = rp_priority policy, cj_backoff = b, cj_timeout_ms = rp_timeout_ms policy,
           cj_payload = jc_payload (rj_contract registered), cj_result = jc_result (rj_contract registered),
           cj_failure = jc_failure (rj_contract registered)\<rparr>))))"

subsection \<open>Publication options\<close>

datatype run_time = Run_At jsnum | Run_After jsnum

record engine_options =
  eg_priority :: jsnum
  eg_attempts :: jsnum
  eg_metadata :: "(string \<times> string) list"
  eg_backoff :: "persisted_backoff option"
  eg_timeout_ms :: "jsnum option"
  eg_job_id :: "string option"
  eg_idempotency_key :: "string option"
  eg_dispatch_key :: "string option"
  eg_run :: run_time

definition engine_fields :: "resolved_policy \<Rightarrow> enqueue_options \<Rightarrow> jsnum option \<Rightarrow> retry_options
    \<Rightarrow> (string \<times> string) list \<Rightarrow> persisted_backoff option \<Rightarrow> engine_options" where
  "engine_fields policy opts timeout retry metadata b =
     \<lparr>eg_priority = orelse (eo_priority opts) (rp_priority policy), eg_attempts = attempts retry,
      eg_metadata = metadata, eg_backoff = b, eg_timeout_ms = timeout, eg_job_id = eo_job_id opts,
      eg_idempotency_key = eo_idempotency_key opts, eg_dispatch_key = eo_dispatch_key opts,
      eg_run = (case eo_at opts of Some t \<Rightarrow> Run_At t
        | None \<Rightarrow> Run_After (orelse (eo_delay_ms opts) (rp_delay_ms policy)))\<rparr>"

definition engine_options_of :: "registered_job \<Rightarrow> enqueue_options option \<Rightarrow> engine_options res" where
  "engine_options_of registered supplied =
     (let opts = orelse supplied no_options; policy = rj_policy registered;
          timeout = orelse_opt (eo_timeout_ms opts) (rp_timeout_ms policy) in
      rbind (when_some (eo_dispatch_key opts) (\<lambda>k. rbind (validate_dispatch_key k) (\<lambda>_. Inr ()))) (\<lambda>_.
      rbind (throw_if (Option.bind (rj_controls registered) co_per_key \<noteq> None \<and> eo_dispatch_key opts = None)
        Contract_Definition) (\<lambda>_.
      rbind (publication_retry registered (eo_retry opts)) (\<lambda>retry.
      rbind (when_some timeout (\<lambda>t. require_integer t 1)) (\<lambda>_.
      rbind (publication_metadata registered (eo_metadata opts)) (\<lambda>metadata.
      rbind (compile_backoff retry) (\<lambda>b.
      rbind (throw_if (eo_at opts \<noteq> None \<and> eo_delay_ms opts \<noteq> None) (Mq_Job OpEnqueue)) (\<lambda>_.
      Inr (engine_fields policy opts timeout retry metadata b)))))))))"

lemma valid_key_ok: "rbind (validate_dispatch_key k) (\<lambda>_. Inr ()) = Inr u \<longleftrightarrow> valid_dispatch_key k"
  by (simp add: validate_dispatch_key_eq)

text \<open>
  What is sent to the engine is checked whatever the caller passed: a queue limited per key gets a
  valid dispatch key, the attempts and the backoff come from a valid retry policy that keeps the
  declared custom policy, the timeout is a positive integer, a time and a delay never go together, and
  the metadata carries the retry reference the worker of the same contract will accept.
\<close>

theorem engine_options_sound:
  assumes "engine_options_of job supplied = Inr e"
  shows "(Option.bind (rj_controls job) co_per_key \<noteq> None \<longrightarrow> eg_dispatch_key e \<noteq> None)
    \<and> (\<forall>k. eg_dispatch_key e = Some k \<longrightarrow> valid_dispatch_key k)
    \<and> assert_retry_reference job (eg_metadata e) = Inr ()
    \<and> (\<exists>retry. valid_retry retry \<and> eg_attempts e = attempts retry
         \<and> backoff_reference (backoff retry) = retry_reference job
         \<and> compile_backoff retry = Inr (eg_backoff e))
    \<and> (\<forall>t. eg_timeout_ms e = Some t \<longrightarrow> int_at_least 1 t)
    \<and> (case eg_run e of
         Run_At t \<Rightarrow> Option.bind supplied eo_at = Some t \<and> Option.bind supplied eo_delay_ms = None
       | Run_After d \<Rightarrow> Option.bind supplied eo_at = None
           \<and> d = orelse (Option.bind supplied eo_delay_ms) (rp_delay_ms (rj_policy job)))"
proof -
  let ?o = "orelse supplied no_options"
  from assms obtain retry metadata b where
    dk: "\<forall>k. eo_dispatch_key ?o = Some k \<longrightarrow> valid_dispatch_key k"
    and pk: "\<not> (Option.bind (rj_controls job) co_per_key \<noteq> None \<and> eo_dispatch_key ?o = None)"
    and r: "publication_retry job (eo_retry ?o) = Inr retry"
    and t: "\<forall>t. orelse_opt (eo_timeout_ms ?o) (rp_timeout_ms (rj_policy job)) = Some t \<longrightarrow> int_at_least 1 t"
    and m: "publication_metadata job (eo_metadata ?o) = Inr metadata"
    and b: "compile_backoff retry = Inr b"
    and x: "\<not> (eo_at ?o \<noteq> None \<and> eo_delay_ms ?o \<noteq> None)"
    and e: "e = engine_fields (rj_policy job) ?o
       (orelse_opt (eo_timeout_ms ?o) (rp_timeout_ms (rj_policy job))) retry metadata b"
    unfolding engine_options_of_def Let_def
    by (elim rbind_InrE) (simp add: throw_if_iff when_some_ok valid_key_ok checks_ok)
  from r have "valid_retry retry" "backoff_reference (backoff retry) = retry_reference job"
    by (auto simp: publication_retry_def checks_ok throw_if_iff elim!: rbind_InrE)
  moreover have "assert_retry_reference job metadata = Inr ()"
    by (rule metadata_accepted[OF m])
  moreover have "Option.bind supplied eo_at = eo_at ?o" "Option.bind supplied eo_delay_ms = eo_delay_ms ?o"
    by (cases supplied; simp add: no_options_def)+
  ultimately show ?thesis
    using dk pk t b x by (auto simp: e engine_fields_def split: option.splits)
qed

theorem engine_options_sound_witness:
  "\<exists>e. engine_options_of sample_job (Some (no_options\<lparr>eo_dispatch_key := Some ''tenant''\<rparr>)) = Inr e
     \<and> eg_dispatch_key e = Some ''tenant'' \<and> assert_retry_reference sample_job (eg_metadata e) = Inr ()"
proof -
  let ?o = "Some (no_options\<lparr>eo_dispatch_key := Some ''tenant''\<rparr>)"
  have v: "valid_dispatch_key ''tenant''"
    by (simp add: valid_dispatch_key_def valid_name_def is_js_space_def nul_def)
  have r: "valid_retry (rp_retry (rj_policy sample_job))"
    by (simp add: sample_job_def initial_policy_def valid_retry_def max_safe_def)
  have "\<exists>e. engine_options_of sample_job ?o = Inr e \<and> eg_dispatch_key e = Some ''tenant''"
    using v r
    by (simp add: engine_options_of_def no_options_def Let_def validate_dispatch_key_eq
        publication_retry_def copy_retry_eq compile_backoff_def publication_metadata_def
        retry_reference_def engine_fields_def retry_reference_key_def)
       (simp add: sample_job_def initial_policy_def backoff_reference_def)
  then obtain e where e: "engine_options_of sample_job ?o = Inr e" "eg_dispatch_key e = Some ''tenant''"
    by blast
  with engine_options_sound[OF e(1)] show ?thesis by blast
qed

subsection \<open>Answers of the engine\<close>

datatype engine_error =
    Domain_Error jsval
  | Execution_Cancelled string
  | Not_Cancellable_State bool
  | Engine_Failure nat

text \<open>\<open>Not_Cancellable_State active\<close>: the job cannot be cancelled from its state, and whether that is \<open>active\<close>.\<close>

definition unwrap :: "engine_error + 'v \<Rightarrow> job_operation \<Rightarrow> 'v res" where
  "unwrap result operation =
     (case result of
        Inr v \<Rightarrow> Inr v
      | Inl (Domain_Error v) \<Rightarrow> Inl (Job_Failure v)
      | Inl (Execution_Cancelled job) \<Rightarrow> Inl (Job_Cancelled job)
      | Inl _ \<Rightarrow> Inl (Mq_Job operation))"

datatype failure_data = Typed_Failure exn | Other_Failure "jsval option"

definition failure_view :: "failure_data option \<Rightarrow> jsval option" where
  "failure_view failure =
     (case failure of
        Some (Typed_Failure (Job_Failure v)) \<Rightarrow> Some v
      | Some (Other_Failure d) \<Rightarrow> d
      | _ \<Rightarrow> None)"

subsection \<open>Waiting for a result\<close>

datatype wait_strategy = Wait_Polling | Wait_Events | Wait_Other

record wait_options =
  wo_strategy :: "wait_strategy option"
  wo_timeout_ms :: "jsnum option"
  wo_poll_interval_ms :: "jsnum option"
  wo_poll_fallback_ms :: "jsnum option"
  wo_signal :: bool

definition check_wait :: "int \<Rightarrow> jsnum option \<Rightarrow> unit res" where
  "check_wait minimum value =
     when_some value (\<lambda>v. rbind (require_integer v minimum) (\<lambda>_.
       throw_if (js_less (jint max_timer) v) Range_Error))"

definition validate_wait_options :: "wait_options \<Rightarrow> unit res" where
  "validate_wait_options o' =
     rbind (throw_if (wo_strategy o' = Some Wait_Other) (Mq_Job OpAwaitResult)) (\<lambda>_.
     rbind (throw_if (wo_strategy o' = Some Wait_Events \<and> wo_poll_interval_ms o' \<noteq> None)
       (Mq_Job OpAwaitResult)) (\<lambda>_.
     rbind (throw_if (wo_strategy o' \<noteq> Some Wait_Events \<and> wo_poll_fallback_ms o' \<noteq> None)
       (Mq_Job OpAwaitResult)) (\<lambda>_.
     rbind (check_wait 0 (wo_timeout_ms o')) (\<lambda>_.
     rbind (check_wait 1 (wo_poll_interval_ms o')) (\<lambda>_.
     check_wait 1 (wo_poll_fallback_ms o'))))))"

text \<open>
  What happens around a wait: whether the session serves events of the connection, whether the
  caller's signal is aborted before and by the end of the engine's wait, whether the timer has fired by
  then, and how the engine's wait ends.
\<close>

record wait_env =
  we_events :: "unit res"
  we_aborted_before :: bool
  we_aborted :: bool
  we_timer_fired :: bool
  we_result :: "(engine_error + jsval) res"

datatype engine_wait = Event_Wait jsnum | Poll_Wait jsnum

definition engine_wait_of :: "wait_options \<Rightarrow> engine_wait" where
  "engine_wait_of o' =
     (if wo_strategy o' = Some Wait_Events
      then Event_Wait (orelse (wo_poll_fallback_ms o') (jint 5000))
      else Poll_Wait (orelse (wo_poll_interval_ms o') (jint 100)))"

definition bounded_wait :: "string \<Rightarrow> wait_options \<Rightarrow> wait_env \<Rightarrow> jsval res" where
  "bounded_wait job o' env =
     (let timed_out = (wo_timeout_ms o' \<noteq> None \<and> we_timer_fired env);
          aborted = (wo_signal o' \<and> we_aborted env);
          timeout = Job_Wait_Timeout job (orelse (wo_timeout_ms o') (jint 0)) in
      rbind (validate_wait_options o') (\<lambda>_.
      rbind (if wo_strategy o' = Some Wait_Events then we_events env else Inr ()) (\<lambda>_.
      rbind (throw_if (wo_signal o' \<and> we_aborted_before env) (Job_Wait_Aborted job)) (\<lambda>_.
      catch_res
        (rbind (we_result env) (\<lambda>result.
         rbind (throw_if timed_out timeout) (\<lambda>_.
         rbind (throw_if aborted (Job_Wait_Aborted job)) (\<lambda>_.
         unwrap result OpAwaitResult))))
        (\<lambda>cause. Inl (if timed_out then timeout else if aborted then Job_Wait_Aborted job else cause))))))"

text \<open>
  A wait with accepted options ends in exactly one way, whatever the engine does: a fired timer
  gives the timeout exception with the caller's limit even if a result or an error arrived, otherwise
  an abort gives the abort exception, otherwise the engine's answer is the caller's, with a domain
  failure as itself and a cancelled job as a cancellation.
\<close>

theorem bounded_wait_outcome:
  assumes "validate_wait_options o' = Inr ()"
    and "wo_strategy o' = Some Wait_Events \<Longrightarrow> we_events env = Inr ()"
    and "\<not> (wo_signal o' \<and> we_aborted_before env)"
  shows "bounded_wait job o' env =
    (case (wo_timeout_ms o', we_timer_fired env) of
       (Some limit, True) \<Rightarrow> Inl (Job_Wait_Timeout job limit)
     | _ \<Rightarrow>
         if wo_signal o' \<and> we_aborted env then Inl (Job_Wait_Aborted job)
         else (case we_result env of
             Inl e \<Rightarrow> Inl e
           | Inr (Inr v) \<Rightarrow> Inr v
           | Inr (Inl (Domain_Error f)) \<Rightarrow> Inl (Job_Failure f)
           | Inr (Inl (Execution_Cancelled j)) \<Rightarrow> Inl (Job_Cancelled j)
           | Inr (Inl _) \<Rightarrow> Inl (Mq_Job OpAwaitResult)))"
proof -
  let ?to = "wo_timeout_ms o' \<noteq> None \<and> we_timer_fired env"
  let ?ab = "wo_signal o' \<and> we_aborted env"
  have run: "(if wo_strategy o' = Some Wait_Events then we_events env else Inr ()) = Inr ()"
    using assms(2) by simp
  have body: "bounded_wait job o' env = catch_res
        (rbind (we_result env) (\<lambda>result.
         rbind (throw_if ?to (Job_Wait_Timeout job (orelse (wo_timeout_ms o') (jint 0)))) (\<lambda>_.
         rbind (throw_if ?ab (Job_Wait_Aborted job)) (\<lambda>_.
         unwrap result OpAwaitResult))))
        (\<lambda>cause. Inl (if ?to then Job_Wait_Timeout job (orelse (wo_timeout_ms o') (jint 0))
           else if ?ab then Job_Wait_Aborted job else cause))"
    by (simp only: bounded_wait_def Let_def assms(1) run rbind_simps assms(3) throw_if_simps)
  show ?thesis
  proof (cases ?to)
    case True
    then obtain t where "wo_timeout_ms o' = Some t" "we_timer_fired env" by auto
    then show ?thesis unfolding body by (cases "we_result env") simp_all
  next
    case False
    then have "(case (wo_timeout_ms o', we_timer_fired env) of
       (Some limit, True) \<Rightarrow> A limit | _ \<Rightarrow> B) = B" for A :: "jsnum \<Rightarrow> jsval res" and B
      by (cases "wo_timeout_ms o'") auto
    with False show ?thesis
      unfolding body
      by (cases ?ab; cases "we_result env"; cases "projr (we_result env)")
         (auto simp: unwrap_def split: engine_error.splits)
  qed
qed

theorem bounded_wait_outcome_witness:
  "bounded_wait ''j'' \<lparr>wo_strategy = None, wo_timeout_ms = Some (jint 50), wo_poll_interval_ms = None,
       wo_poll_fallback_ms = None, wo_signal = False\<rparr>
     \<lparr>we_events = Inl (Native_Error 0), we_aborted_before = True, we_aborted = True,
      we_timer_fired = True, we_result = Inr (Inr VNull)\<rparr> = Inl (Job_Wait_Timeout ''j'' (jint 50))"
proof -
  let ?o = "\<lparr>wo_strategy = None, wo_timeout_ms = Some (jint 50), wo_poll_interval_ms = None,
       wo_poll_fallback_ms = None, wo_signal = False\<rparr>"
  have v: "validate_wait_options ?o = Inr ()"
    by (simp add: validate_wait_options_def check_wait_def require_integer_eq max_safe_def max_timer_def)
  show ?thesis by (subst bounded_wait_outcome[OF v]) simp_all
qed

subsection \<open>Cancelling\<close>

text \<open>The engine operations \<open>cancel\<close>, \<open>poll\<close> and the store's \<open>requestCancellation\<close> act on a state \<open>'w\<close>.\<close>

record 'w cancel_ops =
  co_cancel :: "string \<Rightarrow> 'w \<Rightarrow> (engine_error + unit) res \<times> 'w"
  co_poll :: "string \<Rightarrow> 'w \<Rightarrow> (engine_error + string option) res"
  co_request :: "string \<Rightarrow> 'w \<Rightarrow> (engine_error + unit) res \<times> 'w"

definition cancel_job :: "'w cancel_ops \<Rightarrow> string \<Rightarrow> 'w \<Rightarrow> unit res \<times> 'w" where
  "cancel_job ops job w =
     (case co_cancel ops job w of
        (Inl e, w') \<Rightarrow> (Inl e, w')
      | (Inr (Inr _), w') \<Rightarrow> (Inr (), w')
      | (Inr (Inl e), w') \<Rightarrow>
          if e \<noteq> Not_Cancellable_State True then (unwrap (Inl e) OpCancel, w')
          else
            (case rbind (co_poll ops job w') (\<lambda>found. unwrap found OpCancel) of
               Inl e' \<Rightarrow> (Inl e', w')
             | Inr None \<Rightarrow> (Inl (Mq_Job OpCancel), w')
             | Inr (Some job') \<Rightarrow>
                 (case co_request ops job' w' of
                    (requested, w'') \<Rightarrow> (rbind requested (\<lambda>r. unwrap r OpCancel), w''))))"

subsection \<open>Binding\<close>

text \<open>The \<open>WeakMap\<close> of contracts (by identity) to the application that owns the binding and its client.\<close>

record binding =
  bd_owner :: nat
  bd_client :: nat

type_synonym bindings = "nat \<Rightarrow> binding option"

definition bind_job_client :: "nat \<Rightarrow> nat \<Rightarrow> nat \<Rightarrow> bindings \<Rightarrow> bindings res" where
  "bind_job_client contract owner client b =
     rbind (throw_if (b contract \<noteq> None) (Mq_Job OpBinding)) (\<lambda>_.
     Inr (b(contract \<mapsto> \<lparr>bd_owner = owner, bd_client = client\<rparr>)))"

definition unbind_job_client :: "nat \<Rightarrow> nat \<Rightarrow> bindings \<Rightarrow> bindings" where
  "unbind_job_client contract owner b =
     (if map_option bd_owner (b contract) = Some owner then b(contract := None) else b)"

definition job_client :: "nat \<Rightarrow> bindings \<Rightarrow> nat res" where
  "job_client contract b =
     (case b contract of None \<Rightarrow> Inl (Mq_Job OpBinding) | Some x \<Rightarrow> Inr (bd_client x))"

end
