(* ===== verification/Mq_Session.thy ===== *)
theory Mq_Session
  imports Mq_Values
begin

text \<open>
  \<open>src/engine/engine-session.ts\<close>: the life of the one runtime of an application. Startup, activation
  and shutdown are asynchronous and may interleave, so the session is a transition system: a state,
  the events that can happen to it, and an executable step. One step of startup is the code between two
  \<open>await\<close>s together with the answer it waited for; \<open>close\<close> may come between any two steps. (A close that
  comes while an answer is awaited only sets fields that the rest of the step does not read or write, so
  it is the same as one that comes right after the step.) The adapters answer through events: a
  resource with the stores it offers, a resolved store with its protocol and capabilities, an error.
\<close>

subsection \<open>Configuration\<close>

record connection =
  cn_name :: string
  cn_boundary :: nat
  cn_scope :: string
  cn_requirements :: "string list"

text \<open>
  The connections of the module (\<open>None\<close>: none configured), the connections of the registered queues,
  the worker plans, and the connections that flows and schedules need.
\<close>

record session_config =
  cf_connections :: "connection list option"
  cf_queues :: "string list"
  cf_plans :: "string list"
  cf_flow_participants :: "string list"
  cf_schedules :: "string list"
  cf_scheduler :: bool
  cf_publisher :: bool

text \<open>What an acquired resource offers.\<close>

record resource =
  rs_events :: bool
  rs_flows :: bool
  rs_schedules :: bool
  rs_outbox :: bool

record bound_connection =
  bc_connection :: connection
  bc_resource :: resource

record stores =
  st_jobs :: "string list"
  st_events :: "string list"
  st_flows :: "string list"
  st_schedules :: "string list"
  st_outboxes :: "string list"

definition no_stores :: stores where
  "no_stores = \<lparr>st_jobs = [], st_events = [], st_flows = [], st_schedules = [], st_outboxes = []\<rparr>"

subsection \<open>State\<close>

text \<open>Where \<open>initialize\<close> is: what it still has to acquire or to resolve.\<close>

datatype init_phase =
    Checking
  | Acquiring "connection list"
  | Assembling
  | Resolving_Jobs "bound_connection list"
  | Resolving_Events "bound_connection list"
  | Resolving_Flows "bound_connection list"
  | Resolving_Schedules "bound_connection list"
  | Resolving_Outboxes "bound_connection list"

text \<open>The memoised promise of \<open>start\<close>.\<close>

datatype start_status = Not_Started | Initializing init_phase | Unwinding exn | Started | Start_Failed exn

text \<open>The memoised promises of the activations; workers are first recovered, then started.\<close>

datatype activation = Not_Activated | Recovering "string list" | Starting_Workers "string list"
  | Activating_Service | Activated

record session =
  se_state :: engine_state
  se_stop :: bool
  se_start :: start_status
  se_acquiring :: string
  se_bindings :: "bound_connection list"
  se_acquired :: "string list"
  se_runtime :: bool
  se_local :: stores
  se_ready :: stores
  se_snapshots :: "string list"
  se_has_scheduler :: bool
  se_has_publisher :: bool
  se_workers :: "string list"
  se_publisher :: bool
  se_scheduler :: bool
  se_activating :: activation
  se_publishing :: activation
  se_scheduling :: activation
  se_cleaned :: "exn list option"
  se_closing :: bool
  se_taken :: "string list"
  se_released :: "string list"

text \<open>\<open>se_taken\<close> and \<open>se_released\<close> are the history of acquired and released resources.\<close>

definition new_session :: session where
  "new_session = \<lparr>se_state = Idle, se_stop = False, se_start = Not_Started, se_acquiring = ''<engine>'',
     se_bindings = [], se_acquired = [], se_runtime = False, se_local = no_stores, se_ready = no_stores,
     se_snapshots = [], se_has_scheduler = False, se_has_publisher = False, se_workers = [],
     se_publisher = False, se_scheduler = False, se_activating = Not_Activated,
     se_publishing = Not_Activated, se_scheduling = Not_Activated, se_cleaned = None,
     se_closing = False, se_taken = [], se_released = []\<rparr>"

subsection \<open>Startup\<close>

datatype answer =
    Answer_Error exn
  | Answer_Resource resource
  | Answer_Runtime
  | Answer_Store bool bool "string list" bool

text \<open>
  \<open>Answer_Store resolved protocol capabilities probed\<close>: whether the token resolved, whether the
  protocol version is the supported one, the capabilities, and whether the probe succeeded.
\<close>

definition assert_starting :: "session \<Rightarrow> unit res" where
  "assert_starting s = throw_if (se_stop s) (Mq_Engine_State (se_state s) ''finish startup'')"

definition name_of :: "bound_connection \<Rightarrow> string" where
  "name_of b = cn_name (bc_connection b)"

fun check_boundaries :: "connection list \<Rightarrow> (nat \<times> string) list \<Rightarrow> unit res" where
  "check_boundaries [] seen = Inr ()"
| "check_boundaries (c # cs) seen =
     rbind (throw_if ((cn_boundary c, cn_scope c) \<in> set seen) (Mq_Connection (cn_name c) ConnConfiguration)) (\<lambda>_.
     check_boundaries cs ((cn_boundary c, cn_scope c) # seen))"

definition check_queues :: "string list \<Rightarrow> connection list \<Rightarrow> unit res" where
  "check_queues queues connections =
     each (\<lambda>q. throw_if (q \<notin> cn_name ` set connections) (Mq_Connection q ConnConfiguration)) queues"

text \<open>What a step of \<open>initialize\<close> gives: it throws, it goes on in a phase, or it is done.\<close>

datatype progress = Threw exn | Continue init_phase | Finished

definition to_progress :: "unit res \<Rightarrow> init_phase \<Rightarrow> progress" where
  "to_progress r next' = (case r of Inl e \<Rightarrow> Threw e | Inr _ \<Rightarrow> Continue next')"

definition init_check :: "session_config \<Rightarrow> session \<Rightarrow> progress \<times> session" where
  "init_check cfg s =
     (case assert_starting s of
        Inl e \<Rightarrow> (Threw e, s)
      | Inr _ \<Rightarrow>
          (case cf_connections cfg of
             None \<Rightarrow> (Finished, s\<lparr>se_state := Disabled\<rparr>)
           | Some cs \<Rightarrow>
               (to_progress (rbind (check_queues (cf_queues cfg) cs) (\<lambda>_. check_boundaries cs []))
                  (Acquiring cs), s)))"

definition init_acquire :: "connection \<Rightarrow> connection list \<Rightarrow> answer \<Rightarrow> session \<Rightarrow> progress \<times> session" where
  "init_acquire c cs ans s =
     (case assert_starting s of
        Inl e \<Rightarrow> (Threw e, s)
      | Inr _ \<Rightarrow>
          let s' = s\<lparr>se_acquiring := cn_name c\<rparr> in
          (case ans of
             Answer_Resource r \<Rightarrow>
               (Continue (Acquiring cs),
                s'\<lparr>se_acquired := se_acquired s @ [cn_name c], se_taken := se_taken s @ [cn_name c],
                   se_bindings := se_bindings s @ [\<lparr>bc_connection = c, bc_resource = r\<rparr>]\<rparr>)
           | Answer_Error e \<Rightarrow> (Threw e, s')
           | _ \<Rightarrow> (Threw Type_Error, s')))"

definition offering :: "(resource \<Rightarrow> bool) \<Rightarrow> session \<Rightarrow> bound_connection list" where
  "offering f s = filter (\<lambda>b. f (bc_resource b)) (se_bindings s)"

definition init_assemble :: "session_config \<Rightarrow> answer \<Rightarrow> session \<Rightarrow> progress \<times> session" where
  "init_assemble cfg ans s =
     (case assert_starting s of
        Inl e \<Rightarrow> (Threw e, s)
      | Inr _ \<Rightarrow>
          if se_bindings s = [] \<and> cf_plans cfg = [] then (Finished, s\<lparr>se_state := Ready\<rparr>)
          else if \<not> set (cf_flow_participants cfg) \<subseteq> name_of ` set (offering rs_flows s)
          then (Threw (Mq_Flow FlowUnavailable), s)
          else if \<not> set (cf_schedules cfg) \<subseteq> name_of ` set (offering rs_schedules s)
          then (Threw (Mq_Schedule ScheduleUnavailable), s)
          else
            let s' = s\<lparr>se_has_scheduler := cf_scheduler cfg \<and> offering rs_schedules s \<noteq> [],
                       se_has_publisher := cf_publisher cfg \<and> offering rs_outbox s \<noteq> []\<rparr> in
            (case ans of
               Answer_Runtime \<Rightarrow> (Continue (Resolving_Jobs (se_bindings s)), s'\<lparr>se_runtime := True\<rparr>)
             | Answer_Error e \<Rightarrow> (Threw e, s')
             | _ \<Rightarrow> (Threw Type_Error, s')))"

text \<open>
  One round of the five loops that resolve stores: the exceptions differ, and only job stores have
  required capabilities.
\<close>

definition resolve_store :: "exn \<Rightarrow> exn \<Rightarrow> exn \<Rightarrow> string list \<Rightarrow> bound_connection \<Rightarrow> answer
    \<Rightarrow> session \<Rightarrow> unit res \<times> session" where
  "resolve_store unresolved incompatible unreachable requirements b ans s =
     (case assert_starting s of
        Inl e \<Rightarrow> (Inl e, s)
      | Inr _ \<Rightarrow>
          ((case ans of
              Answer_Error e \<Rightarrow> Inl e
            | Answer_Store resolved protocol capabilities probed \<Rightarrow>
                rbind (throw_if (\<not> resolved) unresolved) (\<lambda>_.
                rbind (throw_if (\<not> protocol \<or> \<not> set requirements \<subseteq> set capabilities) incompatible) (\<lambda>_.
                throw_if (\<not> probed) unreachable))
            | _ \<Rightarrow> Inl Type_Error), s\<lparr>se_acquiring := name_of b\<rparr>))"

definition resolve_job :: "bound_connection \<Rightarrow> answer \<Rightarrow> session \<Rightarrow> unit res \<times> session" where
  "resolve_job b = resolve_store (Mq_Connection (name_of b) ConnAcquire)
     (Mq_Connection (name_of b) ConnProtocol) (Mq_Connection (name_of b) ConnProbe)
     (cn_requirements (bc_connection b)) b"

definition resolve_events :: "bound_connection \<Rightarrow> answer \<Rightarrow> session \<Rightarrow> unit res \<times> session" where
  "resolve_events b = resolve_store (Mq_Connection (name_of b) ConnAcquire)
     (Mq_Connection (name_of b) ConnProtocol) (Mq_Connection (name_of b) ConnProbe) [] b"

definition resolve_flow :: "bound_connection \<Rightarrow> answer \<Rightarrow> session \<Rightarrow> unit res \<times> session" where
  "resolve_flow b = resolve_store (Mq_Flow FlowUnavailable) (Mq_Flow FlowUnavailable)
     (Mq_Flow FlowUnavailable) [] b"

definition resolve_schedule :: "bound_connection \<Rightarrow> answer \<Rightarrow> session \<Rightarrow> unit res \<times> session" where
  "resolve_schedule b = resolve_store (Mq_Schedule ScheduleUnavailable) (Mq_Schedule ScheduleUnavailable)
     (Mq_Schedule ScheduleUnavailable) [] b"

definition resolve_outbox :: "bound_connection \<Rightarrow> answer \<Rightarrow> session \<Rightarrow> unit res \<times> session" where
  "resolve_outbox b = resolve_store (Mq_Outbox OutboxUnavailable) (Mq_Outbox OutboxConfiguration)
     (Mq_Outbox OutboxUnavailable) [] b"

text \<open>Publishing the resolved stores is synchronous: the check and the assignments are one step.\<close>

definition init_publish :: "session \<Rightarrow> progress \<times> session" where
  "init_publish s =
     (case assert_starting s of
        Inl e \<Rightarrow> (Threw e, s)
      | Inr _ \<Rightarrow> (Finished, s\<lparr>se_ready := se_local s, se_snapshots := st_jobs (se_local s),
          se_state := Ready\<rparr>))"

definition resolved :: "unit res \<times> session \<Rightarrow> init_phase \<Rightarrow> (stores \<Rightarrow> stores) \<Rightarrow> progress \<times> session" where
  "resolved r next' add =
     (case r of (Inl e, s) \<Rightarrow> (Threw e, s) | (Inr _, s) \<Rightarrow> (Continue next', s\<lparr>se_local := add (se_local s)\<rparr>))"

fun init_step :: "session_config \<Rightarrow> answer \<Rightarrow> init_phase \<Rightarrow> session \<Rightarrow> progress \<times> session" where
  "init_step cfg ans Checking s = init_check cfg s"
| "init_step cfg ans (Acquiring (c # cs)) s = init_acquire c cs ans s"
| "init_step cfg ans (Acquiring []) s = (Continue Assembling, s)"
| "init_step cfg ans Assembling s = init_assemble cfg ans s"
| "init_step cfg ans (Resolving_Jobs (b # bs)) s =
     resolved (resolve_job b ans s) (Resolving_Jobs bs) (\<lambda>m. m\<lparr>st_jobs := st_jobs m @ [name_of b]\<rparr>)"
| "init_step cfg ans (Resolving_Jobs []) s = (Continue (Resolving_Events (offering rs_events s)), s)"
| "init_step cfg ans (Resolving_Events (b # bs)) s =
     resolved (resolve_events b ans s) (Resolving_Events bs) (\<lambda>m. m\<lparr>st_events := st_events m @ [name_of b]\<rparr>)"
| "init_step cfg ans (Resolving_Events []) s = (Continue (Resolving_Flows (offering rs_flows s)), s)"
| "init_step cfg ans (Resolving_Flows (b # bs)) s =
     resolved (resolve_flow b ans s) (Resolving_Flows bs) (\<lambda>m. m\<lparr>st_flows := st_flows m @ [name_of b]\<rparr>)"
| "init_step cfg ans (Resolving_Flows []) s = (Continue (Resolving_Schedules (offering rs_schedules s)), s)"
| "init_step cfg ans (Resolving_Schedules (b # bs)) s =
     resolved (resolve_schedule b ans s) (Resolving_Schedules bs)
       (\<lambda>m. m\<lparr>st_schedules := st_schedules m @ [name_of b]\<rparr>)"
| "init_step cfg ans (Resolving_Schedules []) s = (Continue (Resolving_Outboxes (offering rs_outbox s)), s)"
| "init_step cfg ans (Resolving_Outboxes (b # bs)) s =
     resolved (resolve_outbox b ans s) (Resolving_Outboxes bs)
       (\<lambda>m. m\<lparr>st_outboxes := st_outboxes m @ [name_of b]\<rparr>)"
| "init_step cfg ans (Resolving_Outboxes []) s = init_publish s"

text \<open>The exception startup reports: the package's own, or an acquisition error of the connection at hand.\<close>

definition primary_error :: "string \<Rightarrow> exn \<Rightarrow> exn" where
  "primary_error acquiring cause =
     (case cause of
        Mq_Connection _ _ \<Rightarrow> cause | Mq_Engine_State _ _ \<Rightarrow> cause | Mq_Flow _ \<Rightarrow> cause
      | Mq_Schedule _ \<Rightarrow> cause | Mq_Outbox _ \<Rightarrow> cause
      | _ \<Rightarrow> Mq_Connection acquiring ConnAcquire)"

definition session_start :: "session_config \<Rightarrow> session \<Rightarrow> unit res \<times> session" where
  "session_start cfg s =
     (if se_stop s then (Inl (Mq_Engine_State (se_state s) ''start''), s)
      else if se_start s \<noteq> Not_Started then (Inr (), s)
      else (Inr (), s\<lparr>se_state := Starting, se_start := Initializing Checking\<rparr>))"

definition session_init :: "session_config \<Rightarrow> answer \<Rightarrow> init_phase \<Rightarrow> session \<Rightarrow> session" where
  "session_init cfg ans phase s =
     (case init_step cfg ans phase s of
        (Threw e, s') \<Rightarrow> s'\<lparr>se_start := Unwinding (primary_error (se_acquiring s') e)\<rparr>
      | (Continue next', s') \<Rightarrow> s'\<lparr>se_start := Initializing next'\<rparr>
      | (Finished, s') \<Rightarrow> s'\<lparr>se_start := Started\<rparr>)"

subsection \<open>Shutdown\<close>

text \<open>What closing meets: the disposal of the runtime, its diagnostics, the release of each resource.\<close>

record cleanup_answer =
  ca_dispose :: "exn option"
  ca_diagnostics :: "exn list"
  ca_release :: "string \<Rightarrow> exn option"

definition release_failures :: "cleanup_answer \<Rightarrow> session \<Rightarrow> exn list" where
  "release_failures a s =
     (let disposed = (case ca_dispose a of Some e \<Rightarrow> if se_runtime s then [e] else [] | None \<Rightarrow> []) in
      (if disposed = [] then ca_diagnostics a else disposed)
      @ concat (map (\<lambda>n. case ca_release a n of None \<Rightarrow> [] | Some e \<Rightarrow> [e]) (rev (se_acquired s))))"

definition release_resources :: "cleanup_answer \<Rightarrow> session \<Rightarrow> session" where
  "release_resources a s =
     s\<lparr>se_cleaned := Some (release_failures a s), se_runtime := False, se_ready := no_stores,
       se_scheduler := False, se_publisher := False, se_workers := [], se_snapshots := [],
       se_released := se_released s @ rev (se_acquired s), se_acquired := []\<rparr>"

text \<open>\<open>cleanup\<close> is memoised: the resources are released by the first caller only.\<close>

definition session_cleanup :: "cleanup_answer \<Rightarrow> session \<Rightarrow> session" where
  "session_cleanup a s = (if se_cleaned s \<noteq> None then s else release_resources a s)"

definition cleanup_failed :: "session \<Rightarrow> bool" where
  "cleanup_failed s = (case se_cleaned s of Some (_ # _) \<Rightarrow> True | _ \<Rightarrow> False)"

text \<open>The \<open>catch\<close> of \<open>initialize\<close>.\<close>

definition session_unwind :: "cleanup_answer \<Rightarrow> exn \<Rightarrow> session \<Rightarrow> session" where
  "session_unwind a primary s =
     (let s' = session_cleanup a s;
          s'' = (if se_stop s' then s' else s'\<lparr>se_state := Failed\<rparr>) in
      s''\<lparr>se_start := Start_Failed
         (if cleanup_failed s' then Aggregate [primary, Aggregate (the (se_cleaned s'))] else primary)\<rparr>)"

definition session_close :: "session \<Rightarrow> session" where
  "session_close s =
     (if se_closing s then s
      else s\<lparr>se_stop := True, se_state := Stopping, se_snapshots := [], se_closing := True\<rparr>)"

definition settled_start :: "start_status \<Rightarrow> bool" where
  "settled_start st = (case st of Initializing _ \<Rightarrow> False | Unwinding _ \<Rightarrow> False | _ \<Rightarrow> True)"

definition settled_activation :: "activation \<Rightarrow> bool" where
  "settled_activation a \<longleftrightarrow> a = Not_Activated \<or> a = Activated"

definition session_settled :: "session \<Rightarrow> bool" where
  "session_settled s \<longleftrightarrow> settled_start (se_start s) \<and> settled_activation (se_activating s)
     \<and> settled_activation (se_publishing s) \<and> settled_activation (se_scheduling s)"

definition session_finish_close :: "cleanup_answer \<Rightarrow> session \<Rightarrow> session" where
  "session_finish_close a s = (session_cleanup a s)\<lparr>se_state := Closed\<rparr>"

subsection \<open>Activation\<close>

definition engine_ready :: "session \<Rightarrow> bool" where
  "engine_ready s \<longleftrightarrow> se_state s = Ready \<and> se_runtime s"

definition activate_workers :: "session_config \<Rightarrow> session \<Rightarrow> session" where
  "activate_workers cfg s =
     (if se_activating s \<noteq> Not_Activated then s
      else s\<lparr>se_activating :=
        (if cf_plans cfg = [] \<or> \<not> engine_ready s then Activated else Recovering (cf_plans cfg))\<rparr>)"

text \<open>One \<open>await\<close> of \<open>activate\<close>: a plan is recovered or started; any failure ends it.\<close>

fun worker_step :: "session_config \<Rightarrow> bool \<Rightarrow> activation \<Rightarrow> session \<Rightarrow> session" where
  "worker_step cfg ok (Recovering []) s = s\<lparr>se_activating := Starting_Workers (cf_plans cfg)\<rparr>"
| "worker_step cfg ok (Recovering (p # ps)) s =
     s\<lparr>se_activating := (if se_stop s \<or> \<not> ok then Activated else Recovering ps)\<rparr>"
| "worker_step cfg ok (Starting_Workers []) s = s\<lparr>se_activating := Activated\<rparr>"
| "worker_step cfg ok (Starting_Workers (p # ps)) s =
     (if se_stop s \<or> \<not> ok then s\<lparr>se_activating := Activated\<rparr>
      else s\<lparr>se_activating := Starting_Workers ps, se_workers := se_workers s @ [p]\<rparr>)"
| "worker_step cfg ok a s = s"

definition activate_publisher :: "session \<Rightarrow> session" where
  "activate_publisher s =
     (if se_publishing s \<noteq> Not_Activated then s
      else s\<lparr>se_publishing :=
        (if \<not> se_has_publisher s \<or> \<not> engine_ready s \<or> se_stop s then Activated else Activating_Service)\<rparr>)"

definition publisher_step :: "bool \<Rightarrow> session \<Rightarrow> session" where
  "publisher_step ok s = s\<lparr>se_publishing := Activated, se_publisher := ok\<rparr>"

definition activate_scheduler :: "session \<Rightarrow> session" where
  "activate_scheduler s =
     (if se_scheduling s \<noteq> Not_Activated then s
      else s\<lparr>se_scheduling :=
        (if \<not> se_has_scheduler s \<or> \<not> engine_ready s \<or> se_stop s then Activated else Activating_Service)\<rparr>)"

definition scheduler_step :: "bool \<Rightarrow> session \<Rightarrow> session" where
  "scheduler_step ok s = s\<lparr>se_scheduling := Activated, se_scheduler := ok\<rparr>"

subsection \<open>Access\<close>

definition with_store :: "string \<Rightarrow> session \<Rightarrow> unit res" where
  "with_store name s =
     rbind (throw_if (\<not> engine_ready s) (Mq_Engine_State (se_state s) ''access a store'')) (\<lambda>_.
     throw_if (name \<notin> set (st_jobs (se_ready s))) (Mq_Connection name ConnConfiguration))"

definition with_flows :: "string \<Rightarrow> session \<Rightarrow> unit res" where
  "with_flows name s =
     rbind (throw_if (\<not> engine_ready s) (Mq_Flow FlowUnavailable)) (\<lambda>_.
     throw_if (name \<notin> set (st_flows (se_ready s))) (Mq_Flow FlowUnavailable))"

definition with_schedules :: "string \<Rightarrow> session \<Rightarrow> unit res" where
  "with_schedules name s =
     rbind (throw_if (\<not> engine_ready s) (Mq_Schedule ScheduleUnavailable)) (\<lambda>_.
     throw_if (name \<notin> set (st_schedules (se_ready s))) (Mq_Schedule ScheduleUnavailable))"

definition with_outbox :: "string \<Rightarrow> session \<Rightarrow> unit res" where
  "with_outbox name s =
     rbind (throw_if (\<not> engine_ready s) (Mq_Outbox OutboxUnavailable)) (\<lambda>_.
     throw_if (name \<notin> set (st_outboxes (se_ready s))) (Mq_Outbox OutboxUnavailable))"

definition assert_events :: "string \<Rightarrow> session \<Rightarrow> unit res" where
  "assert_events name s =
     throw_if (se_state s \<noteq> Ready \<or> name \<notin> set (st_events (se_ready s))) (Mq_Job OpAwaitResult)"

definition run_operation :: "session \<Rightarrow> unit res" where
  "run_operation s = throw_if (\<not> engine_ready s) (Mq_Job OpBinding)"

definition await_idle :: "session \<Rightarrow> unit res" where
  "await_idle s = throw_if (se_state s \<noteq> Ready) (Mq_Engine_State (se_state s) ''wait for workers'')"

subsection \<open>Events and reachable states\<close>

datatype session_event =
    Ev_Start
  | Ev_Init answer
  | Ev_Unwind cleanup_answer
  | Ev_Close
  | Ev_Finish cleanup_answer
  | Ev_Activate_Workers
  | Ev_Worker bool
  | Ev_Activate_Publisher
  | Ev_Publisher bool
  | Ev_Activate_Scheduler
  | Ev_Scheduler bool

text \<open>\<open>None\<close>: the event cannot happen now.\<close>

fun session_step :: "session_config \<Rightarrow> session_event \<Rightarrow> session \<Rightarrow> session option" where
  "session_step cfg Ev_Start s = Some (snd (session_start cfg s))"
| "session_step cfg (Ev_Init ans) s =
     (case se_start s of Initializing phase \<Rightarrow> Some (session_init cfg ans phase s) | _ \<Rightarrow> None)"
| "session_step cfg (Ev_Unwind a) s =
     (case se_start s of Unwinding e \<Rightarrow> Some (session_unwind a e s) | _ \<Rightarrow> None)"
| "session_step cfg Ev_Close s = Some (session_close s)"
| "session_step cfg (Ev_Finish a) s =
     (if se_closing s \<and> se_state s \<noteq> Closed \<and> session_settled s
      then Some (session_finish_close a s) else None)"
| "session_step cfg Ev_Activate_Workers s = Some (activate_workers cfg s)"
| "session_step cfg (Ev_Worker ok) s =
     (if settled_activation (se_activating s) then None else Some (worker_step cfg ok (se_activating s) s))"
| "session_step cfg Ev_Activate_Publisher s = Some (activate_publisher s)"
| "session_step cfg (Ev_Publisher ok) s =
     (if se_publishing s = Activating_Service then Some (publisher_step ok s) else None)"
| "session_step cfg Ev_Activate_Scheduler s = Some (activate_scheduler s)"
| "session_step cfg (Ev_Scheduler ok) s =
     (if se_scheduling s = Activating_Service then Some (scheduler_step ok s) else None)"

inductive session_reachable :: "session_config \<Rightarrow> session \<Rightarrow> bool" for cfg where
  reach_new: "session_reachable cfg new_session"
| reach_step: "session_reachable cfg s \<Longrightarrow> session_step cfg ev s = Some s' \<Longrightarrow> session_reachable cfg s'"

fun session_run :: "session_config \<Rightarrow> session_event list \<Rightarrow> session \<Rightarrow> session option" where
  "session_run cfg [] s = Some s"
| "session_run cfg (ev # evs) s =
     (case session_step cfg ev s of None \<Rightarrow> None | Some s' \<Rightarrow> session_run cfg evs s')"

end
