(* ===== verification/Mq_Session_Life.thy ===== *)
theory Mq_Session_Life
  imports Mq_Session
begin

text \<open>
  The life of the engine session: an invariant of its reachable states, what a ready session has, that
  resources are released once and in reverse order, that closing is final and always ends.
\<close>

subsection \<open>What a step of startup changes\<close>

text \<open>The fields startup shares with \<open>close\<close> and the activations, as one value.\<close>

definition shared :: "session \<Rightarrow> bool \<times> start_status \<times> bool \<times> exn list option \<times> string list \<times> string list
    \<times> bool \<times> bool \<times> activation \<times> activation \<times> activation" where
  "shared s = (se_stop s, se_start s, se_closing s, se_cleaned s, se_released s, se_workers s,
     se_publisher s, se_scheduler s, se_activating s, se_publishing s, se_scheduling s)"

definition init_frame :: "progress \<Rightarrow> session \<Rightarrow> session \<Rightarrow> bool" where
  "init_frame p s s' \<longleftrightarrow> shared s' = shared s
     \<and> (\<exists>xs. se_acquired s' = se_acquired s @ xs \<and> se_taken s' = se_taken s @ xs)
     \<and> (if p = Finished then \<not> se_stop s \<and> se_state s' \<in> {Ready, Disabled}
        else se_state s' = se_state s \<and> se_ready s' = se_ready s \<and> se_snapshots s' = se_snapshots s)"

lemma assert_starting_iff: "assert_starting s = Inr u \<longleftrightarrow> \<not> se_stop s"
  by (simp add: assert_starting_def throw_if_iff)

lemma assert_starting_cases:
  "assert_starting s = (if se_stop s then Inl (Mq_Engine_State (se_state s) ''finish startup'') else Inr ())"
  by (simp add: assert_starting_def throw_if_def)

lemma resolve_store_frame:
  assumes "resolve_store e1 e2 e3 rq b ans s = (r, s')"
  shows "shared s' = shared s" "se_acquired s' = se_acquired s" "se_taken s' = se_taken s"
    "se_state s' = se_state s" "se_ready s' = se_ready s" "se_snapshots s' = se_snapshots s"
    "se_local s' = se_local s" "se_bindings s' = se_bindings s" "se_runtime s' = se_runtime s"
  using assms by (auto simp: resolve_store_def assert_starting_cases shared_def split: if_splits)

lemma resolved_frame:
  assumes "resolved (resolve_store e1 e2 e3 rq b ans s) ph add = (p, s')"
  shows "init_frame p s s'"
proof -
  obtain r t where r: "resolve_store e1 e2 e3 rq b ans s = (r, t)" by fastforce
  note f = resolve_store_frame[OF r]
  from assms r consider (threw) e where "p = Threw e" "s' = t"
    | (go) "p = Continue ph" "s' = t\<lparr>se_local := add (se_local t)\<rparr>"
    by (cases r) (auto simp: resolved_def)
  then show ?thesis
    using f by cases (simp_all add: init_frame_def shared_def)
qed

lemmas resolve_defs = resolve_job_def resolve_events_def resolve_flow_def resolve_schedule_def
  resolve_outbox_def

lemma init_frame_same:
  "shared s' = shared s \<Longrightarrow> se_acquired s' = se_acquired s \<Longrightarrow> se_taken s' = se_taken s
     \<Longrightarrow> se_state s' = se_state s \<Longrightarrow> se_ready s' = se_ready s \<Longrightarrow> se_snapshots s' = se_snapshots s
     \<Longrightarrow> p \<noteq> Finished \<Longrightarrow> init_frame p s s'"
  by (simp add: init_frame_def)

lemma init_check_frame: "init_check cfg s = (p, s') \<Longrightarrow> init_frame p s s'"
  by (auto simp: init_check_def assert_starting_cases init_frame_def shared_def to_progress_def
      split: if_splits option.splits sum.splits)

lemma init_acquire_frame: "init_acquire c cs ans s = (p, s') \<Longrightarrow> init_frame p s s'"
  by (cases ans) (auto simp: init_acquire_def assert_starting_cases init_frame_def shared_def Let_def
      split: if_splits)

lemma init_assemble_frame: "init_assemble cfg ans s = (p, s') \<Longrightarrow> init_frame p s s'"
  by (cases ans) (auto simp: init_assemble_def assert_starting_cases init_frame_def shared_def Let_def
      split: if_splits)

lemma init_publish_frame: "init_publish s = (p, s') \<Longrightarrow> init_frame p s s'"
  by (auto simp: init_publish_def assert_starting_cases init_frame_def shared_def split: if_splits)

lemma init_step_frame: "init_step cfg ans ph s = (p, s') \<Longrightarrow> init_frame p s s'"
proof (induction cfg ans ph s rule: init_step.induct)
  case (1 cfg ans s)
  then show ?case by (simp add: init_check_frame)
next
  case (2 cfg ans c cs s)
  then show ?case by (simp add: init_acquire_frame)
next
  case (4 cfg ans s)
  then show ?case by (simp add: init_assemble_frame)
next
  case (14 cfg ans s)
  then show ?case by (simp add: init_publish_frame)
qed (auto simp: resolve_defs init_frame_same dest: resolved_frame)

subsection \<open>The invariant of a session\<close>

definition idle_resources :: "session \<Rightarrow> bool" where
  "idle_resources s \<longleftrightarrow> se_acquired s = [] \<and> se_released s = rev (se_taken s) \<and> \<not> se_runtime s
     \<and> se_ready s = no_stores \<and> se_snapshots s = [] \<and> se_workers s = [] \<and> \<not> se_publisher s \<and> \<not> se_scheduler s"

fun started_state :: "start_status \<Rightarrow> engine_state \<Rightarrow> bool" where
  "started_state Not_Started st = (st = Idle)"
| "started_state (Initializing _) st = (st = Starting)"
| "started_state (Unwinding _) st = (st = Starting)"
| "started_state Started st = (st = Ready \<or> st = Disabled)"
| "started_state (Start_Failed _) st = (st = Failed)"

definition phase_ok :: "session \<Rightarrow> bool" where
  "phase_ok s \<longleftrightarrow>
     (se_stop s \<longleftrightarrow> se_closing s)
     \<and> (se_stop s \<longrightarrow> se_state s = Stopping \<or> se_state s = Closed)
     \<and> (\<not> se_stop s \<longrightarrow> started_state (se_start s) (se_state s))"

definition session_inv :: "session \<Rightarrow> bool" where
  "session_inv s \<longleftrightarrow> phase_ok s
     \<and> (se_state s = Closed \<longrightarrow> se_cleaned s \<noteq> None)
     \<and> (se_cleaned s \<noteq> None \<longrightarrow> session_settled s \<and> idle_resources s)
     \<and> (se_cleaned s = None \<longrightarrow> se_released s = [] \<and> se_acquired s = se_taken s)
     \<and> ((\<exists>e. se_start s = Start_Failed e) \<longrightarrow> se_cleaned s \<noteq> None)
     \<and> (se_cleaned s \<noteq> None \<longrightarrow> se_stop s \<or> se_state s = Failed)
     \<and> (se_start s = Started \<or> settled_activation (se_activating s)
          \<and> settled_activation (se_publishing s) \<and> settled_activation (se_scheduling s))"

lemma phase_ok_upd [simp]:
  "phase_ok (s\<lparr>se_activating := a\<rparr>) = phase_ok s" "phase_ok (s\<lparr>se_publishing := a\<rparr>) = phase_ok s"
  "phase_ok (s\<lparr>se_scheduling := a\<rparr>) = phase_ok s" "phase_ok (s\<lparr>se_workers := w\<rparr>) = phase_ok s"
  "phase_ok (s\<lparr>se_publisher := b\<rparr>) = phase_ok s" "phase_ok (s\<lparr>se_scheduler := b\<rparr>) = phase_ok s"
  by (simp_all add: phase_ok_def)

lemma settled_simps [simp]:
  "settled_activation Not_Activated" "settled_activation Activated"
  "\<not> settled_activation (Recovering ps)" "\<not> settled_activation (Starting_Workers ps)"
  "\<not> settled_activation Activating_Service"
  by (simp_all add: settled_activation_def)

lemma session_inv_new: "session_inv new_session"
  by (simp add: session_inv_def phase_ok_def new_session_def settled_activation_def)

lemma session_init_inv:
  assumes "session_inv s" and "se_start s = Initializing ph"
  shows "session_inv (session_init cfg ans ph s)"
proof -
  obtain p t where st: "init_step cfg ans ph s = (p, t)" by fastforce
  note f = init_step_frame[OF st]
  from assms have c: "se_cleaned s = None"
    by (auto simp: session_inv_def session_settled_def settled_start_def)
  from f have sh: "se_stop t = se_stop s" "se_closing t = se_closing s" "se_cleaned t = se_cleaned s"
    "se_released t = se_released s" "se_activating t = se_activating s"
    "se_publishing t = se_publishing s" "se_scheduling t = se_scheduling s"
    by (simp_all add: init_frame_def shared_def)
  show ?thesis
    using f sh c assms st
    by (cases p; cases "se_stop s")
       (auto simp: session_init_def session_inv_def phase_ok_def init_frame_def settled_activation_def)
qed

lemma release_idle:
  "session_inv s \<Longrightarrow> se_cleaned s = None \<Longrightarrow> idle_resources (release_resources a s)"
  by (simp add: idle_resources_def release_resources_def session_inv_def)

lemma release_fields [simp]:
  "se_stop (release_resources a s) = se_stop s" "se_start (release_resources a s) = se_start s"
  "se_closing (release_resources a s) = se_closing s" "se_state (release_resources a s) = se_state s"
  "se_activating (release_resources a s) = se_activating s"
  "se_publishing (release_resources a s) = se_publishing s"
  "se_scheduling (release_resources a s) = se_scheduling s"
  "se_cleaned (release_resources a s) = Some (release_failures a s)"
  by (simp_all add: release_resources_def)

lemma idle_resources_upd [simp]:
  "idle_resources (s\<lparr>se_state := x\<rparr>) = idle_resources s"
  "idle_resources (s\<lparr>se_start := y\<rparr>) = idle_resources s"
  "idle_resources (s\<lparr>se_activating := a\<rparr>) = idle_resources s"
  "idle_resources (s\<lparr>se_publishing := a\<rparr>) = idle_resources s"
  "idle_resources (s\<lparr>se_scheduling := a\<rparr>) = idle_resources s"
  by (simp_all add: idle_resources_def)

lemma session_unwind_inv:
  assumes "session_inv s" and "se_start s = Unwinding e"
  shows "session_inv (session_unwind a e s)"
proof -
  from assms have c: "se_cleaned s = None"
    by (auto simp: session_inv_def session_settled_def settled_start_def)
  from release_idle[OF assms(1) c, of a] assms c show ?thesis
    by (cases "se_stop s")
       (auto simp: session_unwind_def session_cleanup_def session_inv_def phase_ok_def session_settled_def
          settled_start_def Let_def)
qed

lemma session_finish_inv:
  assumes "session_inv s" and "se_closing s" and "session_settled s"
  shows "session_inv (session_finish_close a s)"
proof (cases "se_cleaned s")
  case None
  from release_idle[OF assms(1) None, of a] assms None show ?thesis
    by (cases "se_start s")
       (auto simp: session_finish_close_def session_cleanup_def session_inv_def phase_ok_def session_settled_def)
next
  case (Some fs)
  with assms show ?thesis
    by (auto simp: session_finish_close_def session_cleanup_def session_inv_def phase_ok_def session_settled_def)
qed

lemma session_close_inv: "session_inv s \<Longrightarrow> session_inv (session_close s)"
  by (auto simp: session_close_def session_inv_def phase_ok_def session_settled_def idle_resources_def)

lemma engine_ready_open:
  "session_inv s \<Longrightarrow> engine_ready s \<Longrightarrow> se_cleaned s = None \<and> \<not> se_stop s \<and> se_start s = Started"
  by (cases "se_start s")
     (auto simp: engine_ready_def session_inv_def phase_ok_def idle_resources_def split: start_status.splits)

lemma activation_open:
  assumes "session_inv s"
    and "\<not> settled_activation (se_activating s) \<or> \<not> settled_activation (se_publishing s)
      \<or> \<not> settled_activation (se_scheduling s)"
  shows "se_cleaned s = None \<and> se_start s = Started"
  using assms by (auto simp: session_inv_def session_settled_def)

text \<open>Activations change only their own fields, and only while nothing has been cleaned up.\<close>

lemma activation_inv:
  assumes "session_inv s" and "se_cleaned s = None" and "se_start s = Started"
  shows "session_inv (s\<lparr>se_activating := a, se_workers := w\<rparr>)" "session_inv (s\<lparr>se_activating := a\<rparr>)"
    "session_inv (s\<lparr>se_publishing := a, se_publisher := b\<rparr>)" "session_inv (s\<lparr>se_publishing := a\<rparr>)"
    "session_inv (s\<lparr>se_scheduling := a, se_scheduler := b\<rparr>)" "session_inv (s\<lparr>se_scheduling := a\<rparr>)"
  using assms by (auto simp: session_inv_def)

lemma activated_inv:
  assumes "session_inv s"
  shows "session_inv (s\<lparr>se_activating := Activated\<rparr>)" "session_inv (s\<lparr>se_publishing := Activated\<rparr>)"
    "session_inv (s\<lparr>se_scheduling := Activated\<rparr>)"
  using assms by (auto simp: session_inv_def session_settled_def)

lemma session_step_inv:
  assumes "session_inv s" and "session_step cfg ev s = Some s'"
  shows "session_inv s'"
proof (cases ev)
  case Ev_Start
  show ?thesis
  proof (cases "se_stop s \<or> se_start s \<noteq> Not_Started")
    case True
    with Ev_Start assms show ?thesis by (auto simp: session_start_def)
  next
    case False
    with Ev_Start assms show ?thesis
      by (auto simp: session_start_def session_inv_def phase_ok_def idle_resources_def)
  qed
next
  case (Ev_Init ans)
  with assms show ?thesis by (auto intro: session_init_inv split: start_status.splits)
next
  case (Ev_Unwind a)
  with assms show ?thesis by (auto intro: session_unwind_inv split: start_status.splits)
next
  case Ev_Close
  with assms show ?thesis by (auto intro: session_close_inv)
next
  case (Ev_Finish a)
  with assms show ?thesis by (auto intro: session_finish_inv split: if_splits)
next
  case Ev_Activate_Workers
  with assms engine_ready_open[OF assms(1)] activation_inv[OF assms(1)] activated_inv[OF assms(1)]
  show ?thesis by (cases "engine_ready s") (auto simp: activate_workers_def)
next
  case (Ev_Worker ok)
  with assms(2) have run: "\<not> settled_activation (se_activating s)"
    and s': "s' = worker_step cfg ok (se_activating s) s" by (auto split: if_splits)
  from activation_open[OF assms(1)] run have o': "se_cleaned s = None" "se_start s = Started" by blast+
  note ok' = activation_inv[OF assms(1) o'] activated_inv[OF assms(1)]
  show ?thesis
  proof (cases "se_activating s")
    case (Recovering ps)
    with s' ok' show ?thesis by (cases ps) simp_all
  next
    case (Starting_Workers ps)
    with s' ok' show ?thesis by (cases ps) simp_all
  qed (use assms(1) s' in simp_all)
next
  case Ev_Activate_Publisher
  with assms engine_ready_open[OF assms(1)] activation_inv[OF assms(1)] activated_inv[OF assms(1)]
  show ?thesis by (cases "engine_ready s") (auto simp: activate_publisher_def)
next
  case (Ev_Publisher ok)
  with assms activation_open[OF assms(1)] activation_inv[OF assms(1)] show ?thesis
    by (auto simp: publisher_step_def split: if_splits)
next
  case Ev_Activate_Scheduler
  with assms engine_ready_open[OF assms(1)] activation_inv[OF assms(1)] activated_inv[OF assms(1)]
  show ?thesis by (cases "engine_ready s") (auto simp: activate_scheduler_def)
next
  case (Ev_Scheduler ok)
  with assms activation_open[OF assms(1)] activation_inv[OF assms(1)] show ?thesis
    by (auto simp: scheduler_step_def split: if_splits)
qed

lemma reachable_inv: "session_reachable cfg s \<Longrightarrow> session_inv s"
  by (induction rule: session_reachable.induct) (auto intro: session_inv_new session_step_inv)

subsection \<open>What a ready session has\<close>

definition accepted_config :: "session_config \<Rightarrow> connection list \<Rightarrow> bool" where
  "accepted_config cfg cs \<longleftrightarrow> cf_connections cfg = Some cs
     \<and> check_queues (cf_queues cfg) cs = Inr () \<and> check_boundaries cs [] = Inr ()"

definition acquired_all :: "session_config \<Rightarrow> session \<Rightarrow> connection list \<Rightarrow> bool" where
  "acquired_all cfg s rest \<longleftrightarrow> accepted_config cfg (map bc_connection (se_bindings s) @ rest)
     \<and> se_taken s = map name_of (se_bindings s)"

definition assembled :: "session_config \<Rightarrow> session \<Rightarrow> bool" where
  "assembled cfg s \<longleftrightarrow> acquired_all cfg s [] \<and> se_runtime s
     \<and> set (cf_flow_participants cfg) \<subseteq> name_of ` set (offering rs_flows s)
     \<and> set (cf_schedules cfg) \<subseteq> name_of ` set (offering rs_schedules s)"

text \<open>\<open>part names bs all\<close>: \<open>names\<close> are those of all but the last \<open>bs\<close> bindings.\<close>

definition part :: "string list \<Rightarrow> bound_connection list \<Rightarrow> bound_connection list \<Rightarrow> bool" where
  "part names bs all \<longleftrightarrow> names @ map name_of bs = map name_of all"

definition jobs_done :: "session \<Rightarrow> bool" where
  "jobs_done s \<longleftrightarrow> st_jobs (se_local s) = map name_of (se_bindings s)"

definition flows_done :: "session \<Rightarrow> bool" where
  "flows_done s \<longleftrightarrow> st_flows (se_local s) = map name_of (offering rs_flows s)"

definition schedules_done :: "session \<Rightarrow> bool" where
  "schedules_done s \<longleftrightarrow> st_schedules (se_local s) = map name_of (offering rs_schedules s)"

fun phase_inv :: "session_config \<Rightarrow> session \<Rightarrow> init_phase \<Rightarrow> bool" where
  "phase_inv cfg s Checking = (se_bindings s = [] \<and> se_taken s = [] \<and> se_local s = no_stores)"
| "phase_inv cfg s (Acquiring rest) = (acquired_all cfg s rest \<and> se_local s = no_stores)"
| "phase_inv cfg s Assembling = (acquired_all cfg s [] \<and> se_local s = no_stores)"
| "phase_inv cfg s (Resolving_Jobs bs) = (assembled cfg s
     \<and> part (st_jobs (se_local s)) bs (se_bindings s)
     \<and> st_flows (se_local s) = [] \<and> st_schedules (se_local s) = [])"
| "phase_inv cfg s (Resolving_Events bs) = (assembled cfg s \<and> jobs_done s
     \<and> st_flows (se_local s) = [] \<and> st_schedules (se_local s) = [])"
| "phase_inv cfg s (Resolving_Flows bs) = (assembled cfg s \<and> jobs_done s
     \<and> part (st_flows (se_local s)) bs (offering rs_flows s) \<and> st_schedules (se_local s) = [])"
| "phase_inv cfg s (Resolving_Schedules bs) = (assembled cfg s \<and> jobs_done s \<and> flows_done s
     \<and> part (st_schedules (se_local s)) bs (offering rs_schedules s))"
| "phase_inv cfg s (Resolving_Outboxes bs) = (assembled cfg s \<and> jobs_done s \<and> flows_done s \<and> schedules_done s)"

definition ready_ok :: "session_config \<Rightarrow> session \<Rightarrow> bool" where
  "ready_ok cfg s \<longleftrightarrow> (\<exists>cs. accepted_config cfg cs \<and> se_taken s = map cn_name cs
     \<and> (cs = [] \<and> cf_plans cfg = []
        \<or> se_runtime s \<and> st_jobs (se_ready s) = map cn_name cs
          \<and> set (cf_flow_participants cfg) \<subseteq> set (st_flows (se_ready s))
          \<and> set (cf_schedules cfg) \<subseteq> set (st_schedules (se_ready s))))"

definition progress_inv :: "session_config \<Rightarrow> session \<Rightarrow> bool" where
  "progress_inv cfg s \<longleftrightarrow>
     (case se_start s of
        Not_Started \<Rightarrow> phase_inv cfg s Checking
      | Initializing ph \<Rightarrow> phase_inv cfg s ph
      | Started \<Rightarrow> se_state s = Ready \<longrightarrow> ready_ok cfg s
      | _ \<Rightarrow> True)"

lemma name_of_map [simp]: "map cn_name (map bc_connection bs) = map name_of bs"
  by (simp add: name_of_def)

lemma name_of_comp [simp]: "map (cn_name \<circ> bc_connection) bs = map name_of bs"
  by (simp add: name_of_def)

lemma part_step [simp]: "part (names @ [name_of b]) bs all = part names (b # bs) all"
  by (simp add: part_def)

lemma part_Nil [simp]: "part names [] all \<longleftrightarrow> names = map name_of all"
  by (simp add: part_def)

lemma part_all [simp]: "part [] all all"
  by (simp add: part_def)

lemma resolved_progress:
  assumes "resolved (resolve_store e1 e2 e3 rq b ans s) next' add = (p, s')"
  shows "p \<noteq> Finished" "p = Continue ph \<Longrightarrow> ph = next' \<and> se_local s' = add (se_local s)
    \<and> se_bindings s' = se_bindings s \<and> se_taken s' = se_taken s \<and> se_runtime s' = se_runtime s"
proof -
  obtain r t where r: "resolve_store e1 e2 e3 rq b ans s = (r, t)" by fastforce
  note f = resolve_store_frame[OF r]
  from assms r consider (threw) e where "p = Threw e"
    | (go) "p = Continue next'" "s' = t\<lparr>se_local := add (se_local t)\<rparr>"
    by (cases r) (auto simp: resolved_def)
  note c = this
  from c show "p \<noteq> Finished" by cases simp_all
  assume "p = Continue ph"
  with c f show "ph = next' \<and> se_local s' = add (se_local s)
    \<and> se_bindings s' = se_bindings s \<and> se_taken s' = se_taken s \<and> se_runtime s' = se_runtime s"
    by cases simp_all
qed

lemma assembled_same:
  assumes "se_bindings s' = se_bindings s" and "se_taken s' = se_taken s" and "se_runtime s' = se_runtime s"
  shows "assembled cfg s' = assembled cfg s" "offering f s' = offering f s"
  using assms by (simp_all add: assembled_def acquired_all_def offering_def)

text \<open>A step keeps the invariant of its phase, and a finished startup that is ready has everything.\<close>

definition step_ok :: "session_config \<Rightarrow> progress \<Rightarrow> session \<Rightarrow> bool" where
  "step_ok cfg p s \<longleftrightarrow> (case p of Threw e \<Rightarrow> True | Continue ph \<Rightarrow> phase_inv cfg s ph
     | Finished \<Rightarrow> se_state s = Ready \<longrightarrow> ready_ok cfg s)"

lemma init_check_ok:
  "init_check cfg s = (p, s') \<Longrightarrow> phase_inv cfg s Checking \<Longrightarrow> step_ok cfg p s'"
  by (auto simp: init_check_def assert_starting_cases to_progress_def step_ok_def acquired_all_def
      accepted_config_def rbind_Inr_iff split: if_splits option.splits sum.splits)

lemma init_acquire_ok:
  "init_acquire c cs ans s = (p, s') \<Longrightarrow> phase_inv cfg s (Acquiring (c # cs)) \<Longrightarrow> step_ok cfg p s'"
  by (cases ans)
     (auto simp: init_acquire_def assert_starting_cases step_ok_def acquired_all_def name_of_def Let_def
        split: if_splits)

lemma init_assemble_ok:
  assumes "init_assemble cfg ans s = (p, s')" and "phase_inv cfg s Assembling"
  shows "step_ok cfg p s'"
proof (cases "se_stop s")
  case True
  with assms show ?thesis by (auto simp: init_assemble_def assert_starting_cases step_ok_def)
next
  case False
  show ?thesis
  proof (cases "se_bindings s = [] \<and> cf_plans cfg = []")
    case True
    with False assms have "p = Finished" "s' = s\<lparr>se_state := Ready\<rparr>"
      by (auto simp: init_assemble_def assert_starting_cases)
    with True assms(2) show ?thesis by (auto simp: step_ok_def ready_ok_def acquired_all_def)
  next
    case nb: False
    with False assms show ?thesis
      by (cases ans)
         (auto simp: init_assemble_def assert_starting_cases step_ok_def Let_def assembled_def
            acquired_all_def offering_def no_stores_def split: if_splits)
  qed
qed

lemma init_publish_ok:
  assumes "init_publish s = (p, s')" and "phase_inv cfg s (Resolving_Outboxes [])"
  shows "step_ok cfg p s'"
proof (cases "se_stop s")
  case True
  with assms show ?thesis by (auto simp: init_publish_def assert_starting_cases step_ok_def)
next
  case False
  with assms have p: "p = Finished" and s': "s' = s\<lparr>se_ready := se_local s,
      se_snapshots := st_jobs (se_local s), se_state := Ready\<rparr>"
    by (auto simp: init_publish_def assert_starting_cases)
  let ?cs = "map bc_connection (se_bindings s)"
  from assms(2) have "accepted_config cfg ?cs" "se_taken s = map cn_name ?cs"
    "st_jobs (se_ready s') = map cn_name ?cs" "se_runtime s'"
    "set (cf_flow_participants cfg) \<subseteq> set (st_flows (se_ready s'))"
    "set (cf_schedules cfg) \<subseteq> set (st_schedules (se_ready s'))"
    by (simp_all add: s' assembled_def acquired_all_def jobs_done_def flows_done_def schedules_done_def)
  then show ?thesis by (auto simp: p step_ok_def ready_ok_def s')
qed

text \<open>A round of a resolution loop keeps what holds of the phase it belongs to.\<close>

lemma resolved_ok:
  assumes "resolved (resolve_store e1 e2 e3 rq b ans s) next' add = (p, s')"
    and "\<And>t. se_local t = add (se_local s) \<Longrightarrow> se_bindings t = se_bindings s \<Longrightarrow> se_taken t = se_taken s
      \<Longrightarrow> assembled cfg t = assembled cfg s \<Longrightarrow> (\<And>f. offering f t = offering f s) \<Longrightarrow> phase_inv cfg t next'"
  shows "step_ok cfg p s'"
proof (cases p)
  case (Continue ph)
  from resolved_progress(2)[OF assms(1) Continue] have ph: "ph = next'"
    and same: "se_local s' = add (se_local s)" "se_bindings s' = se_bindings s"
      "se_taken s' = se_taken s" "se_runtime s' = se_runtime s" by blast+
  from assms(2)[OF same(1-3) assembled_same[OF same(2-4)]] show ?thesis
    by (simp add: step_ok_def Continue ph)
next
  case Finished
  with resolved_progress(1)[OF assms(1)] show ?thesis by simp
qed (simp add: step_ok_def)

lemma init_step_ok:
  assumes "init_step cfg ans ph s = (p, s')" and "phase_inv cfg s ph"
  shows "step_ok cfg p s'"
proof (cases ph)
  case Checking
  with assms show ?thesis by (simp add: init_check_ok)
next
  case (Acquiring cs)
  with assms show ?thesis
  proof (cases cs)
    case Nil
    with Acquiring assms show ?thesis by (auto simp: step_ok_def)
  next
    case (Cons c ds)
    with Acquiring assms show ?thesis using init_acquire_ok by simp
  qed
next
  case Assembling
  with assms show ?thesis by (simp add: init_assemble_ok)
next
  case (Resolving_Jobs bs)
  show ?thesis
  proof (cases bs)
    case Nil
    with Resolving_Jobs assms show ?thesis by (auto simp: step_ok_def jobs_done_def)
  next
    case (Cons b ds)
    with Resolving_Jobs assms show ?thesis
      by (auto simp: resolve_defs intro!: resolved_ok)
  qed
next
  case (Resolving_Events bs)
  show ?thesis
  proof (cases bs)
    case Nil
    with Resolving_Events assms show ?thesis by (auto simp: step_ok_def)
  next
    case (Cons b ds)
    with Resolving_Events assms show ?thesis
      by (auto simp: resolve_defs jobs_done_def intro!: resolved_ok)
  qed
next
  case (Resolving_Flows bs)
  show ?thesis
  proof (cases bs)
    case Nil
    with Resolving_Flows assms show ?thesis by (auto simp: step_ok_def flows_done_def)
  next
    case (Cons b ds)
    with Resolving_Flows assms show ?thesis
      by (auto simp: resolve_defs jobs_done_def intro!: resolved_ok)
  qed
next
  case (Resolving_Schedules bs)
  show ?thesis
  proof (cases bs)
    case Nil
    with Resolving_Schedules assms show ?thesis by (auto simp: step_ok_def schedules_done_def)
  next
    case (Cons b ds)
    with Resolving_Schedules assms show ?thesis
      by (auto simp: resolve_defs jobs_done_def flows_done_def intro!: resolved_ok)
  qed
next
  case (Resolving_Outboxes bs)
  show ?thesis
  proof (cases bs)
    case Nil
    from assms have "init_publish s = (p, s')" "phase_inv cfg s (Resolving_Outboxes [])"
      by (simp_all only: Resolving_Outboxes Nil init_step.simps)
    then show ?thesis by (rule init_publish_ok)
  next
    case (Cons b ds)
    with Resolving_Outboxes assms show ?thesis
      by (auto simp: resolve_defs jobs_done_def flows_done_def schedules_done_def intro!: resolved_ok)
  qed
qed

lemma progress_inv_new: "progress_inv cfg new_session"
  by (simp add: progress_inv_def new_session_def)

text \<open>The fields the invariant reads.\<close>

definition core :: "session \<Rightarrow> start_status \<times> engine_state \<times> bound_connection list \<times> string list \<times> bool \<times> stores \<times> stores" where
  "core s = (se_start s, se_state s, se_bindings s, se_taken s, se_runtime s, se_local s, se_ready s)"

lemma phase_inv_cong:
  assumes "se_bindings t = se_bindings s" and "se_taken t = se_taken s" and "se_runtime t = se_runtime s"
    and "se_local t = se_local s"
  shows "phase_inv cfg t ph = phase_inv cfg s ph"
  using assms assembled_same[OF assms(1-3)]
  by (cases ph) (simp_all add: acquired_all_def jobs_done_def flows_done_def schedules_done_def)

lemma ready_ok_cong:
  "se_taken t = se_taken s \<Longrightarrow> se_runtime t = se_runtime s \<Longrightarrow> se_ready t = se_ready s
     \<Longrightarrow> ready_ok cfg t = ready_ok cfg s"
  by (simp add: ready_ok_def)

lemma progress_inv_core: "core t = core s \<Longrightarrow> progress_inv cfg t = progress_inv cfg s"
  using phase_inv_cong[of t s cfg] ready_ok_cong[of t s cfg]
  by (simp add: core_def progress_inv_def split: start_status.splits)

lemma activation_core [simp]:
  "core (activate_workers cfg s) = core s" "core (activate_publisher s) = core s"
  "core (activate_scheduler s) = core s" "core (publisher_step ok s) = core s"
  "core (scheduler_step ok s) = core s" "core (worker_step cfg ok a s) = core s"
proof -
  show "core (worker_step cfg ok a s) = core s"
    by (cases "(cfg, ok, a, s)" rule: worker_step.cases) (simp_all add: core_def)
qed (simp_all add: core_def activate_workers_def activate_publisher_def activate_scheduler_def
      publisher_step_def scheduler_step_def)

lemma session_init_progress:
  assumes "progress_inv cfg s" and "se_start s = Initializing ph"
  shows "progress_inv cfg (session_init cfg ans ph s)"
proof -
  obtain p t where st: "init_step cfg ans ph s = (p, t)" by fastforce
  from assms have "phase_inv cfg s ph" by (simp add: progress_inv_def)
  from init_step_ok[OF st this] show ?thesis
    by (cases p)
       (simp_all add: session_init_def st step_ok_def progress_inv_def phase_inv_cong[of "t\<lparr>se_start := _\<rparr>" t]
          ready_ok_cong[of "t\<lparr>se_start := _\<rparr>" t])
qed

lemma session_close_progress: "progress_inv cfg s \<Longrightarrow> progress_inv cfg (session_close s)"
  by (auto simp: session_close_def progress_inv_def phase_inv_cong[of "s\<lparr>se_stop := True,
        se_state := Stopping, se_snapshots := [], se_closing := True\<rparr>" s] split: start_status.splits)

lemma session_finish_progress:
  "progress_inv cfg s \<Longrightarrow> session_settled s \<Longrightarrow> progress_inv cfg (session_finish_close a s)"
  by (auto simp: session_finish_close_def session_cleanup_def release_resources_def progress_inv_def
      session_settled_def settled_start_def split: start_status.splits)

lemma session_step_progress:
  assumes "progress_inv cfg s" and "session_step cfg ev s = Some s'"
  shows "progress_inv cfg s'"
proof (cases ev)
  case Ev_Start
  with assms show ?thesis
    by (auto simp: session_start_def progress_inv_def split: if_splits)
next
  case (Ev_Init ans)
  with assms show ?thesis by (auto intro: session_init_progress split: start_status.splits)
next
  case (Ev_Unwind a)
  with assms show ?thesis
    by (auto simp: session_unwind_def progress_inv_def Let_def split: start_status.splits)
next
  case Ev_Close
  with assms show ?thesis by (auto intro: session_close_progress)
next
  case (Ev_Finish a)
  with assms show ?thesis by (auto intro: session_finish_progress split: if_splits)
next
  case Ev_Activate_Workers
  with assms progress_inv_core[OF activation_core(1)] show ?thesis by auto
next
  case (Ev_Worker ok)
  with assms progress_inv_core[OF activation_core(6)] show ?thesis by (auto split: if_splits)
next
  case Ev_Activate_Publisher
  with assms progress_inv_core[OF activation_core(2)] show ?thesis by auto
next
  case (Ev_Publisher ok)
  with assms progress_inv_core[OF activation_core(4)] show ?thesis by (auto split: if_splits)
next
  case Ev_Activate_Scheduler
  with assms progress_inv_core[OF activation_core(3)] show ?thesis by auto
next
  case (Ev_Scheduler ok)
  with assms progress_inv_core[OF activation_core(5)] show ?thesis by (auto split: if_splits)
qed

lemma reachable_progress: "session_reachable cfg s \<Longrightarrow> progress_inv cfg s"
  by (induction rule: session_reachable.induct) (auto intro: progress_inv_new session_step_progress)

subsection \<open>Runs\<close>

lemma run_reachable:
  "session_run cfg evs s = Some s' \<Longrightarrow> session_reachable cfg s \<Longrightarrow> session_reachable cfg s'"
  by (induction evs arbitrary: s) (auto intro: reach_step split: option.splits)

lemmas new_run_reachable = run_reachable[OF _ reach_new]

lemma check_boundaries_iff:
  "check_boundaries cs seen = Inr () \<longleftrightarrow> distinct (map (\<lambda>c. (cn_boundary c, cn_scope c)) cs)
     \<and> (\<lambda>c. (cn_boundary c, cn_scope c)) ` set cs \<inter> set seen = {}"
  by (induction cs arbitrary: seen) (auto simp: rbind_Inr_iff throw_if_iff)

lemma check_queues_iff: "check_queues qs cs = Inr () \<longleftrightarrow> set qs \<subseteq> cn_name ` set cs"
  by (auto simp: check_queues_def each_ok throw_if_iff)

lemma ready_started: "session_inv s \<Longrightarrow> se_state s = Ready \<Longrightarrow> se_start s = Started"
  by (cases "se_start s") (auto simp: session_inv_def phase_ok_def)

lemma reachable_ready: "session_reachable cfg s \<Longrightarrow> se_state s = Ready \<Longrightarrow> ready_ok cfg s"
  using reachable_progress[of cfg s] ready_started[OF reachable_inv[of cfg s]]
  by (simp add: progress_inv_def)

subsection \<open>Closing\<close>

lemma closing_step:
  assumes "session_inv s" and "se_closing s" and "session_step cfg ev s = Some s'"
  shows "se_closing s' \<and> (se_state s = Closed \<longrightarrow> se_state s' = Closed
    \<and> se_released s' = se_released s \<and> se_taken s' = se_taken s)"
proof (cases ev)
  case (Ev_Init ans)
  with assms obtain ph where ph: "se_start s = Initializing ph" and s': "s' = session_init cfg ans ph s"
    by (auto split: start_status.splits)
  obtain p t where st: "init_step cfg ans ph s = (p, t)" by fastforce
  from init_step_frame[OF st] assms(1,2) ph have "se_closing t" "se_state s \<noteq> Closed"
    by (auto simp: init_frame_def shared_def session_inv_def session_settled_def settled_start_def)
  with s' st show ?thesis by (cases p) (auto simp: session_init_def)
next
  case (Ev_Unwind a)
  with assms obtain e where e: "se_start s = Unwinding e" and s': "s' = session_unwind a e s"
    by (auto split: start_status.splits)
  from assms(1) e have "se_state s \<noteq> Closed" by (auto simp: session_inv_def session_settled_def settled_start_def)
  with assms(2) s' show ?thesis by (simp add: session_unwind_def session_cleanup_def Let_def)
next
  case (Ev_Worker ok)
  with assms show ?thesis
    by (cases "(cfg, ok, se_activating s, s)" rule: worker_step.cases) (auto split: if_splits)
qed (use assms in \<open>auto simp: session_start_def session_close_def session_finish_close_def session_cleanup_def
      activate_workers_def activate_publisher_def activate_scheduler_def publisher_step_def scheduler_step_def
      session_inv_def phase_ok_def split: if_splits\<close>)

lemma closing_run:
  "session_run cfg evs s = Some s' \<Longrightarrow> session_inv s \<Longrightarrow> se_closing s
     \<Longrightarrow> session_inv s' \<and> se_closing s' \<and> (se_state s = Closed \<longrightarrow> se_state s' = Closed
    \<and> se_released s' = se_released s \<and> se_taken s' = se_taken s)"
proof (induction evs arbitrary: s)
  case (Cons ev evs)
  then obtain t where t: "session_step cfg ev s = Some t" and r: "session_run cfg evs t = Some s'"
    by (auto split: option.splits)
  from closing_step[OF Cons.prems(2,3) t] Cons.IH[OF r session_step_inv[OF Cons.prems(2) t]]
  show ?case by auto
qed simp

text \<open>The steps the session takes by itself while it closes: the answers to what is being awaited.\<close>

fun internal :: "session_event \<Rightarrow> bool" where
  "internal (Ev_Init _) = True"
| "internal (Ev_Unwind _) = True"
| "internal (Ev_Finish _) = True"
| "internal (Ev_Worker _) = True"
| "internal (Ev_Publisher _) = True"
| "internal (Ev_Scheduler _) = True"
| "internal _ = False"

fun phase_rank :: "init_phase \<Rightarrow> nat" where
  "phase_rank Checking = 1"
| "phase_rank (Acquiring _) = 2"
| "phase_rank Assembling = 1"
| "phase_rank (Resolving_Jobs _) = 5"
| "phase_rank (Resolving_Events _) = 4"
| "phase_rank (Resolving_Flows _) = 3"
| "phase_rank (Resolving_Schedules _) = 2"
| "phase_rank (Resolving_Outboxes _) = 1"

fun start_rank :: "start_status \<Rightarrow> nat" where
  "start_rank (Initializing ph) = 1 + phase_rank ph"
| "start_rank (Unwinding _) = 1"
| "start_rank _ = 0"

fun activation_rank :: "activation \<Rightarrow> nat" where
  "activation_rank (Recovering _) = 2"
| "activation_rank (Starting_Workers _) = 1"
| "activation_rank Activating_Service = 1"
| "activation_rank _ = 0"

definition close_rank :: "session \<Rightarrow> nat" where
  "close_rank s = (if se_state s = Closed then 0 else 1) + start_rank (se_start s)
     + activation_rank (se_activating s) + activation_rank (se_publishing s) + activation_rank (se_scheduling s)"

lemma resolve_store_stopped [simp]:
  "se_stop s \<Longrightarrow> resolved (resolve_store e1 e2 e3 rq b ans s) next' add
     = (Threw (Mq_Engine_State (se_state s) ''finish startup''), s)"
  by (simp add: resolve_store_def assert_starting_cases resolved_def)

lemma init_step_stopped:
  assumes "se_stop s" and "init_step cfg ans ph s = (p, t)"
  shows "(\<exists>e. p = Threw e) \<or> (\<exists>ph'. p = Continue ph' \<and> phase_rank ph' < phase_rank ph)"
  using assms(2)
  by (cases "(cfg, ans, ph, s)" rule: init_step.cases)
     (auto simp: assms(1) init_check_def init_acquire_def init_assemble_def init_publish_def
        assert_starting_cases resolve_defs)

lemma phase_rank_pos [simp]: "0 < phase_rank ph"
  by (cases ph) simp_all

lemma session_init_rank:
  assumes "session_inv s" and "se_closing s" and "se_start s = Initializing ph"
  shows "close_rank (session_init cfg ans ph s) < close_rank s"
proof -
  obtain p t where st: "init_step cfg ans ph s = (p, t)" by fastforce
  from assms have stop: "se_stop s" by (simp add: session_inv_def phase_ok_def)
  from init_step_stopped[OF stop st] have "p \<noteq> Finished" by auto
  with init_step_frame[OF st] have f: "se_state t = se_state s" "se_activating t = se_activating s"
    "se_publishing t = se_publishing s" "se_scheduling t = se_scheduling s"
    by (simp_all add: init_frame_def shared_def)
  from init_step_stopped[OF stop st] show ?thesis
    by (auto simp: session_init_def st close_rank_def f assms(3))
qed

lemma worker_rank:
  assumes "se_stop s" and "\<not> settled_activation (se_activating s)" and "se_activating s \<noteq> Activating_Service"
  shows "close_rank (worker_step cfg ok (se_activating s) s) < close_rank s"
  using assms by (cases "(cfg, ok, se_activating s, s)" rule: worker_step.cases) (auto simp: close_rank_def)

text \<open>Workers pass through recovery and start, the two services through one activation.\<close>

definition service :: "activation \<Rightarrow> bool" where
  "service a \<longleftrightarrow> a = Not_Activated \<or> a = Activating_Service \<or> a = Activated"

definition kinds_ok :: "session \<Rightarrow> bool" where
  "kinds_ok s \<longleftrightarrow> se_activating s \<noteq> Activating_Service \<and> service (se_publishing s) \<and> service (se_scheduling s)"

lemma session_step_kinds:
  assumes "kinds_ok s" and "session_step cfg ev s = Some s'"
  shows "kinds_ok s'"
proof (cases ev)
  case (Ev_Init ans)
  with assms obtain ph where s': "s' = session_init cfg ans ph s"
    by (auto split: start_status.splits)
  obtain p t where st: "init_step cfg ans ph s = (p, t)" by fastforce
  from init_step_frame[OF st] have "se_activating t = se_activating s"
    "se_publishing t = se_publishing s" "se_scheduling t = se_scheduling s"
    by (simp_all add: init_frame_def shared_def)
  with assms(1) s' st show ?thesis by (cases p) (simp_all add: session_init_def kinds_ok_def)
next
  case (Ev_Worker ok)
  with assms show ?thesis
    by (cases "(cfg, ok, se_activating s, s)" rule: worker_step.cases)
       (auto simp: kinds_ok_def split: if_splits)
qed (use assms in \<open>auto simp: kinds_ok_def service_def session_start_def session_unwind_def session_cleanup_def
      session_close_def session_finish_close_def activate_workers_def activate_publisher_def
      activate_scheduler_def publisher_step_def scheduler_step_def Let_def
      split: if_splits start_status.splits\<close>)

lemma kinds_new: "kinds_ok new_session"
  by (simp add: kinds_ok_def service_def new_session_def)

lemma reachable_kinds: "session_reachable cfg s \<Longrightarrow> kinds_ok s"
  by (induction rule: session_reachable.induct) (auto intro: session_step_kinds kinds_new)

lemma closing_rank:
  assumes "session_inv s" and "kinds_ok s" and "se_closing s" and "internal ev"
    and "session_step cfg ev s = Some s'"
  shows "close_rank s' < close_rank s"
proof (cases ev)
  case (Ev_Init ans)
  with assms show ?thesis by (auto intro: session_init_rank split: start_status.splits)
next
  case (Ev_Unwind a)
  with assms show ?thesis
    by (auto simp: session_unwind_def session_cleanup_def close_rank_def Let_def session_inv_def phase_ok_def
        split: start_status.splits)
next
  case (Ev_Worker ok)
  from assms(1,3) have "se_stop s" by (simp add: session_inv_def phase_ok_def)
  with Ev_Worker assms show ?thesis by (auto simp: kinds_ok_def intro: worker_rank split: if_splits)
qed (use assms in \<open>auto simp: session_finish_close_def session_cleanup_def publisher_step_def scheduler_step_def
      close_rank_def split: if_splits\<close>)

lemma closing_enabled:
  assumes "session_inv s" and "kinds_ok s" and "se_closing s" and "se_state s \<noteq> Closed"
  shows "\<exists>ev s'. internal ev \<and> session_step cfg ev s = Some s'"
proof (cases "session_settled s")
  case True
  with assms have "session_step cfg (Ev_Finish a) s = Some (session_finish_close a s)" for a by simp
  then show ?thesis using internal.simps(3) by blast
next
  case False
  then consider "\<not> settled_start (se_start s)" | "\<not> settled_activation (se_activating s)"
    | "se_publishing s = Activating_Service" | "se_scheduling s = Activating_Service"
    using assms(2) by (auto simp: session_settled_def kinds_ok_def service_def)
  then show ?thesis
  proof cases
    case 1
    then show ?thesis
    proof (cases "se_start s")
      case (Initializing ph)
      then have "session_step cfg (Ev_Init Answer_Runtime) s = Some (session_init cfg Answer_Runtime ph s)"
        by simp
      then show ?thesis using internal.simps(1) by blast
    next
      case (Unwinding e)
      then have "session_step cfg (Ev_Unwind a) s = Some (session_unwind a e s)" for a by simp
      then show ?thesis using internal.simps(2) by blast
    qed (simp_all add: settled_start_def)
  next
    case 2
    then have "session_step cfg (Ev_Worker True) s = Some (worker_step cfg True (se_activating s) s)" by simp
    then show ?thesis using internal.simps(4) by blast
  next
    case 3
    then have "session_step cfg (Ev_Publisher True) s = Some (publisher_step True s)" by simp
    then show ?thesis using internal.simps(5) by blast
  next
    case 4
    then have "session_step cfg (Ev_Scheduler True) s = Some (scheduler_step True s)" by simp
    then show ?thesis using internal.simps(6) by blast
  qed
qed

text \<open>The steps of a closing session: at most as many as its rank, and never stuck before it is closed.\<close>

lemma closing_run_rank:
  "session_run cfg evs s = Some s' \<Longrightarrow> session_inv s \<Longrightarrow> kinds_ok s \<Longrightarrow> se_closing s \<Longrightarrow> list_all internal evs
     \<Longrightarrow> length evs + close_rank s' \<le> close_rank s"
proof (induction evs arbitrary: s)
  case (Cons ev evs)
  then obtain t where t: "session_step cfg ev s = Some t" and r: "session_run cfg evs t = Some s'"
    by (auto split: option.splits)
  from Cons.prems closing_step[OF _ _ t] session_step_inv[OF _ t] session_step_kinds[OF _ t]
    Cons.IH[OF r] closing_rank[OF _ _ _ _ t] show ?case by fastforce
qed simp

lemma closing_reaches_closed:
  assumes "session_inv s" and "kinds_ok s" and "se_closing s"
  shows "\<exists>evs s'. list_all internal evs \<and> session_run cfg evs s = Some s' \<and> se_state s' = Closed"
  using assms
proof (induction "close_rank s" arbitrary: s rule: less_induct)
  case less
  show ?case
  proof (cases "se_state s = Closed")
    case True
    then show ?thesis by (intro exI[of _ "[]"]) simp
  next
    case False
    from closing_enabled[OF less.prems False, of cfg] obtain ev t
      where ev: "internal ev" and t: "session_step cfg ev s = Some t" by blast
    from less.hyps[OF closing_rank[OF less.prems ev t] session_step_inv[OF less.prems(1) t]
        session_step_kinds[OF less.prems(2) t]] closing_step[OF less.prems(1,3) t]
    obtain evs s' where "list_all internal evs" "session_run cfg evs t = Some s'" "se_state s' = Closed" by blast
    with ev t show ?thesis by (intro exI[of _ "ev # evs"]) auto
  qed
qed

lemma close_rank_bound:
  assumes "kinds_ok s"
  shows "close_rank s \<le> 11"
proof -
  have "start_rank (se_start s) \<le> 6"
  proof (cases "se_start s")
    case (Initializing ph)
    then show ?thesis by (cases ph) simp_all
  qed simp_all
  moreover have "activation_rank (se_activating s) \<le> 2" by (cases "se_activating s") simp_all
  moreover from assms have "activation_rank (se_publishing s) \<le> 1" "activation_rank (se_scheduling s) \<le> 1"
    by (auto simp: kinds_ok_def service_def)
  ultimately show ?thesis by (simp add: close_rank_def)
qed

subsection \<open>Properties\<close>

text \<open>
  C2. An engine that reports \<open>ready\<close> is complete: every queue names a configured connection, no storage
  boundary is configured twice, a resource was acquired for every connection in configuration order, and
  (unless there is nothing to run) the runtime exists, every connection's job store is resolved, and the
  connection of every flow participant and of every declared schedule has its store.
\<close>
theorem session_ready_complete:
  assumes "session_reachable cfg s" and "se_state s = Ready"
  shows "\<exists>cs. cf_connections cfg = Some cs
    \<and> set (cf_queues cfg) \<subseteq> cn_name ` set cs
    \<and> distinct (map (\<lambda>c. (cn_boundary c, cn_scope c)) cs)
    \<and> se_taken s = map cn_name cs
    \<and> (cs = [] \<and> cf_plans cfg = []
       \<or> se_runtime s \<and> st_jobs (se_ready s) = map cn_name cs
         \<and> set (cf_flow_participants cfg) \<subseteq> set (st_flows (se_ready s))
         \<and> set (cf_schedules cfg) \<subseteq> set (st_schedules (se_ready s)))"
  using reachable_ready[OF assms]
  by (auto simp: ready_ok_def accepted_config_def check_queues_iff check_boundaries_iff)

definition sample_config :: session_config where
  "sample_config = \<lparr>cf_connections = Some [
       \<lparr>cn_name = ''main'', cn_boundary = 1, cn_scope = ''a'', cn_requirements = [''priority'']\<rparr>,
       \<lparr>cn_name = ''audit'', cn_boundary = 1, cn_scope = ''b'', cn_requirements = []\<rparr>],
     cf_queues = [''main''], cf_plans = [''mail''], cf_flow_participants = [''main''], cf_schedules = [],
     cf_scheduler = True, cf_publisher = False\<rparr>"

definition sample_resource :: "bool \<Rightarrow> answer" where
  "sample_resource flows =
     Answer_Resource \<lparr>rs_events = False, rs_flows = flows, rs_schedules = False, rs_outbox = False\<rparr>"

definition sample_startup :: "session_event list" where
  "sample_startup = [Ev_Start, Ev_Init Answer_Runtime, Ev_Init (sample_resource True),
     Ev_Init (sample_resource False), Ev_Init Answer_Runtime, Ev_Init Answer_Runtime,
     Ev_Init (Answer_Store True True [''priority''] True), Ev_Init (Answer_Store True True [] True),
     Ev_Init Answer_Runtime, Ev_Init Answer_Runtime, Ev_Init (Answer_Store True True [] True),
     Ev_Init Answer_Runtime, Ev_Init Answer_Runtime, Ev_Init Answer_Runtime]"

lemmas sample_session = sample_config_def sample_resource_def sample_startup_def new_session_def
  no_stores_def session_start_def session_init_def init_check_def init_acquire_def init_assemble_def
  init_publish_def resolve_defs resolve_store_def resolved_def assert_starting_cases to_progress_def
  check_queues_def throw_if_def offering_def name_of_def

definition sample_ready :: session where
  "sample_ready = the (session_run sample_config sample_startup new_session)"

lemma sample_ready_run:
  "session_run sample_config sample_startup new_session = Some sample_ready
     \<and> se_state sample_ready = Ready"
  by (simp add: sample_ready_def sample_session)

lemmas sample_ready_reachable = new_run_reachable[OF conjunct1[OF sample_ready_run]]

theorem session_ready_complete_witness:
  "\<exists>cs. cf_connections sample_config = Some cs \<and> se_taken sample_ready = map cn_name cs"
  using session_ready_complete[OF sample_ready_reachable conjunct2[OF sample_ready_run]] by blast

text \<open>
  C3. Once \<open>close\<close> was called the engine closes whatever the adapters answer: as long as it is not closed
  one of the answers it waits for is pending, at most eleven of them remain, and a run that takes them
  all ends closed.
\<close>
theorem session_close_terminates:
  assumes "session_reachable cfg s" and "se_closing s"
  shows "(\<exists>evs s'. list_all internal evs \<and> session_run cfg evs s = Some s' \<and> se_state s' = Closed)
    \<and> (\<forall>evs s'. list_all internal evs \<and> session_run cfg evs s = Some s' \<longrightarrow>
        length evs \<le> 11 \<and> (se_state s' = Closed \<or> (\<exists>ev t. internal ev \<and> session_step cfg ev s' = Some t)))"
proof (intro conjI allI impI)
  note inv = reachable_inv[OF assms(1)] and kinds = reachable_kinds[OF assms(1)]
  show "\<exists>evs s'. list_all internal evs \<and> session_run cfg evs s = Some s' \<and> se_state s' = Closed"
    by (rule closing_reaches_closed[OF inv kinds assms(2)])
  fix evs s' assume r: "list_all internal evs \<and> session_run cfg evs s = Some s'"
  with closing_run_rank[OF _ inv kinds assms(2)] close_rank_bound[OF kinds] show "length evs \<le> 11"
    by (meson add_leD1 le_trans)
  from r closing_run[OF _ inv assms(2)] have "session_inv s'" "se_closing s'" by blast+
  with closing_enabled reachable_kinds[OF run_reachable] r assms(1)
  show "se_state s' = Closed \<or> (\<exists>ev t. internal ev \<and> session_step cfg ev s' = Some t)" by blast
qed

definition sample_closing :: session where
  "sample_closing = session_close sample_ready"

lemma sample_closing_reachable: "session_reachable sample_config sample_closing"
  unfolding sample_closing_def by (rule reach_step[OF sample_ready_reachable, of Ev_Close]) simp

lemma sample_closing_closing: "se_closing sample_closing"
  by (simp add: sample_closing_def session_close_def)

theorem session_close_terminates_witness:
  "\<exists>evs s'. session_run sample_config evs sample_closing = Some s' \<and> se_state s' = Closed"
  using session_close_terminates[OF sample_closing_reachable sample_closing_closing] by blast

text \<open>
  C4. Every acquired resource is released exactly once and in reverse order of acquisition: before the
  cleanup nothing has been released, after it everything has; and an engine that is closed or failed has
  been cleaned up and keeps no runtime, no ready store and no running worker, publisher or scheduler.
\<close>
theorem session_release_once:
  assumes "session_reachable cfg s"
  shows "(case se_cleaned s of
       None \<Rightarrow> se_released s = [] \<and> se_acquired s = se_taken s \<and> se_state s \<noteq> Closed \<and> se_state s \<noteq> Failed
     | Some _ \<Rightarrow> se_released s = rev (se_taken s) \<and> se_acquired s = [] \<and> \<not> se_runtime s
         \<and> se_ready s = no_stores \<and> se_workers s = [] \<and> \<not> se_publisher s \<and> \<not> se_scheduler s)"
proof (cases "se_cleaned s")
  case None
  have "se_state s \<noteq> Failed"
    using reachable_inv[OF assms] None by (cases "se_start s") (auto simp: session_inv_def phase_ok_def)
  with reachable_inv[OF assms] None show ?thesis by (auto simp: session_inv_def)
next
  case (Some fs)
  with reachable_inv[OF assms] show ?thesis by (auto simp: session_inv_def idle_resources_def)
qed

theorem session_release_once_witness:
  "se_released (the (session_run sample_config [Ev_Finish \<lparr>ca_dispose = None, ca_diagnostics = [],
     ca_release = (\<lambda>_. None)\<rparr>] sample_closing)) = [''audit'', ''main'']"
proof -
  let ?a = "\<lparr>ca_dispose = None, ca_diagnostics = [], ca_release = (\<lambda>_. None)\<rparr>"
  let ?s = "session_finish_close ?a sample_closing"
  have st: "session_step sample_config (Ev_Finish ?a) sample_closing = Some ?s"
    by (simp add: sample_closing_def sample_ready_def sample_session session_close_def session_settled_def
        settled_start_def)
  have c: "se_cleaned ?s \<noteq> None" "se_taken ?s = [''main'', ''audit'']"
    by (simp_all add: sample_closing_def sample_ready_def sample_session session_close_def
        session_finish_close_def session_cleanup_def release_resources_def)
  from session_release_once[OF reach_step[OF sample_closing_reachable st]] c st show ?thesis by auto
qed

text \<open>
  Closing is final: from the call of \<open>close\<close> on, through any further events, the engine is only ever
  stopping or closed, starts nothing again, refuses every store, flow, schedule, outbox, event, job and
  worker operation with its own exception, and what is closed stays closed.
\<close>
theorem session_closed_final:
  assumes "session_reachable cfg s" and "se_closing s" and "session_run cfg evs s = Some s'"
  shows "(se_state s' = Stopping \<or> se_state s' = Closed) \<and> (se_state s = Closed \<longrightarrow> se_state s' = Closed)
    \<and> fst (session_start cfg s') = Inl (Mq_Engine_State (se_state s') ''start'')
    \<and> with_store name s' = Inl (Mq_Engine_State (se_state s') ''access a store'')
    \<and> with_flows name s' = Inl (Mq_Flow FlowUnavailable)
    \<and> with_schedules name s' = Inl (Mq_Schedule ScheduleUnavailable)
    \<and> with_outbox name s' = Inl (Mq_Outbox OutboxUnavailable)
    \<and> assert_events name s' = Inl (Mq_Job OpAwaitResult)
    \<and> run_operation s' = Inl (Mq_Job OpBinding)
    \<and> await_idle s' = Inl (Mq_Engine_State (se_state s') ''wait for workers'')"
proof -
  from closing_run[OF assms(3) reachable_inv[OF assms(1)] assms(2)]
  have i: "session_inv s'" "se_closing s'" "se_state s = Closed \<longrightarrow> se_state s' = Closed" by blast+
  then have st: "se_stop s'" "se_state s' = Stopping \<or> se_state s' = Closed"
    by (auto simp: session_inv_def phase_ok_def)
  then have "se_state s' \<noteq> Ready" by auto
  with st i(3) show ?thesis
    by (auto simp: session_start_def with_store_def with_flows_def with_schedules_def with_outbox_def
        assert_events_def run_operation_def await_idle_def engine_ready_def throw_if_def)
qed

lemma sample_closing_state: "se_state sample_closing = Stopping"
  by (simp add: sample_closing_def sample_ready_def sample_session session_close_def)

theorem session_closed_final_witness:
  "with_store ''main'' sample_closing = Inl (Mq_Engine_State Stopping ''access a store'')"
  using session_closed_final[OF sample_closing_reachable sample_closing_closing session_run.simps(1),
      of "''main''"]
  unfolding sample_closing_state by blast

end
