(* ===== verification/Mq_Reconcile.thy ===== *)
theory Mq_Reconcile
  imports Mq_Values
begin

text \<open>
  What \<open>src/engine/queue-controls.ts\<close> and \<open>src/engine/schedules.ts\<close> share: every declaration is
  checked against the store before the first write, a validating application never writes, and a
  reconciling one stops at the first write that fails. The interface \<open>preflight_gate\<close> says what the
  check of one declaration promises; both coordinators interpret it.
\<close>

fun apply_all :: "('b \<Rightarrow> 'w \<Rightarrow> 'r res \<times> 'w) \<Rightarrow> 'b list \<Rightarrow> 'w \<Rightarrow> 'r list res \<times> 'w" where
  "apply_all write [] w = (Inr [], w)"
| "apply_all write (b # bs) w =
     (case write b w of
        (Inl e, w') \<Rightarrow> (Inl e, w')
      | (Inr r, w') \<Rightarrow>
          (case apply_all write bs w' of
             (Inl e, w'') \<Rightarrow> (Inl e, w'')
           | (Inr rs, w'') \<Rightarrow> (Inr (r # rs), w'')))"

definition check_then_write :: "(bool \<Rightarrow> 'i \<Rightarrow> 'w \<Rightarrow> unit res) \<Rightarrow> ('b \<Rightarrow> 'w \<Rightarrow> 'r res \<times> 'w)
    \<Rightarrow> bool \<Rightarrow> 'i list \<Rightarrow> 'b list \<Rightarrow> 'w \<Rightarrow> 'r list res \<times> 'w" where
  "check_then_write check write validate items batches w =
     (case each (\<lambda>i. check validate i w) items of
        Inl e \<Rightarrow> (Inl e, w)
      | Inr _ \<Rightarrow> if validate then (Inr [], w) else apply_all write batches w)"

lemma check_then_write_validate:
  "check_then_write check write True items batches w
     = (rbind (each (\<lambda>i. check True i w) items) (\<lambda>_. Inr []), w)"
  by (cases "each (\<lambda>i. check True i w) items") (simp_all add: check_then_write_def)

lemma check_then_write_refused:
  "each (\<lambda>i. check validate i w) items = Inl e
     \<Longrightarrow> check_then_write check write validate items batches w = (Inl e, w)"
  by (simp add: check_then_write_def)

lemma each_all: "\<forall>x\<in>set xs. f x = Inr () \<Longrightarrow> each f xs = Inr ()"
  by (simp add: each_ok)

lemma each_fails: "\<not> (\<forall>x\<in>set xs. f x = Inr ()) \<Longrightarrow> \<exists>e. each f xs = Inl e"
  by (cases "each f xs") (auto simp: each_ok)

lemma check_then_write_passed:
  "\<forall>i\<in>set items. check validate i w = Inr ()
     \<Longrightarrow> check_then_write check write validate items batches w
       = (if validate then (Inr [], w) else apply_all write batches w)"
  by (simp add: check_then_write_def each_all)

lemma check_then_write_ok:
  "check_then_write check write False items batches w = (Inr rs, w')
     \<longleftrightarrow> (\<forall>i\<in>set items. check False i w = Inr ()) \<and> apply_all write batches w = (Inr rs, w')"
proof (cases "\<forall>i\<in>set items. check False i w = Inr ()")
  case True
  then show ?thesis by (simp add: check_then_write_passed)
next
  case False
  from each_fails[OF this] show ?thesis using False by (auto simp: check_then_write_def)
qed

text \<open>
  \<open>P\<close> is established by the write of the batch it belongs to and kept by every other successful
  write, so it holds of every batch after all of them.
\<close>

lemma apply_all_establishes:
  assumes "apply_all write batches w = (Inr rs, w')"
    and "\<And>b v r v'. b \<in> set batches \<Longrightarrow> write b v = (Inr r, v') \<Longrightarrow> P b v'"
    and "\<And>b c v r v'. b \<in> set batches \<Longrightarrow> c \<in> set batches \<Longrightarrow> write c v = (Inr r, v') \<Longrightarrow> P b v \<Longrightarrow> P b v'"
    and "b \<in> set batches \<or> Q" and "Q \<Longrightarrow> P b w"
    and "\<And>c v r v'. Q \<Longrightarrow> c \<in> set batches \<Longrightarrow> write c v = (Inr r, v') \<Longrightarrow> P b v \<Longrightarrow> P b v'"
  shows "P b w'"
  using assms
proof (induction batches arbitrary: w rs Q)
  case (Cons c cs)
  from Cons.prems(1) obtain r v qs where c: "write c w = (Inr r, v)" and cs: "apply_all write cs v = (Inr qs, w')"
    by (auto split: prod.splits sum.splits)
  have now: "P b v" if "b = c \<or> Q"
    using that Cons.prems(2)[OF _ c] Cons.prems(5) Cons.prems(6)[OF _ _ c] by auto
  show ?case
  proof (rule Cons.IH[OF cs, of "b = c \<or> Q"])
    show "b \<in> set cs \<or> (b = c \<or> Q)" using Cons.prems(4) by auto
    show "\<And>d v r v'. b = c \<or> Q \<Longrightarrow> d \<in> set cs \<Longrightarrow> write d v = (Inr r, v') \<Longrightarrow> P b v \<Longrightarrow> P b v'"
      using Cons.prems(3,6) by (metis list.set_intros(1,2))
    show "\<And>d v r v'. d \<in> set cs \<Longrightarrow> write d v = (Inr r, v') \<Longrightarrow> P d v'"
      using Cons.prems(2) by simp
    show "\<And>d e v r v'. d \<in> set cs \<Longrightarrow> e \<in> set cs \<Longrightarrow> write e v = (Inr r, v') \<Longrightarrow> P d v \<Longrightarrow> P d v'"
      using Cons.prems(3) by (meson list.set_intros(2))
  qed (use now in auto)
qed simp

lemma apply_all_invariant:
  assumes "apply_all write batches w = (Inr rs, w')" and "I w"
    and "\<And>b v r v'. b \<in> set batches \<Longrightarrow> write b v = (Inr r, v') \<Longrightarrow> I v \<Longrightarrow> I v'"
  shows "I w'"
  using assms
proof (induction batches arbitrary: w rs)
  case (Cons c cs)
  from Cons.prems(1) obtain r v qs where c: "write c w = (Inr r, v)" and cs: "apply_all write cs v = (Inr qs, w')"
    by (auto split: prod.splits sum.splits)
  have "I v" using Cons.prems(3)[OF _ c] Cons.prems(2) by simp
  show ?case by (rule Cons.IH[OF cs \<open>I v\<close>], rule Cons.prems(3)) auto
qed simp

lemma apply_all_reports:
  "apply_all write batches w = (Inr rs, w') \<Longrightarrow> length rs = length batches"
  by (induction batches arbitrary: w rs) (auto split: prod.splits sum.splits)

subsection \<open>The interface of a check\<close>

locale preflight_gate =
  fixes check :: "bool \<Rightarrow> 'i \<Rightarrow> 'w \<Rightarrow> unit res"
    and agrees :: "'i \<Rightarrow> 'w \<Rightarrow> bool"
  assumes validate_iff: "check True i w = Inr () \<longleftrightarrow> check False i w = Inr () \<and> agrees i w"
begin

text \<open>A validating start succeeds exactly when every declaration is acceptable and agrees with the store.\<close>

lemma validate_sync:
  "(\<exists>rs. check_then_write check write True items batches w = (Inr rs, w))
     \<longleftrightarrow> (\<forall>i\<in>set items. check False i w = Inr () \<and> agrees i w)"
  by (auto simp: check_then_write_validate rbind_Inr_iff each_ok validate_iff)

lemma validate_never_writes: "snd (check_then_write check write True items batches w) = w"
  by (simp add: check_then_write_validate)

lemma validated_can_reconcile:
  assumes "check_then_write check write True items batches w = (Inr rs, w)"
  shows "check_then_write check write False items batches w = apply_all write batches w"
proof -
  from assms have "\<forall>i\<in>set items. check True i w = Inr ()"
    by (simp add: check_then_write_validate rbind_Inr_iff each_ok)
  then have "\<forall>i\<in>set items. check False i w = Inr ()" by (simp add: validate_iff)
  then show ?thesis by (simp add: check_then_write_passed)
qed

text \<open>No write happens while one declaration is refused.\<close>

lemma refused_unchanged:
  assumes "i \<in> set items" and "check validate i w \<noteq> Inr ()"
  shows "\<exists>e. check_then_write check write validate items batches w = (Inl e, w)"
proof -
  from assms obtain e where "each (\<lambda>i. check validate i w) items = Inl e"
    using each_fails[of items "\<lambda>i. check validate i w"] by blast
  then show ?thesis by (simp add: check_then_write_def)
qed

end

end
