(* ===== verification/Mq_Controls.thy ===== *)
theory Mq_Controls
  imports Mq_Reconcile Mq_Controlled_Store
begin

text \<open>
  \<open>src/engine/queue-controls.ts\<close>: the coordinator that compares the limits the queues declare with the
  persisted policies, and in reconcile mode deploys them, one registry per connection. The adapter is
  the \<open>job_store\<close> of the controlled protocol; its \<open>reconcile\<close>, the capability bits and the validity of
  a queue name are further parameters. \<open>kv_open\<close> is the admission of \<open>session.withStore\<close>, which may
  change between calls.
\<close>

record reconcile_result =
  rr_created :: "controls_record list"
  rr_updated :: "controls_record list"
  rr_unchanged :: "controls_record list"
  rr_records :: "controls_record list"

record 'w controls_env =
  kv_open :: "string \<Rightarrow> 'w \<Rightarrow> unit res"
  kv_store :: "string \<Rightarrow> 'w job_store"
  kv_concurrency :: "string \<Rightarrow> bool"
  kv_rate_limiting :: "string \<Rightarrow> bool"
  kv_queue_name :: "string \<Rightarrow> bool"
  kv_reconcile :: "string \<Rightarrow> string \<Rightarrow> (string \<times> controls_options) list \<Rightarrow> ('w, reconcile_result) store_op"

text \<open>A snapshot is the record together with its connection.\<close>

record controls_snapshot =
  ks_connection :: string
  ks_record :: controls_record

definition controls_snapshot_of :: "string \<Rightarrow> controls_record \<Rightarrow> controls_snapshot" where
  "controls_snapshot_of connection r = \<lparr>ks_connection = connection, ks_record = r\<rparr>"

record controls_report =
  kr_connection :: string
  kr_created :: "string list"
  kr_updated :: "string list"
  kr_unchanged :: "string list"
  kr_records :: "controls_snapshot list"

subsection \<open>Checks\<close>

definition assert_capabilities :: "'w controls_env \<Rightarrow> string \<Rightarrow> controls_options \<Rightarrow> unit res" where
  "assert_capabilities env connection opts =
     rbind (require_controlled_store (kv_store env connection)) (\<lambda>_.
     rbind (throw_if ((co_global opts \<noteq> None \<or> co_per_key opts \<noteq> None) \<and> \<not> kv_concurrency env connection)
       (Queue_Controls ControlsCapability)) (\<lambda>_.
     throw_if (co_rate_limit opts \<noteq> None \<and> \<not> kv_rate_limiting env connection)
       (Queue_Controls ControlsCapability)))"

definition same_policy :: "controls_record \<Rightarrow> controls_options \<Rightarrow> bool" where
  "same_policy r desired \<longleftrightarrow> cr_enabled r \<and> cr_global r = co_global desired
     \<and> cr_per_key r = co_per_key desired \<and> cr_rate_limit r = co_rate_limit desired"

text \<open>Reading the persisted policy of a queue, inside \<open>withStore\<close>.\<close>

definition read_controls :: "'w controls_env \<Rightarrow> string \<Rightarrow> string \<Rightarrow> 'w \<Rightarrow> controls_record option res" where
  "read_controls env connection queue w =
     rbind (require_controlled_store (kv_store env connection)) (\<lambda>ext.
     rbind (throw_if (\<not> kv_queue_name env queue) (Queue_Controls ControlsConfiguration)) (\<lambda>_.
     case ce_get_controls ext queue w of
       Inl _ \<Rightarrow> Inl (Queue_Controls ControlsOperation) | Inr found \<Rightarrow> Inr found))"

definition foreign_group :: "string \<Rightarrow> controls_record option \<Rightarrow> bool" where
  "foreign_group grp found = (case found of None \<Rightarrow> False | Some r \<Rightarrow> cr_group r \<noteq> grp)"

definition controls_preflight :: "'w controls_env \<Rightarrow> string \<Rightarrow> bool \<Rightarrow> queue_definition \<Rightarrow> 'w \<Rightarrow> unit res" where
  "controls_preflight env grp validate q w =
     (case qd_controls q of
        None \<Rightarrow> Inr ()
      | Some desired \<Rightarrow>
          rbind (kv_open env (qd_connection q) w) (\<lambda>_.
          rbind (assert_capabilities env (qd_connection q) desired) (\<lambda>_.
          rbind (read_controls env (qd_connection q) (qd_name q) w) (\<lambda>found.
          rbind (throw_if (foreign_group grp found) (Queue_Controls ControlsOwnership)) (\<lambda>_.
          if validate then
            rbind (need found (Queue_Controls ControlsMissing)) (\<lambda>r.
            throw_if (\<not> same_policy r desired) (Queue_Controls ControlsDrift))
          else Inr ())))))"

subsection \<open>Writing\<close>

text \<open>The declared queues by connection: a \<open>Map\<close> in order of first use.\<close>

definition add_to_group :: "(string \<times> queue_definition list) list \<Rightarrow> queue_definition
    \<Rightarrow> (string \<times> queue_definition list) list" where
  "add_to_group groups q =
     AList.update (qd_connection q) (orelse (map_of groups (qd_connection q)) [] @ [q]) groups"

definition controls_groups :: "queue_definition list \<Rightarrow> (string \<times> queue_definition list) list" where
  "controls_groups queues = foldl add_to_group [] queues"

definition no_controls :: controls_options where
  "no_controls = \<lparr>co_global = None, co_per_key = None, co_rate_limit = None\<rparr>"

definition group_registry :: "queue_definition list \<Rightarrow> (string \<times> controls_options) list" where
  "group_registry queues = map (\<lambda>q. (qd_name q, orelse (qd_controls q) no_controls)) queues"

definition report_of :: "string \<Rightarrow> reconcile_result \<Rightarrow> controls_report" where
  "report_of connection r =
     \<lparr>kr_connection = connection, kr_created = map cr_queue (rr_created r),
      kr_updated = map cr_queue (rr_updated r), kr_unchanged = map cr_queue (rr_unchanged r),
      kr_records = map (controls_snapshot_of connection) (rr_records r)\<rparr>"

definition reconcile_group :: "'w controls_env \<Rightarrow> string \<Rightarrow> string \<times> queue_definition list \<Rightarrow> 'w
    \<Rightarrow> controls_report res \<times> 'w" where
  "reconcile_group env grp batch w =
     (case batch of (connection, queues) \<Rightarrow>
        (case rbind (kv_open env connection w) (\<lambda>_. require_controlled_store (kv_store env connection)) of
           Inl e \<Rightarrow> (Inl e, w)
         | Inr _ \<Rightarrow>
             (case kv_reconcile env connection grp (group_registry queues) w of
                (Inl _, w') \<Rightarrow> (Inl (Queue_Controls ControlsOperation), w')
              | (Inr r, w') \<Rightarrow> (Inr (report_of connection r), w'))))"

definition declared_queues :: "queue_definition list \<Rightarrow> queue_definition list" where
  "declared_queues queues = filter (\<lambda>q. qd_controls q \<noteq> None) queues"

definition controls_synchronize :: "'w controls_env \<Rightarrow> string \<Rightarrow> sync_mode \<Rightarrow> queue_definition list \<Rightarrow> 'w
    \<Rightarrow> controls_report list res \<times> 'w" where
  "controls_synchronize env grp mode queues w =
     check_then_write (controls_preflight env grp) (reconcile_group env grp) (mode = Validate)
       (declared_queues queues) (controls_groups (declared_queues queues)) w"

definition controls_initialize :: "'w controls_env \<Rightarrow> controls_config \<Rightarrow> queue_definition list \<Rightarrow> 'w
    \<Rightarrow> controls_report list res \<times> 'w" where
  "controls_initialize env cfg queues w = controls_synchronize env (cc_group cfg) (cc_mode cfg) queues w"

definition controls_reconcile :: "'w controls_env \<Rightarrow> controls_config \<Rightarrow> queue_definition list \<Rightarrow> 'w
    \<Rightarrow> controls_report list res \<times> 'w" where
  "controls_reconcile env cfg queues w =
     (if cc_mode cfg \<noteq> Reconcile then (Inl (Queue_Controls ControlsMode), w)
      else controls_synchronize env (cc_group cfg) Reconcile queues w)"

text \<open>Reading the policy of a queue class: only registered identities can be read.\<close>

definition registered_queue :: "queue_metadata option \<Rightarrow> queue_definition list \<Rightarrow> queue_definition option" where
  "registered_queue metadata queues =
     (case metadata of
        None \<Rightarrow> None
      | Some m \<Rightarrow> find (\<lambda>q. qd_name q = qm_name m \<and> qd_connection q = qm_connection m) queues)"

definition controls_get :: "'w controls_env \<Rightarrow> queue_metadata option \<Rightarrow> queue_definition list \<Rightarrow> 'w
    \<Rightarrow> controls_snapshot option res" where
  "controls_get env metadata queues w =
     rbind (need (registered_queue metadata queues) (Queue_Controls ControlsConfiguration)) (\<lambda>q.
     rbind (kv_open env (qd_connection q) w) (\<lambda>_.
     rbind (read_controls env (qd_connection q) (qd_name q) w) (\<lambda>found.
     Inr (map_option (controls_snapshot_of (qd_connection q)) found))))"

subsection \<open>The check of one queue\<close>

text \<open>The persisted policy of a declared queue is the declared one.\<close>

definition controls_agree :: "'w controls_env \<Rightarrow> queue_definition \<Rightarrow> 'w \<Rightarrow> bool" where
  "controls_agree env q w =
     (case qd_controls q of
        None \<Rightarrow> True
      | Some desired \<Rightarrow>
          (case ce_get_controls (js_ext (kv_store env (qd_connection q))) (qd_name q) w of
             Inr (Some r) \<Rightarrow> same_policy r desired
           | _ \<Rightarrow> False))"

lemma require_controlled_ext: "require_controlled_store store = Inr ext \<Longrightarrow> ext = js_ext store"
  by (auto simp: require_controlled_store_def controlled_store_def split: if_splits)

lemma read_controls_ok:
  "read_controls env connection queue w = Inr found \<longleftrightarrow>
     (\<exists>ext. require_controlled_store (kv_store env connection) = Inr ext) \<and> kv_queue_name env queue
     \<and> ce_get_controls (js_ext (kv_store env connection)) queue w = Inr found"
proof (cases "require_controlled_store (kv_store env connection)")
  case (Inr ext)
  with require_controlled_ext[OF Inr] show ?thesis
    by (cases "ce_get_controls ext queue w") (auto simp: read_controls_def rbind_Inr_iff throw_if_iff)
qed (simp add: read_controls_def)

interpretation controls: preflight_gate "controls_preflight env grp" "controls_agree env" for env grp
proof
  fix q w
  show "controls_preflight env grp True q w = Inr ()
    \<longleftrightarrow> controls_preflight env grp False q w = Inr () \<and> controls_agree env q w"
  proof (cases "qd_controls q")
    case (Some desired)
    show ?thesis
    proof (cases "read_controls env (qd_connection q) (qd_name q) w")
      case (Inl e)
      with Some show ?thesis by (auto simp: controls_preflight_def rbind_Inr_iff)
    next
      case (Inr found)
      with Some show ?thesis
        by (cases found)
           (auto simp: controls_preflight_def controls_agree_def rbind_Inr_iff throw_if_iff read_controls_ok)
    qed
  qed (simp add: controls_preflight_def controls_agree_def)
qed

text \<open>Every declared queue is in the batch of its connection, in order, and nothing else is.\<close>

lemma controls_groups_lookup:
  "map_of (controls_groups queues) connection
     = (case filter (\<lambda>q. qd_connection q = connection) queues of [] \<Rightarrow> None | qs \<Rightarrow> Some qs)"
proof -
  have "map_of (foldl add_to_group groups queues) connection
      = (case filter (\<lambda>q. qd_connection q = connection) queues of
           [] \<Rightarrow> map_of groups connection
         | qs \<Rightarrow> Some (orelse (map_of groups connection) [] @ qs))" for groups
  proof (induction queues arbitrary: groups)
    case (Cons q qs)
    then show ?case
      by (auto simp: add_to_group_def map_of_update split: list.splits)
  qed simp
  from this[of "[]"] show ?thesis by (simp add: controls_groups_def split: list.splits)
qed


lemma controls_preflight_validate:
  assumes "q \<in> set (declared_queues queues)"
  shows "controls_preflight env grp True q w = Inr () \<longleftrightarrow> (\<exists>r desired.
             qd_controls q = Some desired \<and> kv_open env (qd_connection q) w = Inr ()
             \<and> assert_capabilities env (qd_connection q) desired = Inr ()
             \<and> read_controls env (qd_connection q) (qd_name q) w = Inr (Some r)
             \<and> cr_group r = grp \<and> same_policy r desired)"
  using assms
  by (auto simp: declared_queues_def controls_preflight_def rbind_Inr_iff throw_if_iff need_ok foreign_group_def)

lemma controls_preflight_passed:
  assumes "controls_preflight env grp False q w = Inr ()" and "qd_controls q = Some desired"
  shows "kv_open env (qd_connection q) w = Inr () \<and> assert_capabilities env (qd_connection q) desired = Inr ()
    \<and> (\<exists>found. read_controls env (qd_connection q) (qd_name q) w = Inr found)"
  using assms by (auto simp: controls_preflight_def rbind_Inr_iff)

subsection \<open>Properties\<close>

text \<open>
  A validating application never changes a persisted policy, and it starts exactly when every
  declared queue can be read through an adapter with the needed capabilities, belongs to this policy
  group, and has precisely the declared limits enabled; anything else is an error.
\<close>

theorem controls_validate_read_only:
  "snd (controls_synchronize env grp Validate queues w) = w
   \<and> (fst (controls_synchronize env grp Validate queues w) = Inr []
       \<longleftrightarrow> (\<forall>q\<in>set (declared_queues queues). \<exists>r desired.
             qd_controls q = Some desired \<and> kv_open env (qd_connection q) w = Inr ()
             \<and> assert_capabilities env (qd_connection q) desired = Inr ()
             \<and> read_controls env (qd_connection q) (qd_name q) w = Inr (Some r)
             \<and> cr_group r = grp \<and> same_policy r desired))"
  by (simp add: controls_synchronize_def check_then_write_validate rbind_Inr_iff each_ok
      controls_preflight_validate)

text \<open>
  Deployment is checked completely before the first write: if one declared queue is refused (no
  capability, another group, unreadable) the deployment reports an error and no policy of any
  connection has changed.
\<close>

theorem controls_reconcile_checked_first:
  assumes "q \<in> set (declared_queues queues)" and "controls_preflight env (cc_group cfg) False q w \<noteq> Inr ()"
  shows "\<exists>e. controls_reconcile env cfg queues w = (Inl e, w)"
proof (cases "cc_mode cfg = Reconcile")
  case True
  with controls.refused_unchanged[OF assms, of "reconcile_group env (cc_group cfg)"
      "controls_groups (declared_queues queues)"]
  show ?thesis by (simp add: controls_reconcile_def controls_synchronize_def)
qed (simp add: controls_reconcile_def)

text \<open>
  What the adapter documents of its \<open>reconcile\<close>: on success each registered queue has the declared
  limits, enabled, in the given group; policies of other queues, and of other connections, keep what
  they had (\<open>removal: 'ignore'\<close>), and so do the admissions of the session.
\<close>

definition reconcile_deploys :: "'w controls_env \<Rightarrow> bool" where
  "reconcile_deploys env \<longleftrightarrow>
     (\<forall>connection grp registry w r w'. kv_reconcile env connection grp registry w = (Inr r, w') \<longrightarrow>
        (\<forall>q desired. (q, desired) \<in> set registry \<longrightarrow>
           (\<exists>c. ce_get_controls (js_ext (kv_store env connection)) q w' = Inr (Some c)
              \<and> cr_group c = grp \<and> same_policy c desired))
        \<and> (\<forall>other q. other \<noteq> connection \<or> q \<notin> fst ` set registry \<longrightarrow>
             ce_get_controls (js_ext (kv_store env other)) q w' = ce_get_controls (js_ext (kv_store env other)) q w)
        \<and> (\<forall>other. kv_open env other w' = kv_open env other w))"

lemma controls_groups_member:
  assumes "(connection, qs) \<in> set (controls_groups queues)"
  shows "qs = filter (\<lambda>q. qd_connection q = connection) queues"
proof -
  have "distinct (map fst (foldl add_to_group groups queues))" if "distinct (map fst groups)" for groups
    using that by (induction queues arbitrary: groups) (simp_all add: add_to_group_def distinct_update)
  from this[of "[]"] assms have "map_of (controls_groups queues) connection = Some qs"
    by (simp add: controls_groups_def)
  then show ?thesis by (simp add: controls_groups_lookup split: list.splits)
qed

lemma controls_groups_distinct: "distinct (map fst (controls_groups queues))"
proof -
  have "distinct (map fst (foldl add_to_group groups queues))" if "distinct (map fst groups)" for groups
    using that by (induction queues arbitrary: groups) (simp_all add: add_to_group_def distinct_update)
  from this[of "[]"] show ?thesis by (simp add: controls_groups_def)
qed

definition deployed :: "'w controls_env \<Rightarrow> string \<Rightarrow> string \<times> queue_definition list \<Rightarrow> 'w \<Rightarrow> bool" where
  "deployed env grp batch w \<longleftrightarrow> (\<forall>q\<in>set (snd batch). \<forall>desired. qd_controls q = Some desired \<longrightarrow>
     (\<exists>c. ce_get_controls (js_ext (kv_store env (fst batch))) (qd_name q) w = Inr (Some c)
        \<and> cr_group c = grp \<and> same_policy c desired))"

lemma reconcile_group_ok:
  assumes "reconcile_group env grp (connection, qs) w = (Inr rep, w')"
  obtains r where "kv_reconcile env connection grp (group_registry qs) w = (Inr r, w')"
  using assms by (auto simp: reconcile_group_def split: sum.splits prod.splits)

lemma reconcile_group_deploys:
  assumes "reconcile_deploys env" and "reconcile_group env grp b w = (Inr rep, w')"
  shows "deployed env grp b w'"
proof -
  obtain connection qs where b: "b = (connection, qs)" by fastforce
  from reconcile_group_ok[OF assms(2)[unfolded b]] obtain r
    where r: "kv_reconcile env connection grp (group_registry qs) w = (Inr r, w')" .
  have "(qd_name q, desired) \<in> set (group_registry qs)" if "q \<in> set qs" "qd_controls q = Some desired" for q desired
    using that by (force simp: group_registry_def)
  with assms(1) r show ?thesis unfolding deployed_def b reconcile_deploys_def by fastforce
qed

lemma reconcile_group_keeps:
  assumes "reconcile_deploys env" and "reconcile_group env grp c w = (Inr rep, w')" and "fst c \<noteq> fst b"
    and "deployed env grp b w"
  shows "deployed env grp b w'"
proof -
  obtain connection qs where c: "c = (connection, qs)" by fastforce
  from reconcile_group_ok[OF assms(2)[unfolded c]] obtain r
    where r: "kv_reconcile env connection grp (group_registry qs) w = (Inr r, w')" .
  with assms(1,3) c have "ce_get_controls (js_ext (kv_store env (fst b))) q w'
      = ce_get_controls (js_ext (kv_store env (fst b))) q w" for q
    unfolding reconcile_deploys_def by fastforce
  with assms(4) show ?thesis by (simp add: deployed_def)
qed

text \<open>
  C21. Deployment converges: with an adapter whose \<open>reconcile\<close> does what it documents, an application that
  validates the same declarations in the same group starts right after a successful deployment, without
  any further write.
\<close>

theorem controls_reconcile_converges:
  assumes "reconcile_deploys env" and "controls_reconcile env cfg queues w = (Inr reports, w')"
  shows "controls_synchronize env (cc_group cfg) Validate queues w' = (Inr [], w')"
proof -
  let ?g = "cc_group cfg" and ?qs = "declared_queues queues"
  from assms(2) have pre: "\<forall>q\<in>set ?qs. controls_preflight env ?g False q w = Inr ()"
    and run: "apply_all (reconcile_group env ?g) (controls_groups ?qs) w = (Inr reports, w')"
    by (auto simp: controls_reconcile_def controls_synchronize_def check_then_write_ok split: if_splits)
  have opens: "\<forall>c. kv_open env c w' = kv_open env c w"
  proof (rule apply_all_invariant[OF run])
    fix b v r v' assume "reconcile_group env ?g b v = (Inr r, v')" "\<forall>c. kv_open env c v = kv_open env c w"
    then show "\<forall>c. kv_open env c v' = kv_open env c w"
      using assms(1) reconcile_group_ok[of env ?g "fst b" "snd b" v r v']
      unfolding reconcile_deploys_def by (metis prod.collapse)
  qed simp
  have "controls_preflight env ?g True q w' = Inr ()" if q: "q \<in> set ?qs" for q
  proof -
    from q obtain desired where d: "qd_controls q = Some desired" by (auto simp: declared_queues_def)
    let ?b = "(qd_connection q, filter (\<lambda>p. qd_connection p = qd_connection q) ?qs)"
    have "map_of (controls_groups ?qs) (qd_connection q) = Some (snd ?b)"
      using q by (auto simp: controls_groups_lookup filter_empty_conv split: list.splits)
    then have "?b \<in> set (controls_groups ?qs)" by (simp add: map_of_SomeD)
    then have "deployed env ?g ?b w'"
    proof (intro apply_all_establishes[OF run, of "deployed env ?g" ?b False])
      fix b c v r v'
      assume bc: "b \<in> set (controls_groups ?qs)" "c \<in> set (controls_groups ?qs)"
        and w: "reconcile_group env ?g c v = (Inr r, v')" and b: "deployed env ?g b v"
      show "deployed env ?g b v'"
      proof (cases "fst c = fst b")
        case True
        with bc controls_groups_member[of _ _ ?qs] have "c = b" by (metis prod.collapse)
        with w assms(1) show ?thesis by (simp add: reconcile_group_deploys)
      next
        case False
        with reconcile_group_keeps[OF assms(1) w _ b] show ?thesis by simp
      qed
    qed (use assms(1) reconcile_group_deploys in auto)
    with q d obtain c where c: "ce_get_controls (js_ext (kv_store env (qd_connection q))) (qd_name q) w' = Inr (Some c)"
      "cr_group c = ?g" "same_policy c desired"
      by (auto simp: deployed_def)
    from pre q have "controls_preflight env ?g False q w = Inr ()" by blast
    from controls_preflight_passed[OF this d] c d opens show ?thesis
      unfolding controls_preflight_validate[OF q] by (auto simp: read_controls_ok)
  qed
  then show ?thesis
    by (simp add: controls_synchronize_def check_then_write_passed)
qed

text \<open>
  A concrete adapter: the state is the policy of each queue of each connection, and \<open>reconcile\<close> writes
  the registered ones; it refuses a registry with two entries for a queue.
\<close>

type_synonym demo_policies = "string \<times> string \<Rightarrow> controls_record option"

definition demo_record :: "string \<Rightarrow> string \<Rightarrow> controls_options \<Rightarrow> controls_record" where
  "demo_record grp q d = \<lparr>cr_queue = q, cr_group = grp, cr_enabled = True, cr_revision = 1,
     cr_global = co_global d, cr_per_key = co_per_key d, cr_rate_limit = co_rate_limit d\<rparr>"

definition demo_deploy :: "string \<Rightarrow> string \<Rightarrow> (string \<times> controls_options) list \<Rightarrow> demo_policies \<Rightarrow> demo_policies" where
  "demo_deploy connection grp registry w = (\<lambda>(c, q).
     case if c = connection then map_of registry q else None of
       None \<Rightarrow> w (c, q) | Some d \<Rightarrow> Some (demo_record grp q d))"

definition demo_reconcile :: "string \<Rightarrow> string \<Rightarrow> (string \<times> controls_options) list
    \<Rightarrow> (demo_policies, reconcile_result) store_op" where
  "demo_reconcile connection grp registry w =
     (if distinct (map fst registry)
      then (Inr \<lparr>rr_created = [], rr_updated = [], rr_unchanged = [], rr_records = []\<rparr>,
            demo_deploy connection grp registry w)
      else (Inl Lease_Lost, w))"

definition demo_ext :: "string \<Rightarrow> demo_policies controlled_ext" where
  "demo_ext connection = \<lparr>ce_get_controls = (\<lambda>q w. Inr (w (connection, q))), ce_claim = (\<lambda>_ _ w. (Inl Lease_Lost, w)),
     ce_settle = (\<lambda>_ _ w. (Inl Lease_Lost, w)), ce_release = (\<lambda>_ _ w. (Inl Lease_Lost, w)),
     ce_cancel = (\<lambda>_ _ w. (Inl Lease_Lost, w)), ce_recover = (\<lambda>_ _ _ _ w. (Inl Lease_Lost, w))\<rparr>"

definition demo_controls_store :: "string \<Rightarrow> demo_policies job_store" where
  "demo_controls_store connection = \<lparr>js_methods = controlled_methods, js_ext = demo_ext connection,
     js_get_job = (\<lambda>_ _. Inr None), js_claim = (\<lambda>_ w. (Inl Lease_Lost, w)), js_settle = (\<lambda>_ w. (Inl Lease_Lost, w)),
     js_release = (\<lambda>_ w. (Inl Lease_Lost, w)), js_cancel = (\<lambda>_ w. (Inl Lease_Lost, w)),
     js_recover = (\<lambda>_ w. (Inl Lease_Lost, w))\<rparr>"

definition demo_env :: "demo_policies controls_env" where
  "demo_env = \<lparr>kv_open = (\<lambda>_ _. Inr ()), kv_store = demo_controls_store, kv_concurrency = (\<lambda>_. True),
     kv_rate_limiting = (\<lambda>_. False), kv_queue_name = (\<lambda>_. True), kv_reconcile = demo_reconcile\<rparr>"

definition demo_limited :: "string \<Rightarrow> controls_options \<Rightarrow> queue_definition" where
  "demo_limited name opts = \<lparr>qd_name = name, qd_connection = ''main'', qd_controls = Some opts, qd_jobs = []\<rparr>"

definition demo_limits :: controls_options where
  "demo_limits = no_controls\<lparr>co_global := Some (jint 4)\<rparr>"

definition demo_mode :: controls_config where
  "demo_mode = \<lparr>cc_mode = Reconcile, cc_group = ''ops''\<rparr>"

lemmas demo_controls = demo_env_def demo_controls_store_def demo_ext_def demo_limited_def demo_limits_def
  demo_mode_def no_controls_def controlled_methods_def

lemma demo_deploys: "reconcile_deploys demo_env"
  unfolding reconcile_deploys_def
proof (intro allI impI conjI)
  fix connection grp registry w r w'
  assume "kv_reconcile demo_env connection grp registry w = (Inr r, w')"
  then have d: "distinct (map fst registry)" and w': "w' = demo_deploy connection grp registry w"
    by (auto simp: demo_env_def demo_reconcile_def split: if_splits)
  show "\<exists>c. ce_get_controls (js_ext (kv_store demo_env connection)) q w' = Inr (Some c)
      \<and> cr_group c = grp \<and> same_policy c desired" if "(q, desired) \<in> set registry" for q desired
    using map_of_is_SomeI[OF d that]
    by (simp add: demo_controls w' demo_deploy_def demo_record_def same_policy_def)
  show "ce_get_controls (js_ext (kv_store demo_env other)) q w'
      = ce_get_controls (js_ext (kv_store demo_env other)) q w"
    if "other \<noteq> connection \<or> q \<notin> fst ` set registry" for other q
    using that by (auto simp: demo_controls w' demo_deploy_def map_of_eq_None_iff[symmetric])
  show "kv_open demo_env other w' = kv_open demo_env other w" for other
    by (simp add: demo_env_def)
qed

theorem controls_reconcile_checked_first_witness:
  "\<exists>e. controls_reconcile demo_env demo_mode [demo_limited ''mail'' demo_limits,
     demo_limited ''sms'' (no_controls\<lparr>co_rate_limit := Some \<lparr>rl_max = jint 1, rl_duration_ms = jint 1000\<rparr>\<rparr>)]
     Map.empty = (Inl e, Map.empty)"
  by (rule controls_reconcile_checked_first[of "demo_limited ''sms''
        (no_controls\<lparr>co_rate_limit := Some \<lparr>rl_max = jint 1, rl_duration_ms = jint 1000\<rparr>\<rparr>)"])
     (simp_all add: declared_queues_def controls_preflight_def assert_capabilities_def
        require_controlled_store_def controlled_store_def demo_controls)

theorem controls_reconcile_converges_witness:
  "\<exists>w'. w' (''main'', ''mail'') = Some (demo_record ''ops'' ''mail'' demo_limits)
     \<and> controls_synchronize demo_env ''ops'' Validate [demo_limited ''mail'' demo_limits] w' = (Inr [], w')"
proof -
  let ?qs = "[demo_limited ''mail'' demo_limits]"
  let ?w = "demo_deploy ''main'' ''ops'' [(''mail'', demo_limits)] Map.empty"
  have run: "\<exists>reports. controls_reconcile demo_env demo_mode ?qs Map.empty = (Inr reports, ?w)"
    by (simp add: controls_reconcile_def controls_synchronize_def check_then_write_def declared_queues_def
        controls_preflight_def assert_capabilities_def require_controlled_store_def controlled_store_def
        read_controls_def foreign_group_def controls_groups_def add_to_group_def reconcile_group_def
        group_registry_def demo_reconcile_def demo_controls)
  have g: "cc_group demo_mode = ''ops''" by (simp add: demo_mode_def)
  have v: "?w (''main'', ''mail'') = Some (demo_record ''ops'' ''mail'' demo_limits)"
    by (simp add: demo_deploy_def)
  from run obtain reports where r: "controls_reconcile demo_env demo_mode ?qs Map.empty = (Inr reports, ?w)" ..
  from controls_reconcile_converges[OF demo_deploys r] v show ?thesis unfolding g by blast
qed

theorem controls_validate_read_only_witness:
  "fst (controls_synchronize demo_env ''ops'' Validate [demo_limited ''mail'' demo_limits]
     (demo_deploy ''main'' ''ops'' [(''mail'', demo_limits)] Map.empty)) = Inr []"
proof -
  let ?w = "demo_deploy ''main'' ''ops'' [(''mail'', demo_limits)] Map.empty"
  have "\<forall>q\<in>set (declared_queues [demo_limited ''mail'' demo_limits]). \<exists>r desired.
             qd_controls q = Some desired \<and> kv_open demo_env (qd_connection q) ?w = Inr ()
             \<and> assert_capabilities demo_env (qd_connection q) desired = Inr ()
             \<and> read_controls demo_env (qd_connection q) (qd_name q) ?w = Inr (Some r)
             \<and> cr_group r = ''ops'' \<and> same_policy r desired"
    by (simp add: declared_queues_def assert_capabilities_def require_controlled_store_def
        controlled_store_def read_controls_def demo_deploy_def demo_record_def same_policy_def demo_controls)
  with controls_validate_read_only[of demo_env "''ops''" "[demo_limited ''mail'' demo_limits]" ?w]
  show ?thesis by blast
qed

end
