(* ===== verification/Mq_Schedule_Compiler.thy ===== *)
theory Mq_Schedule_Compiler
  imports Mq_Job_Client Mq_Schedule_Options
begin

text \<open>
  \<open>src/engine/schedule-compiler.ts\<close> and the groups of \<open>src/engine/schedule-plan.ts\<close>: from a declared
  schedule to the engine's. \<open>JobSchedules.define\<close> of the engine package is the parameter
  \<open>up\<close>, a function of the group, the compiled job, the key and the cadence; \<open>None\<close> means that it throws
  or gives no declaration. It normalises what it is given, so its result is a record of its own.
\<close>

record engine_misfire =
  em_strategy :: misfire_strategy
  em_max :: "jsnum option"

record cadence =
  ca_payload :: jsval
  ca_metadata :: "(string \<times> string) list"
  ca_attempts :: jsnum
  ca_priority :: jsnum
  ca_misfire :: engine_misfire
  ca_overlap :: overlap_policy
  ca_time_zone :: string
  ca_backoff :: "persisted_backoff option"
  ca_timeout_ms :: "jsnum option"
  ca_cron :: "string option"
  ca_every_ms :: "jsnum option"

record engine_schedule =
  es_group :: string
  es_key :: string
  es_queue :: string
  es_name :: string
  es_version :: nat
  es_cron :: "string option"
  es_every_ms :: "jsnum option"
  es_time_zone :: string
  es_priority :: jsnum
  es_attempts :: jsnum
  es_timeout_ms :: "jsnum option"
  es_backoff :: "persisted_backoff option"
  es_metadata :: "(string \<times> string) list"
  es_misfire :: engine_misfire
  es_overlap :: overlap_policy

type_synonym define_schedule = "string \<Rightarrow> compiled_job \<Rightarrow> string \<Rightarrow> cadence \<Rightarrow> engine_schedule option"

text \<open>A draft is the job, the key and the cadence it was made of.\<close>

record schedule_draft =
  dr_job :: compiled_job
  dr_key :: string
  dr_cadence :: cadence

record compiled_schedule =
  cs_registered :: registered_job
  cs_schedule :: engine_schedule
  cs_encoded :: jsval
  cs_draft :: schedule_draft

abbreviation cs_job :: "compiled_schedule \<Rightarrow> compiled_job" where
  "cs_job c \<equiv> dr_job (cs_draft c)"

abbreviation cs_cadence :: "compiled_schedule \<Rightarrow> cadence" where
  "cs_cadence c \<equiv> dr_cadence (cs_draft c)"

definition run_once :: engine_misfire where
  "run_once = \<lparr>em_strategy = Misfire_Run_Once, em_max = None\<rparr>"

text \<open>The metadata of a copied schedule as the value \<open>publicationMetadata\<close> is given.\<close>

definition metadata_value :: "schedule_metadata \<Rightarrow> jsval" where
  "metadata_value m = VObject ObjectProto (map (\<lambda>(k, v). (PString k, False, v)) (sm_entries m))"

definition schedule_group_of :: "schedule_env \<Rightarrow> schedule_config_input \<Rightarrow> schedule_options \<Rightarrow> string res" where
  "schedule_group_of env cfg o' =
     (case so_group o' of
        Some g \<Rightarrow> Inr g | None \<Rightarrow> rbind (resolve_schedule_options env cfg) (\<lambda>c. Inr (sc_group c)))"

text \<open>A job with per-key work cannot be scheduled; the short circuit asks for the key only without a limit.\<close>

definition assert_no_dispatch_key :: "registered_job \<Rightarrow> jsval \<Rightarrow> unit res" where
  "assert_no_dispatch_key job payload =
     (if Option.bind (rj_controls job) co_per_key \<noteq> None then Inl schedule_error
      else rbind (get_dispatch_key (rj_contract job) payload) (\<lambda>k. throw_if (k \<noteq> None) schedule_error))"

definition cadence_of :: "registered_job \<Rightarrow> schedule_options \<Rightarrow> jsval \<Rightarrow> retry_options
    \<Rightarrow> (string \<times> string) list \<Rightarrow> persisted_backoff option \<Rightarrow> cadence" where
  "cadence_of job o' payload retry metadata b =
     \<lparr>ca_payload = payload, ca_metadata = metadata, ca_attempts = attempts retry,
      ca_priority = orelse (so_priority o') (rp_priority (rj_policy job)),
      ca_misfire = (case so_misfire o' of None \<Rightarrow> run_once
        | Some m \<Rightarrow> \<lparr>em_strategy = mf_strategy m, em_max = mf_max m\<rparr>),
      ca_overlap = orelse (so_overlap o') Overlap_Allow,
      ca_time_zone = orelse (so_time_zone o') ''UTC'', ca_backoff = b,
      ca_timeout_ms = orelse_opt (so_timeout_ms o') (rp_timeout_ms (rj_policy job)),
      ca_cron = so_cron o', ca_every_ms = (case so_cron o' of None \<Rightarrow> so_every_ms o' | Some _ \<Rightarrow> None)\<rparr>"

definition compile_schedule :: "schedule_env \<Rightarrow> define_schedule \<Rightarrow> registered_job \<Rightarrow> schedule_options
    \<Rightarrow> schedule_config_input \<Rightarrow> compiled_schedule res" where
  "compile_schedule env up job supplied cfg =
     rbind (copy_schedule env supplied) (\<lambda>o'.
     rbind (schedule_group_of env cfg o') (\<lambda>grp.
     rbind (validate_schema (jc_payload (rj_contract job)) (so_payload o')) (\<lambda>payload.
     rbind (encode_schema (jc_payload (rj_contract job)) payload) (\<lambda>encoded.
     rbind (assert_no_dispatch_key job payload) (\<lambda>_.
     rbind (throw_if (rp_delay_ms (rj_policy job) \<noteq> jint 0) schedule_error) (\<lambda>_.
     rbind (publication_retry job (so_retry o')) (\<lambda>retry.
     rbind (compile_job job False) (\<lambda>compiled.
     rbind (publication_metadata job (map_option metadata_value (so_metadata o'))) (\<lambda>metadata.
     rbind (compile_backoff retry) (\<lambda>b.
     let cadence = cadence_of job o' payload retry metadata b in
     rbind (need (up grp compiled (so_key o') cadence) schedule_error) (\<lambda>schedule.
     Inr \<lparr>cs_registered = job, cs_schedule = schedule, cs_encoded = encoded,
          cs_draft = \<lparr>dr_job = compiled, dr_key = so_key o', dr_cadence = cadence\<rparr>\<rparr>)))))))))))"

definition compiled_address :: "compiled_schedule \<Rightarrow> string" where
  "compiled_address c = schedule_address (ji_connection (rj_identity (cs_registered c)))
     (es_group (cs_schedule c)) (es_key (cs_schedule c))"

text \<open>\<open>compileSchedules\<close>: the schedules compiled so far; their addresses are the set of seen keys.\<close>

definition add_schedule :: "schedule_env \<Rightarrow> define_schedule \<Rightarrow> schedule_config_input
    \<Rightarrow> compiled_schedule list \<Rightarrow> registered_job \<times> schedule_options \<Rightarrow> compiled_schedule list res" where
  "add_schedule env up cfg compiled decl =
     rbind (compile_schedule env up (fst decl) (snd decl) cfg) (\<lambda>item.
     rbind (throw_if (compiled_address item \<in> compiled_address ` set compiled) schedule_error) (\<lambda>_.
     Inr (compiled @ [item])))"

definition declared_schedules :: "registered_job list \<Rightarrow> (registered_job \<times> schedule_options) list" where
  "declared_schedules jobs = concat (map (\<lambda>j. map (Pair j) (rj_schedules j)) jobs)"

definition compile_schedules :: "schedule_env \<Rightarrow> define_schedule \<Rightarrow> registered_job list
    \<Rightarrow> schedule_config_input \<Rightarrow> compiled_schedule list res" where
  "compile_schedules env up jobs cfg = loop (add_schedule env up cfg) [] (declared_schedules jobs)"

text \<open>The groups a connection serves: the default one and the declared ones; and all of them.\<close>

definition served_groups :: "string \<Rightarrow> compiled_schedule list \<Rightarrow> string \<Rightarrow> string list" where
  "served_groups grp compiled connection =
     dedup (grp # map (\<lambda>c. es_group (cs_schedule c))
       (filter (\<lambda>c. ji_connection (rj_identity (cs_registered c)) = connection) compiled))"

definition schedule_registries :: "string list \<Rightarrow> compiled_schedule list \<Rightarrow> string \<Rightarrow> (string \<times> string) list" where
  "schedule_registries names compiled grp =
     concat (map (\<lambda>n. map (Pair n) (served_groups grp compiled n)) names)"

text \<open>
  \<open>declarationRegistry\<close>: what is handed to the engine to deploy one declaration. A store token is known by
  the name of its connection. The engine has accepted this group and draft when the schedule was compiled.
\<close>

record schedule_registry =
  sg_group :: string
  sg_drafts :: "schedule_draft list"
  sg_stores :: "string list"

definition declaration_registry :: "compiled_schedule \<Rightarrow> schedule_registry" where
  "declaration_registry entry =
     \<lparr>sg_group = es_group (cs_schedule entry), sg_drafts = [cs_draft entry],
      sg_stores = [cj_connection (dr_job (cs_draft entry))]\<rparr>"

subsection \<open>Properties\<close>

lemma add_schedule_ok:
  assumes "add_schedule env up cfg compiled decl = Inr out"
  obtains item where "compile_schedule env up (fst decl) (snd decl) cfg = Inr item"
    "compiled_address item \<notin> compiled_address ` set compiled" "out = compiled @ [item]"
  using assms by (auto simp: add_schedule_def rbind_Inr_iff throw_if_iff)

lemma loop_add_schedule:
  assumes "loop (add_schedule env up cfg) before decls = Inr out"
    and "distinct (map compiled_address before)"
  shows "\<exists>items. out = before @ items \<and> distinct (map compiled_address out)
    \<and> list_all2 (\<lambda>d c. compile_schedule env up (fst d) (snd d) cfg = Inr c) decls items"
  using assms
proof (induction decls arbitrary: before)
  case (Cons d ds)
  from Cons.prems(1) obtain mid where m: "add_schedule env up cfg before d = Inr mid"
    and r: "loop (add_schedule env up cfg) mid ds = Inr out" by (auto simp: rbind_Inr_iff)
  from m obtain item where i: "compile_schedule env up (fst d) (snd d) cfg = Inr item"
    "compiled_address item \<notin> compiled_address ` set before" "mid = before @ [item]"
    by (rule add_schedule_ok)
  with Cons.prems(2) have "distinct (map compiled_address mid)" by simp
  from Cons.IH[OF r this] i show ?case by auto
qed simp

text \<open>
  Compiled schedules are the declarations of the registered jobs in order, one for one, and no two of
  them share connection, group and key.
\<close>

theorem compile_schedules_unique:
  assumes "compile_schedules env up jobs cfg = Inr out"
  shows "list_all2 (\<lambda>d c. compile_schedule env up (fst d) (snd d) cfg = Inr c) (declared_schedules jobs) out
    \<and> distinct (map (\<lambda>c. (ji_connection (rj_identity (cs_registered c)), es_group (cs_schedule c),
         es_key (cs_schedule c))) out)"
proof -
  have inj: "compiled_address = (\<lambda>(c, g, k). schedule_address c g k)
      \<circ> (\<lambda>c. (ji_connection (rj_identity (cs_registered c)), es_group (cs_schedule c), es_key (cs_schedule c)))"
    by (auto simp: compiled_address_def)
  from loop_add_schedule[OF assms[unfolded compile_schedules_def]] have
    "distinct (map compiled_address out)"
    "list_all2 (\<lambda>d c. compile_schedule env up (fst d) (snd d) cfg = Inr c) (declared_schedules jobs) out"
    by auto
  then show ?thesis unfolding inj map_map[symmetric] by (simp only: distinct_map simp_thms)
qed

text \<open>
  A compiled schedule is one the scheduler can run: its cadence is either a valid cron expression or
  a valid interval, the retry policy is valid and keeps the declared custom policy, the metadata carries
  the retry reference the workers check, the job needs no dispatch key and no delay, and the persisted
  payload is the encoding of the validated payload the engine is given.
\<close>

theorem compile_schedule_sound:
  assumes "compile_schedule env up job supplied cfg = Inr c"
  shows "(ca_cron (cs_cadence c) = None) \<noteq> (ca_every_ms (cs_cadence c) = None)
    \<and> (\<forall>x. ca_cron (cs_cadence c) = Some x \<longrightarrow> parse_cron_ok env x)
    \<and> (ca_cron (cs_cadence c) = None \<longrightarrow> every_ms_ok env (ca_every_ms (cs_cadence c)))
    \<and> (\<exists>retry. valid_retry retry \<and> ca_attempts (cs_cadence c) = attempts retry
         \<and> backoff_reference (backoff retry) = retry_reference job
         \<and> compile_backoff retry = Inr (ca_backoff (cs_cadence c)))
    \<and> assert_retry_reference job (ca_metadata (cs_cadence c)) = Inr ()
    \<and> Option.bind (rj_controls job) co_per_key = None
    \<and> get_dispatch_key (rj_contract job) (ca_payload (cs_cadence c)) = Inr None
    \<and> rp_delay_ms (rj_policy job) = jint 0
    \<and> encode_schema (jc_payload (rj_contract job)) (ca_payload (cs_cadence c)) = Inr (cs_encoded c)
    \<and> (\<exists>key grp. up grp (cs_job c) key (cs_cadence c) = Some (cs_schedule c))"
proof -
  from assms obtain o' grp payload retry metadata b where
    o': "copy_schedule env supplied = Inr o'"
    and enc: "encode_schema (jc_payload (rj_contract job)) payload = Inr (cs_encoded c)"
    and key: "assert_no_dispatch_key job payload = Inr ()"
    and delay: "rp_delay_ms (rj_policy job) = jint 0"
    and retry: "publication_retry job (so_retry o') = Inr retry"
    and meta: "publication_metadata job (map_option metadata_value (so_metadata o')) = Inr metadata"
    and b: "compile_backoff retry = Inr b"
    and ca: "cs_cadence c = cadence_of job o' payload retry metadata b"
    and up: "up grp (cs_job c) (so_key o') (cs_cadence c) = Some (cs_schedule c)"
    unfolding compile_schedule_def Let_def
    by (elim rbind_InrE) (auto simp: throw_if_iff need_ok)
  have v: "valid_schedule env o'" by (rule copy_schedule_valid[OF o'])
  from key have "Option.bind (rj_controls job) co_per_key = None"
    "get_dispatch_key (rj_contract job) payload = Inr None"
    by (auto simp: assert_no_dispatch_key_def rbind_Inr_iff throw_if_iff split: if_splits)
  moreover from retry have "valid_retry retry" "backoff_reference (backoff retry) = retry_reference job"
    by (auto simp: publication_retry_def checks_ok throw_if_iff elim!: rbind_InrE)
  moreover have "assert_retry_reference job metadata = Inr ()" by (rule metadata_accepted[OF meta])
  moreover have "(ca_cron (cs_cadence c) = None) \<noteq> (ca_every_ms (cs_cadence c) = None)"
    "\<forall>x. ca_cron (cs_cadence c) = Some x \<longrightarrow> parse_cron_ok env x"
    "ca_cron (cs_cadence c) = None \<longrightarrow> every_ms_ok env (ca_every_ms (cs_cadence c))"
    using v by (auto simp: ca cadence_of_def valid_schedule_def split: option.splits)
  ultimately show ?thesis
    using enc delay b up by (auto simp: ca cadence_of_def)
qed

text \<open>Where compiled schedules come from.\<close>

lemma compile_schedules_origin:
  assumes "compile_schedules env up jobs cfg = Inr out" and "c \<in> set out"
  shows "\<exists>job supplied. (job, supplied) \<in> set (declared_schedules jobs) \<and> compile_schedule env up job supplied cfg = Inr c"
  using loop_add_schedule[OF assms(1)[unfolded compile_schedules_def]] assms(2)
  by (auto simp: list_all2_conv_all_nth in_set_conv_nth) (metis nth_mem prod.collapse)

lemma compile_schedules_distinct:
  assumes "compile_schedules env up jobs cfg = Inr out"
  shows "distinct (map (\<lambda>c. (ji_connection (rj_identity (cs_registered c)), es_group (cs_schedule c),
      es_key (cs_schedule c))) out)"
proof -
  from loop_add_schedule[OF assms[unfolded compile_schedules_def]] have "distinct (map compiled_address out)" by simp
  then show ?thesis by (auto simp: distinct_map inj_on_def compiled_address_def)
qed

lemma compile_schedule_origin:
  assumes "compile_schedule env up job supplied cfg = Inr c"
  obtains grp where "up grp (cs_job c) (dr_key (cs_draft c)) (cs_cadence c) = Some (cs_schedule c)"
    "cs_registered c = job" "compile_job job False = Inr (cs_job c)"
    "encode_schema (jc_payload (rj_contract job)) (ca_payload (cs_cadence c)) = Inr (cs_encoded c)"
  using assms unfolding compile_schedule_def Let_def
  by (elim rbind_InrE) (auto simp: need_ok cadence_of_def)

lemma compile_job_identity:
  assumes "compile_job job retries = Inr j"
  shows "cj_queue j = ji_queue (rj_identity job)" "cj_name j = ji_name (rj_identity job)"
    "cj_version j = ji_version (rj_identity job)" "cj_connection j = ji_connection (rj_identity job)"
    "cj_payload j = jc_payload (rj_contract job)"
  using assms by (auto simp: compile_job_def Let_def elim!: rbind_InrE)

text \<open>A job that can be scheduled, and a declaration for it.\<close>

definition nightly :: "string \<Rightarrow> schedule_options" where
  "nightly key = \<lparr>so_shape = plain_shape [''key'', ''group'', ''payload'', ''cron''], so_key = key, so_group = Some ''ops'',
     so_payload = VStr ''x'', so_cron = Some ''0 3 * * *'', so_every_ms = None, so_time_zone = None,
     so_metadata = None, so_retry = None, so_priority = None, so_timeout_ms = None, so_misfire = None,
     so_overlap = None\<rparr>"

definition nightly_job :: registered_job where
  "nightly_job = sample_job\<lparr>rj_contract := \<lparr>jc_payload = tag_schema, jc_result = tag_schema, jc_failure = None,
     jc_dispatch_key = None, jc_idempotency_key = None, jc_retryable = None\<rparr>,
     rj_schedules := [nightly ''sweep'', nightly ''purge'']\<rparr>"

definition demo_schedule_env :: schedule_env where
  "demo_schedule_env = \<lparr>parse_cron_ok = (\<lambda>c. c = ''0 3 * * *''), every_ms_ok = (\<lambda>_. False),
     time_zone_ok = (\<lambda>_. True), max_identity_length = 128\<rparr>"

definition demo_define :: define_schedule where
  "demo_define grp job key ca = Some \<lparr>es_group = grp, es_key = key, es_queue = cj_queue job,
     es_name = cj_name job, es_version = cj_version job, es_cron = ca_cron ca, es_every_ms = ca_every_ms ca,
     es_time_zone = ca_time_zone ca, es_priority = ca_priority ca, es_attempts = ca_attempts ca,
     es_timeout_ms = ca_timeout_ms ca, es_backoff = ca_backoff ca, es_metadata = ca_metadata ca,
     es_misfire = ca_misfire ca, es_overlap = ca_overlap ca\<rparr>"

lemma nightly_compiled:
  "valid_name key \<Longrightarrow> length key \<le> 128 \<Longrightarrow> nul \<notin> set key \<Longrightarrow>
   \<exists>c. compile_schedule demo_schedule_env demo_define nightly_job (nightly key) cfg = Inr c
     \<and> compiled_address c = schedule_address ''default'' ''ops'' key
     \<and> ca_cron (cs_cadence c) = Some ''0 3 * * *'' \<and> cs_encoded c = VStr ''x''
     \<and> es_metadata (cs_schedule c) = []"
proof -
  assume k: "valid_name key" "length key \<le> 128" "nul \<notin> set key"
  have g: "valid_name ''ops''" by (simp add: valid_name_def is_js_space_def)
  have copy: "copy_schedule demo_schedule_env (nightly key) = Inr (nightly key)"
    using k g
    by (simp add: copy_schedule_def copy_schedule_body_def nightly_def demo_schedule_env_def schedule_fields_def
        check_shape_eq schedule_option_names_def schedule_name_def require_name_eq throw_if_def nul_def)
  have r: "valid_retry (rp_retry (rj_policy nightly_job))"
    by (simp add: nightly_job_def sample_job_def initial_policy_def valid_retry_def max_safe_def)
  have b: "backoff (rp_retry (rj_policy nightly_job)) = None" "rp_timeout_ms (rj_policy nightly_job) = None"
    "rp_delay_ms (rj_policy nightly_job) = jint 0" "rj_controls nightly_job = None"
    "jc_dispatch_key (rj_contract nightly_job) = None" "jc_payload (rj_contract nightly_job) = tag_schema"
    "ji_connection (rj_identity nightly_job) = ''default''"
    by (simp_all add: nightly_job_def sample_job_def initial_policy_def)
  have v: "validate_schema tag_schema (VStr ''x'') = Inr (VStr ''x'')"
    "encode_schema tag_schema (VStr ''x'') = Inr (VStr ''x'')"
    by (simp_all add: encode_schema_def tag_schema_def validate_schema_def json_text_def)
  have n: "so_group (nightly key) = Some ''ops''" "so_payload (nightly key) = VStr ''x''"
    "so_retry (nightly key) = None" "so_metadata (nightly key) = None" "so_key (nightly key) = key"
    "so_cron (nightly key) = Some ''0 3 * * *''"
    by (simp_all add: nightly_def)
  show ?thesis
    by (simp add: compile_schedule_def copy schedule_group_of_def n b v assert_no_dispatch_key_def
        get_dispatch_key_def publication_retry_def copy_retry_eq r retry_reference_def backoff_reference_def
        compile_job_def is_custom_def compile_backoff_def publication_metadata_def Let_def demo_define_def
        compiled_address_def cadence_of_def)
qed

theorem compile_schedule_sound_witness:
  "\<exists>cfg c. compile_schedule demo_schedule_env demo_define nightly_job (nightly ''sweep'') cfg = Inr c
     \<and> assert_retry_reference nightly_job (ca_metadata (cs_cadence c)) = Inr ()"
proof -
  have "valid_name ''sweep''" "nul \<notin> set ''sweep''" by (simp_all add: valid_name_def is_js_space_def nul_def)
  with nightly_compiled[of "''sweep''" cfg] obtain c
    where c: "compile_schedule demo_schedule_env demo_define nightly_job (nightly ''sweep'') cfg = Inr c" by auto
  with compile_schedule_sound[OF c] show ?thesis by blast
qed

lemma nightly_pair:
  "\<exists>c d. compile_schedules demo_schedule_env demo_define [nightly_job] cfg = Inr [c, d]"
proof -
  have "valid_name ''sweep''" "nul \<notin> set ''sweep''" "valid_name ''purge''" "nul \<notin> set ''purge''"
    by (simp_all add: valid_name_def is_js_space_def nul_def)
  with nightly_compiled[of "''sweep''" cfg] nightly_compiled[of "''purge''" cfg] obtain c d
    where c: "compile_schedule demo_schedule_env demo_define nightly_job (nightly ''sweep'') cfg = Inr c"
      "compiled_address c = schedule_address ''default'' ''ops'' ''sweep''"
    and d: "compile_schedule demo_schedule_env demo_define nightly_job (nightly ''purge'') cfg = Inr d"
      "compiled_address d = schedule_address ''default'' ''ops'' ''purge''" by auto
  have "rj_schedules nightly_job = [nightly ''sweep'', nightly ''purge'']" by (simp add: nightly_job_def)
  with c d show ?thesis
    by (simp add: compile_schedules_def declared_schedules_def add_schedule_def)
qed

theorem compile_schedules_unique_witness:
  "\<exists>cfg out. compile_schedules demo_schedule_env demo_define [nightly_job] cfg = Inr out
     \<and> distinct (map (\<lambda>c. (ji_connection (rj_identity (cs_registered c)), es_group (cs_schedule c),
         es_key (cs_schedule c))) out) \<and> length out = 2"
proof -
  obtain cfg c d where r: "compile_schedules demo_schedule_env demo_define [nightly_job] cfg = Inr [c, d]"
    using nightly_pair by blast
  from compile_schedules_unique[OF r] r show ?thesis by (intro exI[of _ cfg] exI[of _ "[c, d]"]) simp
qed

end
