(* ===== verification/Mq_Schedules.thy ===== *)
theory Mq_Schedules
  imports Mq_Schedule_Compiler Mq_Reconcile Mq_Controlled_Store
begin

text \<open>
  \<open>src/engine/schedules.ts\<close>: the coordinator of declared schedules. The schedule stores of the session
  are parameters of \<open>schedules_env\<close> over a state \<open>'w\<close>: the admissions of \<open>withSchedules\<close>, \<open>withStore\<close>
  and \<open>reconcileSchedules\<close>, the reads, and the writes; a read leaves the state as it is.
\<close>

record schedule_record =
  sd_group :: string
  sd_key :: string
  sd_queue :: string
  sd_name :: string
  sd_version :: nat
  sd_cron :: "string option"
  sd_every_ms :: "jsnum option"
  sd_time_zone :: string
  sd_priority :: jsnum
  sd_attempts_max :: jsnum
  sd_timeout_ms :: "jsnum option"
  sd_backoff :: "persisted_backoff option"
  sd_payload :: jsval
  sd_metadata :: "(string \<times> string) list"
  sd_misfire :: engine_misfire
  sd_overlap :: overlap_policy
  sd_paused :: bool

record schedule_result =
  sr_created :: "schedule_record list"
  sr_updated :: "schedule_record list"
  sr_unchanged :: "schedule_record list"

datatype schedule_mutation = Pause_Schedule | Resume_Schedule | Remove_Schedule

record 'w schedules_env =
  sv_sources :: "'w \<Rightarrow> string list"
  sv_open :: "string \<Rightarrow> 'w \<Rightarrow> unit res"
  sv_store :: "string \<Rightarrow> 'w \<Rightarrow> 'w job_store res"
  sv_ready :: "'w \<Rightarrow> unit res"
  sv_queue_name :: "string \<Rightarrow> bool"
  sv_get :: "string \<Rightarrow> string \<Rightarrow> string \<Rightarrow> 'w \<Rightarrow> store_error + schedule_record option"
  sv_list :: "string \<Rightarrow> string \<Rightarrow> 'w \<Rightarrow> store_error + schedule_record list"
  sv_reconcile :: "schedule_registry \<Rightarrow> ('w, schedule_result) store_op"
  sv_mutate :: "schedule_mutation \<Rightarrow> string \<Rightarrow> string \<Rightarrow> string \<Rightarrow> ('w, bool) store_op"

record schedule_snapshot =
  ss_connection :: string
  ss_record :: schedule_record

record schedule_report =
  sp_connection :: string
  sp_group :: string
  sp_created :: "string list"
  sp_updated :: "string list"
  sp_unchanged :: "string list"

definition value_of :: "store_error + 'v \<Rightarrow> 'v res" where
  "value_of r = (case r of Inl _ \<Rightarrow> Inl (Mq_Schedule ScheduleOperation) | Inr v \<Rightarrow> Inr v)"

lemma value_of_ok [simp, res_simps]: "value_of r = Inr v \<longleftrightarrow> r = Inr v"
  by (cases r) (simp_all add: value_of_def)

lemma value_of_simps [simp]: "value_of (Inr v) = Inr v" "value_of (Inl e) = Inl (Mq_Schedule ScheduleOperation)"
  by (simp_all add: value_of_def)

definition schedule_snapshot_of :: "string \<Rightarrow> schedule_record \<Rightarrow> schedule_snapshot" where
  "schedule_snapshot_of connection r = \<lparr>ss_connection = connection, ss_record = r\<rparr>"

definition connection_of :: "registered_job \<Rightarrow> string" where
  "connection_of job = ji_connection (rj_identity job)"

definition same_job :: "schedule_record \<Rightarrow> registered_job \<Rightarrow> bool" where
  "same_job r job \<longleftrightarrow> sd_queue r = ji_queue (rj_identity job) \<and> sd_name r = ji_name (rj_identity job)
     \<and> sd_version r = ji_version (rj_identity job)"

definition assert_identity :: "schedule_record \<Rightarrow> registered_job \<Rightarrow> unit res" where
  "assert_identity r job = throw_if (\<not> same_job r job) (Mq_Schedule ScheduleIdentity)"

definition schedule_matches :: "schedule_record \<Rightarrow> compiled_schedule \<Rightarrow> bool" where
  "schedule_matches r entry \<longleftrightarrow>
     (let d = cs_schedule entry in
      sd_cron r = es_cron d \<and> sd_every_ms r = es_every_ms d \<and> sd_time_zone r = es_time_zone d
      \<and> sd_priority r = es_priority d \<and> sd_attempts_max r = es_attempts d
      \<and> sd_timeout_ms r = es_timeout_ms d \<and> sd_backoff r = es_backoff d
      \<and> deep_equal (sd_payload r) (cs_encoded entry)
      \<and> same_entries (sd_metadata r) (es_metadata d)
      \<and> sd_misfire r = es_misfire d \<and> sd_overlap r = es_overlap d)"

subsection \<open>Checks\<close>

definition assert_store_policy :: "'w schedules_env \<Rightarrow> string \<Rightarrow> string \<Rightarrow> 'w \<Rightarrow> unit res" where
  "assert_store_policy env connection queue w =
     rbind (sv_store env connection w) (\<lambda>store.
     case controlled_store store of
       None \<Rightarrow> Inr ()
     | Some ext \<Rightarrow>
         rbind (throw_if (\<not> sv_queue_name env queue) (Mq_Schedule ScheduleOperation)) (\<lambda>_.
         rbind (value_of (ce_get_controls ext queue w)) (\<lambda>controls.
         throw_if (case controls of None \<Rightarrow> False | Some c \<Rightarrow> cr_enabled c \<and> cr_per_key c \<noteq> None)
           schedule_error)))"

definition schedule_preflight :: "'w schedules_env \<Rightarrow> bool \<Rightarrow> compiled_schedule \<Rightarrow> 'w \<Rightarrow> unit res" where
  "schedule_preflight env validate entry w =
     (let connection = connection_of (cs_registered entry); d = cs_schedule entry in
      rbind (assert_store_policy env connection (es_queue d) w) (\<lambda>_.
      rbind (sv_open env connection w) (\<lambda>_.
      rbind (value_of (sv_get env connection (es_group d) (es_key d) w)) (\<lambda>found.
      rbind (when_some found (\<lambda>r. assert_identity r (cs_registered entry))) (\<lambda>_.
      if validate then
        rbind (need found (Mq_Schedule ScheduleMissing)) (\<lambda>r.
        throw_if (\<not> schedule_matches r entry) (Mq_Schedule ScheduleDrift))
      else Inr ())))))"

text \<open>The persisted schedules of every served group, omitted declarations included.\<close>

definition check_served :: "'w schedules_env \<Rightarrow> string \<Rightarrow> compiled_schedule list \<Rightarrow> 'w \<Rightarrow> unit res" where
  "check_served env grp entries w =
     each (\<lambda>connection. each (\<lambda>g.
         rbind (sv_open env connection w) (\<lambda>_.
         rbind (value_of (sv_list env connection g w)) (\<lambda>records.
         each (\<lambda>r. assert_store_policy env connection (sd_queue r) w) records)))
       (served_groups grp entries connection)) (sv_sources env w)"

subsection \<open>Deployment\<close>

definition reconcile_registry :: "'w schedules_env \<Rightarrow> schedule_registry \<Rightarrow> 'w \<Rightarrow> schedule_result res \<times> 'w" where
  "reconcile_registry env registry w =
     (case sv_ready env w of
        Inl e \<Rightarrow> (Inl e, w)
      | Inr _ \<Rightarrow>
          (case sv_reconcile env registry w of
             (Inl _, w') \<Rightarrow> (Inl (Mq_Schedule ScheduleOperation), w')
           | (Inr r, w') \<Rightarrow> (Inr r, w')))"

definition schedule_report_of :: "compiled_schedule \<Rightarrow> schedule_result \<Rightarrow> schedule_report" where
  "schedule_report_of entry r =
     \<lparr>sp_connection = connection_of (cs_registered entry), sp_group = es_group (cs_schedule entry),
      sp_created = map sd_key (sr_created r), sp_updated = map sd_key (sr_updated r),
      sp_unchanged = map sd_key (sr_unchanged r)\<rparr>"

definition deploy_entry :: "'w schedules_env \<Rightarrow> compiled_schedule \<Rightarrow> 'w \<Rightarrow> schedule_report res \<times> 'w" where
  "deploy_entry env entry w =
     (case reconcile_registry env (declaration_registry entry) w of
        (Inl e, w') \<Rightarrow> (Inl e, w') | (Inr r, w') \<Rightarrow> (Inr (schedule_report_of entry r), w'))"

definition schedules_synchronize :: "'w schedules_env \<Rightarrow> sync_mode \<Rightarrow> compiled_schedule list \<Rightarrow> 'w
    \<Rightarrow> schedule_report list res \<times> 'w" where
  "schedules_synchronize env mode entries w =
     check_then_write (schedule_preflight env) (deploy_entry env) (mode = Validate) entries entries w"

definition schedules_initialize :: "'w schedules_env \<Rightarrow> schedule_config \<Rightarrow> compiled_schedule list \<Rightarrow> 'w
    \<Rightarrow> schedule_report list res \<times> 'w" where
  "schedules_initialize env cfg entries w =
     (case check_served env (sc_group cfg) entries w of
        Inl e \<Rightarrow> (Inl e, w) | Inr _ \<Rightarrow> schedules_synchronize env (sc_mode cfg) entries w)"

definition schedules_reconcile :: "'w schedules_env \<Rightarrow> schedule_config \<Rightarrow> compiled_schedule list \<Rightarrow> 'w
    \<Rightarrow> schedule_report list res \<times> 'w" where
  "schedules_reconcile env cfg entries w =
     (if sc_mode cfg \<noteq> Reconcile then (Inl (Mq_Schedule ScheduleMode), w)
      else schedules_synchronize env Reconcile entries w)"

subsection \<open>Operations on one schedule\<close>

text \<open>The registered job a queue instance holds in a property; \<open>None\<close>: the queue is not registered.\<close>

definition find_registered :: "queue_object option \<Rightarrow> string \<Rightarrow> registered_job list \<Rightarrow> registered_job res" where
  "find_registered instance' property jobs =
     rbind (need instance' (Mq_Schedule ScheduleIdentity)) (\<lambda>queue.
     need (case map_of (ob_fields queue) (PString property) of
             Some (Contract_Field i _) \<Rightarrow> find (\<lambda>j. rj_contract_id j = i) jobs
           | _ \<Rightarrow> None) (Mq_Schedule ScheduleIdentity))"

definition schedule_group :: "schedule_env \<Rightarrow> schedule_config \<Rightarrow> compiled_schedule list \<Rightarrow> registered_job
    \<Rightarrow> string option \<Rightarrow> string res" where
  "schedule_group env cfg entries job requested =
     rbind (schedule_name env (orelse requested (sc_group cfg))) (\<lambda>g.
     rbind (throw_if (g \<noteq> sc_group cfg
         \<and> \<not> list_ex (\<lambda>c. connection_of (cs_registered c) = connection_of job \<and> es_group (cs_schedule c) = g) entries)
       schedule_error) (\<lambda>_.
     Inr g))"

definition schedule_address_of :: "schedule_env \<Rightarrow> schedule_config \<Rightarrow> compiled_schedule list
    \<Rightarrow> registered_job res \<Rightarrow> string option \<Rightarrow> string \<Rightarrow> (registered_job \<times> string \<times> string) res" where
  "schedule_address_of env cfg entries registered requested key =
     rbind registered (\<lambda>job.
     rbind (schedule_group env cfg entries job requested) (\<lambda>g.
     rbind (schedule_name env key) (\<lambda>k. Inr (job, g, k))))"

definition schedules_get :: "schedule_env \<Rightarrow> 'w schedules_env \<Rightarrow> schedule_config \<Rightarrow> compiled_schedule list
    \<Rightarrow> registered_job res \<Rightarrow> string \<Rightarrow> string option \<Rightarrow> 'w \<Rightarrow> schedule_snapshot option res" where
  "schedules_get env sv cfg entries registered key requested w =
     rbind (schedule_address_of env cfg entries registered requested key) (\<lambda>(job, g, k).
     rbind (sv_open sv (connection_of job) w) (\<lambda>_.
     rbind (value_of (sv_get sv (connection_of job) g k w)) (\<lambda>found.
     case found of
       None \<Rightarrow> Inr None
     | Some r \<Rightarrow> rbind (assert_identity r job) (\<lambda>_. Inr (Some (schedule_snapshot_of (connection_of job) r))))))"

record schedule_list_options =
  lo_group :: "string option"
  lo_limit :: "jsnum option"
  lo_paused :: "bool option"

definition schedules_list :: "schedule_env \<Rightarrow> 'w schedules_env \<Rightarrow> schedule_config \<Rightarrow> compiled_schedule list
    \<Rightarrow> registered_job res \<Rightarrow> schedule_list_options \<Rightarrow> 'w \<Rightarrow> schedule_snapshot list res" where
  "schedules_list env sv cfg entries registered opts w =
     rbind registered (\<lambda>job.
     rbind (schedule_group env cfg entries job (lo_group opts)) (\<lambda>g.
     rbind (when_some (lo_limit opts) (\<lambda>n. require_integer n 1)) (\<lambda>_.
     rbind (sv_open sv (connection_of job) w) (\<lambda>_.
     rbind (value_of (sv_list sv (connection_of job) g w)) (\<lambda>records.
     let matched = filter (\<lambda>r. same_job r job
           \<and> (case lo_paused opts of None \<Rightarrow> True | Some p \<Rightarrow> p = sd_paused r)) records in
     Inr (map (schedule_snapshot_of (connection_of job))
       (case lo_limit opts of None \<Rightarrow> matched | Some n \<Rightarrow> take (js_nat n) matched)))))))"

definition prepare_upsert :: "schedule_env \<Rightarrow> define_schedule \<Rightarrow> 'w schedules_env \<Rightarrow> schedule_config
    \<Rightarrow> schedule_config_input \<Rightarrow> compiled_schedule list \<Rightarrow> registered_job res \<Rightarrow> schedule_options \<Rightarrow> 'w
    \<Rightarrow> (registered_job \<times> compiled_schedule) res" where
  "prepare_upsert env up sv cfg input entries registered opts w =
     rbind (throw_if (sc_mode cfg \<noteq> Reconcile) (Mq_Schedule ScheduleMode)) (\<lambda>_.
     rbind registered (\<lambda>job.
     rbind (schedule_group env cfg entries job (so_group opts)) (\<lambda>g.
     rbind (compile_schedule env up job (opts\<lparr>so_group := Some g\<rparr>) input) (\<lambda>entry.
     rbind (schedule_preflight sv False entry w) (\<lambda>_.
     Inr (job, entry))))))"

definition schedules_upsert :: "schedule_env \<Rightarrow> define_schedule \<Rightarrow> 'w schedules_env \<Rightarrow> schedule_config
    \<Rightarrow> schedule_config_input \<Rightarrow> compiled_schedule list \<Rightarrow> registered_job res \<Rightarrow> schedule_options \<Rightarrow> 'w
    \<Rightarrow> schedule_snapshot res \<times> 'w" where
  "schedules_upsert env up sv cfg input entries registered opts w =
     (case prepare_upsert env up sv cfg input entries registered opts w of
        Inl e \<Rightarrow> (Inl e, w)
      | Inr (job, entry) \<Rightarrow>
          (case reconcile_registry sv (declaration_registry entry) w of
             (Inl e, w') \<Rightarrow> (Inl e, w')
           | (Inr r, w') \<Rightarrow>
               (case sr_created r @ sr_updated r @ sr_unchanged r of
                  [] \<Rightarrow> (Inl (Mq_Schedule ScheduleOperation), w')
                | x # _ \<Rightarrow> (Inr (schedule_snapshot_of (connection_of job) x), w'))))"

text \<open>\<open>pause\<close>, \<open>resume\<close> and \<open>remove\<close>: the record is read and its job checked before the store acts on it.\<close>

definition inspect_schedule :: "'w schedules_env \<Rightarrow> registered_job \<times> string \<times> string \<Rightarrow> 'w
    \<Rightarrow> schedule_record option res" where
  "inspect_schedule sv address w =
     (case address of (job, g, k) \<Rightarrow>
        rbind (sv_open sv (connection_of job) w) (\<lambda>_.
        rbind (value_of (sv_get sv (connection_of job) g k w)) (\<lambda>found.
        rbind (when_some found (\<lambda>r. assert_identity r job)) (\<lambda>_. Inr found))))"

definition schedules_mutate :: "schedule_env \<Rightarrow> 'w schedules_env \<Rightarrow> schedule_config \<Rightarrow> compiled_schedule list
    \<Rightarrow> registered_job res \<Rightarrow> string \<Rightarrow> string option \<Rightarrow> schedule_mutation \<Rightarrow> 'w \<Rightarrow> bool res \<times> 'w" where
  "schedules_mutate env sv cfg entries registered key requested operation w =
     (case rbind (schedule_address_of env cfg entries registered requested key) (\<lambda>address.
           rbind (inspect_schedule sv address w) (\<lambda>found. Inr (address, found))) of
        Inl e \<Rightarrow> (Inl e, w)
      | Inr (_, None) \<Rightarrow>
          ((if operation = Remove_Schedule then Inr False else Inl (Mq_Schedule ScheduleMissing)), w)
      | Inr ((job, g, k), Some _) \<Rightarrow>
          (case sv_mutate sv operation (connection_of job) g k w of
             (r, w') \<Rightarrow>
               (rbind (value_of r) (\<lambda>removed. Inr (if operation = Remove_Schedule then removed else True)), w')))"

subsection \<open>The check of one declaration\<close>

definition schedule_agrees :: "'w schedules_env \<Rightarrow> compiled_schedule \<Rightarrow> 'w \<Rightarrow> bool" where
  "schedule_agrees env entry w \<longleftrightarrow>
     (case sv_get env (connection_of (cs_registered entry)) (es_group (cs_schedule entry))
         (es_key (cs_schedule entry)) w of
        Inr (Some r) \<Rightarrow> schedule_matches r entry | _ \<Rightarrow> False)"

lemma schedule_preflight_ok:
  "schedule_preflight env validate entry w = Inr () \<longleftrightarrow>
     assert_store_policy env (connection_of (cs_registered entry)) (es_queue (cs_schedule entry)) w = Inr ()
     \<and> sv_open env (connection_of (cs_registered entry)) w = Inr ()
     \<and> (\<exists>found. sv_get env (connection_of (cs_registered entry)) (es_group (cs_schedule entry))
          (es_key (cs_schedule entry)) w = Inr found
        \<and> (\<forall>r. found = Some r \<longrightarrow> same_job r (cs_registered entry))
        \<and> (validate \<longrightarrow> (\<exists>r. found = Some r \<and> schedule_matches r entry)))"
  by (auto simp: schedule_preflight_def Let_def rbind_Inr_iff when_some_ok assert_identity_def throw_if_iff need_ok)

interpretation schedules: preflight_gate "schedule_preflight env" "schedule_agrees env" for env
  by unfold_locales (auto simp: schedule_preflight_ok schedule_agrees_def split: option.splits)

subsection \<open>Properties\<close>

text \<open>
  A validating application changes no schedule, and its start succeeds exactly if every served group
  passes the policy check and every declaration is found persisted, for the same job and with the
  declared definition.
\<close>

theorem schedules_validate_read_only:
  assumes "sc_mode cfg = Validate"
  shows "snd (schedules_initialize env cfg entries w) = w
    \<and> ((\<exists>rs. fst (schedules_initialize env cfg entries w) = Inr rs) \<longleftrightarrow>
         check_served env (sc_group cfg) entries w = Inr ()
         \<and> (\<forall>c\<in>set entries. schedule_preflight env False c w = Inr () \<and> schedule_agrees env c w))"
proof (cases "check_served env (sc_group cfg) entries w")
  case (Inr u)
  have "fst (check_then_write (schedule_preflight env) (deploy_entry env) True entries entries w) = Inr rs
    \<longleftrightarrow> check_then_write (schedule_preflight env) (deploy_entry env) True entries entries w = (Inr rs, w)" for rs
    by (simp add: check_then_write_validate)
  with schedules.validate_sync[of env "deploy_entry env" entries entries w]
    schedules.validate_never_writes[of env "deploy_entry env" entries entries w] Inr assms
  show ?thesis by (simp add: schedules_initialize_def schedules_synchronize_def)
qed (simp add: schedules_initialize_def)

lemma schedules_mutate_cases:
  assumes "schedules_mutate env sv cfg entries registered key requested operation w = (out, w')"
  shows "w' = w \<or> (\<exists>job g r. registered = Inr job \<and> schedule_group env cfg entries job requested = Inr g
      \<and> sv_get sv (connection_of job) g key w = Inr (Some r) \<and> same_job r job
      \<and> w' = snd (sv_mutate sv operation (connection_of job) g key w))"
proof -
  let ?m = "rbind (schedule_address_of env cfg entries registered requested key) (\<lambda>address.
     rbind (inspect_schedule sv address w) (\<lambda>found. Inr (address, found)))"
  show ?thesis
  proof (cases ?m)
    case (Inl e)
    with assms show ?thesis by (simp add: schedules_mutate_def)
  next
    case (Inr a)
    then obtain job g k found where a: "a = ((job, g, k), found)" by (metis prod.collapse)
    show ?thesis
    proof (cases found)
      case None
      with assms Inr a show ?thesis by (simp add: schedules_mutate_def)
    next
      case (Some r)
      from Inr have m: "?m = Inr ((job, g, k), Some r)" by (simp add: a Some)
      then have "registered = Inr job" "schedule_group env cfg entries job requested = Inr g" "k = key"
        "sv_get sv (connection_of job) g k w = Inr (Some r)" "same_job r job"
        by (auto simp: rbind_Inr_iff schedule_address_of_def inspect_schedule_def assert_identity_def
            throw_if_iff schedule_name_ok)
      moreover from assms m have "w' = snd (sv_mutate sv operation (connection_of job) g key w)"
        using \<open>k = key\<close> by (cases "sv_mutate sv operation (connection_of job) g key w") (simp add: schedules_mutate_def)
      ultimately show ?thesis by blast
    qed
  qed
qed

text \<open>
  C23. Pausing, resuming and removing act on one address only, and only after a record of exactly the
  caller's job was found there: a schedule of another job contract, or of a group this application does
  not serve, is never changed.
\<close>

theorem schedules_mutate_guarded:
  assumes "schedules_mutate env sv cfg entries registered key requested operation w = (out, w')" and "w' \<noteq> w"
  shows "\<exists>job g r. registered = Inr job \<and> schedule_group env cfg entries job requested = Inr g
    \<and> (g = sc_group cfg \<or> (\<exists>c\<in>set entries. connection_of (cs_registered c) = connection_of job
         \<and> es_group (cs_schedule c) = g))
    \<and> sv_get sv (connection_of job) g key w = Inr (Some r) \<and> same_job r job
    \<and> w' = snd (sv_mutate sv operation (connection_of job) g key w)"
  using schedules_mutate_cases[OF assms(1)] assms(2)
  by (auto simp: schedule_group_def rbind_Inr_iff throw_if_iff list_ex_iff)

text \<open>
  A listing only shows schedules of the caller's job, in the requested pause state and served group,
  at most as many as the limit.
\<close>

theorem schedules_list_sound:
  assumes "schedules_list env sv cfg entries registered opts w = Inr out"
  shows "\<exists>job g records. registered = Inr job \<and> schedule_group env cfg entries job (lo_group opts) = Inr g
    \<and> sv_list sv (connection_of job) g w = Inr records
    \<and> (\<forall>n. lo_limit opts = Some (jint n) \<longrightarrow> 1 \<le> n \<and> int (length out) \<le> n)
    \<and> (\<forall>x\<in>set out. ss_connection x = connection_of job \<and> ss_record x \<in> set records
         \<and> same_job (ss_record x) job \<and> (\<forall>p. lo_paused opts = Some p \<longrightarrow> sd_paused (ss_record x) = p))"
proof -
  from assms obtain job g records where r: "registered = Inr job"
    "schedule_group env cfg entries job (lo_group opts) = Inr g"
    "when_some (lo_limit opts) (\<lambda>n. require_integer n 1) = Inr ()"
    "sv_list sv (connection_of job) g w = Inr records"
    and out: "out = map (schedule_snapshot_of (connection_of job))
       (case lo_limit opts of
          None \<Rightarrow> filter (\<lambda>r. same_job r job \<and> (case lo_paused opts of None \<Rightarrow> True | Some p \<Rightarrow> p = sd_paused r)) records
        | Some n \<Rightarrow> take (js_nat n)
            (filter (\<lambda>r. same_job r job \<and> (case lo_paused opts of None \<Rightarrow> True | Some p \<Rightarrow> p = sd_paused r)) records))"
    unfolding schedules_list_def Let_def by (elim rbind_InrE) auto
  have "1 \<le> n \<and> int (length out) \<le> n" if "lo_limit opts = Some (jint n)" for n
    using r(3) that by (auto simp: out checks_ok int_at_least_def)
  moreover have "ss_connection x = connection_of job \<and> ss_record x \<in> set records
      \<and> same_job (ss_record x) job \<and> (\<forall>p. lo_paused opts = Some p \<longrightarrow> sd_paused (ss_record x) = p)"
    if "x \<in> set out" for x
    using that by (auto simp: out schedule_snapshot_of_def split: option.splits dest!: in_set_takeD)
  ultimately show ?thesis using r by blast
qed

text \<open>
  What the engine documents, in its own terms. \<open>JobSchedules.define\<close> keeps the group, the key and the identity
  of the job. A successful \<open>reconcile\<close> with \<open>removal: 'warn'\<close> leaves, for every draft whose store is among the
  stores of the registry, a record in that store under the registry's group and the draft's key: with the
  fields of the definition and the payload that the codec of the job makes, as a database gives them back,
  with the keys of objects in any order. Other addresses, the admissions, the stores and the queue policies
  stay as they are.
\<close>

definition defines_faithfully :: "define_schedule \<Rightarrow> bool" where
  "defines_faithfully up \<longleftrightarrow> (\<forall>g job key c es. up g job key c = Some es \<longrightarrow>
     es_group es = g \<and> es_key es = key \<and> es_queue es = cj_queue job \<and> es_name es = cj_name job
     \<and> es_version es = cj_version job)"

definition persisted_as :: "schedule_draft \<Rightarrow> engine_schedule \<Rightarrow> schedule_record \<Rightarrow> bool" where
  "persisted_as d es x \<longleftrightarrow>
     sd_group x = es_group es \<and> sd_key x = es_key es \<and> sd_queue x = es_queue es \<and> sd_name x = es_name es
     \<and> sd_version x = es_version es \<and> sd_cron x = es_cron es \<and> sd_every_ms x = es_every_ms es
     \<and> sd_time_zone x = es_time_zone es \<and> sd_priority x = es_priority es \<and> sd_attempts_max x = es_attempts es
     \<and> sd_timeout_ms x = es_timeout_ms es \<and> sd_backoff x = es_backoff es \<and> sd_misfire x = es_misfire es
     \<and> sd_overlap x = es_overlap es
     \<and> distinct (map fst (sd_metadata x)) \<and> distinct (map fst (es_metadata es))
     \<and> set (sd_metadata x) = set (es_metadata es)
     \<and> (\<exists>t. codec_encode (cj_payload (dr_job d)) (ca_payload (dr_cadence d)) = Inr t \<and> deep_equal (sd_payload x) t)"

definition registry_addresses :: "schedule_registry \<Rightarrow> (string \<times> string \<times> string) set" where
  "registry_addresses g = (\<lambda>d. (cj_connection (dr_job d), sg_group g, dr_key d)) `
     {d \<in> set (sg_drafts g). cj_connection (dr_job d) \<in> set (sg_stores g)}"

definition reconciles_faithfully :: "define_schedule \<Rightarrow> 'w schedules_env \<Rightarrow> bool" where
  "reconciles_faithfully up env \<longleftrightarrow>
     (\<forall>g w r w'. sv_reconcile env g w = (Inr r, w') \<longrightarrow>
        (\<forall>d\<in>set (sg_drafts g). cj_connection (dr_job d) \<in> set (sg_stores g) \<longrightarrow>
           (\<exists>es x. up (sg_group g) (dr_job d) (dr_key d) (dr_cadence d) = Some es \<and> persisted_as d es x
              \<and> sv_get env (cj_connection (dr_job d)) (sg_group g) (dr_key d) w' = Inr (Some x)))
        \<and> (\<forall>c grp k. (c, grp, k) \<notin> registry_addresses g \<longrightarrow> sv_get env c grp k w' = sv_get env c grp k w)
        \<and> (\<forall>c. sv_open env c w' = sv_open env c w) \<and> (\<forall>c. sv_store env c w' = sv_store env c w)
        \<and> (\<forall>c store ext q. sv_store env c w = Inr store \<longrightarrow> controlled_store store = Some ext
             \<longrightarrow> ce_get_controls ext q w' = ce_get_controls ext q w))"

definition entry_address :: "compiled_schedule \<Rightarrow> string \<times> string \<times> string" where
  "entry_address c = (connection_of (cs_registered c), es_group (cs_schedule c), es_key (cs_schedule c))"

definition schedule_at :: "'w schedules_env \<Rightarrow> string \<times> string \<times> string \<Rightarrow> 'w \<Rightarrow> store_error + schedule_record option" where
  "schedule_at env address w = (case address of (c, g, k) \<Rightarrow> sv_get env c g k w)"

definition declared_at :: "'w schedules_env \<Rightarrow> compiled_schedule \<Rightarrow> 'w \<Rightarrow> bool" where
  "declared_at env entry w \<longleftrightarrow> (\<exists>x. schedule_at env (entry_address entry) w = Inr (Some x)
     \<and> same_job x (cs_registered entry) \<and> schedule_matches x entry)"

lemma same_entries_of_set:
  assumes "distinct (map fst xs)" and "distinct (map fst ys)" and "set xs = set ys"
  shows "same_entries xs ys"
proof -
  from assms have "length xs = length ys" by (metis distinct_card distinct_map)
  with assms show ?thesis by (auto simp: same_entries_def list_all_iff)
qed

text \<open>
  The registry of a compiled declaration addresses exactly the place that the checks read, and what the
  engine persists for it is what they look for.
\<close>

lemma declaration_at_entry:
  assumes "defines_faithfully up" and "compile_schedule cenv up job o' cfg = Inr entry"
  shows "registry_addresses (declaration_registry entry) = {entry_address entry}"
    and "up (es_group (cs_schedule entry)) (cs_job entry) (dr_key (cs_draft entry)) (cs_cadence entry)
           = Some (cs_schedule entry)"
    and "persisted_as (cs_draft entry) (cs_schedule entry) x
           \<Longrightarrow> same_job x (cs_registered entry) \<and> schedule_matches x entry"
proof -
  from assms(2) obtain grp where up: "up grp (cs_job entry) (dr_key (cs_draft entry)) (cs_cadence entry) = Some (cs_schedule entry)"
    and job: "cs_registered entry = job" "compile_job job False = Inr (cs_job entry)"
    and enc: "encode_schema (jc_payload (rj_contract job)) (ca_payload (cs_cadence entry)) = Inr (cs_encoded entry)"
    by (rule compile_schedule_origin)
  note id = compile_job_identity[OF job(2)]
  from assms(1) up have es: "es_group (cs_schedule entry) = grp" "es_key (cs_schedule entry) = dr_key (cs_draft entry)"
    "es_queue (cs_schedule entry) = cj_queue (cs_job entry)" "es_name (cs_schedule entry) = cj_name (cs_job entry)"
    "es_version (cs_schedule entry) = cj_version (cs_job entry)"
    unfolding defines_faithfully_def by blast+
  with id job(1) show "registry_addresses (declaration_registry entry) = {entry_address entry}"
    by (auto simp: registry_addresses_def declaration_registry_def entry_address_def connection_of_def)
  from up es(1) show "up (es_group (cs_schedule entry)) (cs_job entry) (dr_key (cs_draft entry)) (cs_cadence entry)
      = Some (cs_schedule entry)" by simp
  from enc id(5) have "codec_encode (cj_payload (cs_job entry)) (ca_payload (cs_cadence entry)) = Inr (cs_encoded entry)"
    by (simp add: codec_encode_def)
  moreover assume "persisted_as (cs_draft entry) (cs_schedule entry) x"
  ultimately show "same_job x (cs_registered entry) \<and> schedule_matches x entry"
    using es id job(1)
    by (auto simp: persisted_as_def same_job_def schedule_matches_def Let_def intro: same_entries_of_set)
qed

lemma reconciles_faithfullyD:
  assumes "reconciles_faithfully up env" and "defines_faithfully up"
    and "compile_schedule cenv up job o' cfg = Inr entry" and "deploy_entry env entry w = (Inr rep, w')"
  shows "declared_at env entry w'"
    and "a \<noteq> entry_address entry \<Longrightarrow> schedule_at env a w' = schedule_at env a w"
    and "sv_open env c w' = sv_open env c w"
    and "assert_store_policy env c q w' = assert_store_policy env c q w"
proof -
  let ?g = "declaration_registry entry"
  note at = declaration_at_entry[OF assms(2,3)]
  from assms(4) obtain r where r: "sv_reconcile env ?g w = (Inr r, w')"
    by (auto simp: deploy_entry_def reconcile_registry_def split: sum.splits prod.splits)
  from assms(1) r have law: "\<forall>d\<in>set (sg_drafts ?g). cj_connection (dr_job d) \<in> set (sg_stores ?g) \<longrightarrow>
        (\<exists>es x. up (sg_group ?g) (dr_job d) (dr_key d) (dr_cadence d) = Some es \<and> persisted_as d es x
           \<and> sv_get env (cj_connection (dr_job d)) (sg_group ?g) (dr_key d) w' = Inr (Some x))"
    "\<forall>c grp k. (c, grp, k) \<notin> registry_addresses ?g \<longrightarrow> sv_get env c grp k w' = sv_get env c grp k w"
    "\<forall>c. sv_open env c w' = sv_open env c w" "\<forall>c. sv_store env c w' = sv_store env c w"
    "\<forall>c store ext q. sv_store env c w = Inr store \<longrightarrow> controlled_store store = Some ext
       \<longrightarrow> ce_get_controls ext q w' = ce_get_controls ext q w"
    unfolding reconciles_faithfully_def by blast+
  have "(cj_connection (cs_job entry), es_group (cs_schedule entry), dr_key (cs_draft entry)) \<in> registry_addresses ?g"
    by (simp add: registry_addresses_def declaration_registry_def)
  then have address: "entry_address entry = (cj_connection (cs_job entry), es_group (cs_schedule entry), dr_key (cs_draft entry))"
    using at(1) by simp
  from law(1) at(2) obtain x where "persisted_as (cs_draft entry) (cs_schedule entry) x"
    "sv_get env (cj_connection (cs_job entry)) (es_group (cs_schedule entry)) (dr_key (cs_draft entry)) w' = Inr (Some x)"
    by (auto simp: declaration_registry_def)
  with at(3) show "declared_at env entry w'" by (auto simp: declared_at_def schedule_at_def address)
  show "schedule_at env a w' = schedule_at env a w" if "a \<noteq> entry_address entry"
    using law(2) that by (cases a) (simp add: schedule_at_def at(1))
  show "sv_open env c w' = sv_open env c w" using law(3) by blast
  show "assert_store_policy env c q w' = assert_store_policy env c q w"
    using law(4,5) by (cases "sv_store env c w") (auto simp: assert_store_policy_def split: option.splits)
qed

text \<open>
  C22. Deployment converges: the schedules compiled from the registered jobs, deployed one by one through an
  engine that persists what it is given, are found again by a validating application. Every declaration is
  deployed in the store, group and key that the validation reads, for its own job, none overwrites another,
  and no field the validation compares is lost.
\<close>

theorem schedules_reconcile_converges:
  assumes "defines_faithfully up" and "reconciles_faithfully up env"
    and "compile_schedules cenv up jobs input = Inr entries"
    and "schedules_reconcile env cfg entries w = (Inr reports, w')"
  shows "schedules_synchronize env Validate entries w' = (Inr [], w')"
proof -
  from assms(4) have pre: "\<forall>c\<in>set entries. schedule_preflight env False c w = Inr ()"
    and run: "apply_all (deploy_entry env) entries w = (Inr reports, w')"
    by (auto simp: schedules_reconcile_def schedules_synchronize_def check_then_write_ok split: if_splits)
  from compile_schedules_distinct[OF assms(3)] have dist: "distinct (map entry_address entries)"
    by (simp add: entry_address_def[abs_def] connection_of_def)
  have compiled: "\<exists>job o'. compile_schedule cenv up job o' input = Inr c" if "c \<in> set entries" for c
    using compile_schedules_origin[OF assms(3) that] by blast
  have step: "declared_at env c v'" "a \<noteq> entry_address c \<Longrightarrow> schedule_at env a v' = schedule_at env a v"
    "sv_open env n v' = sv_open env n v" "assert_store_policy env n q v' = assert_store_policy env n q v"
    if "c \<in> set entries" "deploy_entry env c v = (Inr rep, v')" for c v rep v' a n q
    using reconciles_faithfullyD[OF assms(2,1) _ that(2)] compiled[OF that(1)] by blast+
  let ?same = "\<lambda>v. (\<forall>c. sv_open env c v = sv_open env c w)
    \<and> (\<forall>c q. assert_store_policy env c q v = assert_store_policy env c q w)"
  have same: "?same w'"
    by (rule apply_all_invariant[OF run, of ?same]) (simp_all add: step(3,4))
  have "schedule_preflight env True c w' = Inr ()" if c: "c \<in> set entries" for c
  proof -
    have "declared_at env c w'"
    proof (rule apply_all_establishes[OF run, of "declared_at env" c False])
      fix b d v r v'
      assume bd: "b \<in> set entries" "d \<in> set entries" and w: "deploy_entry env d v = (Inr r, v')"
        and b: "declared_at env b v"
      show "declared_at env b v'"
      proof (cases "d = b")
        case True
        with step(1)[OF bd(2) w] show ?thesis by simp
      next
        case False
        with bd dist have "entry_address b \<noteq> entry_address d" by (auto simp: distinct_map inj_on_def)
        from step(2)[OF bd(2) w this] b show ?thesis by (simp add: declared_at_def)
      qed
    qed (use c step(1) in auto)
    moreover have "schedule_preflight env False c w = Inr ()" using pre c by blast
    ultimately show ?thesis
      using same by (auto simp: schedule_preflight_ok declared_at_def schedule_at_def entry_address_def)
  qed
  then show ?thesis
    by (simp add: schedules_synchronize_def check_then_write_passed)
qed

lemma schedules_upsert_cases:
  assumes "schedules_upsert env up sv cfg input entries registered opts w = (out, w')" and "w' \<noteq> w"
  shows "\<exists>job entry. prepare_upsert env up sv cfg input entries registered opts w = Inr (job, entry)
    \<and> w' = snd (sv_reconcile sv (declaration_registry entry) w)"
proof (cases "prepare_upsert env up sv cfg input entries registered opts w")
  case (Inl e)
  with assms show ?thesis by (simp add: schedules_upsert_def)
next
  case (Inr a)
  obtain job entry where a: "a = (job, entry)" by fastforce
  obtain r v where rec: "reconcile_registry sv (declaration_registry entry) w = (r, v)" by fastforce
  with assms(1) Inr a have "w' = v"
    by (cases r) (auto simp: schedules_upsert_def split: list.splits)
  with rec assms(2) have "w' = snd (sv_reconcile sv (declaration_registry entry) w)"
    by (auto simp: reconcile_registry_def split: sum.splits prod.splits)
  with Inr a show ?thesis by blast
qed

text \<open>
  A dynamic schedule is written only in reconcile mode, only for a registered job and a served group,
  only as a valid compiled schedule of that job, and never over the schedule of another job contract.
\<close>

theorem schedules_upsert_guarded:
  assumes "schedules_upsert env up sv cfg input entries registered opts w = (out, w')" and "w' \<noteq> w"
  shows "sc_mode cfg = Reconcile \<and> (\<exists>job g entry found. registered = Inr job
    \<and> schedule_group env cfg entries job (so_group opts) = Inr g
    \<and> compile_schedule env up job (opts\<lparr>so_group := Some g\<rparr>) input = Inr entry
    \<and> sv_get sv (connection_of (cs_registered entry)) (es_group (cs_schedule entry)) (es_key (cs_schedule entry)) w
        = Inr found \<and> (\<forall>r. found = Some r \<longrightarrow> same_job r (cs_registered entry))
    \<and> w' = snd (sv_reconcile sv (declaration_registry entry) w))"
proof -
  from schedules_upsert_cases[OF assms] obtain job entry where
    p: "prepare_upsert env up sv cfg input entries registered opts w = Inr (job, entry)"
    and w': "w' = snd (sv_reconcile sv (declaration_registry entry) w)" by blast
  from p obtain g where "sc_mode cfg = Reconcile" "registered = Inr job"
    "schedule_group env cfg entries job (so_group opts) = Inr g"
    "compile_schedule env up job (opts\<lparr>so_group := Some g\<rparr>) input = Inr entry"
    "schedule_preflight sv False entry w = Inr ()"
    unfolding prepare_upsert_def by (elim rbind_InrE) (auto simp: throw_if_iff)
  with w' show ?thesis by (auto simp: schedule_preflight_ok)
qed

subsection \<open>A concrete schedule store\<close>

type_synonym demo_schedules = "((string \<times> string \<times> string) \<times> schedule_record) list"

definition record_of :: "engine_schedule \<Rightarrow> jsval \<Rightarrow> schedule_record" where
  "record_of d payload =
     \<lparr>sd_group = es_group d, sd_key = es_key d, sd_queue = es_queue d, sd_name = es_name d,
      sd_version = es_version d, sd_cron = es_cron d, sd_every_ms = es_every_ms d, sd_time_zone = es_time_zone d,
      sd_priority = es_priority d, sd_attempts_max = es_attempts d, sd_timeout_ms = es_timeout_ms d,
      sd_backoff = es_backoff d, sd_payload = payload, sd_metadata = es_metadata d,
      sd_misfire = es_misfire d, sd_overlap = es_overlap d, sd_paused = False\<rparr>"

definition record_of_entry :: "compiled_schedule \<Rightarrow> schedule_record" where
  "record_of_entry c = record_of (cs_schedule c) (cs_encoded c)"

text \<open>An engine that deploys registries of one draft.\<close>

definition persist_drafts :: "schedule_registry \<Rightarrow> (demo_schedules, schedule_result) store_op" where
  "persist_drafts g w =
     (case sg_drafts g of
        [d] \<Rightarrow>
          (case (demo_define (sg_group g) (dr_job d) (dr_key d) (dr_cadence d),
              codec_encode (cj_payload (dr_job d)) (ca_payload (dr_cadence d))) of
             (Some es, Inr t) \<Rightarrow>
               if cj_connection (dr_job d) \<in> set (sg_stores g) \<and> deep_equal t t \<and> distinct (map fst (es_metadata es))
               then (Inr \<lparr>sr_created = [record_of es t], sr_updated = [], sr_unchanged = []\<rparr>,
                     AList.update (cj_connection (dr_job d), sg_group g, dr_key d) (record_of es t) w)
               else (Inl Lease_Lost, w)
           | _ \<Rightarrow> (Inl Lease_Lost, w))
      | _ \<Rightarrow> (Inl Lease_Lost, w))"

definition plain_store :: "demo_schedules job_store" where
  "plain_store = \<lparr>js_methods = [],
     js_ext = \<lparr>ce_get_controls = (\<lambda>_ _. Inr None), ce_claim = (\<lambda>_ _ w. (Inl Lease_Lost, w)),
       ce_settle = (\<lambda>_ _ w. (Inl Lease_Lost, w)), ce_release = (\<lambda>_ _ w. (Inl Lease_Lost, w)),
       ce_cancel = (\<lambda>_ _ w. (Inl Lease_Lost, w)), ce_recover = (\<lambda>_ _ _ _ w. (Inl Lease_Lost, w))\<rparr>,
     js_get_job = (\<lambda>_ _. Inr None), js_claim = (\<lambda>_ w. (Inl Lease_Lost, w)),
     js_settle = (\<lambda>_ w. (Inl Lease_Lost, w)), js_release = (\<lambda>_ w. (Inl Lease_Lost, w)),
     js_cancel = (\<lambda>_ w. (Inl Lease_Lost, w)), js_recover = (\<lambda>_ w. (Inl Lease_Lost, w))\<rparr>"

definition demo_mutation :: "schedule_mutation \<Rightarrow> string \<Rightarrow> string \<Rightarrow> string \<Rightarrow> (demo_schedules, bool) store_op" where
  "demo_mutation operation c g k w =
     (case operation of
        Remove_Schedule \<Rightarrow> (Inr (map_of w (c, g, k) \<noteq> None), AList.delete (c, g, k) w)
      | _ \<Rightarrow> (Inr True, AList.map_entry (c, g, k) (sd_paused_update (\<lambda>_. operation = Pause_Schedule)) w))"

definition demo_sv :: "demo_schedules schedules_env" where
  "demo_sv = \<lparr>sv_sources = (\<lambda>_. [''default'']), sv_open = (\<lambda>_ _. Inr ()), sv_store = (\<lambda>_ _. Inr plain_store),
     sv_ready = (\<lambda>_. Inr ()), sv_queue_name = (\<lambda>_. True), sv_get = (\<lambda>c g k w. Inr (map_of w (c, g, k))),
     sv_list = (\<lambda>c g w. Inr (map snd (filter (\<lambda>((c', g', _), _). c' = c \<and> g' = g) w))),
     sv_reconcile = persist_drafts,
     sv_mutate = demo_mutation\<rparr>"

lemma demo_defines: "defines_faithfully demo_define"
  by (simp add: defines_faithfully_def demo_define_def)

lemma persist_drafts_ok:
  assumes "persist_drafts g w = (Inr r, w')"
  obtains d es t where "sg_drafts g = [d]" "cj_connection (dr_job d) \<in> set (sg_stores g)"
    "demo_define (sg_group g) (dr_job d) (dr_key d) (dr_cadence d) = Some es"
    "codec_encode (cj_payload (dr_job d)) (ca_payload (dr_cadence d)) = Inr t"
    "deep_equal t t" "distinct (map fst (es_metadata es))"
    "w' = AList.update (cj_connection (dr_job d), sg_group g, dr_key d) (record_of es t) w"
  using assms that
  by (simp add: persist_drafts_def split: list.splits option.splits sum.splits if_splits)

lemma demo_sv_reconciles: "reconciles_faithfully demo_define demo_sv"
  unfolding reconciles_faithfully_def
proof (intro allI impI)
  fix g w r w'
  assume "sv_reconcile demo_sv g w = (Inr r, w')"
  then have "persist_drafts g w = (Inr r, w')" by (simp add: demo_sv_def)
  then obtain d es t where d: "sg_drafts g = [d]" "cj_connection (dr_job d) \<in> set (sg_stores g)"
    "demo_define (sg_group g) (dr_job d) (dr_key d) (dr_cadence d) = Some es"
    "codec_encode (cj_payload (dr_job d)) (ca_payload (dr_cadence d)) = Inr t"
    "deep_equal t t" "distinct (map fst (es_metadata es))"
    and w': "w' = AList.update (cj_connection (dr_job d), sg_group g, dr_key d) (record_of es t) w"
    by (rule persist_drafts_ok)
  from d have "persisted_as d es (record_of es t)" by (simp add: persisted_as_def record_of_def)
  with d show "(\<forall>d\<in>set (sg_drafts g). cj_connection (dr_job d) \<in> set (sg_stores g) \<longrightarrow>
        (\<exists>es x. demo_define (sg_group g) (dr_job d) (dr_key d) (dr_cadence d) = Some es \<and> persisted_as d es x
           \<and> sv_get demo_sv (cj_connection (dr_job d)) (sg_group g) (dr_key d) w' = Inr (Some x)))
     \<and> (\<forall>c grp k. (c, grp, k) \<notin> registry_addresses g \<longrightarrow> sv_get demo_sv c grp k w' = sv_get demo_sv c grp k w)
     \<and> (\<forall>c. sv_open demo_sv c w' = sv_open demo_sv c w) \<and> (\<forall>c. sv_store demo_sv c w' = sv_store demo_sv c w)
     \<and> (\<forall>c store ext q. sv_store demo_sv c w = Inr store \<longrightarrow> controlled_store store = Some ext
          \<longrightarrow> ce_get_controls ext q w' = ce_get_controls ext q w)"
    by (auto simp: demo_sv_def w' map_of_update registry_addresses_def controlled_store_def plain_store_def
        split: if_splits)
qed

definition nightly_entry :: "string \<Rightarrow> compiled_schedule" where
  "nightly_entry key = \<lparr>cs_registered = nightly_job,
     cs_schedule = \<lparr>es_group = ''ops'', es_key = key, es_queue = ''mail'', es_name = ''send'', es_version = 1,
       es_cron = Some ''0 3 * * *'', es_every_ms = None, es_time_zone = ''UTC'', es_priority = jint 0,
       es_attempts = jint 1, es_timeout_ms = None, es_backoff = None, es_metadata = [],
       es_misfire = run_once, es_overlap = Overlap_Allow\<rparr>,
     cs_encoded = VStr ''x'',
     cs_draft = \<lparr>dr_job = \<lparr>cj_queue = ''mail'', cj_name = ''send'', cj_version = 1, cj_connection = ''default'',
         cj_attempts = jint 1, cj_priority = jint 0, cj_backoff = None, cj_timeout_ms = None,
         cj_payload = tag_schema, cj_result = tag_schema, cj_failure = None\<rparr>, dr_key = key,
       dr_cadence = cadence_of nightly_job (nightly key) (VStr ''x'') (rp_retry (rj_policy nightly_job)) [] None\<rparr>\<rparr>"

definition ops_config :: "sync_mode \<Rightarrow> schedule_config" where
  "ops_config mode = \<lparr>sc_mode = mode, sc_group = ''ops'', sc_sweep_interval_ms = jint 1000,
     sc_batch_size = jint 100, sc_max_store_retries = jint 3, sc_retry_delay_ms = jint 25\<rparr>"

definition deployed_nightly :: demo_schedules where
  "deployed_nightly = [(entry_address (nightly_entry ''sweep''), record_of_entry (nightly_entry ''sweep''))]"

lemma nightly_identity:
  "connection_of nightly_job = ''default''" "ji_queue (rj_identity nightly_job) = ''mail''"
  "ji_name (rj_identity nightly_job) = ''send''" "ji_version (rj_identity nightly_job) = 1"
  by (simp_all add: connection_of_def nightly_job_def sample_job_def)

lemmas demo_schedule = demo_sv_def deployed_nightly_def nightly_entry_def record_of_entry_def record_of_def entry_address_def
  nightly_identity assert_store_policy_def plain_store_def controlled_store_def controlled_methods_def

lemma demo_policy: "assert_store_policy demo_sv c q w = Inr ()"
  by (simp add: demo_schedule)

lemma demo_served: "check_served demo_sv g es w = Inr ()"
  by (simp add: check_served_def each_ok rbind_Inr_iff demo_policy) (simp add: demo_sv_def)

lemma nightly_preflight:
  "schedule_preflight demo_sv False (nightly_entry ''sweep'') w = Inr ()"
  if "w = deployed_nightly \<or> w = []"
  using that by (auto simp: schedule_preflight_ok demo_schedule same_job_def)

lemma nightly_matches: "schedule_matches (record_of_entry (nightly_entry key)) (nightly_entry key)"
  by (simp add: schedule_matches_def demo_schedule same_entries_def)

theorem schedules_validate_read_only_witness:
  "\<exists>rs. schedules_initialize demo_sv (ops_config Validate) [nightly_entry ''sweep''] deployed_nightly
     = (Inr rs, deployed_nightly)"
proof -
  let ?c = "ops_config Validate" and ?es = "[nightly_entry ''sweep'']"
  have m: "sc_mode ?c = Validate" by (simp add: ops_config_def)
  have served: "check_served demo_sv (sc_group ?c) ?es deployed_nightly = Inr ()" by (rule demo_served)
  have agrees: "schedule_agrees demo_sv (nightly_entry ''sweep'') deployed_nightly"
    using nightly_matches[of "''sweep''"] by (simp add: schedule_agrees_def demo_sv_def deployed_nightly_def entry_address_def)
  have "\<exists>rs. fst (schedules_initialize demo_sv ?c ?es deployed_nightly) = Inr rs"
    using schedules_validate_read_only[OF m, of demo_sv ?es deployed_nightly] served agrees nightly_preflight by simp
  with schedules_validate_read_only[OF m, of demo_sv ?es deployed_nightly] show ?thesis
    by (metis prod.collapse)
qed

lemma demo_entry_deploys:
  assumes "compile_schedules demo_schedule_env demo_define [nightly_job] input = Inr entries"
    and "c \<in> set entries"
  shows "\<exists>rep. deploy_entry demo_sv c w = (Inr rep, AList.update (entry_address c) (record_of_entry c) w)"
proof -
  from compile_schedules_origin[OF assms] obtain o' where
    c: "compile_schedule demo_schedule_env demo_define nightly_job o' input = Inr c"
    and o': "o' \<in> set (rj_schedules nightly_job)" by (auto simp: declared_schedules_def)
  from o' obtain key where key: "o' = nightly key" "key = ''sweep'' \<or> key = ''purge''" by (auto simp: nightly_job_def)
  then have k: "valid_name key" "length key \<le> 128" "nul \<notin> set key" by (auto simp: valid_name_def is_js_space_def nul_def)
  from nightly_compiled[OF k, of input] c key(1) have enc: "cs_encoded c = VStr ''x''" "es_metadata (cs_schedule c) = []"
    by auto
  from c obtain grp where up: "demo_define grp (cs_job c) (dr_key (cs_draft c)) (cs_cadence c) = Some (cs_schedule c)"
    and job: "cs_registered c = nightly_job" "compile_job nightly_job False = Inr (cs_job c)"
    and e: "encode_schema (jc_payload (rj_contract nightly_job)) (ca_payload (cs_cadence c)) = Inr (cs_encoded c)"
    by (rule compile_schedule_origin)
  note id = compile_job_identity[OF job(2)]
  from declaration_at_entry(2)[OF demo_defines c] up have g: "demo_define (es_group (cs_schedule c)) (cs_job c)
      (dr_key (cs_draft c)) (cs_cadence c) = Some (cs_schedule c)" by simp
  then have "es_key (cs_schedule c) = dr_key (cs_draft c)"
    using demo_defines unfolding defines_faithfully_def by blast
  with g e enc id job show ?thesis
    by (simp add: deploy_entry_def reconcile_registry_def demo_sv_def persist_drafts_def declaration_registry_def
        codec_encode_def record_of_entry_def entry_address_def connection_of_def)
qed

theorem schedules_reconcile_converges_witness:
  "\<exists>entries w'. length entries = 2 \<and> (\<exists>rs. schedules_reconcile demo_sv (ops_config Reconcile) entries [] = (Inr rs, w'))
     \<and> schedules_synchronize demo_sv Validate entries w' = (Inr [], w')"
proof -
  obtain input c d where es: "compile_schedules demo_schedule_env demo_define [nightly_job] input = Inr [c, d]"
    using nightly_pair by blast
  let ?w = "AList.update (entry_address d) (record_of_entry d) (AList.update (entry_address c) (record_of_entry c) [])"
  have pre: "schedule_preflight demo_sv False e [] = Inr ()" for e
    by (simp add: schedule_preflight_ok demo_policy) (simp add: demo_sv_def)
  have m: "sc_mode (ops_config Reconcile) = Reconcile" by (simp add: ops_config_def)
  obtain r q where "deploy_entry demo_sv c [] = (Inr r, AList.update (entry_address c) (record_of_entry c) [])"
    "deploy_entry demo_sv d (AList.update (entry_address c) (record_of_entry c) []) = (Inr q, ?w)"
    using demo_entry_deploys[OF es, of c] demo_entry_deploys[OF es, of d] by fastforce
  then have run: "schedules_reconcile demo_sv (ops_config Reconcile) [c, d] [] = (Inr [r, q], ?w)"
    by (simp add: schedules_reconcile_def schedules_synchronize_def m check_then_write_def pre)
  from schedules_reconcile_converges[OF demo_defines demo_sv_reconciles es run] run show ?thesis
    by (intro exI[of _ "[c, d]"] exI[of _ ?w]) auto
qed

lemma ops_names: "valid_name ''ops''" "valid_name ''sweep''" "nul \<notin> set ''ops''" "nul \<notin> set ''sweep''"
  by (simp_all add: valid_name_def is_js_space_def nul_def)

lemma ops_group: "schedule_group demo_schedule_env (ops_config mode) entries job (Some ''ops'') = Inr ''ops''"
  using ops_names by (simp add: schedule_group_def schedule_name_def require_name_eq ops_config_def demo_schedule_env_def)

lemma sweep_name: "schedule_name demo_schedule_env ''sweep'' = Inr ''sweep''"
  using ops_names by (simp add: schedule_name_def require_name_eq demo_schedule_env_def)

theorem schedules_mutate_guarded_witness:
  "\<exists>w'. schedules_mutate demo_schedule_env demo_sv (ops_config Validate) [] (Inr nightly_job) ''sweep''
       (Some ''ops'') Remove_Schedule deployed_nightly = (Inr True, w') \<and> w' \<noteq> deployed_nightly
     \<and> w' = snd (sv_mutate demo_sv Remove_Schedule ''default'' ''ops'' ''sweep'' deployed_nightly)"
proof -
  let ?run = "schedules_mutate demo_schedule_env demo_sv (ops_config Validate) [] (Inr nightly_job) ''sweep''
       (Some ''ops'') Remove_Schedule deployed_nightly"
  have a: "schedule_address_of demo_schedule_env (ops_config Validate) [] (Inr nightly_job) (Some ''ops'') ''sweep''
      = Inr (nightly_job, ''ops'', ''sweep'')"
    by (simp add: schedule_address_of_def ops_group sweep_name)
  have g: "sv_get demo_sv ''default'' ''ops'' ''sweep'' deployed_nightly
      = Inr (Some (record_of_entry (nightly_entry ''sweep'')))" "sv_open demo_sv c w = Inr ()" for c w
    by (simp_all add: demo_sv_def deployed_nightly_def entry_address_def nightly_entry_def nightly_identity)
  have j: "same_job (record_of_entry (nightly_entry ''sweep'')) nightly_job"
    by (simp add: same_job_def demo_schedule)
  have m: "sv_mutate demo_sv Remove_Schedule ''default'' ''ops'' ''sweep'' deployed_nightly = (Inr True, [])"
    by (simp add: demo_sv_def demo_mutation_def deployed_nightly_def entry_address_def nightly_entry_def nightly_identity)
  have r: "?run = (Inr True, [])"
    by (simp add: schedules_mutate_def a inspect_schedule_def nightly_identity g assert_identity_def j m)
  have n: "[] \<noteq> deployed_nightly" by (simp add: deployed_nightly_def)
  from schedules_mutate_guarded[OF r n] n r show ?thesis
    by (auto simp: nightly_identity ops_group)
qed

theorem schedules_list_sound_witness:
  "\<exists>out. schedules_list demo_schedule_env demo_sv (ops_config Validate) [] (Inr nightly_job)
       \<lparr>lo_group = Some ''ops'', lo_limit = Some (jint 1), lo_paused = Some False\<rparr> deployed_nightly = Inr out
     \<and> out \<noteq> [] \<and> length out \<le> 1"
proof -
  let ?o = "\<lparr>lo_group = Some ''ops'', lo_limit = Some (jint 1), lo_paused = Some False\<rparr>"
  have "\<exists>out. schedules_list demo_schedule_env demo_sv (ops_config Validate) [] (Inr nightly_job) ?o
      deployed_nightly = Inr out \<and> out \<noteq> []"
    by (simp add: schedules_list_def ops_group require_integer_eq max_safe_def demo_schedule same_job_def Let_def)
  then obtain out where o: "schedules_list demo_schedule_env demo_sv (ops_config Validate) [] (Inr nightly_job) ?o
      deployed_nightly = Inr out" "out \<noteq> []" by blast
  from schedules_list_sound[OF o(1)] o show ?thesis by auto
qed

theorem schedules_upsert_guarded_witness:
  "\<exists>cfg out w'. schedules_upsert demo_schedule_env demo_define demo_sv (ops_config Reconcile) cfg [] (Inr nightly_job)
       (nightly ''sweep'') [] = (out, w') \<and> w' \<noteq> [] \<and> sc_mode (ops_config Reconcile) = Reconcile"
proof -
  from nightly_compiled[OF ops_names(2) _ ops_names(4), of cfg] obtain entry where
    e: "compile_schedule demo_schedule_env demo_define nightly_job (nightly ''sweep'') cfg = Inr entry"
    and enc: "cs_encoded entry = VStr ''x''" "es_metadata (cs_schedule entry) = []" by auto
  have n: "(nightly ''sweep'')\<lparr>so_group := Some ''ops''\<rparr> = nightly ''sweep''" "so_group (nightly ''sweep'') = Some ''ops''"
    by (simp_all add: nightly_def)
  have pre: "schedule_preflight demo_sv False entry [] = Inr ()"
    by (simp add: schedule_preflight_ok demo_policy) (simp add: demo_sv_def)
  have m: "schedule_matches (record_of_entry entry) entry"
    by (simp add: schedule_matches_def record_of_entry_def record_of_def Let_def enc same_entries_def)
  have p: "prepare_upsert demo_schedule_env demo_define demo_sv (ops_config Reconcile) cfg [] (Inr nightly_job)
      (nightly ''sweep'') [] = Inr (nightly_job, entry)"
    by (simp add: prepare_upsert_def n ops_group e pre) (simp add: ops_config_def)
  obtain out w' where u: "schedules_upsert demo_schedule_env demo_define demo_sv (ops_config Reconcile) cfg []
      (Inr nightly_job) (nightly ''sweep'') [] = (out, w')" by fastforce
  have enc': "codec_encode (cj_payload (cs_job entry)) (ca_payload (cs_cadence entry)) = Inr (VStr ''x'')"
    using e enc(1) by (elim compile_schedule_origin) (simp add: codec_encode_def compile_job_identity(5))
  have "demo_define (es_group (cs_schedule entry)) (cs_job entry) (dr_key (cs_draft entry)) (cs_cadence entry)
      = Some (cs_schedule entry)" by (rule declaration_at_entry(2)[OF demo_defines e])
  then have "reconcile_registry demo_sv (declaration_registry entry) [] =
      (Inr \<lparr>sr_created = [record_of_entry entry], sr_updated = [], sr_unchanged = []\<rparr>,
       [((cj_connection (cs_job entry), es_group (cs_schedule entry), dr_key (cs_draft entry)), record_of_entry entry)])"
    using enc enc' by (simp add: reconcile_registry_def demo_sv_def persist_drafts_def declaration_registry_def
        record_of_entry_def)
  with u have "w' \<noteq> []"
    by (auto simp: schedules_upsert_def p)
  then have w': "w' \<noteq> []" .
  with u schedules_upsert_guarded[OF u w'] show ?thesis by blast
qed

end
