(* ===== verification/Mq_Worker_Declarations.thy ===== *)
theory Mq_Worker_Declarations
  imports Mq_Policies Mq_Chain
begin

text \<open>
  \<open>src/workers/decorators.ts\<close>: the \<open>@Worker\<close>, \<open>@Process\<close>, \<open>@JobData\<close> and \<open>@JobContext\<close> decorators and
  the readers of their metadata. Classes and prototypes are numbered; the metadata a decorator stores
  on one is a map from its number.
\<close>

subsection \<open>Workers\<close>

record worker_options =
  wk_name :: string
  wk_concurrency :: "jsnum option"
  wk_lease_ms :: "jsnum option"
  wk_heartbeat_ms :: "jsnum option"
  wk_stalled_ms :: "jsnum option"
  wk_max_stalled :: "jsnum option"
  wk_poll_ms :: "jsnum option"
  wk_retry_defects :: "bool option"
  wk_flow_sweep_ms :: "jsnum option"
  wk_flow_batch :: "jsnum option"

definition worker_lease :: "worker_options \<Rightarrow> jsnum" where
  "worker_lease o' = orelse (wk_lease_ms o') (jint 30000)"

definition worker_heartbeat :: "worker_options \<Rightarrow> jsnum" where
  "worker_heartbeat o' =
     orelse (wk_heartbeat_ms o') (js_max (jint 1) (js_floor (js_div (worker_lease o') 3)))"

definition worker_decorator :: "worker_options \<Rightarrow> nat \<Rightarrow> (nat \<rightharpoonup> worker_options)
    \<Rightarrow> (nat \<rightharpoonup> worker_options) res" where
  "worker_decorator o' target store =
     rbind (require_name (wk_name o')) (\<lambda>_.
     rbind (each (\<lambda>value. when_some value (\<lambda>v. require_integer v 1))
       [wk_concurrency o', wk_lease_ms o', wk_heartbeat_ms o', wk_stalled_ms o', wk_poll_ms o',
        wk_flow_sweep_ms o', wk_flow_batch o']) (\<lambda>_.
     rbind (when_some (wk_max_stalled o') (\<lambda>v. require_integer v 0)) (\<lambda>_.
     rbind (throw_if (js_less (jint 10000) (orelse (wk_flow_batch o') (jint 100))
         \<or> js_less (jint max_timer) (orelse (wk_flow_sweep_ms o') (jint 30000))) Contract_Definition) (\<lambda>_.
     rbind (throw_if (js_leq (worker_lease o') (worker_heartbeat o')) Contract_Definition) (\<lambda>_.
     rbind (throw_if (store target \<noteq> None) Contract_Definition) (\<lambda>_.
     Inr (store(target \<mapsto> o'))))))))"

definition worker_metadata :: "(nat \<rightharpoonup> worker_options) \<Rightarrow> nat \<Rightarrow> worker_options option" where
  "worker_metadata store target = store target"

subsection \<open>Processors\<close>

record process_metadata =
  pm_queue :: nat
  pm_property :: string
  pm_concurrency :: "jsnum option"

type_synonym process_store = "nat \<Rightarrow> (string \<times> process_metadata) list"

text \<open>
  \<open>service\<close>: whether the queue argument is a \<open>QueueService\<close> class; \<open>callable\<close>: whether the descriptor's
  value is a function.
\<close>

definition process_decorator :: "bool \<Rightarrow> process_metadata \<Rightarrow> nat \<Rightarrow> pkey \<Rightarrow> bool \<Rightarrow> process_store
    \<Rightarrow> process_store res" where
  "process_decorator service metadata target key callable store =
     rbind (throw_if (\<not> service) Contract_Definition) (\<lambda>_.
     rbind (when_some (pm_concurrency metadata) (\<lambda>v. require_integer v 1)) (\<lambda>_.
     case key of
       PSymbol _ \<Rightarrow> Inl Contract_Definition
     | PString name \<Rightarrow>
         rbind (throw_if (\<not> callable) Contract_Definition) (\<lambda>_.
         rbind (throw_if (map_of (store target) name \<noteq> None) Contract_Definition) (\<lambda>_.
         Inr (store(target := AList.update name metadata (store target)))))))"

definition process_metadata_of :: "process_store \<Rightarrow> nat list \<Rightarrow> (string \<times> process_metadata) list" where
  "process_metadata_of store hierarchy = overlay replace store hierarchy"

subsection \<open>Parameters\<close>

datatype job_parameter = Payload_Parameter | Context_Parameter | Children_Parameter

type_synonym parameter_store = "nat \<Rightarrow> (string \<times> (nat \<times> job_parameter) list) list"

text \<open>\<open>method\<close>: \<open>None\<close> for a constructor parameter.\<close>

definition parameter_decorator :: "job_parameter \<Rightarrow> nat \<Rightarrow> pkey option \<Rightarrow> nat \<Rightarrow> parameter_store
    \<Rightarrow> parameter_store res" where
  "parameter_decorator kind target method index store =
     (case method of
        Some (PString name) \<Rightarrow>
          let current = orelse (map_of (store target) name) [] in
          rbind (throw_if (map_of current index \<noteq> None) Contract_Definition) (\<lambda>_.
          Inr (store(target := AList.update name (AList.update index kind current) (store target))))
      | _ \<Rightarrow> Inl Contract_Definition)"

text \<open>\<open>own p\<close>: the names of the own properties of a prototype.\<close>

fun parameter_metadata :: "(nat \<Rightarrow> string list) \<Rightarrow> parameter_store \<Rightarrow> nat list \<Rightarrow> string
    \<Rightarrow> (nat \<times> job_parameter) list" where
  "parameter_metadata own store [] method = []"
| "parameter_metadata own store (p # ps) method =
     (if method \<in> set (own p) then orelse (map_of (store p) method) []
      else parameter_metadata own store ps method)"

subsection \<open>Properties\<close>

text \<open>
  An accepted worker renews its leases in time: its effective heartbeat, given or derived, is a
  positive integer strictly below its effective lease, and the timers and batch sizes of its flow
  sweep are within their bounds. Its options are stored unchanged, on a class that had none.
\<close>

theorem worker_heartbeat_below_lease:
  assumes "worker_decorator o' target store = Inr store'"
  shows "store target = None \<and> store' = store(target \<mapsto> o')
    \<and> (\<exists>lease heartbeat. worker_lease o' = jint lease \<and> worker_heartbeat o' = jint heartbeat
         \<and> 1 \<le> heartbeat \<and> heartbeat < lease \<and> lease \<le> max_safe)
    \<and> (\<forall>v. wk_flow_batch o' = Some v \<longrightarrow> (\<exists>n. v = jint n \<and> 1 \<le> n \<and> n \<le> 10000))
    \<and> (\<forall>v. wk_flow_sweep_ms o' = Some v \<longrightarrow> (\<exists>n. v = jint n \<and> 1 \<le> n \<and> n \<le> max_timer))"
proof -
  let ?fields = "[wk_concurrency o', wk_lease_ms o', wk_heartbeat_ms o', wk_stalled_ms o', wk_poll_ms o',
        wk_flow_sweep_ms o', wk_flow_batch o']"
  from assms have st: "store target = None" "store' = store(target \<mapsto> o')"
    and ints: "\<And>v. Some v \<in> set ?fields \<Longrightarrow> int_at_least 1 v"
    and bounds: "\<not> (js_less (jint 10000) (orelse (wk_flow_batch o') (jint 100))
         \<or> js_less (jint max_timer) (orelse (wk_flow_sweep_ms o') (jint 30000)))"
    and hb: "\<not> js_leq (worker_lease o') (worker_heartbeat o')"
    unfolding worker_decorator_def
    by (auto simp: throw_if_iff each_ok when_some_ok checks_ok elim!: rbind_InrE)
  have int: "\<exists>n. x = jint n \<and> 1 \<le> n \<and> n \<le> max_safe" if "int_at_least 1 x" for x
    using that by (auto simp: int_at_least_def)
  have lease: "\<exists>n. worker_lease o' = jint n \<and> 1 \<le> n \<and> n \<le> max_safe"
    using ints int by (cases "wk_lease_ms o'") (auto simp: worker_lease_def max_safe_def)
  then obtain l where l: "worker_lease o' = jint l" "1 \<le> l" "l \<le> max_safe" by blast
  have "\<exists>n. worker_heartbeat o' = jint n \<and> 1 \<le> n"
    using ints int l(1) by (cases "wk_heartbeat_ms o'") (auto simp: worker_heartbeat_def)
  then obtain h where h: "worker_heartbeat o' = jint h" "1 \<le> h" by blast
  from hb l h have "h < l" by simp
  moreover have "\<exists>n. v = jint n \<and> 1 \<le> n \<and> n \<le> 10000" if "wk_flow_batch o' = Some v" for v
    using int[OF ints, of v] bounds that by auto
  moreover have "\<exists>n. v = jint n \<and> 1 \<le> n \<and> n \<le> max_timer" if "wk_flow_sweep_ms o' = Some v" for v
    using int[OF ints, of v] bounds that by auto
  ultimately show ?thesis using st l h by blast
qed

definition plain_worker :: "string \<Rightarrow> worker_options" where
  "plain_worker name = \<lparr>wk_name = name, wk_concurrency = None, wk_lease_ms = Some (jint 10),
     wk_heartbeat_ms = None, wk_stalled_ms = None, wk_max_stalled = None, wk_poll_ms = None,
     wk_retry_defects = None, wk_flow_sweep_ms = None, wk_flow_batch = None\<rparr>"

theorem worker_heartbeat_below_lease_witness:
  "\<exists>store. worker_decorator (plain_worker ''mailer'') 7 Map.empty = Inr store
     \<and> worker_heartbeat (plain_worker ''mailer'') = jint 3 \<and> store 7 \<noteq> None"
proof -
  have l: "worker_lease (plain_worker ''mailer'') = jint 10"
    by (simp add: worker_lease_def plain_worker_def)
  then have h: "worker_heartbeat (plain_worker ''mailer'') = jint 3"
    by (simp add: worker_heartbeat_def) (simp add: plain_worker_def)
  have "worker_decorator (plain_worker ''mailer'') 7 Map.empty = Inr [7 \<mapsto> plain_worker ''mailer'']"
    by (simp add: worker_decorator_def l h)
       (simp add: plain_worker_def require_name_eq require_integer_eq valid_name_def is_js_space_def
          max_safe_def max_timer_def)
  from this worker_heartbeat_below_lease[OF this] h show ?thesis by auto
qed

end
