(* ===== verification/Mq_Flow_Declarations.thy ===== *)
theory Mq_Flow_Declarations
  imports Mq_Contracts Mq_Worker_Declarations
begin

text \<open>
  \<open>src/flows/validation.ts\<close>, \<open>src/flows/references.ts\<close> and \<open>src/flows/decorators.ts\<close>: the
  declaration of a flow (a parent job, its child jobs and limits), the references to jobs, and the
  plans of children a fan-out returns. The limits of the engine (the longest names, the largest
  manifest, the validation of a flow's own limits) belong to the engine package and are a record of
  parameters.
\<close>

abbreviation flow_definition_error :: exn where
  "flow_definition_error \<equiv> Mq_Flow FlowDefinition"

record flow_engine =
  fg_max_children :: nat
  fg_max_key :: nat
  fg_max_name :: nat
  fg_default_children :: jsnum
  fg_default_depth :: jsnum
  fg_limits :: "jsnum \<Rightarrow> jsnum \<Rightarrow> (jsnum \<times> jsnum) option"

subsection \<open>Validation\<close>

text \<open>\<open>None\<close> is a missing or \<open>null\<close> argument.\<close>

definition flow_fields :: "shape option \<Rightarrow> string list \<Rightarrow> unit res" where
  "flow_fields value allowed =
     (case value of
        None \<Rightarrow> Inl flow_definition_error
      | Some s \<Rightarrow> check_shape flow_definition_error s allowed)"

definition flow_name :: "string \<Rightarrow> nat \<Rightarrow> string res" where
  "flow_name value limit =
     catch_res
       (rbind (require_name value) (\<lambda>_.
        rbind (throw_if (nul \<in> set value \<or> limit < length value) (Native_Error 0)) (\<lambda>_. Inr value)))
       (\<lambda>_. Inl flow_definition_error)"

text \<open>Primitives pass; a function is an object without \<open>Object.prototype\<close>.\<close>

primrec inspect_json :: "jsval \<Rightarrow> unit res" where
  "inspect_json VUndefined = Inr ()"
| "inspect_json VNull = Inr ()"
| "inspect_json (VBool b) = Inr ()"
| "inspect_json (VNum x) = Inr ()"
| "inspect_json VNegZero = Inr ()"
| "inspect_json (VStr s) = Inr ()"
| "inspect_json (VSymbol n) = Inr ()"
| "inspect_json (VBigInt i) = Inr ()"
| "inspect_json (VFunction n) = Inl flow_definition_error"
| "inspect_json VCycle = Inl flow_definition_error"
| "inspect_json (VArray xs) = each id (map inspect_json xs)"
| "inspect_json (VObject p fs) =
     rbind (throw_if (p \<noteq> ObjectProto) flow_definition_error) (\<lambda>_.
     each (\<lambda>(k, accessor, inspected).
         rbind (throw_if ((case k of PSymbol _ \<Rightarrow> True | PString _ \<Rightarrow> False) \<or> accessor)
           flow_definition_error) (\<lambda>_. inspected))
       (map (map_prod id (map_prod id inspect_json)) fs))"

definition to_flow_error :: "exn \<Rightarrow> exn" where
  "to_flow_error cause = (case cause of Mq_Flow phase \<Rightarrow> Mq_Flow phase | _ \<Rightarrow> flow_definition_error)"

definition copy_flow_input :: "jsval \<Rightarrow> jsval res" where
  "copy_flow_input value =
     catch_res
       (rbind (inspect_json value) (\<lambda>_.
        case json_of value of
          Throws \<Rightarrow> Inl Type_Error
        | NoText \<Rightarrow> Inl (Native_Error 0)
        | Text copy \<Rightarrow> rbind (throw_if (\<not> deep_equal copy value) (Native_Error 0)) (\<lambda>_. Inr copy)))
       (\<lambda>cause. Inl (to_flow_error cause))"

record flow_child_options =
  co_shape :: shape
  co_priority :: "jsnum option"
  co_retry :: "retry_options option"
  co_timeout_ms :: "jsnum option"
  co_metadata :: "jsval option"

definition reserved_prefix :: string where
  "reserved_prefix = ''__better_effect_flow_v2.''"

text \<open>
  \<open>flowFields(metadata, Object.keys(metadata))\<close> admits the object's own enumerable string keys, so it
  refuses symbols, accessors and objects that are not plain; then every value has to be a string.
\<close>

definition check_flow_metadata :: "jsval \<Rightarrow> unit res" where
  "check_flow_metadata metadata =
     (case metadata of
        VObject p fs \<Rightarrow>
          rbind (flow_fields (Some \<lparr>sh_proto = p, sh_keys = map (\<lambda>(k, a, _). (k, a)) fs\<rparr>)
            (concat (map (\<lambda>(k, _). case k of PString s \<Rightarrow> [s] | PSymbol _ \<Rightarrow> []) fs))) (\<lambda>_.
          each (\<lambda>(k, _, v). throw_if
              ((case v of VStr _ \<Rightarrow> False | _ \<Rightarrow> True)
               \<or> (case k of PString s \<Rightarrow> take (length reserved_prefix) s = reserved_prefix | PSymbol _ \<Rightarrow> False))
              (Native_Error 0)) fs)
      | _ \<Rightarrow> Inl Type_Error)"

definition flow_child_options_of :: "flow_child_options \<Rightarrow> flow_child_options res" where
  "flow_child_options_of o' =
     catch_res
       (rbind (flow_fields (Some (co_shape o')) [''priority'', ''retry'', ''timeoutMs'', ''metadata'']) (\<lambda>_.
        rbind (when_some (co_priority o') (\<lambda>v. require_integer v 0)) (\<lambda>_.
        rbind (when_some (co_timeout_ms o') (\<lambda>v. require_integer v 1)) (\<lambda>_.
        rbind (case co_retry o' of None \<Rightarrow> Inr o'
               | Some r \<Rightarrow> rbind (copy_retry r) (\<lambda>c. Inr (o'\<lparr>co_retry := Some c\<rparr>))) (\<lambda>copied.
        rbind (when_some (co_metadata o') check_flow_metadata) (\<lambda>_. Inr copied))))))
       (\<lambda>cause. Inl (to_flow_error cause))"

subsection \<open>References and child plans\<close>

text \<open>A reference is an object: \<open>fr_id\<close> is its identity, \<open>fr_queue\<close> the class it names.\<close>

record flow_reference =
  fr_id :: nat
  fr_queue :: nat
  fr_property :: string

definition flow_job :: "nat \<Rightarrow> bool \<Rightarrow> nat \<Rightarrow> string \<Rightarrow> flow_reference res" where
  "flow_job identity service queue property =
     rbind (throw_if (\<not> service) flow_definition_error) (\<lambda>_.
     rbind (flow_name property 256) (\<lambda>_.
     Inr \<lparr>fr_id = identity, fr_queue = queue, fr_property = property\<rparr>))"

record flow_child_input =
  ci_shape :: "shape option"
  ci_key :: string
  ci_payload :: jsval
  ci_options :: "flow_child_options option"

record flow_child =
  fc_key :: string
  fc_payload :: jsval
  fc_options :: "flow_child_options option"

record child_plan =
  cp_job :: flow_reference
  cp_items :: "flow_child list"

definition copy_child :: "flow_engine \<Rightarrow> flow_child list \<Rightarrow> flow_child_input \<Rightarrow> flow_child list res" where
  "copy_child g copied item =
     rbind (flow_fields (ci_shape item) [''key'', ''payload'', ''options'']) (\<lambda>_.
     rbind (flow_name (ci_key item) (fg_max_key g)) (\<lambda>key.
     rbind (throw_if (key \<in> set (map fc_key copied)) flow_definition_error) (\<lambda>_.
     rbind (copy_flow_input (ci_payload item)) (\<lambda>payload.
     rbind (case ci_options item of None \<Rightarrow> Inr None
            | Some o' \<Rightarrow> rbind (flow_child_options_of o') (\<lambda>c. Inr (Some c))) (\<lambda>options'.
     Inr (copied @ [\<lparr>fc_key = key, fc_payload = payload, fc_options = options'\<rparr>]))))))"

text \<open>\<open>job\<close>: \<open>None\<close> if it is not a reference; \<open>items\<close>: \<open>None\<close> if it is not an array.\<close>

definition flow_children :: "flow_engine \<Rightarrow> flow_reference option \<Rightarrow> flow_child_input list option
    \<Rightarrow> child_plan res" where
  "flow_children g job items =
     (case (job, items) of
        (Some j, Some xs) \<Rightarrow>
          rbind (throw_if (fg_max_children g < length xs) flow_definition_error) (\<lambda>_.
          rbind (loop (copy_child g) [] xs) (\<lambda>copied. Inr \<lparr>cp_job = j, cp_items = copied\<rparr>))
      | _ \<Rightarrow> Inl flow_definition_error)"

subsection \<open>Decorators\<close>

datatype failure_policy = Fail_Flow | Continue_Flow | Other_Policy

record flow_options =
  fl_shape :: "shape option"
  fl_name :: string
  fl_parent :: "flow_reference option"
  fl_children :: "flow_reference option list option"
  fl_on_failure :: failure_policy
  fl_max_children :: "jsnum option"
  fl_max_depth :: "jsnum option"

record flow_snapshot =
  fs_name :: string
  fs_parent :: flow_reference
  fs_children :: "flow_reference list"
  fs_on_failure :: failure_policy
  fs_max_children :: jsnum
  fs_max_depth :: jsnum

definition flow_decorator :: "flow_engine \<Rightarrow> flow_options \<Rightarrow> nat \<Rightarrow> (nat \<rightharpoonup> flow_snapshot)
    \<Rightarrow> (nat \<rightharpoonup> flow_snapshot) res" where
  "flow_decorator g o' target store =
     rbind (flow_fields (fl_shape o')
       [''name'', ''parent'', ''children'', ''onChildFailure'', ''maxChildren'', ''maxDepth'']) (\<lambda>_.
     rbind (flow_name (fl_name o') (fg_max_name g)) (\<lambda>_.
     rbind (need (fl_parent o') flow_definition_error) (\<lambda>parent.
     rbind (need (fl_children o') flow_definition_error) (\<lambda>references.
     rbind (throw_if (None \<in> set references) flow_definition_error) (\<lambda>_.
     rbind (throw_if (fl_on_failure o' \<noteq> Fail_Flow \<and> fl_on_failure o' \<noteq> Continue_Flow)
       flow_definition_error) (\<lambda>_.
     rbind (need (fg_limits g (orelse (fl_max_children o') (fg_default_children g))
         (orelse (fl_max_depth o') (fg_default_depth g))) flow_definition_error) (\<lambda>(children, depth).
     rbind (throw_if (store target \<noteq> None) flow_definition_error) (\<lambda>_.
     Inr (store(target \<mapsto> \<lparr>fs_name = fl_name o', fs_parent = parent, fs_children = map the references,
        fs_on_failure = fl_on_failure o', fs_max_children = children, fs_max_depth = depth\<rparr>))))))))))"

datatype flow_phase_kind = Fan_Out | Collect_Children

type_synonym phase_store = "nat \<Rightarrow> (string \<times> flow_phase_kind) list"

definition phase_decorator :: "flow_phase_kind \<Rightarrow> nat \<Rightarrow> pkey \<Rightarrow> bool \<Rightarrow> phase_store \<Rightarrow> phase_store res" where
  "phase_decorator kind target method callable store =
     (case method of
        PSymbol _ \<Rightarrow> Inl flow_definition_error
      | PString name \<Rightarrow>
          rbind (throw_if (\<not> callable) flow_definition_error) (\<lambda>_.
          rbind (throw_if (map_of (store target) name \<noteq> None \<or> kind \<in> snd ` set (store target))
            flow_definition_error) (\<lambda>_.
          Inr (store(target := AList.update name kind (store target))))))"

definition flow_data_decorator :: "nat \<Rightarrow> pkey option \<Rightarrow> nat \<Rightarrow> parameter_store \<Rightarrow> parameter_store res" where
  "flow_data_decorator = parameter_decorator Payload_Parameter"

definition flow_children_decorator :: "nat \<Rightarrow> pkey option \<Rightarrow> nat \<Rightarrow> parameter_store \<Rightarrow> parameter_store res" where
  "flow_children_decorator = parameter_decorator Children_Parameter"

definition flow_metadata :: "(nat \<rightharpoonup> flow_snapshot) \<Rightarrow> nat \<Rightarrow> flow_snapshot option" where
  "flow_metadata store target = store target"

definition flow_phase_metadata :: "phase_store \<Rightarrow> nat list \<Rightarrow> (string \<times> flow_phase_kind) list" where
  "flow_phase_metadata store hierarchy = overlay replace store hierarchy"

subsection \<open>Copying an input\<close>

text \<open>Data that JSON keeps, read from data properties only.\<close>

definition json_data :: "jsval \<Rightarrow> bool" where
  "json_data v \<longleftrightarrow> lossless v \<and> plain v = v"

lemma json_data_array: "json_data (VArray xs) \<longleftrightarrow> (\<forall>x\<in>set xs. json_data x)"
  by (auto simp: json_data_def list_all_iff map_idI)
     (metis map_eq_conv map_ident id_apply)+

lemma json_data_object:
  "json_data (VObject p fs) \<longleftrightarrow>
     p = ObjectProto \<and> (\<forall>(k, a, v)\<in>set fs. \<not> a \<and> (\<exists>s. k = PString s) \<and> json_data v)"
proof -
  have "map (\<lambda>(k, _, v). (k, False, v)) (map (map_prod id (map_prod id plain)) fs) = fs
      \<longleftrightarrow> (\<forall>(k, a, v)\<in>set fs. \<not> a \<and> plain v = v)"
    by (induction fs) auto
  moreover have "list_all (\<lambda>(k, _, b). b \<and> (case k of PString _ \<Rightarrow> True | PSymbol _ \<Rightarrow> False))
        (map (map_prod id (map_prod id lossless)) fs)
      \<longleftrightarrow> (\<forall>(k, a, v)\<in>set fs. lossless v \<and> (\<exists>s. k = PString s))"
    by (induction fs) (auto split: pkey.splits)
  ultimately show ?thesis
    unfolding json_data_def lossless.simps plain.simps jsval.inject by auto
qed

lemma inspect_json_error: "inspect_json v = Inl e \<Longrightarrow> e = flow_definition_error"
proof (induction v arbitrary: e rule: jsval_induct)
  case (VArray xs)
  have "each id (map inspect_json xs) = Inl e \<Longrightarrow> e = flow_definition_error"
    using VArray.IH by (induction xs) (auto simp: rbind_Inl_iff)
  with VArray.prems show ?case by simp
next
  case (VObject p fs)
  have "each (\<lambda>(k, accessor, inspected).
         rbind (throw_if ((case k of PSymbol _ \<Rightarrow> True | PString _ \<Rightarrow> False) \<or> accessor)
           flow_definition_error) (\<lambda>_. inspected)) (map (map_prod id (map_prod id inspect_json)) fs) = Inl e
     \<Longrightarrow> e = flow_definition_error"
    using VObject.IH by (induction fs) (fastforce simp: rbind_Inl_iff throw_if_iff)+
  with VObject.prems show ?case by (auto simp: rbind_Inl_iff throw_if_iff)
qed simp_all

lemma inspect_json_ok: "lossless v \<Longrightarrow> inspect_json v = Inr () \<longleftrightarrow> json_data v"
proof (induction v rule: jsval_induct)
  case (VArray xs)
  from VArray.prems have "lossless x" if "x \<in> set xs" for x
    using that by (simp add: list_all_iff)
  with VArray.IH show ?case
    unfolding json_data_array inspect_json.simps each_ok by auto
next
  case (VObject p fs)
  have "lossless v \<and> (\<exists>s. k = PString s)" if "(k, a, v) \<in> set fs" for k a v
    using that VObject.prems by (cases k) (fastforce simp: list_all_iff)+
  with VObject.IH have "(\<forall>x\<in>set (map (map_prod id (map_prod id inspect_json)) fs). (case x of
      (k, accessor, inspected) \<Rightarrow>
         rbind (throw_if ((case k of PSymbol _ \<Rightarrow> True | PString _ \<Rightarrow> False) \<or> accessor)
           flow_definition_error) (\<lambda>_. inspected)) = Inr ())
      \<longleftrightarrow> (\<forall>(k, a, v)\<in>set fs. \<not> a \<and> (\<exists>s. k = PString s) \<and> json_data v)"
    by (fastforce simp: rbind_Inr_iff throw_if_iff)
  then show ?case
    unfolding json_data_object inspect_json.simps rbind_Inr_iff each_ok throw_if_iff by blast
qed (auto simp: json_data_def)

text \<open>
  A flow input is copied exactly when it is plain JSON data: \<open>null\<close>, booleans, finite numbers other
  than negative zero, strings, arrays, and ordinary objects whose properties are data under string
  keys. The copy then is the input itself; everything else (cycles, class instances, accessors,
  symbols, \<open>undefined\<close>, \<open>NaN\<close>) is refused as a definition error, so nothing is lost or changed on
  the way into the manifest.
\<close>

theorem copy_flow_input_exact:
  assumes "wf_val v"
  shows "copy_flow_input v = (if json_data v then Inr v else Inl flow_definition_error)"
proof (cases "json_data v")
  case True
  then have l: "lossless v" and p: "plain v = v" by (simp_all add: json_data_def)
  from json_of_lossless[OF l] p have "json_of v = Text v" by simp
  moreover from deep_equal_plain[OF assms] p have "deep_equal v v" by simp
  ultimately show ?thesis using True inspect_json_ok[OF l] by (simp add: copy_flow_input_def)
next
  case False
  have "\<not> deep_equal j v" if "inspect_json v = Inr ()" "json_of v = Text j" for j
    using deep_equal_lossless[OF assms that(2)] inspect_json_ok[of v] that(1) False by blast
  with False show ?thesis
    by (cases "inspect_json v"; cases "json_of v")
       (auto simp: copy_flow_input_def to_flow_error_def dest: inspect_json_error)
qed

theorem copy_flow_input_exact_witness:
  "copy_flow_input (VObject ObjectProto [(PString ''to'', False, VArray [VStr ''a'', VNum (jint 1)])])
     = Inr (VObject ObjectProto [(PString ''to'', False, VArray [VStr ''a'', VNum (jint 1)])])
   \<and> copy_flow_input (VObject ObjectProto [(PString ''to'', True, VStr ''a'')]) = Inl flow_definition_error"
proof -
  let ?a = "VObject ObjectProto [(PString ''to'', False, VArray [VStr ''a'', VNum (jint 1)])]"
  let ?b = "VObject ObjectProto [(PString ''to'', True, VStr ''a'')]"
  have "wf_val ?a" "json_data ?a" "wf_val ?b" "\<not> json_data ?b"
    by (simp_all add: json_data_def)
  with copy_flow_input_exact[of ?a] copy_flow_input_exact[of ?b] show ?thesis by simp
qed

subsection \<open>Plans have distinct keys\<close>

definition child_ok :: "flow_engine \<Rightarrow> flow_child \<Rightarrow> bool" where
  "child_ok g c \<longleftrightarrow> valid_name (fc_key c) \<and> nul \<notin> set (fc_key c) \<and> length (fc_key c) \<le> fg_max_key g"

lemma flow_name_ok:
  "flow_name value limit = Inr v \<longleftrightarrow>
     v = value \<and> valid_name value \<and> nul \<notin> set value \<and> length value \<le> limit"
  by (auto simp: flow_name_def catch_res_Inr_iff rbind_Inr_iff checks_ok throw_if_iff)

lemma copy_child_ok:
  assumes "copy_child g copied item = Inr copied'"
  shows "\<exists>c. copied' = copied @ [c] \<and> fc_key c = ci_key item \<and> child_ok g c
    \<and> fc_key c \<notin> set (map fc_key copied) \<and> copy_flow_input (ci_payload item) = Inr (fc_payload c)"
  using assms by (auto simp: copy_child_def flow_name_ok throw_if_iff child_ok_def elim!: rbind_InrE)

lemma loop_copy_child:
  "loop (copy_child g) copied items = Inr out \<Longrightarrow>
     distinct (map fc_key copied) \<Longrightarrow> (\<forall>c\<in>set copied. child_ok g c) \<Longrightarrow>
     distinct (map fc_key out) \<and> (\<forall>c\<in>set out. child_ok g c)
       \<and> map fc_key out = map fc_key copied @ map ci_key items"
proof (induction items arbitrary: copied)
  case (Cons item items)
  from Cons.prems(1) obtain c where
    c: "fc_key c = ci_key item" "child_ok g c" "fc_key c \<notin> set (map fc_key copied)"
    and rest: "loop (copy_child g) (copied @ [c]) items = Inr out"
    by (auto elim!: rbind_InrE dest!: copy_child_ok)
  from Cons.prems(2) c have "distinct (map fc_key (copied @ [c]))" by simp
  moreover from Cons.prems(3) c have "\<forall>d\<in>set (copied @ [c]). child_ok g d" by simp
  ultimately have "distinct (map fc_key out)" "\<forall>d\<in>set out. child_ok g d"
    "map fc_key out = map fc_key (copied @ [c]) @ map ci_key items"
    using Cons.IH[OF rest] by blast+
  then show ?case using c(1) by (intro conjI) simp_all
qed simp

lemma flow_children_ok:
  assumes "flow_children g job items = Inr plan"
  shows "distinct (map fc_key (cp_items plan)) \<and> length (cp_items plan) \<le> fg_max_children g
    \<and> job = Some (cp_job plan) \<and> (\<forall>c\<in>set (cp_items plan). child_ok g c)
    \<and> map fc_key (cp_items plan) = map ci_key (the items)"
proof -
  from assms obtain xs where job: "job = Some (cp_job plan)" and xs: "items = Some xs"
    and len: "length xs \<le> fg_max_children g" and l: "loop (copy_child g) [] xs = Inr (cp_items plan)"
    by (auto simp: flow_children_def throw_if_iff elim!: rbind_InrE split: option.splits)
  from loop_copy_child[OF l] have k: "map fc_key (cp_items plan) = map ci_key xs" by simp
  then have "length (cp_items plan) = length xs" by (metis length_map)
  with loop_copy_child[OF l] job xs len k show ?thesis by simp
qed

text \<open>A class and its bases declare a phase at most once each; an accepted decorator keeps that.\<close>

lemma phase_decorator_ok:
  assumes "phase_decorator kind target method callable store = Inr store'"
    and "distinct (map snd (store target))"
  shows "distinct (map snd (store' target)) \<and> (\<exists>name. method = PString name
    \<and> store' target = store target @ [(name, kind)])"
  using assms
  by (auto simp: phase_decorator_def throw_if_iff map_of_eq_None_iff update_new image_iff
      elim!: rbind_InrE split: pkey.splits)

end
