(* ===== verification/Mq_Flow_Graph.thy ===== *)
theory Mq_Flow_Graph
  imports Mq_Flow_Declarations Mq_Job_Client
begin

text \<open>
  \<open>src/engine/flow-discovery.ts\<close>: from the providers of an application to its compiled flows, and the
  refusal of nested flows that contain a cycle. The module container is a function from queue classes
  to instances, the registered jobs a map from contract identities, and the engine's definition of a
  flow a parameter of which only the largest number of children is read.
\<close>

subsection \<open>Data\<close>

record flow_entry =
  fe_registered :: registered_job
  fe_compiled :: compiled_job

record engine_flow =
  ef_max_children :: int

record compiled_flow =
  cw_owner :: string
  cw_options :: flow_snapshot
  cw_parent :: flow_entry
  cw_children :: "(flow_reference \<times> flow_entry) list"
  cw_definition :: engine_flow
  cw_fan_out :: string
  cw_collect :: string

record flow_world =
  fw_flows :: "nat \<rightharpoonup> flow_snapshot"
  fw_phases :: phase_store
  fw_workers :: "nat \<rightharpoonup> worker_options"
  fw_processes :: process_store
  fw_module :: "nat \<Rightarrow> queue_object res"
  fw_entries :: "nat \<rightharpoonup> flow_entry"
  fw_define :: "flow_snapshot \<Rightarrow> compiled_job \<Rightarrow> compiled_job list \<Rightarrow> engine_flow option"

text \<open>A provider wrapper: its class, if it has one with a prototype, and that prototype's chain.\<close>

record flow_provider =
  fv_alias :: bool
  fv_class :: "nat option"
  fv_hierarchy :: "nat list"

definition entry_key :: "flow_entry \<Rightarrow> string" where
  "entry_key e = ji_key (rj_identity (fe_registered e))"

definition flow_title :: "compiled_flow \<Rightarrow> string" where
  "flow_title f = fs_name (cw_options f)"

definition parent_key :: "compiled_flow \<Rightarrow> string" where
  "parent_key f = entry_key (cw_parent f)"

definition entry_child_key :: "flow_entry \<Rightarrow> string" where
  "entry_child_key e = child_key (rj_identity (fe_registered e))"

subsection \<open>Resolving references\<close>

definition resolve_flow_reference :: "flow_world \<Rightarrow> flow_reference \<Rightarrow> flow_entry res" where
  "resolve_flow_reference w r =
     catch_res
       (rbind (fw_module w (fr_queue r)) (\<lambda>queue.
        need (case map_of (ob_fields queue) (PString (fr_property r)) of
                Some (Contract_Field contract _) \<Rightarrow> fw_entries w contract
              | _ \<Rightarrow> None) (Mq_Flow FlowIdentity)))
       (\<lambda>cause. Inl (case cause of Mq_Flow phase \<Rightarrow> Mq_Flow phase | _ \<Rightarrow> Mq_Flow FlowIdentity))"

definition flow_child_entry :: "compiled_flow \<Rightarrow> flow_reference \<Rightarrow> flow_entry res" where
  "flow_child_entry f r =
     (case map_of (cw_children f) r of
        Some exact \<Rightarrow> Inr exact
      | None \<Rightarrow>
          need (map_option snd (find (\<lambda>(known, _). fr_queue known = fr_queue r
              \<and> fr_property known = fr_property r) (cw_children f))) (Mq_Flow FlowIdentity))"

subsection \<open>Discovery\<close>

record flow_scan =
  fn_flows :: "compiled_flow list"
  fn_names :: "string list"
  fn_parents :: "string list"

definition declare_child :: "flow_world \<Rightarrow> (flow_reference \<times> flow_entry) list \<times> string list
    \<Rightarrow> flow_reference \<Rightarrow> ((flow_reference \<times> flow_entry) list \<times> string list) res" where
  "declare_child w found r =
     (case found of (children, identities) \<Rightarrow>
        rbind (resolve_flow_reference w r) (\<lambda>child.
        rbind (throw_if (entry_child_key child \<in> set identities) flow_definition_error) (\<lambda>_.
        rbind (throw_if (Option.bind (rj_controls (fe_registered child)) co_per_key \<noteq> None)
          flow_definition_error) (\<lambda>_.
        rbind (throw_if (rp_delay_ms (rj_policy (fe_registered child)) \<noteq> jint 0)
          flow_definition_error) (\<lambda>_.
        Inr (AList.update r child children, entry_child_key child # identities))))))"

definition phase_methods :: "flow_phase_kind \<Rightarrow> (string \<times> flow_phase_kind) list \<Rightarrow> string list" where
  "phase_methods kind phases = map fst (filter (\<lambda>(_, k). k = kind) phases)"

definition one_method :: "string list \<Rightarrow> string option" where
  "one_method ms = (case ms of [m] \<Rightarrow> Some m | _ \<Rightarrow> None)"

definition define_flow :: "flow_world \<Rightarrow> string \<Rightarrow> flow_snapshot \<Rightarrow> string \<Rightarrow> string \<Rightarrow> flow_entry
    \<Rightarrow> compiled_flow res" where
  "define_flow w owner options' fan_out collect' parent =
     rbind (loop (declare_child w) ([], []) (fs_children options')) (\<lambda>(children, _).
     rbind (need (fw_define w options' (fe_compiled parent) (map (fe_compiled \<circ> snd) children))
       flow_definition_error) (\<lambda>definition'.
     Inr \<lparr>cw_owner = owner, cw_options = options', cw_parent = parent, cw_children = children,
          cw_definition = definition', cw_fan_out = fan_out, cw_collect = collect'\<rparr>))"

definition declare_flow :: "flow_world \<Rightarrow> flow_scan \<Rightarrow> string \<Rightarrow> flow_snapshot
    \<Rightarrow> (string \<times> flow_phase_kind) list \<Rightarrow> string list \<Rightarrow> flow_scan res" where
  "declare_flow w s owner options' phases processes =
     rbind (need (one_method (phase_methods Fan_Out phases)) flow_definition_error) (\<lambda>fan_out.
     rbind (need (one_method (phase_methods Collect_Children phases)) flow_definition_error) (\<lambda>collect'.
     rbind (each (\<lambda>(m, _). throw_if (m \<in> set processes) flow_definition_error) phases) (\<lambda>_.
     rbind (resolve_flow_reference w (fs_parent options')) (\<lambda>parent.
     rbind (throw_if (fs_name options' \<in> set (fn_names s) \<or> entry_key parent \<in> set (fn_parents s))
       flow_definition_error) (\<lambda>_.
     rbind (throw_if (rj_controls (fe_registered parent) \<noteq> None) flow_definition_error) (\<lambda>_.
     rbind (define_flow w owner options' fan_out collect' parent) (\<lambda>flow.
     Inr \<lparr>fn_flows = fn_flows s @ [flow], fn_names = fs_name options' # fn_names s,
          fn_parents = entry_key parent # fn_parents s\<rparr>)))))))"

definition discover_flow :: "flow_world \<Rightarrow> flow_scan \<Rightarrow> flow_provider \<Rightarrow> flow_scan res" where
  "discover_flow w s p =
     (if fv_alias p then Inr s
      else case fv_class p of
        None \<Rightarrow> Inr s
      | Some target \<Rightarrow>
          let phases = flow_phase_metadata (fw_phases w) (fv_hierarchy p);
              processes = map fst (process_metadata_of (fw_processes w) (fv_hierarchy p)) in
          (case flow_metadata (fw_flows w) target of
             None \<Rightarrow> rbind (throw_if (phases \<noteq> []) flow_definition_error) (\<lambda>_. Inr s)
           | Some options' \<Rightarrow>
               rbind (need (worker_metadata (fw_workers w) target) flow_definition_error) (\<lambda>worker.
               rbind (throw_if (processes = []) flow_definition_error) (\<lambda>_.
               declare_flow w s (wk_name worker) options' phases processes))))"

definition scan_flows :: "flow_world \<Rightarrow> flow_provider list \<Rightarrow> flow_scan res" where
  "scan_flows w providers = loop (discover_flow w) \<lparr>fn_flows = [], fn_names = [], fn_parents = []\<rparr> providers"

subsection \<open>Cycles\<close>

definition by_parent :: "compiled_flow list \<Rightarrow> string \<Rightarrow> compiled_flow option" where
  "by_parent flows = map_of (foldl (\<lambda>m f. AList.update (parent_key f) f m) [] flows)"

lemma by_parent_foldl:
  "map_of (foldl (\<lambda>m f. AList.update (parent_key f) f m) m flows) k =
     orelse_opt (find (\<lambda>f. parent_key f = k) (rev flows)) (map_of m k)"
  by (induction flows arbitrary: m rule: rev_induct) (simp_all add: map_of_update)

lemma by_parent_Some: "by_parent flows k = Some f \<Longrightarrow> f \<in> set flows \<and> parent_key f = k"
  by (cases "find (\<lambda>f. parent_key f = k) (rev flows)")
     (auto simp: by_parent_def by_parent_foldl find_Some_iff rev_nth)

lemma by_parent_member:
  assumes "distinct (map parent_key flows)" and "f \<in> set flows"
  shows "by_parent flows (parent_key f) = Some f"
proof (cases "by_parent flows (parent_key f)")
  case None
  then have "find (\<lambda>g. parent_key g = parent_key f) (rev flows) = None"
    by (cases "find (\<lambda>g. parent_key g = parent_key f) (rev flows)")
       (simp_all add: by_parent_def by_parent_foldl)
  with assms(2) show ?thesis by (auto simp: find_None_iff)
next
  case (Some g)
  from by_parent_Some[OF Some] assms have "g = f" by (auto simp: distinct_map inj_on_def)
  with Some show ?thesis by simp
qed

text \<open>
  \<open>visit\<close> walks the nested flows depth first with the names on the path from the root; each call adds
  a name that was not on the path, of which there are finitely many.
\<close>

function visit :: "compiled_flow list \<Rightarrow> compiled_flow \<Rightarrow> string list \<Rightarrow> unit res" where
  "visit flows flow path =
     (if flow_title flow \<in> set path then Inl flow_definition_error
      else each (\<lambda>child. case by_parent flows (entry_key child) of
          None \<Rightarrow> Inr ()
        | Some nested \<Rightarrow> visit flows nested (flow_title flow # path)) (map snd (cw_children flow)))"
  by pat_completeness auto

termination
proof (relation "measure (\<lambda>(flows, flow, path). card (insert (flow_title flow) (flow_title ` set flows) - set path))")
  fix flows flow path child nested
  assume fresh: "flow_title flow \<notin> set path" and b: "by_parent flows (entry_key child) = Some nested"
  let ?names = "flow_title ` set flows"
  from by_parent_Some[OF b] have "flow_title nested \<in> ?names" by blast
  then have "insert (flow_title nested) ?names - set (flow_title flow # path)
      \<subset> insert (flow_title flow) ?names - set path"
    using fresh by auto
  then show "((flows, nested, flow_title flow # path), flows, flow, path)
      \<in> measure (\<lambda>(flows, flow, path). card (insert (flow_title flow) (flow_title ` set flows) - set path))"
    by (simp add: psubset_card_mono)
qed simp

declare visit.simps [simp del]

definition discover_flows :: "flow_world \<Rightarrow> flow_provider list \<Rightarrow> compiled_flow list res" where
  "discover_flows w providers =
     rbind (scan_flows w providers) (\<lambda>s.
     rbind (each (\<lambda>flow. visit (fn_flows s) flow []) (fn_flows s)) (\<lambda>_.
     Inr (fn_flows s)))"

subsection \<open>Discovered flows form an acyclic graph\<close>

definition nested_in :: "compiled_flow list \<Rightarrow> (compiled_flow \<times> compiled_flow) set" where
  "nested_in flows = {(f, g). f \<in> set flows \<and> g \<in> set flows
     \<and> parent_key g \<in> entry_key ` snd ` set (cw_children f)}"

lemma visit_ok:
  assumes "distinct (map parent_key flows)" and "f \<in> set flows"
  shows "visit flows f path = Inr () \<longleftrightarrow>
     flow_title f \<notin> set path \<and> (\<forall>g. (f, g) \<in> nested_in flows \<longrightarrow> visit flows g (flow_title f # path) = Inr ())"
proof -
  have "(\<forall>child\<in>set (map snd (cw_children f)). (case by_parent flows (entry_key child) of
          None \<Rightarrow> Inr () | Some nested \<Rightarrow> visit flows nested (flow_title f # path)) = Inr ())
      \<longleftrightarrow> (\<forall>g. (f, g) \<in> nested_in flows \<longrightarrow> visit flows g (flow_title f # path) = Inr ())"
    (is "?L \<longleftrightarrow> ?R")
  proof
    assume L: ?L
    show ?R
    proof (intro allI impI)
      fix g
      assume "(f, g) \<in> nested_in flows"
      then obtain child where "child \<in> set (map snd (cw_children f))" "entry_key child = parent_key g"
        and "g \<in> set flows" by (fastforce simp: nested_in_def)
      moreover from this assms(1) have "by_parent flows (entry_key child) = Some g"
        by (simp add: by_parent_member)
      ultimately show "visit flows g (flow_title f # path) = Inr ()" using L by fastforce
    qed
  next
    assume R: ?R
    show ?L
    proof
      fix child
      assume c: "child \<in> set (map snd (cw_children f))"
      show "(case by_parent flows (entry_key child) of None \<Rightarrow> Inr ()
          | Some nested \<Rightarrow> visit flows nested (flow_title f # path)) = Inr ()"
      proof (cases "by_parent flows (entry_key child)")
        case (Some g)
        from by_parent_Some[OF Some] c assms(2) have "(f, g) \<in> nested_in flows"
          by (force simp: nested_in_def)
        with R Some show ?thesis by simp
      qed simp
    qed
  qed
  then show ?thesis by (subst visit.simps) (simp add: each_ok)
qed

lemma visit_error: "visit flows f path = Inl e \<Longrightarrow> e = flow_definition_error"
proof (induction flows f path rule: visit.induct)
  case (1 flows f path)
  show ?case
  proof (cases "flow_title f \<in> set path")
    case True
    with "1.prems" show ?thesis by (subst (asm) visit.simps) simp
  next
    case False
    let ?f = "\<lambda>child. case by_parent flows (entry_key child) of None \<Rightarrow> Inr ()
        | Some nested \<Rightarrow> visit flows nested (flow_title f # path)"
    have step: "?f child = Inl e \<Longrightarrow> e = flow_definition_error"
      if "child \<in> set (map snd (cw_children f))" for child
      using "1.IH"[OF False that] by (auto split: option.splits)
    have "each ?f xs = Inl e \<Longrightarrow> set xs \<subseteq> set (map snd (cw_children f)) \<Longrightarrow> e = flow_definition_error" for xs
      using step by (induction xs) (auto simp: rbind_Inl_iff)
    with "1.prems" False show ?thesis by (subst (asm) visit.simps) auto
  qed
qed

lemma visit_reaches:
  assumes "distinct (map parent_key flows)" and "(f, g) \<in> (nested_in flows)\<^sup>+"
    and "visit flows f path = Inr ()"
  shows "\<exists>path'. visit flows g path' = Inr () \<and> flow_title f \<in> set path' \<and> set path \<subseteq> set path'"
  using assms(2)
proof (induction rule: trancl_induct)
  case (base g)
  then have "f \<in> set flows" by (simp add: nested_in_def)
  with assms(1,3) base show ?case
    by (intro exI[of _ "flow_title f # path"]) (auto simp: visit_ok)
next
  case (step g h)
  then obtain path' where p: "visit flows g path' = Inr ()" "flow_title f \<in> set path'"
    "set path \<subseteq> set path'" by blast
  from step.hyps have "g \<in> set flows" by (simp add: nested_in_def)
  with assms(1) p step.hyps show ?case
    by (intro exI[of _ "flow_title g # path'"]) (auto simp: visit_ok)
qed

lemma visited_acyclic:
  assumes "distinct (map parent_key flows)" and "\<And>f. f \<in> set flows \<Longrightarrow> visit flows f [] = Inr ()"
  shows "acyclic (nested_in flows)"
proof (rule acyclicI, intro allI notI)
  fix f
  assume c: "(f, f) \<in> (nested_in flows)\<^sup>+"
  then have f: "f \<in> set flows" by (auto simp: nested_in_def dest: tranclD)
  from visit_reaches[OF assms(1) c assms(2)[OF f]] obtain path
    where "visit flows f path = Inr ()" "flow_title f \<in> set path" by blast
  with assms(1) f show False by (simp add: visit_ok)
qed

lemma nested_child:
  assumes "distinct (map parent_key flows)" and "(f, g) \<in> nested_in flows"
  obtains child where "child \<in> set (map snd (cw_children f))" "by_parent flows (entry_key child) = Some g"
proof -
  from assms(2) obtain child where "child \<in> set (map snd (cw_children f))"
    and "parent_key g = entry_key child" and "g \<in> set flows" by (fastforce simp: nested_in_def)
  with by_parent_member[OF assms(1), of g] that show thesis by simp
qed

lemma acyclic_visited:
  "distinct (map parent_key flows) \<Longrightarrow> distinct (map flow_title flows) \<Longrightarrow>
   acyclic (nested_in flows) \<Longrightarrow> f \<in> set flows \<Longrightarrow>
   \<forall>n\<in>set path. \<exists>g. (g, f) \<in> (nested_in flows)\<^sup>+ \<and> flow_title g = n \<Longrightarrow>
   visit flows f path = Inr ()"
proof (induction flows f path rule: visit.induct)
  case (1 flows f path)
  let ?E = "nested_in flows"
  have fresh: "flow_title f \<notin> set path"
  proof
    assume "flow_title f \<in> set path"
    with "1.prems"(5) obtain g where g: "(g, f) \<in> ?E\<^sup>+" "flow_title g = flow_title f" by blast
    then have "g \<in> set flows" by (auto simp: nested_in_def dest: tranclD)
    with g(2) "1.prems"(2,4) have "g = f" by (auto simp: distinct_map inj_on_def)
    with g(1) "1.prems"(3) show False by (simp add: acyclic_def)
  qed
  have "visit flows g (flow_title f # path) = Inr ()" if e: "(f, g) \<in> ?E" for g
  proof -
    from nested_child[OF "1.prems"(1) e] obtain child where
      c: "child \<in> set (map snd (cw_children f))" "by_parent flows (entry_key child) = Some g" .
    have "\<exists>h. (h, g) \<in> ?E\<^sup>+ \<and> flow_title h = n" if "n \<in> set (flow_title f # path)" for n
      using that e "1.prems"(5) by (auto intro: trancl_into_trancl)
    moreover from e have "g \<in> set flows" by (simp add: nested_in_def)
    ultimately show ?thesis using "1.IH"[OF fresh c] "1.prems"(1-3) by blast
  qed
  with fresh "1.prems"(1,4) show ?case by (simp add: visit_ok)
qed

subsection \<open>The invariant of the scan\<close>

definition flow_ok :: "compiled_flow \<Rightarrow> bool" where
  "flow_ok f \<longleftrightarrow>
     rj_controls (fe_registered (cw_parent f)) = None
     \<and> distinct (map (entry_child_key \<circ> snd) (cw_children f))
     \<and> map fst (cw_children f) = fs_children (cw_options f)
     \<and> (\<forall>e\<in>snd ` set (cw_children f). rp_delay_ms (rj_policy (fe_registered e)) = jint 0
          \<and> Option.bind (rj_controls (fe_registered e)) co_per_key = None)"

definition flow_scan_ok :: "flow_scan \<Rightarrow> bool" where
  "flow_scan_ok s \<longleftrightarrow>
     rev (fn_names s) = map flow_title (fn_flows s) \<and> distinct (fn_names s)
     \<and> rev (fn_parents s) = map parent_key (fn_flows s) \<and> distinct (fn_parents s)
     \<and> (\<forall>f\<in>set (fn_flows s). flow_ok f)"

lemma declare_child_ok:
  assumes "declare_child w (children, identities) r = Inr (children', identities')"
  shows "\<exists>e. resolve_flow_reference w r = Inr e \<and> children' = AList.update r e children
    \<and> identities' = entry_child_key e # identities
    \<and> entry_child_key e \<notin> set identities \<and> rp_delay_ms (rj_policy (fe_registered e)) = jint 0
    \<and> Option.bind (rj_controls (fe_registered e)) co_per_key = None"
  using assms by (auto simp: declare_child_def throw_if_iff elim!: rbind_InrE)

lemma loop_declare_child:
  "loop (declare_child w) (children, ids) rs = Inr (children', ids') \<Longrightarrow>
   (\<forall>(r, e)\<in>set children. resolve_flow_reference w r = Inr e) \<Longrightarrow>
   rev ids = map (entry_child_key \<circ> snd) children \<Longrightarrow> distinct ids \<Longrightarrow>
   rev ids' = map (entry_child_key \<circ> snd) children' \<and> distinct ids' \<and> map fst children' = map fst children @ rs
     \<and> (\<forall>e\<in>snd ` set children'. e \<in> snd ` set children \<or>
          (rp_delay_ms (rj_policy (fe_registered e)) = jint 0
           \<and> Option.bind (rj_controls (fe_registered e)) co_per_key = None))"
proof (induction rs arbitrary: children ids)
  case (Cons r rs)
  from Cons.prems(1) obtain m ids1 where step: "declare_child w (children, ids) r = Inr (m, ids1)"
    and rest: "loop (declare_child w) (m, ids1) rs = Inr (children', ids')"
    by (auto elim!: rbind_InrE)
  from declare_child_ok[OF step] obtain e where e: "resolve_flow_reference w r = Inr e"
    and m: "m = AList.update r e children" and ids1: "ids1 = entry_child_key e # ids"
    and new: "entry_child_key e \<notin> set ids"
    and good: "rp_delay_ms (rj_policy (fe_registered e)) = jint 0"
      "Option.bind (rj_controls (fe_registered e)) co_per_key = None" by blast
  have "r \<notin> fst ` set children"
  proof
    assume "r \<in> fst ` set children"
    then obtain e' where "(r, e') \<in> set children" by force
    with Cons.prems(2) e have "(r, e) \<in> set children" by fastforce
    then have "entry_child_key e \<in> set (rev ids)" unfolding Cons.prems(3) by force
    with new show False by simp
  qed
  with m have m': "m = children @ [(r, e)]" by (simp add: update_new)
  from Cons.IH[OF rest] m' ids1 e new Cons.prems(2-4) good show ?case by auto
qed auto

lemma declare_flow_ok:
  assumes "declare_flow w s owner options' phases processes = Inr s'" and "flow_scan_ok s"
  shows "flow_scan_ok s'"
proof -
  from assms(1) obtain parent flow fan_out collect' where
    new: "fs_name options' \<notin> set (fn_names s)" "entry_key parent \<notin> set (fn_parents s)"
    and ctl: "rj_controls (fe_registered parent) = None"
    and d: "define_flow w owner options' fan_out collect' parent = Inr flow"
    and s': "s' = \<lparr>fn_flows = fn_flows s @ [flow], fn_names = fs_name options' # fn_names s,
          fn_parents = entry_key parent # fn_parents s\<rparr>"
    by (auto simp: declare_flow_def throw_if_iff elim!: rbind_InrE)
  from d obtain children ids def where
    l: "loop (declare_child w) ([], []) (fs_children options') = Inr (children, ids)"
    and f: "flow = \<lparr>cw_owner = owner, cw_options = options', cw_parent = parent, cw_children = children,
          cw_definition = def, cw_fan_out = fan_out, cw_collect = collect'\<rparr>"
    by (auto simp: define_flow_def elim!: rbind_InrE)
  from loop_declare_child[OF l] have c: "rev ids = map (entry_child_key \<circ> snd) children" "distinct ids"
    "map fst children = fs_children options'"
    "\<forall>e\<in>snd ` set children. rp_delay_ms (rj_policy (fe_registered e)) = jint 0
           \<and> Option.bind (rj_controls (fe_registered e)) co_per_key = None" by auto
  from c(1,2) have "distinct (map (entry_child_key \<circ> snd) children)" by (metis distinct_rev)
  with c ctl f have "flow_ok flow" by (simp add: flow_ok_def)
  with assms(2) new f s' show ?thesis
    by (simp add: flow_scan_ok_def flow_title_def parent_key_def)
qed

lemma discover_flow_ok:
  assumes "discover_flow w s p = Inr s'" and "flow_scan_ok s"
  shows "flow_scan_ok s'"
  using assms
  by (auto simp: discover_flow_def Let_def throw_if_iff elim!: rbind_InrE
      intro: declare_flow_ok split: if_splits option.splits)

lemma scan_flows_ok:
  assumes "scan_flows w providers = Inr s"
  shows "flow_scan_ok s"
proof (rule loop_invariant[OF assms[unfolded scan_flows_def]])
  show "flow_scan_ok \<lparr>fn_flows = [], fn_names = [], fn_parents = []\<rparr>" by (simp add: flow_scan_ok_def)
qed (rule discover_flow_ok)

lemma flow_scan_distinct:
  assumes "flow_scan_ok s"
  shows "distinct (map flow_title (fn_flows s))" "distinct (map parent_key (fn_flows s))"
  using assms by (metis distinct_rev flow_scan_ok_def)+

text \<open>
  C35. Nested flows are accepted exactly if they are well founded. When the declarations of an
  application have been read, the flows are compiled if no flow is nested in itself through any chain
  of children that are parents of further flows, and are refused otherwise, before anything is
  acquired. The search for a cycle always ends.
\<close>

theorem discover_flows_acyclic:
  "discover_flows w providers =
     (case scan_flows w providers of
        Inl e \<Rightarrow> Inl e
      | Inr s \<Rightarrow> if acyclic (nested_in (fn_flows s)) then Inr (fn_flows s) else Inl flow_definition_error)"
proof (cases "scan_flows w providers")
  case (Inr s)
  let ?fs = "fn_flows s"
  let ?visits = "each (\<lambda>flow. visit ?fs flow []) ?fs"
  note d = flow_scan_distinct[OF scan_flows_ok[OF Inr]]
  have "?visits = (if \<forall>f\<in>set ?fs. is_ok (visit ?fs f []) then Inr () else Inl flow_definition_error)"
    by (rule each_uniform_error) (rule visit_error)
  moreover have "(\<forall>f\<in>set ?fs. is_ok (visit ?fs f [])) \<longleftrightarrow> acyclic (nested_in ?fs)"
    using visited_acyclic[OF d(2)] acyclic_visited[OF d(2,1)] by (auto simp: is_ok_iff)
  ultimately show ?thesis by (simp add: discover_flows_def Inr)
qed (simp add: discover_flows_def)

text \<open>
  C36. Compiled flows have distinct names and distinct parent jobs, a parent never holds a permit of a
  controlled queue, and the children of a flow are the declared ones, told apart by connection, name
  and version, without an inherited delay or a per-key limit.
\<close>

theorem discover_flows_sound:
  assumes "discover_flows w providers = Inr flows"
  shows "distinct (map flow_title flows) \<and> distinct (map parent_key flows) \<and> (\<forall>f\<in>set flows. flow_ok f)"
proof -
  from assms obtain s where s: "scan_flows w providers = Inr s" and fs: "flows = fn_flows s"
    by (auto simp: discover_flows_def elim!: rbind_InrE)
  from scan_flows_ok[OF s] flow_scan_distinct[OF scan_flows_ok[OF s]] show ?thesis
    by (simp add: fs flow_scan_ok_def)
qed

subsection \<open>An application with one flow\<close>

definition tag_contract :: job_contract where
  "tag_contract = \<lparr>jc_payload = tag_schema, jc_result = tag_schema, jc_failure = None,
     jc_dispatch_key = None, jc_idempotency_key = None, jc_retryable = None\<rparr>"

definition demo_entry :: "string \<Rightarrow> nat \<Rightarrow> flow_entry" where
  "demo_entry name contract =
     \<lparr>fe_registered = \<lparr>rj_property = name,
        rj_identity = \<lparr>ji_connection = ''default'', ji_queue = ''orders'', ji_name = name, ji_version = 1,
          ji_key = job_key ''default'' ''orders'' name 1\<rparr>,
        rj_policy = initial_policy, rj_contract_id = contract, rj_contract = tag_contract,
        rj_controls = None, rj_schedules = []\<rparr>,
      fe_compiled = \<lparr>cj_queue = ''orders'', cj_name = name, cj_version = 1, cj_connection = ''default'',
        cj_attempts = jint 1, cj_priority = jint 0,
        cj_backoff = Some (Persisted (persisted Constant_Backoff (jint 0) None None
          \<lparr>max_delay_ms = None, jitter = None\<rparr>)), cj_timeout_ms = None, cj_payload = tag_schema,
        cj_result = tag_schema, cj_failure = None\<rparr>\<rparr>"

definition demo_ref :: "string \<Rightarrow> nat \<Rightarrow> flow_reference" where
  "demo_ref name identity = \<lparr>fr_id = identity, fr_queue = 3, fr_property = name\<rparr>"

definition demo_flow :: compiled_flow where
  "demo_flow = \<lparr>cw_owner = ''orders'',
     cw_options = \<lparr>fs_name = ''order-flow'', fs_parent = demo_ref ''order'' 1,
       fs_children = [demo_ref ''ship'' 2], fs_on_failure = Fail_Flow, fs_max_children = jint 2,
       fs_max_depth = jint 4\<rparr>,
     cw_parent = demo_entry ''order'' 1, cw_children = [(demo_ref ''ship'' 2, demo_entry ''ship'' 2)],
     cw_definition = \<lparr>ef_max_children = 2\<rparr>, cw_fan_out = ''split'', cw_collect = ''join''\<rparr>"

definition demo_flow_world :: flow_world where
  "demo_flow_world =
     \<lparr>fw_flows = [10 \<mapsto> cw_options demo_flow],
      fw_phases = (\<lambda>p. if p = 11 then [(''split'', Fan_Out), (''join'', Collect_Children)] else []),
      fw_workers = [10 \<mapsto> plain_worker ''orders''],
      fw_processes = (\<lambda>p. if p = 11 then [(''run'', \<lparr>pm_queue = 3, pm_property = ''audit'',
        pm_concurrency = None\<rparr>)] else []),
      fw_module = (\<lambda>_. Inr \<lparr>ob_id = 0, ob_class = 3, ob_chain = [], ob_fields =
        [(PString ''order'', Contract_Field 1 tag_contract), (PString ''ship'', Contract_Field 2 tag_contract)]\<rparr>),
      fw_entries = [1 \<mapsto> demo_entry ''order'' 1, 2 \<mapsto> demo_entry ''ship'' 2],
      fw_define = (\<lambda>_ _ _. Some \<lparr>ef_max_children = 2\<rparr>)\<rparr>"

definition demo_flow_provider :: flow_provider where
  "demo_flow_provider = \<lparr>fv_alias = False, fv_class = Some 10, fv_hierarchy = [11]\<rparr>"

lemma demo_resolved:
  "resolve_flow_reference demo_flow_world (demo_ref ''order'' i) = Inr (demo_entry ''order'' 1)"
  "resolve_flow_reference demo_flow_world (demo_ref ''ship'' i) = Inr (demo_entry ''ship'' 2)"
  by (simp_all add: resolve_flow_reference_def demo_flow_world_def demo_ref_def)

lemma demo_policies:
  "rj_controls (fe_registered (demo_entry n c)) = None"
  "rp_delay_ms (rj_policy (fe_registered (demo_entry n c))) = jint 0"
  by (simp_all add: demo_entry_def initial_policy_def)

lemma demo_options:
  "fs_name (cw_options demo_flow) = ''order-flow''" "fs_parent (cw_options demo_flow) = demo_ref ''order'' 1"
  "fs_children (cw_options demo_flow) = [demo_ref ''ship'' 2]"
  by (simp_all add: demo_flow_def)

lemma demo_declared:
  "declare_flow demo_flow_world \<lparr>fn_flows = [], fn_names = [], fn_parents = []\<rparr> ''orders''
     (cw_options demo_flow) [(''split'', Fan_Out), (''join'', Collect_Children)] [''run''] =
   Inr \<lparr>fn_flows = [demo_flow], fn_names = [''order-flow''], fn_parents = [entry_key (demo_entry ''order'' 1)]\<rparr>"
proof -
  have "define_flow demo_flow_world ''orders'' (cw_options demo_flow) ''split'' ''join''
      (demo_entry ''order'' 1) = Inr demo_flow"
    by (simp add: define_flow_def demo_options declare_child_def demo_resolved demo_policies)
       (simp add: demo_flow_def demo_flow_world_def)
  then show ?thesis
    by (simp add: declare_flow_def phase_methods_def one_method_def demo_options demo_resolved demo_policies)
qed

lemma demo_scanned:
  "scan_flows demo_flow_world [demo_flow_provider] =
   Inr \<lparr>fn_flows = [demo_flow], fn_names = [''order-flow''], fn_parents = [entry_key (demo_entry ''order'' 1)]\<rparr>"
proof -
  have "flow_phase_metadata (fw_phases demo_flow_world) [11] = [(''split'', Fan_Out), (''join'', Collect_Children)]"
    by (simp add: flow_phase_metadata_def overlay_def overlay_own_def replace_def demo_flow_world_def)
  moreover have "map fst (process_metadata_of (fw_processes demo_flow_world) [11]) = [''run'']"
    by (simp add: process_metadata_of_def overlay_def overlay_own_def replace_def demo_flow_world_def)
  moreover have "flow_metadata (fw_flows demo_flow_world) 10 = Some (cw_options demo_flow)"
    "worker_metadata (fw_workers demo_flow_world) 10 = Some (plain_worker ''orders'')"
    by (simp_all add: flow_metadata_def worker_metadata_def demo_flow_world_def)
  moreover have "wk_name (plain_worker ''orders'') = ''orders''" by (simp add: plain_worker_def)
  ultimately show ?thesis
    by (auto simp: scan_flows_def discover_flow_def demo_flow_provider_def demo_declared Let_def)
qed

lemma demo_discovered: "discover_flows demo_flow_world [demo_flow_provider] = Inr [demo_flow]"
proof -
  have "cw_children demo_flow = [(demo_ref ''ship'' 2, demo_entry ''ship'' 2)]"
    by (simp add: demo_flow_def)
  moreover have "entry_key (demo_entry ''ship'' 2) \<noteq> parent_key demo_flow"
    by (simp add: entry_key_def parent_key_def demo_flow_def demo_entry_def job_key_eq)
  ultimately have "visit [demo_flow] demo_flow [] = Inr ()"
    by (subst visit.simps) (simp add: by_parent_def)
  then show ?thesis by (simp add: discover_flows_def demo_scanned)
qed

theorem discover_flows_sound_witness:
  "discover_flows demo_flow_world [demo_flow_provider] = Inr [demo_flow] \<and> flow_ok demo_flow"
  using demo_discovered discover_flows_sound[OF demo_discovered] by simp

end
