(* ===== verification/Mq_Flow_Plan.thy ===== *)
theory Mq_Flow_Plan
  imports Mq_Flow_Graph Mq_Scope
begin

text \<open>
  \<open>src/engine/flow-plan.ts\<close> and \<open>src/engine/flow-results.ts\<close>: the manifest compiled from what a
  fan-out returns, the two phases of a flow handler, and the reader of the children's outcomes that a
  collect phase gets. The engine's group of children (\<open>EngineFlow.children\<close>) is represented by the
  arguments it is made of, and may refuse them; its pages of outcomes are a parameter.
\<close>

subsection \<open>The manifest of a fan-out\<close>

record engine_child_options =
  ec_attempts :: jsnum
  ec_metadata :: "(string \<times> string) list"
  ec_priority :: "jsnum option"
  ec_timeout_ms :: "jsnum option"

record engine_child =
  eh_key :: string
  eh_payload :: jsval
  eh_options :: engine_child_options

type_synonym child_group = "compiled_job \<times> engine_child list"

text \<open>An element of the array a fan-out returned; the array itself is \<open>None\<close> if it is not one.\<close>

datatype fan_item = Plan_Item child_plan | Other_Item

definition compile_child :: "compiled_flow \<Rightarrow> flow_entry \<Rightarrow> string list \<Rightarrow> flow_child \<Rightarrow> engine_child res" where
  "compile_child f entry keys item =
     (let job = fe_registered entry; contract = rj_contract job; requested = fc_options item in
      rbind (throw_if (fc_key item \<in> set keys \<or> ef_max_children (cw_definition f) \<le> int (length keys))
        flow_definition_error) (\<lambda>_.
      rbind (validate_schema (jc_payload contract) (fc_payload item)) (\<lambda>payload.
      rbind (encode_schema (jc_payload contract) payload) (\<lambda>input.
      rbind (get_dispatch_key contract payload) (\<lambda>dispatch.
      rbind (throw_if (dispatch \<noteq> None) flow_definition_error) (\<lambda>_.
      rbind (get_idempotency_key contract payload) (\<lambda>idempotency.
      rbind (throw_if (idempotency \<noteq> None) flow_definition_error) (\<lambda>_.
      rbind (publication_retry job (Option.bind requested co_retry)) (\<lambda>retry.
      rbind (publication_metadata job (Option.bind requested co_metadata)) (\<lambda>metadata.
      rbind (case Option.bind requested co_retry of
               None \<Rightarrow> Inr ()
             | Some _ \<Rightarrow> rbind (compile_backoff retry) (\<lambda>b.
                 throw_if (map_option Persisted b \<noteq> cj_backoff (fe_compiled entry)) flow_definition_error)) (\<lambda>_.
      Inr \<lparr>eh_key = fc_key item, eh_payload = input, eh_options =
        \<lparr>ec_attempts = attempts retry, ec_metadata = metadata,
         ec_priority = Option.bind requested co_priority,
         ec_timeout_ms = Option.bind requested co_timeout_ms\<rparr>\<rparr>)))))))))))"

definition compile_item :: "compiled_flow \<Rightarrow> flow_entry \<Rightarrow> string list \<times> engine_child list \<Rightarrow> flow_child
    \<Rightarrow> (string list \<times> engine_child list) res" where
  "compile_item f entry s item =
     rbind (compile_child f entry (fst s) item) (\<lambda>c. Inr (fc_key item # fst s, snd s @ [c]))"

definition compile_plan :: "compiled_flow \<Rightarrow> (compiled_job \<Rightarrow> engine_child list \<Rightarrow> unit res)
    \<Rightarrow> string list \<times> child_group list \<Rightarrow> fan_item \<Rightarrow> (string list \<times> child_group list) res" where
  "compile_plan f accepts s item =
     (case item of
        Other_Item \<Rightarrow> Inl flow_definition_error
      | Plan_Item plan \<Rightarrow>
          rbind (flow_child_entry f (cp_job plan)) (\<lambda>entry.
          rbind (loop (compile_item f entry) (fst s, []) (cp_items plan)) (\<lambda>(keys, items).
          rbind (accepts (fe_compiled entry) items) (\<lambda>_.
          Inr (keys, snd s @ [(fe_compiled entry, items)])))))"

definition compile_flow_children :: "compiled_flow \<Rightarrow> (compiled_job \<Rightarrow> engine_child list \<Rightarrow> unit res)
    \<Rightarrow> fan_item list option \<Rightarrow> child_group list res" where
  "compile_flow_children f accepts value =
     (case value of
        None \<Rightarrow> Inl flow_definition_error
      | Some plans \<Rightarrow> rbind (loop (compile_plan f accepts) ([], []) plans) (\<lambda>(_, groups). Inr groups))"

definition group_keys :: "child_group list \<Rightarrow> string list" where
  "group_keys groups = concat (map (map eh_key \<circ> snd) groups)"

text \<open>What a compiled child keeps of the contract of its job.\<close>

definition child_faithful :: "flow_entry \<Rightarrow> engine_child \<Rightarrow> bool" where
  "child_faithful entry c \<longleftrightarrow>
     (\<exists>payload. encode_schema (jc_payload (rj_contract (fe_registered entry))) payload = Inr (eh_payload c)
        \<and> get_dispatch_key (rj_contract (fe_registered entry)) payload = Inr None
        \<and> get_idempotency_key (rj_contract (fe_registered entry)) payload = Inr None)
     \<and> assert_retry_reference (fe_registered entry) (ec_metadata (eh_options c)) = Inr ()
     \<and> int_at_least 1 (ec_attempts (eh_options c))"

lemma compile_child_ok:
  assumes "compile_child f entry keys item = Inr c"
  shows "eh_key c = fc_key item \<and> fc_key item \<notin> set keys
    \<and> int (length keys) < ef_max_children (cw_definition f) \<and> child_faithful entry c"
proof -
  let ?job = "fe_registered entry" and ?o = "fc_options item"
  from assms obtain payload input retry metadata where
    k: "fc_key item \<notin> set keys" "int (length keys) < ef_max_children (cw_definition f)"
    and p: "encode_schema (jc_payload (rj_contract ?job)) payload = Inr input"
      "get_dispatch_key (rj_contract ?job) payload = Inr None"
      "get_idempotency_key (rj_contract ?job) payload = Inr None"
    and r: "publication_retry ?job (Option.bind ?o co_retry) = Inr retry"
    and m: "publication_metadata ?job (Option.bind ?o co_metadata) = Inr metadata"
    and c: "eh_key c = fc_key item" "eh_payload c = input" "ec_attempts (eh_options c) = attempts retry"
      "ec_metadata (eh_options c) = metadata"
    unfolding compile_child_def Let_def by (elim rbind_InrE) (auto simp: throw_if_iff not_le)
  from r have "valid_retry retry" by (auto simp: publication_retry_def checks_ok elim!: rbind_InrE)
  with k p c metadata_accepted[OF m] show ?thesis by (auto simp: child_faithful_def valid_retry_def)
qed

lemma compile_itemE:
  assumes "compile_item f entry s item = Inr s'"
  obtains c where "compile_child f entry (fst s) item = Inr c" "s' = (fc_key item # fst s, snd s @ [c])"
  using assms by (auto simp: compile_item_def elim!: rbind_InrE)

lemma loop_compile_item:
  "loop (compile_item f entry) (keys, items) xs = Inr (keys', items') \<Longrightarrow>
     \<exists>new. items' = items @ new \<and> keys' = rev (map eh_key new) @ keys
       \<and> (distinct keys \<longrightarrow> distinct keys') \<and> (\<forall>c\<in>set new. child_faithful entry c)
       \<and> (new \<noteq> [] \<longrightarrow> int (length keys') \<le> ef_max_children (cw_definition f))"
proof (induction xs arbitrary: keys items)
  case (Cons x xs)
  from Cons.prems obtain c where c: "compile_child f entry keys x = Inr c"
    and rest: "loop (compile_item f entry) (fc_key x # keys, items @ [c]) xs = Inr (keys', items')"
    by (auto elim!: rbind_InrE compile_itemE)
  note c' = compile_child_ok[OF c]
  from Cons.IH[OF rest] obtain new where new: "items' = (items @ [c]) @ new"
    "keys' = rev (map eh_key new) @ fc_key x # keys" "distinct (fc_key x # keys) \<longrightarrow> distinct keys'"
    "\<forall>c\<in>set new. child_faithful entry c"
    "new \<noteq> [] \<longrightarrow> int (length keys') \<le> ef_max_children (cw_definition f)" by blast
  have "new = [] \<Longrightarrow> int (length keys') \<le> ef_max_children (cw_definition f)"
    using new(2) c' by simp
  with new c' show ?case by (intro exI[of _ "c # new"]) auto
qed auto

definition manifest_ok :: "compiled_flow \<Rightarrow> string list \<times> child_group list \<Rightarrow> bool" where
  "manifest_ok f s \<longleftrightarrow>
     rev (fst s) = group_keys (snd s) \<and> distinct (fst s)
     \<and> (fst s = [] \<or> int (length (fst s)) \<le> ef_max_children (cw_definition f))
     \<and> (\<forall>(job, items)\<in>set (snd s). \<exists>r entry. flow_child_entry f r = Inr entry
          \<and> job = fe_compiled entry \<and> (\<forall>c\<in>set items. child_faithful entry c))"

lemma compile_planE:
  assumes "compile_plan f accepts s item = Inr s'"
  obtains plan :: child_plan and entry keys items where "flow_child_entry f (cp_job plan) = Inr entry"
    "loop (compile_item f entry) (fst s, []) (cp_items plan) = Inr (keys, items)"
    "s' = (keys, snd s @ [(fe_compiled entry, items)])"
proof (cases item)
  case (Plan_Item plan)
  from assms obtain entry out where e: "flow_child_entry f (cp_job plan) = Inr entry"
    and l: "loop (compile_item f entry) (fst s, []) (cp_items plan) = Inr out"
    and s': "(case out of (keys, items) \<Rightarrow> rbind (accepts (fe_compiled entry) items) (\<lambda>_.
          Inr (keys, snd s @ [(fe_compiled entry, items)]))) = Inr s'"
    unfolding compile_plan_def Plan_Item fan_item.case by (elim rbind_InrE)
  obtain keys items where out: "out = (keys, items)" by (cases out)
  with s' have "s' = (keys, snd s @ [(fe_compiled entry, items)])" by (auto elim: rbind_InrE)
  with that e l out show thesis by blast
next
  case Other_Item
  with assms show thesis by (simp add: compile_plan_def)
qed

lemma compile_plan_ok:
  assumes "compile_plan f accepts s item = Inr s'" and "manifest_ok f s"
  shows "manifest_ok f s'"
proof -
  from assms(1) obtain plan :: child_plan and entry keys items where e: "flow_child_entry f (cp_job plan) = Inr entry"
    and l: "loop (compile_item f entry) (fst s, []) (cp_items plan) = Inr (keys, items)"
    and s': "s' = (keys, snd s @ [(fe_compiled entry, items)])"
    by (rule compile_planE)
  from loop_compile_item[OF l] obtain new where new: "items = new" "keys = rev (map eh_key new) @ fst s"
    "distinct (fst s) \<longrightarrow> distinct keys" "\<forall>c\<in>set new. child_faithful entry c"
    "new \<noteq> [] \<longrightarrow> int (length keys) \<le> ef_max_children (cw_definition f)" by auto
  from assms(2) have s: "distinct (fst s)" "fst s = [] \<or> int (length (fst s)) \<le> ef_max_children (cw_definition f)"
    by (simp_all add: manifest_ok_def)
  from new s have k: "keys = rev (map eh_key items) @ fst s" "distinct keys" "\<forall>c\<in>set items. child_faithful entry c"
    by blast+
  have "keys = [] \<or> int (length keys) \<le> ef_max_children (cw_definition f)"
    using new s by (cases "new = []") auto
  note k = k this
  from k(1) assms(2) s' have "rev (fst s') = group_keys (snd s')"
    by (simp add: manifest_ok_def group_keys_def)
  with k e s' assms(2) show ?thesis by (fastforce simp: manifest_ok_def)
qed

text \<open>
  The manifest of an accepted fan-out is bounded and unambiguous: no key occurs twice, not even in
  different groups, there are at most as many children as the flow admits, every group belongs to a
  child job the flow declares, and every child's payload is an encoding of a value for which the
  contract derives neither a dispatch key nor an idempotency key. Its metadata names the retry policy
  its worker expects.
\<close>

theorem compile_flow_children_sound:
  assumes "compile_flow_children f accepts value = Inr groups"
  shows "distinct (group_keys groups)
    \<and> int (length (group_keys groups)) \<le> max 0 (ef_max_children (cw_definition f))
    \<and> (\<forall>(job, items)\<in>set groups. \<exists>r entry. flow_child_entry f r = Inr entry
         \<and> job = fe_compiled entry \<and> (\<forall>c\<in>set items. child_faithful entry c))"
proof -
  from assms obtain plans keys where l: "loop (compile_plan f accepts) ([], []) plans = Inr (keys, groups)"
    by (auto simp: compile_flow_children_def elim!: rbind_InrE split: option.splits)
  have "manifest_ok f (keys, groups)"
    by (rule loop_invariant[OF l]) (simp add: manifest_ok_def group_keys_def, rule compile_plan_ok)
  then have m: "rev keys = group_keys groups" "distinct keys"
    "keys = [] \<or> int (length keys) \<le> ef_max_children (cw_definition f)"
    "\<forall>(job, items)\<in>set groups. \<exists>r entry. flow_child_entry f r = Inr entry
          \<and> job = fe_compiled entry \<and> (\<forall>c\<in>set items. child_faithful entry c)"
    by (simp_all add: manifest_ok_def)
  from m(1,2) have "distinct (group_keys groups)" by (metis distinct_rev)
  moreover from m(1) have "length (group_keys groups) = length keys" by (metis length_rev)
  ultimately show ?thesis using m(3,4) by auto
qed

definition demo_plan :: "string \<Rightarrow> fan_item" where
  "demo_plan key = Plan_Item \<lparr>cp_job = demo_ref ''ship'' 9, cp_items =
     [\<lparr>fc_key = key, fc_payload = VStr ''x'', fc_options = None\<rparr>]\<rparr>"

lemma demo_child:
  "fst s = [] \<or> fst s = [''b''] \<Longrightarrow>
   \<exists>c. compile_plan demo_flow (\<lambda>_ _. Inr ()) s (demo_plan ''a'')
     = Inr (''a'' # fst s, snd s @ [(fe_compiled (demo_entry ''ship'' 2), [c])])"
proof -
  assume s: "fst s = [] \<or> fst s = [''b'']"
  let ?e = "demo_entry ''ship'' 2"
  have entry: "flow_child_entry demo_flow (demo_ref ''ship'' 9) = Inr ?e"
    by (simp add: flow_child_entry_def demo_flow_def demo_ref_def)
  have c: "rj_contract (fe_registered ?e) = tag_contract" by (simp add: demo_entry_def)
  have v: "validate_schema (jc_payload tag_contract) (VStr ''x'') = Inr (VStr ''x'')"
    by (simp add: tag_contract_def tag_schema_def validate_schema_def)
  have enc: "encode_schema (jc_payload tag_contract) (VStr ''x'') = Inr (VStr ''x'')"
    by (simp add: tag_contract_def tag_schema_def encode_schema_def validate_schema_def json_text_def)
  have keys: "get_dispatch_key tag_contract x = Inr None" "get_idempotency_key tag_contract x = Inr None" for x
    by (simp_all add: tag_contract_def get_dispatch_key_def get_idempotency_key_def)
  have r: "\<exists>r. publication_retry (fe_registered ?e) None = Inr r"
    by (simp add: publication_retry_def demo_entry_def initial_policy_def copy_retry_eq valid_retry_def
        retry_reference_def max_safe_def)
  have m: "\<exists>m. publication_metadata (fe_registered ?e) None = Inr m"
    by (simp add: publication_metadata_def)
  have max: "ef_max_children (cw_definition demo_flow) = 2" by (simp add: demo_flow_def)
  from s r m have "\<exists>c. compile_child demo_flow ?e (fst s)
      \<lparr>fc_key = ''a'', fc_payload = VStr ''x'', fc_options = None\<rparr> = Inr c"
    by (auto simp: compile_child_def c v enc keys max)
  then show ?thesis
    by (auto simp: compile_plan_def demo_plan_def entry compile_item_def)
qed

theorem compile_flow_children_sound_witness:
  "\<exists>groups. compile_flow_children demo_flow (\<lambda>_ _. Inr ()) (Some [demo_plan ''a'']) = Inr groups
     \<and> group_keys groups = [''a''] \<and> distinct (group_keys groups)
   \<and> \<not> is_ok (compile_flow_children demo_flow (\<lambda>_ _. Inr ()) (Some [demo_plan ''a'', demo_plan ''a'']))"
proof -
  from demo_child[of "([], [])"] obtain c where
    c: "compile_plan demo_flow (\<lambda>_ _. Inr ()) ([], []) (demo_plan ''a'')
     = Inr ([''a''], [(fe_compiled (demo_entry ''ship'' 2), [c])])" by auto
  then have one: "compile_flow_children demo_flow (\<lambda>_ _. Inr ()) (Some [demo_plan ''a''])
      = Inr [(fe_compiled (demo_entry ''ship'' 2), [c])]" by (simp add: compile_flow_children_def)
  have "\<not> is_ok (compile_flow_children demo_flow (\<lambda>_ _. Inr ()) (Some [demo_plan ''a'', demo_plan ''a'']))"
  proof
    assume "is_ok (compile_flow_children demo_flow (\<lambda>_ _. Inr ()) (Some [demo_plan ''a'', demo_plan ''a'']))"
    then obtain groups where "compile_flow_children demo_flow (\<lambda>_ _. Inr ())
        (Some [demo_plan ''a'', demo_plan ''a'']) = Inr groups" by (auto simp: is_ok_iff)
    with c show False
      by (auto simp: compile_flow_children_def compile_plan_def demo_plan_def compile_item_def
          compile_child_def elim!: rbind_InrE)
  qed
  moreover have "eh_key c = ''a''"
    using c by (auto simp: compile_plan_def demo_plan_def compile_item_def elim!: rbind_InrE
        dest!: compile_child_ok)
  ultimately show ?thesis using one compile_flow_children_sound[OF one] by (simp add: group_keys_def)
qed

end
