(* ===== verification/Mq_Flow_Results.thy ===== *)
theory Mq_Flow_Results
  imports Mq_Flow_Plan
begin

text \<open>
  \<open>src/engine/flow-results.ts\<close> and the two phases of \<open>compileFlowHandler\<close> in
  \<open>src/engine/flow-plan.ts\<close>: the reader of a flow's outcomes, open only during one collect
  invocation, and the check that this invocation still owns the parent's lease. The store's pages are
  a parameter with a state of any type, so each read may answer differently.
\<close>

subsection \<open>Pages\<close>

datatype child_outcome = Child_Completed jsval | Child_Failed exn | Child_Cancelled

record manifest_entry =
  me_key :: string
  me_definition :: compiled_job
  me_outcome :: child_outcome

record manifest_page =
  mp_items :: "manifest_entry list"
  mp_next :: "string option"

type_synonym 'w page_source =
  "string option \<Rightarrow> jsnum \<Rightarrow> 'w \<Rightarrow> (engine_error + manifest_page) res \<times> 'w"

datatype result_outcome = Result_Completed jsval | Result_Failed "jsval option" | Result_Cancelled

record child_result =
  cx_key :: string
  cx_job :: flow_reference
  cx_outcome :: result_outcome

record child_page =
  cg_items :: "child_result list"
  cg_next :: "string option"

record page_options =
  pg_shape :: "shape option"
  pg_cursor :: "string option"
  pg_limit :: "jsnum option"

record result_reader =
  rr_open :: bool
  rr_cursors :: "string list"
  rr_active :: "nat list"

definition new_reader :: result_reader where
  "new_reader = \<lparr>rr_open = True, rr_cursors = [], rr_active = []\<rparr>"

text \<open>Admission: \<open>admitted\<close> takes the reader's answer apart into its start, its settling and \<open>close\<close>.\<close>

definition reader_admit :: "nat \<Rightarrow> result_reader \<Rightarrow> bool \<times> result_reader" where
  "reader_admit i r = (if rr_open r then (True, r\<lparr>rr_active := i # rr_active r\<rparr>) else (False, r))"

definition reader_settle :: "nat \<Rightarrow> exn option \<Rightarrow> result_reader \<Rightarrow> result_reader" where
  "reader_settle i result r = r\<lparr>rr_active := remove1 i (rr_active r)\<rparr>"

definition reader_close :: "result_reader \<Rightarrow> result_reader" where
  "reader_close r = r\<lparr>rr_open := False\<rparr>"

interpretation reader: drain_scope rr_open rr_active reader_admit reader_settle reader_close
  by unfold_locales (auto simp: reader_admit_def reader_settle_def reader_close_def)

definition child_view :: "flow_reference \<Rightarrow> manifest_entry \<Rightarrow> child_result" where
  "child_view r child =
     \<lparr>cx_key = me_key child, cx_job = r, cx_outcome =
        (case me_outcome child of
           Child_Completed v \<Rightarrow> Result_Completed v
         | Child_Failed (Job_Failure v) \<Rightarrow> Result_Failed (Some v)
         | Child_Failed _ \<Rightarrow> Result_Failed None
         | Child_Cancelled \<Rightarrow> Result_Cancelled)\<rparr>"

definition check_page :: "page_options \<Rightarrow> result_reader \<Rightarrow> jsnum res" where
  "check_page o' reader =
     rbind (flow_fields (pg_shape o') [''cursor'', ''limit'']) (\<lambda>_.
     let limit = orelse (pg_limit o') (jint 100) in
     rbind (require_integer limit 1) (\<lambda>_.
     rbind (throw_if (js_less (jint 1000) limit) flow_definition_error) (\<lambda>_.
     rbind (when_some (pg_cursor o') (\<lambda>c. throw_if (length c = 0 \<or> 256 < length c
         \<or> c \<notin> set (rr_cursors reader)) flow_definition_error)) (\<lambda>_.
     Inr limit))))"

definition read_page :: "compiled_flow \<Rightarrow> 'w page_source \<Rightarrow> flow_reference \<Rightarrow> page_options
    \<Rightarrow> result_reader \<times> 'w \<Rightarrow> child_page res \<times> result_reader \<times> 'w" where
  "read_page f source r o' st =
     (case rbind (flow_child_entry f r) (\<lambda>entry. rbind (check_page o' (fst st)) (\<lambda>limit. Inr (entry, limit))) of
        Inl e \<Rightarrow> (Inl e, st)
      | Inr (entry, limit) \<Rightarrow>
          (case source (pg_cursor o') limit (snd st) of
             (Inl e, w) \<Rightarrow> (Inl e, fst st, w)
           | (Inr (Inl _), w) \<Rightarrow> (Inl (Mq_Flow FlowOperation), fst st, w)
           | (Inr (Inr page), w) \<Rightarrow>
               (Inr \<lparr>cg_items = map (child_view r)
                  (filter (\<lambda>child. me_definition child = fe_compiled entry) (mp_items page)),
                  cg_next = mp_next page\<rparr>,
                (case mp_next page of None \<Rightarrow> fst st
                 | Some c \<Rightarrow> (fst st)\<lparr>rr_cursors := c # rr_cursors (fst st)\<rparr>), w)))"

text \<open>
  Definitions of jobs are compared by their fields, which identify a compiled job: queue, name, version
  and connection. \<open>reader_page\<close> is \<open>page\<close>, refused unless the reader is open.
\<close>

definition reader_page :: "compiled_flow \<Rightarrow> 'w page_source \<Rightarrow> flow_reference \<Rightarrow> page_options
    \<Rightarrow> result_reader \<times> 'w \<Rightarrow> child_page res \<times> result_reader \<times> 'w" where
  "reader_page f source r o' st =
     (if rr_open (fst st) then read_page f source r o' st else (Inl (Mq_Flow FlowClosed), st))"

lemma read_page_cursor:
  "read_page f source r o' st = (Inr page, st') \<Longrightarrow> pg_cursor o' = Some c \<Longrightarrow>
     length c \<le> 256 \<and> c \<in> set (rr_cursors (fst st))"
  by (auto simp: read_page_def check_page_def Let_def throw_if_iff elim!: rbind_InrE split: sum.splits)

subsection \<open>Reading everything\<close>

definition page_query :: "string option \<Rightarrow> page_options" where
  "page_query cursor = (case cursor of
      None \<Rightarrow> \<lparr>pg_shape = Some (plain_shape [''limit'']), pg_cursor = None, pg_limit = Some (jint 100)\<rparr>
    | Some c \<Rightarrow> \<lparr>pg_shape = Some (plain_shape [''limit'', ''cursor'']), pg_cursor = Some c,
        pg_limit = Some (jint 100)\<rparr>)"

lemma page_query_cursor [simp]: "pg_cursor (page_query cursor) = cursor"
  by (simp add: page_query_def split: option.splits)

text \<open>
  The cursors the reader accepts are strings of at most 256 code units, so there are finitely many, and
  a cursor seen before ends the loop: it ends for every store.
\<close>

definition short_cursors :: "string set" where
  "short_cursors = {c. length c \<le> 256}"

lemma finite_short: "finite short_cursors"
  using finite_lists_length_le[of "UNIV :: char set" 256] by (simp add: short_cursors_def)

definition cursors_left :: "string option \<Rightarrow> string list \<Rightarrow> nat" where
  "cursors_left cursor seen = card (short_cursors - set seen)
     + (case cursor of Some c \<Rightarrow> if c \<in> short_cursors then 1 else 0 | None \<Rightarrow> 1)"

lemma cursors_left_less:
  assumes "case cursor of Some c \<Rightarrow> c \<in> short_cursors | None \<Rightarrow> True" and "next' \<notin> set seen"
  shows "cursors_left (Some next') (next' # seen) < cursors_left cursor seen"
proof (cases "next' \<in> short_cursors")
  case True
  with assms(2) have "card (short_cursors - set (next' # seen)) < card (short_cursors - set seen)"
    by (intro psubset_card_mono) (auto simp: finite_short)
  with True assms(1) show ?thesis by (auto simp: cursors_left_def split: option.splits)
next
  case False
  then have "short_cursors - set (next' # seen) = short_cursors - set seen" by auto
  with False assms(1) show ?thesis by (auto simp: cursors_left_def split: option.splits)
qed

lemma read_page_short:
  assumes "read_page f source r (page_query cursor) st = (Inr page, st')"
  shows "case cursor of Some c \<Rightarrow> c \<in> short_cursors | None \<Rightarrow> True"
  using read_page_cursor[OF assms] by (auto simp: short_cursors_def split: option.splits)

lemma short_read_page:
  "(Inr page, st') = read_page f source r (page_query cursor) st \<Longrightarrow>
     case cursor of Some c \<Rightarrow> c \<in> short_cursors | None \<Rightarrow> True"
  by (rule read_page_short) (rule sym)

function read_all :: "compiled_flow \<Rightarrow> 'w page_source \<Rightarrow> flow_reference \<Rightarrow> jsnum \<Rightarrow> string option
    \<Rightarrow> child_result list \<Rightarrow> string list \<Rightarrow> result_reader \<times> 'w
    \<Rightarrow> child_result list res \<times> result_reader \<times> 'w" where
  "read_all f source r max_items cursor items seen st =
     (case read_page f source r (page_query cursor) st of
        (Inl e, st') \<Rightarrow> (Inl e, st')
      | (Inr page, st') \<Rightarrow>
          if js_less max_items (jint (int (length (items @ cg_items page))))
          then (Inl flow_definition_error, st')
          else (case cg_next page of
              None \<Rightarrow> (Inr (items @ cg_items page), st')
            | Some next' \<Rightarrow>
                if next' \<in> set seen then (Inl (Mq_Flow FlowOperation), st')
                else read_all f source r max_items (Some next') (items @ cg_items page) (next' # seen) st'))"
  by pat_completeness auto

termination
  by (relation "measure (\<lambda>(f, source, r, m, cursor, items, seen, st). cursors_left cursor seen)")
     (auto intro!: cursors_left_less dest: short_read_page read_page_short)

declare read_all.simps [simp del]

definition reader_all :: "compiled_flow \<Rightarrow> 'w page_source \<Rightarrow> flow_reference \<Rightarrow> shape option \<Rightarrow> jsnum
    \<Rightarrow> result_reader \<times> 'w \<Rightarrow> child_result list res \<times> result_reader \<times> 'w" where
  "reader_all f source r shape max_items st =
     (if \<not> rr_open (fst st) then (Inl (Mq_Flow FlowClosed), st)
      else case rbind (flow_fields shape [''maxItems'']) (\<lambda>_. rbind (require_integer max_items 0) (\<lambda>_.
             throw_if (js_less (jint (ef_max_children (cw_definition f))) max_items) flow_definition_error)) of
        Inl e \<Rightarrow> (Inl e, st)
      | Inr _ \<Rightarrow> read_all f source r max_items None [] [] st)"

text \<open>
  A complete walk over the manifest: the pages read one after another, each with the cursor of the one
  before it, the last one without a cursor.
\<close>

fun page_walk :: "compiled_flow \<Rightarrow> 'w page_source \<Rightarrow> flow_reference \<Rightarrow> string option \<Rightarrow> child_page list
    \<Rightarrow> result_reader \<times> 'w \<Rightarrow> result_reader \<times> 'w \<Rightarrow> bool" where
  "page_walk f source r cursor [] st st' = False"
| "page_walk f source r cursor (p # ps) st st' =
     (case read_page f source r (page_query cursor) st of
        (Inl e, st1) \<Rightarrow> False
      | (Inr q, st1) \<Rightarrow> q = p \<and> (case cg_next p of
            None \<Rightarrow> ps = [] \<and> st' = st1
          | Some c \<Rightarrow> page_walk f source r (Some c) ps st1 st'))"

lemma read_all_walk:
  "read_all f source r max_items cursor items seen st = (Inr out, st') \<Longrightarrow>
     \<exists>pages. page_walk f source r cursor pages st st' \<and> out = items @ concat (map cg_items pages)
       \<and> \<not> js_less max_items (jint (int (length out))) \<and> length pages \<le> cursors_left cursor seen"
proof (induction f source r max_items cursor items seen st rule: read_all.induct)
  case (1 f source r max_items cursor items seen st)
  from "1.prems" obtain page st1 where
    rd: "read_page f source r (page_query cursor) st = (Inr page, st1)"
    and small: "\<not> js_less max_items (jint (int (length (items @ cg_items page))))"
    by (subst (asm) read_all.simps) (auto split: prod.splits sum.splits if_splits)
  note short = read_page_short[OF rd]
  show ?case
  proof (cases "cg_next page")
    case None
    with "1.prems" rd small have "out = items @ cg_items page" "st' = st1"
      by (subst (asm) read_all.simps; simp)+
    moreover have "1 \<le> cursors_left cursor seen"
      using short by (auto simp: cursors_left_def split: option.splits)
    ultimately show ?thesis using rd None small by (intro exI[of _ "[page]"]) simp
  next
    case (Some c)
    with "1.prems" rd small have new: "c \<notin> set seen"
      by (subst (asm) read_all.simps) (simp split: if_splits)
    with "1.prems" rd small Some have
      "read_all f source r max_items (Some c) (items @ cg_items page) (c # seen) st1 = (Inr out, st')"
      by (subst (asm) read_all.simps) simp
    from "1.IH"[OF rd[symmetric] refl small Some new this]
    obtain pages where pages: "page_walk f source r (Some c) pages st1 st'"
      "out = (items @ cg_items page) @ concat (map cg_items pages)"
      "\<not> js_less max_items (jint (int (length out)))"
      "length pages \<le> cursors_left (Some c) (c # seen)" by blast
    with cursors_left_less[OF short new] rd Some show ?thesis
      by (intro exI[of _ "page # pages"]) simp
  qed
qed

text \<open>
  C37. Reading all outcomes ends for every store, after at most one page per cursor a reader accepts,
  and what it returns is never a truncation: it is the concatenation of the pages of one complete walk
  from the first page to the page without a cursor, no longer than the caller's bound, which in turn is
  at most the number of children the flow admits.
\<close>

theorem reader_all_complete:
  assumes "reader_all f source r shape max_items st = (Inr out, st')"
  shows "\<exists>pages bound. page_walk f source r None pages st st' \<and> out = concat (map cg_items pages)
    \<and> max_items = jint bound \<and> int (length out) \<le> bound \<and> bound \<le> ef_max_children (cw_definition f)
    \<and> length pages \<le> card short_cursors + 1"
proof -
  from assms have b: "int_at_least 0 max_items"
      "\<not> js_less (jint (ef_max_children (cw_definition f))) max_items"
    and r: "read_all f source r max_items None [] [] st = (Inr out, st')"
    by (auto simp: reader_all_def throw_if_iff checks_ok elim!: rbind_InrE split: if_splits sum.splits)
  from b(1) obtain bound where bound: "max_items = jint bound" by (auto simp: int_at_least_def)
  from read_all_walk[OF r] obtain pages where
    "page_walk f source r None pages st st'" "out = concat (map cg_items pages)"
    "\<not> js_less max_items (jint (int (length out)))" "length pages \<le> cursors_left None []" by auto
  with b(2) bound show ?thesis by (intro exI[of _ pages] exI[of _ bound]) (simp add: cursors_left_def)
qed

subsection \<open>The phases of a flow handler\<close>

text \<open>What the collect phase reads of the parent job, and its own delivery.\<close>

record lease_view =
  lv_active :: bool
  lv_owner :: "string option"
  lv_delivery :: nat
  lv_expires_at :: "int option"

record delivery =
  dv_worker :: string
  dv_delivery :: nat
  dv_aborted :: bool
  dv_now :: int

definition owns_lease :: "delivery \<Rightarrow> lease_view option \<Rightarrow> bool" where
  "owns_lease d view =
     (\<not> dv_aborted d \<and>
      (case view of
         None \<Rightarrow> False
       | Some j \<Rightarrow> lv_active j \<and> lv_owner j = Some (dv_worker d) \<and> lv_delivery j = dv_delivery d
           \<and> (case lv_expires_at j of None \<Rightarrow> False | Some t \<Rightarrow> dv_now d < t)))"

text \<open>A typed failure of the user's phase is validated and returned; everything else is thrown.\<close>

definition phase_outcome :: "registered_job \<Rightarrow> 'v res \<Rightarrow> (exn + 'v) res" where
  "phase_outcome job result =
     (case result of
        Inr v \<Rightarrow> Inr (Inr v)
      | Inl (Job_Failure failure) \<Rightarrow> rbind (validate_domain_failure job failure) (\<lambda>e. Inr (Inl e))
      | Inl e \<Rightarrow> Inl e)"

definition fan_out_handler :: "compiled_flow \<Rightarrow> (compiled_job \<Rightarrow> engine_child list \<Rightarrow> unit res)
    \<Rightarrow> fan_item list option res \<Rightarrow> (exn + child_group list) res" where
  "fan_out_handler f accepts returned =
     phase_outcome (fe_registered (cw_parent f)) (rbind returned (compile_flow_children f accepts))"

text \<open>
  The second component is the reader after the invocation, \<open>None\<close> if the user's phase was not invoked.
\<close>

definition collect_handler :: "compiled_flow \<Rightarrow> (engine_error + lease_view option) res \<Rightarrow> delivery
    \<Rightarrow> (result_reader \<Rightarrow> jsval res \<times> result_reader) \<Rightarrow> (exn + jsval) res \<times> result_reader option" where
  "collect_handler f lookup d user =
     (case lookup of
        Inl e \<Rightarrow> (Inl e, None)
      | Inr (Inl _) \<Rightarrow> (Inl (Mq_Flow FlowOperation), None)
      | Inr (Inr view) \<Rightarrow>
          if \<not> owns_lease d view then (Inl (Mq_Flow FlowOperation), None)
          else case user new_reader of
            (result, reader) \<Rightarrow>
              (phase_outcome (fe_registered (cw_parent f)) result, Some (reader_close reader)))"

text \<open>
  C38. A collect phase runs only in a delivery that owns the parent's lease: the job was just read as
  active, leased to this worker in this delivery, with a lease that has not expired, and the attempt is
  not aborted. When it has ended its reader is closed for good: whatever happens later, no read is
  admitted, and the reads still pending only drain.
\<close>

theorem collect_owns_lease:
  assumes "collect_handler f lookup d user = (out, Some reader)"
  shows "(\<exists>j t. lookup = Inr (Inr (Some j)) \<and> \<not> dv_aborted d \<and> lv_active j
        \<and> lv_owner j = Some (dv_worker d) \<and> lv_delivery j = dv_delivery d
        \<and> lv_expires_at j = Some t \<and> dv_now d < t)
    \<and> (\<forall>evs i. fst (reader_admit i (scope_run reader_admit reader_settle reader_close evs reader)) = False
        \<and> mset (rr_active (scope_run reader_admit reader_settle reader_close evs reader)) \<subseteq># mset (rr_active reader))
    \<and> (\<forall>source r o' w. reader_page f source r o' (reader, w) = (Inl (Mq_Flow FlowClosed), (reader, w)))"
proof -
  from assms obtain view result opened where l: "lookup = Inr (Inr view)" "owns_lease d view"
    and r: "reader = reader_close opened"
    by (auto simp: collect_handler_def split: sum.splits if_splits prod.splits)
  have closed: "\<not> rr_open reader" by (simp add: r reader_close_def)
  from l have "\<exists>j t. lookup = Inr (Inr (Some j)) \<and> \<not> dv_aborted d \<and> lv_active j
        \<and> lv_owner j = Some (dv_worker d) \<and> lv_delivery j = dv_delivery d
        \<and> lv_expires_at j = Some t \<and> dv_now d < t"
    by (auto simp: owns_lease_def split: option.splits)
  moreover from reader.closed_run[OF closed] reader.closed_refuses[OF closed]
  have "fst (reader_admit i (scope_run reader_admit reader_settle reader_close evs reader)) = False
      \<and> mset (rr_active (scope_run reader_admit reader_settle reader_close evs reader)) \<subseteq># mset (rr_active reader)"
    for evs i by blast
  moreover from closed have "reader_page f source r o' (reader, w) = (Inl (Mq_Flow FlowClosed), (reader, w))"
    for source r o' and w :: 'c by (simp add: reader_page_def)
  ultimately show ?thesis by blast
qed

definition demo_delivery :: delivery where
  "demo_delivery = \<lparr>dv_worker = ''w1'', dv_delivery = 2, dv_aborted = False, dv_now = 10\<rparr>"

definition demo_lease :: lease_view where
  "demo_lease = \<lparr>lv_active = True, lv_owner = Some ''w1'', lv_delivery = 2, lv_expires_at = Some 11\<rparr>"

theorem collect_owns_lease_witness:
  "\<exists>reader. collect_handler demo_flow (Inr (Inr (Some demo_lease))) demo_delivery
       (\<lambda>r. (Inr VNull, snd (reader_admit 1 r))) = (Inr (Inr VNull), Some reader)
     \<and> fst (reader_admit 2 reader) = False
   \<and> snd (collect_handler demo_flow (Inr (Inr (Some (demo_lease\<lparr>lv_delivery := 3\<rparr>)))) demo_delivery
       (\<lambda>r. (Inr VNull, r))) = None"
proof -
  have c: "collect_handler demo_flow (Inr (Inr (Some demo_lease))) demo_delivery
       (\<lambda>r. (Inr VNull, snd (reader_admit 1 r)))
     = (Inr (Inr VNull), Some (reader_close (snd (reader_admit 1 new_reader))))"
    by (simp add: collect_handler_def owns_lease_def demo_lease_def demo_delivery_def phase_outcome_def)
  have "fst (reader_admit 2 (scope_run reader_admit reader_settle reader_close []
      (reader_close (snd (reader_admit 1 new_reader))))) = False"
    using collect_owns_lease[OF c] by blast
  moreover have "snd (collect_handler demo_flow (Inr (Inr (Some (demo_lease\<lparr>lv_delivery := 3\<rparr>)))) demo_delivery
       (\<lambda>r. (Inr VNull, r))) = None"
    by (simp add: collect_handler_def owns_lease_def demo_lease_def demo_delivery_def)
  ultimately show ?thesis using c by auto
qed

text \<open>A store with two pages, the second one empty.\<close>

definition demo_pages :: "nat page_source" where
  "demo_pages cursor limit w =
     (Inr (Inr (case cursor of
         None \<Rightarrow> \<lparr>mp_items = [\<lparr>me_key = ''a'', me_definition = fe_compiled (demo_entry ''ship'' 2),
            me_outcome = Child_Completed (VStr ''x'')\<rparr>], mp_next = Some ''p2''\<rparr>
       | Some _ \<Rightarrow> \<lparr>mp_items = [], mp_next = None\<rparr>)), Suc w)"

theorem reader_all_complete_witness:
  "\<exists>out st'. reader_all demo_flow demo_pages (demo_ref ''ship'' 2) (Some (plain_shape [''maxItems''])) (jint 2)
       (new_reader, 0) = (Inr out, st')
     \<and> map cx_key out = [''a''] \<and> snd st' = 2
     \<and> (\<exists>pages. page_walk demo_flow demo_pages (demo_ref ''ship'' 2) None pages (new_reader, 0) st')"
proof -
  let ?r = "demo_ref ''ship'' 2"
  have entry: "flow_child_entry demo_flow ?r = Inr (demo_entry ''ship'' 2)"
    by (simp add: flow_child_entry_def demo_flow_def)
  have max: "ef_max_children (cw_definition demo_flow) = 2" by (simp add: demo_flow_def)
  have first: "read_page demo_flow demo_pages ?r (page_query None) (new_reader, 0)
      = (Inr \<lparr>cg_items = [\<lparr>cx_key = ''a'', cx_job = ?r, cx_outcome = Result_Completed (VStr ''x'')\<rparr>],
           cg_next = Some ''p2''\<rparr>, new_reader\<lparr>rr_cursors := [''p2'']\<rparr>, Suc 0)"
    by (simp add: read_page_def entry check_page_def page_query_def flow_fields_def check_shape_eq
        require_integer_eq max_safe_def demo_pages_def child_view_def new_reader_def)
  have second: "read_page demo_flow demo_pages ?r (page_query (Some ''p2'')) (new_reader\<lparr>rr_cursors := [''p2'']\<rparr>, Suc 0)
      = (Inr \<lparr>cg_items = [], cg_next = None\<rparr>, new_reader\<lparr>rr_cursors := [''p2'']\<rparr>, 2)"
    by (simp add: read_page_def entry check_page_def page_query_def flow_fields_def check_shape_eq
        require_integer_eq max_safe_def demo_pages_def new_reader_def)
  have "read_all demo_flow demo_pages ?r (jint 2) None [] [] (new_reader, 0) =
     (Inr [\<lparr>cx_key = ''a'', cx_job = ?r, cx_outcome = Result_Completed (VStr ''x'')\<rparr>],
      new_reader\<lparr>rr_cursors := [''p2'']\<rparr>, 2)"
    by (subst read_all.simps, simp add: first) (subst read_all.simps, simp add: second)
  moreover have "rr_open new_reader" by (simp add: new_reader_def)
  ultimately have a: "reader_all demo_flow demo_pages ?r (Some (plain_shape [''maxItems''])) (jint 2) (new_reader, 0) =
     (Inr [\<lparr>cx_key = ''a'', cx_job = ?r, cx_outcome = Result_Completed (VStr ''x'')\<rparr>],
      new_reader\<lparr>rr_cursors := [''p2'']\<rparr>, 2)"
    by (simp add: reader_all_def flow_fields_def check_shape_eq require_integer_eq max max_safe_def)
  from reader_all_complete[OF a] a show ?thesis by auto
qed

end
