(* ===== verification/Mq_Flow_Control.thy ===== *)
theory Mq_Flow_Control
  imports Mq_Flow_Results Mq_Controlled_Store
begin

text \<open>
  \<open>src/engine/flows.ts\<close>: the coordinator of flows. Its start refuses flows whose queues have
  incompatible persisted controls; \<open>get\<close> and \<open>cancel\<close> work on one flow by the reference to its parent
  job. The session's admission, the flow store and the job store answer through parameters; a
  cancellation returns, besides its result, the commands it sent to the stores, in order.
\<close>

subsection \<open>Start\<close>

text \<open>
  \<open>store connection\<close> is what \<open>withStore\<close> finds: an exception, a store without controls (\<open>None\<close>), or
  one whose \<open>getControls\<close> answers for a queue. \<open>queue_ok\<close> is the engine's check of queue names.
\<close>

type_synonym controls_reader = "string \<Rightarrow> (store_error + controls_record option) res"

definition flow_value :: "'e + 'v \<Rightarrow> 'v res" where
  "flow_value result = catch_res result (\<lambda>_. Inl (Mq_Flow FlowOperation))"

definition same_entry :: "flow_entry \<Rightarrow> flow_entry \<Rightarrow> bool" where
  "same_entry a b \<longleftrightarrow> rj_contract_id (fe_registered a) = rj_contract_id (fe_registered b)"

definition check_role :: "(string \<Rightarrow> controls_reader option res) \<Rightarrow> (string \<Rightarrow> bool) \<Rightarrow> compiled_flow
    \<Rightarrow> flow_entry \<Rightarrow> unit res" where
  "check_role store queue_ok f entry =
     (let identity = rj_identity (fe_registered entry) in
      rbind (store (ji_connection identity)) (\<lambda>controls.
      case controls of
        None \<Rightarrow> Inr ()
      | Some get \<Rightarrow>
          rbind (throw_if (\<not> queue_ok (ji_queue identity)) (Mq_Flow FlowOperation)) (\<lambda>_.
          rbind (get (ji_queue identity)) (\<lambda>answer.
          rbind (flow_value answer) (\<lambda>current.
          throw_if (case current of None \<Rightarrow> False | Some c \<Rightarrow> cr_enabled c
              \<and> (same_entry entry (cw_parent f) \<or> cr_per_key c \<noteq> None)) flow_definition_error)))))"

definition flows_initialize :: "(string \<Rightarrow> controls_reader option res) \<Rightarrow> (string \<Rightarrow> bool)
    \<Rightarrow> compiled_flow list \<Rightarrow> unit res" where
  "flows_initialize store queue_ok flows =
     each (\<lambda>f. each (check_role store queue_ok f) (cw_parent f # map snd (cw_children f))) flows"

subsection \<open>Reading and cancelling one flow\<close>

text \<open>The parent of a materialized manifest, and its counts.\<close>

record flow_counts =
  fk_pending :: nat
  fk_completed :: nat
  fk_failed :: nat
  fk_cancelled :: nat

record stored_flow =
  sf_name :: string
  sf_store_key :: string
  sf_state :: job_state
  sf_depth :: nat
  sf_counts :: flow_counts
  sf_children :: nat

record flow_status =
  ft_id :: string
  ft_name :: string
  ft_parent :: job_identity
  ft_state :: job_state
  ft_depth :: nat
  ft_children :: nat
  ft_counts :: flow_counts

text \<open>\<open>tag connection\<close> is the service tag of the operation store of a connection.\<close>

definition flow_belongs :: "(string \<Rightarrow> string) \<Rightarrow> compiled_flow \<Rightarrow> stored_flow \<Rightarrow> bool" where
  "flow_belongs tag d m \<longleftrightarrow>
     sf_name m = flow_title d \<and> sf_store_key m = tag (cj_connection (fe_compiled (cw_parent d)))"

definition assert_flow_identity :: "(string \<Rightarrow> string) \<Rightarrow> stored_flow \<Rightarrow> compiled_flow \<Rightarrow> unit res" where
  "assert_flow_identity tag m d =
     throw_if (sf_name m \<noteq> flow_title d
       \<or> sf_store_key m \<noteq> tag (cj_connection (fe_compiled (cw_parent d)))) (Mq_Flow FlowIdentity)"

lemma assert_flow_identity_ok: "assert_flow_identity tag m d = Inr u \<longleftrightarrow> flow_belongs tag d m"
  by (simp add: assert_flow_identity_def flow_belongs_def throw_if_iff)

definition flow_definition :: "flow_world \<Rightarrow> compiled_flow list \<Rightarrow> flow_reference \<Rightarrow> compiled_flow res" where
  "flow_definition w flows r =
     rbind (resolve_flow_reference w r) (\<lambda>entry.
     need (find (\<lambda>f. same_entry (cw_parent f) entry) flows) (Mq_Flow FlowIdentity))"

text \<open>\<open>id_ok\<close> is the engine's check of job ids, \<open>admitted\<close> the session's answer to \<open>withFlows\<close>.\<close>

definition flow_target :: "flow_world \<Rightarrow> compiled_flow list \<Rightarrow> (string \<Rightarrow> bool) \<Rightarrow> (string \<Rightarrow> unit res)
    \<Rightarrow> flow_reference \<Rightarrow> string \<Rightarrow> compiled_flow res" where
  "flow_target w flows id_ok admitted r i =
     rbind (flow_definition w flows r) (\<lambda>d.
     rbind (throw_if (\<not> id_ok i) (Mq_Flow FlowOperation)) (\<lambda>_.
     rbind (admitted (ji_connection (rj_identity (fe_registered (cw_parent d))))) (\<lambda>_. Inr d)))"

definition flow_get :: "flow_world \<Rightarrow> compiled_flow list \<Rightarrow> (string \<Rightarrow> bool) \<Rightarrow> (string \<Rightarrow> unit res)
    \<Rightarrow> (string \<Rightarrow> string) \<Rightarrow> (string \<Rightarrow> (store_error + stored_flow option) res) \<Rightarrow> flow_reference \<Rightarrow> string
    \<Rightarrow> flow_status option res" where
  "flow_get w flows id_ok admitted tag get_flow r i =
     rbind (flow_target w flows id_ok admitted r i) (\<lambda>d.
     rbind (get_flow i) (\<lambda>answer.
     rbind (flow_value answer) (\<lambda>value.
     case value of
       None \<Rightarrow> Inr None
     | Some m \<Rightarrow>
         rbind (assert_flow_identity tag m d) (\<lambda>_.
         Inr (Some \<lparr>ft_id = i, ft_name = sf_name m,
           ft_parent = rj_identity (fe_registered (cw_parent d)), ft_state = sf_state m,
           ft_depth = sf_depth m, ft_children = sf_children m, ft_counts = sf_counts m\<rparr>)))))"

record job_row =
  jw_queue :: string
  jw_name :: string
  jw_version :: nat
  jw_active :: bool

text \<open>The answers of the stores to one cancellation; an exception is a rejected call.\<close>

record cancel_answers =
  ca_manifest :: "(store_error + stored_flow option) res"
  ca_cancel_flow :: "(store_error + unit) res"
  ca_store :: "unit res"
  ca_job :: "(store_error + job_row option) res"
  ca_cancel_job :: "(store_error + unit) res"
  ca_again :: "(store_error + stored_flow option) res"

datatype cancel_command = Cancel_Flow | Cancel_Job | Request_Cancellation

definition cancel_manifest :: "(string \<Rightarrow> string) \<Rightarrow> compiled_flow \<Rightarrow> cancel_answers \<Rightarrow> stored_flow
    \<Rightarrow> cancel_command list \<Rightarrow> unit res \<times> cancel_command list" where
  "cancel_manifest tag d a m sent =
     (case assert_flow_identity tag m d of
        Inl e \<Rightarrow> (Inl e, sent)
      | Inr _ \<Rightarrow> (rbind (ca_cancel_flow a) flow_value, sent @ [Cancel_Flow]))"

definition recheck_manifest :: "(string \<Rightarrow> string) \<Rightarrow> compiled_flow \<Rightarrow> cancel_answers
    \<Rightarrow> cancel_command list \<Rightarrow> unit res \<times> cancel_command list" where
  "recheck_manifest tag d a sent =
     (case rbind (ca_again a) flow_value of
        Inl e \<Rightarrow> (Inl e, sent)
      | Inr None \<Rightarrow> (Inl (Mq_Flow FlowOperation), sent)
      | Inr (Some m) \<Rightarrow> cancel_manifest tag d a m sent)"

definition row_of_parent :: "compiled_flow \<Rightarrow> job_row option \<Rightarrow> bool" where
  "row_of_parent d row =
     (let identity = rj_identity (fe_registered (cw_parent d)) in
      case row of
        None \<Rightarrow> False
      | Some j \<Rightarrow> jw_queue j = ji_queue identity \<and> jw_name j = ji_name identity
          \<and> jw_version j = ji_version identity)"

definition cancel_parent :: "(string \<Rightarrow> string) \<Rightarrow> compiled_flow \<Rightarrow> cancel_answers
    \<Rightarrow> unit res \<times> cancel_command list" where
  "cancel_parent tag d a =
     (case rbind (ca_store a) (\<lambda>_. ca_job a) of
        Inl e \<Rightarrow> (Inl e, [])
      | Inr (Inl _) \<Rightarrow> recheck_manifest tag d a []
      | Inr (Inr row) \<Rightarrow>
          if \<not> row_of_parent d row then (Inl (Mq_Flow FlowIdentity), [])
          else
            let command = (if jw_active (the row) then Request_Cancellation else Cancel_Job) in
            (case ca_cancel_job a of
               Inl e \<Rightarrow> (Inl e, [command])
             | Inr (Inr _) \<Rightarrow> (Inr (), [command])
             | Inr (Inl _) \<Rightarrow> recheck_manifest tag d a [command]))"

definition flow_cancel :: "flow_world \<Rightarrow> compiled_flow list \<Rightarrow> (string \<Rightarrow> bool) \<Rightarrow> (string \<Rightarrow> unit res)
    \<Rightarrow> (string \<Rightarrow> string) \<Rightarrow> cancel_answers \<Rightarrow> flow_reference \<Rightarrow> string \<Rightarrow> unit res \<times> cancel_command list" where
  "flow_cancel w flows id_ok admitted tag a r i =
     (case flow_target w flows id_ok admitted r i of
        Inl e \<Rightarrow> (Inl e, [])
      | Inr d \<Rightarrow>
          (case rbind (ca_manifest a) flow_value of
             Inl e \<Rightarrow> (Inl e, [])
           | Inr (Some m) \<Rightarrow> cancel_manifest tag d a m []
           | Inr None \<Rightarrow> cancel_parent tag d a))"

subsection \<open>Properties\<close>

text \<open>The manifest a cancellation acts on: the one read last.\<close>

definition read_manifest :: "cancel_answers \<Rightarrow> stored_flow \<Rightarrow> bool" where
  "read_manifest a m \<longleftrightarrow> ca_manifest a = Inr (Inr (Some m))
     \<or> (ca_manifest a = Inr (Inr None) \<and> ca_again a = Inr (Inr (Some m)))"

lemma flow_value_ok [simp]: "flow_value r = Inr v \<longleftrightarrow> r = Inr v"
  by (auto simp: flow_value_def catch_res_Inr_iff)

lemma cancel_manifest_cases:
  assumes "cancel_manifest tag d a m sent = (out, calls)"
  shows "(calls = sent \<and> \<not> is_ok out) \<or>
    (calls = sent @ [Cancel_Flow] \<and> flow_belongs tag d m \<and> (is_ok out \<longrightarrow> ca_cancel_flow a = Inr (Inr ())))"
  using assms assert_flow_identity_ok[of tag m d]
  by (auto simp: cancel_manifest_def is_ok_iff rbind_Inr_iff split: sum.splits)

lemma recheck_manifest_cases:
  assumes "recheck_manifest tag d a sent = (out, calls)"
  shows "(calls = sent \<and> \<not> is_ok out) \<or>
    (calls = sent @ [Cancel_Flow] \<and> (\<exists>m. ca_again a = Inr (Inr (Some m)) \<and> flow_belongs tag d m)
      \<and> (is_ok out \<longrightarrow> ca_cancel_flow a = Inr (Inr ())))"
proof (cases "rbind (ca_again a) flow_value")
  case (Inl e)
  with assms show ?thesis by (auto simp: recheck_manifest_def)
next
  case (Inr answer)
  then have again: "ca_again a = Inr (Inr answer)" by (auto simp: rbind_Inr_iff)
  show ?thesis
  proof (cases answer)
    case None
    with assms Inr show ?thesis by (auto simp: recheck_manifest_def)
  next
    case (Some m)
    with assms Inr have "cancel_manifest tag d a m sent = (out, calls)" by (simp add: recheck_manifest_def)
    from cancel_manifest_cases[OF this] again Some show ?thesis by auto
  qed
qed

lemma cancel_parent_cases:
  assumes "cancel_parent tag d a = (out, calls)"
  obtains (refused) "calls = []" "\<not> is_ok out"
  | (manifest) m sent where "calls = sent @ [Cancel_Flow]" "ca_again a = Inr (Inr (Some m))"
      "flow_belongs tag d m" "is_ok out \<longrightarrow> ca_cancel_flow a = Inr (Inr ())"
      "sent = [] \<or> (\<exists>j. ca_job a = Inr (Inr (Some j)) \<and> row_of_parent d (Some j)
        \<and> sent = [if jw_active j then Request_Cancellation else Cancel_Job])"
  | (job) j where "calls = [if jw_active j then Request_Cancellation else Cancel_Job]"
      "ca_job a = Inr (Inr (Some j))" "row_of_parent d (Some j)"
      "is_ok out \<longrightarrow> ca_cancel_job a = Inr (Inr ())"
proof (cases "rbind (ca_store a) (\<lambda>_. ca_job a)")
  case (Inl e)
  with assms have "calls = []" "\<not> is_ok out" by (auto simp: cancel_parent_def)
  then show thesis by (rule refused)
next
  case (Inr answer)
  then have job': "ca_job a = Inr answer" by (auto simp: rbind_Inr_iff)
  show thesis
  proof (cases answer)
    case (Inl e)
    with assms Inr have "recheck_manifest tag d a [] = (out, calls)" by (simp add: cancel_parent_def)
    from recheck_manifest_cases[OF this] show thesis
      using refused manifest[of "[]"] by auto
  next
    case (Inr row)
    note row = \<open>rbind (ca_store a) (\<lambda>_. ca_job a) = Inr answer\<close> Inr
    show thesis
    proof (cases "row_of_parent d row")
      case False
      with assms row have "calls = []" "\<not> is_ok out" by (auto simp: cancel_parent_def)
      then show thesis by (rule refused)
    next
      case True
      then obtain j where j: "row = Some j" by (cases row) (auto simp: row_of_parent_def)
      let ?c = "if jw_active j then Request_Cancellation else Cancel_Job"
      from job' Inr j have read: "ca_job a = Inr (Inr (Some j))" by simp
      from assms row True j have out: "(case ca_cancel_job a of
               Inl e \<Rightarrow> (Inl e, [?c]) | Inr (Inr _) \<Rightarrow> (Inr (), [?c])
             | Inr (Inl _) \<Rightarrow> recheck_manifest tag d a [?c]) = (out, calls)"
        by (simp add: cancel_parent_def Let_def)
      show thesis
      proof (cases "\<exists>e. ca_cancel_job a = Inr (Inl e)")
        case True
        with out have "recheck_manifest tag d a [?c] = (out, calls)" by auto
        from recheck_manifest_cases[OF this] show thesis
        proof
          assume "calls = [?c] \<and> \<not> is_ok out"
          then show thesis using job read \<open>row_of_parent d row\<close> j by blast
        next
          assume "calls = [?c] @ [Cancel_Flow] \<and> (\<exists>m. ca_again a = Inr (Inr (Some m)) \<and> flow_belongs tag d m)
              \<and> (is_ok out \<longrightarrow> ca_cancel_flow a = Inr (Inr ()))"
          then show thesis using manifest[of "[?c]"] read \<open>row_of_parent d row\<close> j by blast
        qed
      next
        case False
        with out have "calls = [?c]" "is_ok out \<longrightarrow> ca_cancel_job a = Inr (Inr ())"
          by (auto split: sum.splits)
        then show thesis using job read \<open>row_of_parent d row\<close> j by blast
      qed
    qed
  qed
qed

text \<open>
  Cancelling a flow by a reference and an id touches nothing foreign. The manifest is cancelled only
  if the manifest read last carries the name and the store of the referenced flow; the parent job is
  cancelled, or asked to stop while it is active, only if the job read has the queue, name and version
  of the flow's parent. A reported success means that a command was sent and the last one succeeded.
\<close>

theorem flow_cancel_guarded:
  assumes "flow_cancel w flows id_ok admitted tag a r i = (out, calls)"
  shows "(Cancel_Flow \<in> set calls \<longrightarrow>
      (\<exists>d m. flow_definition w flows r = Inr d \<and> read_manifest a m \<and> flow_belongs tag d m))
    \<and> (\<forall>c\<in>set calls. c \<noteq> Cancel_Flow \<longrightarrow>
         (\<exists>d j. flow_definition w flows r = Inr d \<and> ca_manifest a = Inr (Inr None)
            \<and> ca_job a = Inr (Inr (Some j)) \<and> row_of_parent d (Some j)
            \<and> c = (if jw_active j then Request_Cancellation else Cancel_Job)))
    \<and> (is_ok out \<longrightarrow> calls \<noteq> [] \<and>
         (if last calls = Cancel_Flow then ca_cancel_flow a else ca_cancel_job a) = Inr (Inr ()))"
proof (cases "flow_target w flows id_ok admitted r i")
  case (Inl e)
  with assms have "calls = []" "\<not> is_ok out" by (auto simp: flow_cancel_def)
  then show ?thesis by simp
next
  case (Inr d)
  then have d: "flow_definition w flows r = Inr d" by (auto simp: flow_target_def elim!: rbind_InrE)
  consider (failed) "calls = []" "\<not> is_ok out"
    | (found) m where "ca_manifest a = Inr (Inr (Some m))" "cancel_manifest tag d a m [] = (out, calls)"
    | (missing) "ca_manifest a = Inr (Inr None)" "cancel_parent tag d a = (out, calls)"
    using assms Inr
    by (auto simp: flow_cancel_def rbind_Inr_iff rbind_Inl_iff split: sum.splits option.splits)
  then show ?thesis
  proof cases
    case failed
    then show ?thesis by simp
  next
    case found
    from cancel_manifest_cases[OF found(2)] d found(1) show ?thesis by (auto simp: read_manifest_def)
  next
    case missing
    from missing(2) show ?thesis
      by (cases rule: cancel_parent_cases) (use d missing(1) in \<open>auto simp: read_manifest_def\<close>)
  qed
qed

definition demo_manifest :: "string \<Rightarrow> stored_flow" where
  "demo_manifest name = \<lparr>sf_name = name, sf_store_key = ''op/default'', sf_state = Job_Waiting_Children,
     sf_depth = 1, sf_counts = \<lparr>fk_pending = 1, fk_completed = 0, fk_failed = 0, fk_cancelled = 0\<rparr>,
     sf_children = 1\<rparr>"

definition demo_answers :: "string \<Rightarrow> cancel_answers" where
  "demo_answers name = \<lparr>ca_manifest = Inr (Inr None), ca_cancel_flow = Inr (Inr ()), ca_store = Inr (),
     ca_job = Inr (Inl Lease_Lost), ca_cancel_job = Inr (Inr ()), ca_again = Inr (Inr (Some (demo_manifest name)))\<rparr>"

lemma demo_flow_definition:
  "flow_definition demo_flow_world [demo_flow] (demo_ref ''order'' i) = Inr demo_flow"
  by (simp add: flow_definition_def demo_resolved same_entry_def) (simp add: demo_flow_def)

theorem flow_cancel_guarded_witness:
  "flow_cancel demo_flow_world [demo_flow] (\<lambda>_. True) (\<lambda>_. Inr ()) ((@) ''op/'') (demo_answers ''order-flow'')
     (demo_ref ''order'' 1) ''f1'' = (Inr (), [Cancel_Flow])
   \<and> flow_cancel demo_flow_world [demo_flow] (\<lambda>_. True) (\<lambda>_. Inr ()) ((@) ''op/'') (demo_answers ''other'')
     (demo_ref ''order'' 1) ''f1'' = (Inl (Mq_Flow FlowIdentity), [])
   \<and> flow_belongs ((@) ''op/'') demo_flow (demo_manifest ''order-flow'')"
proof -
  have target: "flow_target demo_flow_world [demo_flow] (\<lambda>_. True) (\<lambda>_. Inr ()) (demo_ref ''order'' i) ''f1''
      = Inr demo_flow" for i
    by (simp add: flow_target_def demo_flow_definition)
  have c: "flow_cancel demo_flow_world [demo_flow] (\<lambda>_. True) (\<lambda>_. Inr ()) ((@) ''op/'') (demo_answers name)
     (demo_ref ''order'' 1) ''f1'' =
      (if name = ''order-flow'' then (Inr (), [Cancel_Flow]) else (Inl (Mq_Flow FlowIdentity), []))" for name
    by (simp add: flow_cancel_def target demo_answers_def cancel_parent_def recheck_manifest_def
        cancel_manifest_def assert_flow_identity_def flow_value_def demo_manifest_def flow_title_def)
       (simp add: demo_flow_def demo_entry_def)
  have ok: "flow_cancel demo_flow_world [demo_flow] (\<lambda>_. True) (\<lambda>_. Inr ()) ((@) ''op/'') (demo_answers ''order-flow'')
     (demo_ref ''order'' 1) ''f1'' = (Inr (), [Cancel_Flow])" using c[of "''order-flow''"] by simp
  from flow_cancel_guarded[OF ok] obtain m where "read_manifest (demo_answers ''order-flow'') m"
    "flow_belongs ((@) ''op/'') demo_flow m" by (auto simp: demo_flow_definition)
  then have "flow_belongs ((@) ''op/'') demo_flow (demo_manifest ''order-flow'')"
    by (auto simp: read_manifest_def demo_answers_def)
  with ok c[of "''other''"] show ?thesis by simp
qed

end
