(* ===== verification/Mq_Pipeline.thy ===== *)
theory Mq_Pipeline
  imports Mq_Retry Mq_Worker_Declarations
begin

text \<open>
  \<open>src/enhancers/decorators.ts\<close>, \<open>src/engine/mq-enhancers.ts\<close> and \<open>src/engine/mq-interceptor.ts\<close>: the
  guards, pipes, interceptors and filters around a handler. Provider classes are numbered. Enhancers
  and the handler are application code: what they answer may depend on everything that happened
  before, so they are functions of the state of the run, which counts the checks of the abort signal
  and logs the calls. An interceptor can also call \<open>next\<close>, any number of times, awaiting it or not;
  its behaviour is a tree of these calls.
\<close>

subsection \<open>Decorators and metadata\<close>

datatype enhancer_kind = Guards | Pipes | Interceptors | Filters

type_synonym enhancer_store = "enhancer_kind \<Rightarrow> nat \<Rightarrow> nat list"

text \<open>
  A provider argument is its number and whether it is a class; the owner is the decorated class or the
  method's function, \<open>None\<close> if the decorator was applied to something else.
\<close>

definition enhancer_decorator :: "enhancer_kind \<Rightarrow> (nat \<times> bool) list \<Rightarrow> nat option \<Rightarrow> enhancer_store
    \<Rightarrow> enhancer_store res" where
  "enhancer_decorator kind providers owner store =
     rbind (each (\<lambda>(_, is_class). throw_if (\<not> is_class) Contract_Definition) providers) (\<lambda>_.
     rbind (need owner Contract_Definition) (\<lambda>o'.
     Inr (store(kind := (store kind)(o' := map fst providers @ store kind o')))))"

definition inherited :: "enhancer_store \<Rightarrow> enhancer_kind \<Rightarrow> nat list \<Rightarrow> nat list" where
  "inherited store kind chain = foldl (\<lambda>providers current. store kind current @ providers) [] chain"

record enhancers =
  en_guards :: "nat list"
  en_pipes :: "nat list"
  en_interceptors :: "nat list"
  en_filters :: "nat list"

definition enhancer_metadata :: "enhancer_store \<Rightarrow> nat list \<Rightarrow> enhancers" where
  "enhancer_metadata store chain =
     \<lparr>en_guards = inherited store Guards chain, en_pipes = inherited store Pipes chain,
      en_interceptors = inherited store Interceptors chain, en_filters = inherited store Filters chain\<rparr>"

text \<open>Class chains compose base first.\<close>

lemma inherited_concat: "inherited store kind chain = concat (rev (map (store kind) chain))"
proof -
  have "foldl (\<lambda>providers current. store kind current @ providers) ps chain
      = concat (rev (map (store kind) chain)) @ ps" for ps
    by (induction chain arbitrary: ps) simp_all
  then show ?thesis by (simp add: inherited_def)
qed

subsection \<open>Compilation\<close>

record enhancer_provider =
  ep_token :: nat
  ep_alias :: bool
  ep_prototype :: "object_levels option"

definition verify_provider :: "enhancer_provider list \<Rightarrow> string list \<Rightarrow> nat \<Rightarrow> unit res" where
  "verify_provider providers methods type =
     (case filter (\<lambda>p. ep_token p = type \<and> \<not> ep_alias p) providers of
        [p] \<Rightarrow>
          (case ep_prototype p of
             None \<Rightarrow> Inl Contract_Definition
           | Some levels \<Rightarrow> each (\<lambda>m. throw_if (\<not> is_method levels m) Contract_Definition) methods)
      | _ \<Rightarrow> Inl Contract_Definition)"

definition new_pipeline :: "enhancers \<Rightarrow> enhancers \<Rightarrow> enhancer_provider list \<Rightarrow> enhancers res" where
  "new_pipeline owner local' providers =
     (let p = \<lparr>en_guards = en_guards owner @ en_guards local', en_pipes = en_pipes owner @ en_pipes local',
         en_interceptors = en_interceptors owner @ en_interceptors local',
         en_filters = en_filters local' @ en_filters owner\<rparr> in
      rbind (each (verify_provider providers [''canActivate'']) (en_guards p)) (\<lambda>_.
      rbind (each (verify_provider providers [''transform'']) (en_pipes p)) (\<lambda>_.
      rbind (each (verify_provider providers [''intercept'']) (en_interceptors p)) (\<lambda>_.
      rbind (each (verify_provider providers [''supports'', ''catch'']) (en_filters p)) (\<lambda>_.
      Inr p)))))"

subsection \<open>Runs\<close>

datatype pipe_event =
    Ran_Guard nat "jsval res"
  | Ran_Pipe nat
  | Entered nat
  | Handled jsval
  | Ran_Filter nat

text \<open>\<open>ps_payload\<close> is the payload of the current execution context.\<close>

record pipe_state =
  ps_checks :: nat
  ps_payload :: jsval
  ps_log :: "pipe_event list"

type_synonym 'a act = "pipe_state \<Rightarrow> 'a res \<times> pipe_state"

definition act_bind :: "'a act \<Rightarrow> ('a \<Rightarrow> 'b act) \<Rightarrow> 'b act" where
  "act_bind m k s = (case m s of (Inl e, s') \<Rightarrow> (Inl e, s') | (Inr x, s') \<Rightarrow> k x s')"

definition act_catch :: "'a act \<Rightarrow> (exn \<Rightarrow> 'a act) \<Rightarrow> 'a act" where
  "act_catch m h s = (case m s of (Inl e, s') \<Rightarrow> h e s' | (Inr x, s') \<Rightarrow> (Inr x, s'))"

definition act_of :: "'a res \<Rightarrow> 'a act" where
  "act_of r s = (r, s)"

fun act_each :: "('x \<Rightarrow> unit act) \<Rightarrow> 'x list \<Rightarrow> unit act" where
  "act_each f [] = act_of (Inr ())"
| "act_each f (x # xs) = act_bind (f x) (\<lambda>_. act_each f xs)"

datatype interceptor_run =
    Finish nat "jsval res"
  | Await_Next "jsval res \<Rightarrow> interceptor_run"
  | Fork_Next interceptor_run

text \<open>
  \<open>Finish late r\<close>: the interceptor settles with \<open>r\<close>, and calls \<open>next\<close> \<open>late\<close> more times while the run
  still waits for the continuation it started.
\<close>

record pipe_env =
  pe_aborted :: "nat \<Rightarrow> bool"
  pe_reason :: exn
  pe_resolve :: "nat \<Rightarrow> pipe_state \<Rightarrow> unit res"
  pe_guard :: "nat \<Rightarrow> pipe_state \<Rightarrow> jsval res"
  pe_pipe :: "nat \<Rightarrow> pipe_state \<Rightarrow> jsval res"
  pe_intercept :: "nat \<Rightarrow> pipe_state \<Rightarrow> interceptor_run"
  pe_handler :: "jsval \<Rightarrow> pipe_state \<Rightarrow> jsval res"
  pe_supports :: "nat \<Rightarrow> exn \<Rightarrow> pipe_state \<Rightarrow> jsval res"
  pe_catch :: "nat \<Rightarrow> exn \<Rightarrow> pipe_state \<Rightarrow> jsval res"

definition check_abort :: "pipe_env \<Rightarrow> unit act" where
  "check_abort env s =
     (if pe_aborted env (ps_checks s) then Inl (pe_reason env) else Inr (), s\<lparr>ps_checks := Suc (ps_checks s)\<rparr>)"

definition resolve_enhancer :: "pipe_env \<Rightarrow> nat \<Rightarrow> unit act" where
  "resolve_enhancer env t s = (pe_resolve env t s, s)"

definition logged :: "pipe_event \<Rightarrow> pipe_state \<Rightarrow> pipe_state" where
  "logged ev s = s\<lparr>ps_log := ps_log s @ [ev]\<rparr>"

text \<open>The opening of every round: the signal, the provider, the signal again.\<close>

definition enter_enhancer :: "pipe_env \<Rightarrow> nat \<Rightarrow> unit act" where
  "enter_enhancer env t =
     act_bind (check_abort env) (\<lambda>_. act_bind (resolve_enhancer env t) (\<lambda>_. check_abort env))"

definition run_guard :: "pipe_env \<Rightarrow> nat \<Rightarrow> unit act" where
  "run_guard env t = act_bind (enter_enhancer env t) (\<lambda>_ s.
     let accepted = pe_guard env t s in
     (rbind accepted (\<lambda>v. if v = VBool False then Inl Guard_Rejected
        else if v \<noteq> VBool True then Inl Contract_Definition else Inr ()),
      logged (Ran_Guard t accepted) s))"

definition run_pipe :: "pipe_env \<Rightarrow> value_schema \<Rightarrow> nat \<Rightarrow> unit act" where
  "run_pipe env schema t = act_bind (enter_enhancer env t) (\<lambda>_ s.
     case rbind (pe_pipe env t s) (\<lambda>transformed.
            rbind (encode_schema schema transformed) (\<lambda>text. decode_schema schema (Some text))) of
       Inl e \<Rightarrow> (Inl e, logged (Ran_Pipe t) s)
     | Inr decoded \<Rightarrow> (Inr (), (logged (Ran_Pipe t) s)\<lparr>ps_payload := decoded\<rparr>))"

text \<open>
  The single-use continuation: \<open>used\<close> and \<open>violated\<close> are the closure's \<open>admitted\<close> and \<open>violation\<close>. A
  second call is refused and recorded, whatever the interceptor makes of the refusal.
\<close>

primrec run_interceptor :: "interceptor_run \<Rightarrow> jsval act \<Rightarrow> bool \<Rightarrow> bool \<Rightarrow> pipe_state
    \<Rightarrow> (jsval res \<times> bool) \<times> pipe_state" where
  "run_interceptor (Finish late r) dispatch used violated s = ((r, violated \<or> 0 < late), s)"
| "run_interceptor (Await_Next k) dispatch used violated s =
     (if used then run_interceptor (k (Inl Contract_Definition)) dispatch True True s
      else case dispatch s of (r, s') \<Rightarrow> run_interceptor (k r) dispatch True violated s')"
| "run_interceptor (Fork_Next p) dispatch used violated s =
     (if used then run_interceptor p dispatch True True s
      else case dispatch s of (_, s') \<Rightarrow> run_interceptor p dispatch True violated s')"

definition invoke_interceptor :: "interceptor_run \<Rightarrow> jsval act \<Rightarrow> jsval act" where
  "invoke_interceptor p dispatch s =
     (case run_interceptor p dispatch False False s of
        ((r, violated), s') \<Rightarrow>
          (rbind r (\<lambda>v. if violated then Inl Contract_Definition else Inr v), s'))"

fun dispatch :: "pipe_env \<Rightarrow> nat list \<Rightarrow> jsval act" where
  "dispatch env [] = act_bind (check_abort env) (\<lambda>_ s.
     (pe_handler env (ps_payload s) s, logged (Handled (ps_payload s)) s))"
| "dispatch env (t # ts) = act_bind (enter_enhancer env t) (\<lambda>_ s.
     invoke_interceptor (pe_intercept env t s) (dispatch env ts) (logged (Entered t) s))"

fun run_filters :: "pipe_env \<Rightarrow> exn \<Rightarrow> nat list \<Rightarrow> jsval act" where
  "run_filters env cause [] = act_of (Inl cause)"
| "run_filters env cause (t # ts) =
     act_bind (resolve_enhancer env t) (\<lambda>_.
     act_bind (check_abort env) (\<lambda>_.
     act_bind (\<lambda>s. (pe_supports env t cause s, logged (Ran_Filter t) s)) (\<lambda>accepted.
     act_bind (check_abort env) (\<lambda>_ s.
     if accepted = VBool True then (pe_catch env t cause s, s)
     else if accepted \<noteq> VBool False then (Inl Contract_Definition, s)
     else run_filters env cause ts s))))"

definition pipeline_body :: "pipe_env \<Rightarrow> enhancers \<Rightarrow> value_schema \<Rightarrow> jsval act" where
  "pipeline_body env p schema =
     act_bind (act_each (run_guard env) (en_guards p)) (\<lambda>_.
     act_bind (act_each (run_pipe env schema) (en_pipes p)) (\<lambda>_.
     dispatch env (en_interceptors p)))"

definition pipeline_run :: "pipe_env \<Rightarrow> enhancers \<Rightarrow> value_schema \<Rightarrow> jsval act" where
  "pipeline_run env p schema =
     act_bind (check_abort env) (\<lambda>_.
     act_catch (pipeline_body env p schema) (\<lambda>cause.
       act_bind (check_abort env) (\<lambda>_. run_filters env cause (en_filters p))))"

definition new_run :: "jsval \<Rightarrow> pipe_state" where
  "new_run payload = \<lparr>ps_checks = 0, ps_payload = payload, ps_log = []\<rparr>"

subsection \<open>Properties\<close>

lemma act_bindE:
  assumes "act_bind m k s = (out, s')"
  obtains (failed) e where "m s = (Inl e, s')" "out = Inl e"
  | (passed) x t where "m s = (Inr x, t)" "k x t = (out, s')"
proof (cases "m s")
  case (Pair r t)
  with assms failed passed show thesis by (cases r) (auto simp: act_bind_def)
qed

fun is_handled :: "pipe_event \<Rightarrow> bool" where
  "is_handled (Handled v) = True"
| "is_handled _ = False"

fun is_entered :: "pipe_event \<Rightarrow> bool" where
  "is_entered (Entered t) = True"
| "is_entered _ = False"

fun is_filtered :: "pipe_event \<Rightarrow> bool" where
  "is_filtered (Ran_Filter t) = True"
| "is_filtered _ = False"

text \<open>A step that keeps the payload and appends events of one kind.\<close>

definition appends :: "(pipe_event list \<Rightarrow> bool) \<Rightarrow> pipe_state \<Rightarrow> pipe_state \<Rightarrow> bool" where
  "appends P s s' \<longleftrightarrow> ps_payload s' = ps_payload s \<and> (\<exists>new. ps_log s' = ps_log s @ new \<and> P new)"

lemma enter_enhancer_same:
  "enter_enhancer env t s = (r, s') \<Longrightarrow> ps_log s' = ps_log s \<and> ps_payload s' = ps_payload s"
  by (auto simp: enter_enhancer_def check_abort_def resolve_enhancer_def elim!: act_bindE)

lemma run_interceptor_used:
  "snd (run_interceptor p d True violated s) = s"
  by (induction p arbitrary: violated) simp_all

text \<open>Whatever an interceptor does, the continuation runs once or not at all.\<close>

lemma run_interceptor_once:
  "snd (run_interceptor p d False violated s) \<in> {s, snd (d s)}"
proof (cases p)
  case (Await_Next k)
  then show ?thesis by (cases "d s") (simp add: run_interceptor_used)
next
  case (Fork_Next q)
  then show ?thesis by (cases "d s") (simp add: run_interceptor_used)
qed simp

lemma invoke_interceptor_once:
  "invoke_interceptor p d s = (r, s') \<Longrightarrow> s' = s \<or> s' = snd (d s)"
  using run_interceptor_once[of p d False s] by (auto simp: invoke_interceptor_def split: prod.splits)

definition dispatched :: "nat \<Rightarrow> jsval \<Rightarrow> pipe_event list \<Rightarrow> bool" where
  "dispatched n payload evs \<longleftrightarrow>
     length (filter is_handled evs) \<le> 1 \<and> length (filter is_entered evs) \<le> n
     \<and> (\<forall>ev\<in>set evs. is_entered ev \<or> ev = Handled payload)"

lemma dispatch_appends:
  "dispatch env ts s = (r, s') \<Longrightarrow> appends (dispatched (length ts) (ps_payload s)) s s'"
proof (induction ts arbitrary: s r s')
  case Nil
  then show ?case
    by (auto simp: check_abort_def appends_def dispatched_def logged_def elim!: act_bindE)
next
  case (Cons t ts)
  then have "act_bind (enter_enhancer env t) (\<lambda>_ s.
     invoke_interceptor (pe_intercept env t s) (dispatch env ts) (logged (Entered t) s)) s = (r, s')" by simp
  then show ?case
  proof (cases rule: act_bindE)
    case (failed e)
    with enter_enhancer_same[OF failed(1)] show ?thesis by (auto simp: appends_def dispatched_def)
  next
    case (passed x u)
    let ?v = "logged (Entered t) u"
    note same = enter_enhancer_same[OF passed(1)]
    obtain r2 v' where v': "dispatch env ts ?v = (r2, v')" by fastforce
    from invoke_interceptor_once[OF passed(2)] v' consider "s' = ?v" | "s' = v'" by auto
    then show ?thesis
    proof cases
      case 1
      with same show ?thesis by (auto simp: appends_def dispatched_def logged_def)
    next
      case 2
      from Cons.IH[OF v'] obtain new where "ps_log s' = ps_log ?v @ new" "ps_payload s' = ps_payload ?v"
        "dispatched (length ts) (ps_payload ?v) new" using 2 by (auto simp: appends_def)
      with same show ?thesis
        by (auto simp: appends_def dispatched_def logged_def intro!: exI[of _ "Entered t # new"])
    qed
  qed
qed

lemma run_guard_log:
  assumes "run_guard env t s = (r, s')"
  shows "ps_payload s' = ps_payload s \<and> (ps_log s' = ps_log s \<and> \<not> is_ok r \<or>
    (\<exists>a. ps_log s' = ps_log s @ [Ran_Guard t a] \<and> (is_ok r \<longleftrightarrow> a = Inr (VBool True))))"
  using assms unfolding run_guard_def
proof (cases rule: act_bindE)
  case (failed e)
  with enter_enhancer_same[OF failed(1)] show ?thesis by simp
next
  case (passed x u)
  with enter_enhancer_same[OF passed(1)] show ?thesis
    by (cases "pe_guard env t u") (auto simp: Let_def logged_def split: if_splits)
qed

definition only_guards :: "pipe_event list \<Rightarrow> bool" where
  "only_guards evs \<longleftrightarrow> (\<forall>ev\<in>set evs. \<exists>t a. ev = Ran_Guard t a)"

lemma guards_log:
  "act_each (run_guard env) ts s = (r, s') \<Longrightarrow> appends (\<lambda>new. only_guards new
     \<and> (is_ok r \<longrightarrow> new = map (\<lambda>t. Ran_Guard t (Inr (VBool True))) ts)) s s'"
proof (induction ts arbitrary: s)
  case Nil
  then show ?case by (simp add: act_of_def appends_def only_guards_def)
next
  case (Cons t ts)
  then have "act_bind (run_guard env t) (\<lambda>_. act_each (run_guard env) ts) s = (r, s')" by simp
  then show ?case
  proof (cases rule: act_bindE)
    case (failed e)
    with run_guard_log[OF failed(1)] show ?thesis by (auto simp: appends_def only_guards_def)
  next
    case (passed x u)
    from run_guard_log[OF passed(1)] have u: "ps_log u = ps_log s @ [Ran_Guard t (Inr (VBool True))]"
      "ps_payload u = ps_payload s" by auto
    from Cons.IH[OF passed(2)] obtain new where "ps_log s' = ps_log u @ new" "ps_payload s' = ps_payload u"
      "only_guards new" "is_ok r \<longrightarrow> new = map (\<lambda>t. Ran_Guard t (Inr (VBool True))) ts"
      by (auto simp: appends_def)
    with u show ?thesis
      by (auto simp: appends_def only_guards_def intro!: exI[of _ "Ran_Guard t (Inr (VBool True)) # new"])
  qed
qed

text \<open>A payload is validated when a decoding by the job's schema gave it.\<close>

definition decoded_by :: "value_schema \<Rightarrow> jsval \<Rightarrow> bool" where
  "decoded_by schema v \<longleftrightarrow> (\<exists>w text. encode_schema schema w = Inr text \<and> decode_schema schema (Some text) = Inr v)"

definition piped :: "value_schema \<Rightarrow> nat list \<Rightarrow> pipe_state \<Rightarrow> pipe_state \<Rightarrow> bool" where
  "piped schema ts s s' \<longleftrightarrow> ps_log s' = ps_log s @ map Ran_Pipe ts
     \<and> (if ts = [] then ps_payload s' = ps_payload s else decoded_by schema (ps_payload s'))"

definition only_pipes :: "pipe_event list \<Rightarrow> bool" where
  "only_pipes evs \<longleftrightarrow> (\<forall>ev\<in>set evs. \<exists>t. ev = Ran_Pipe t)"

lemma run_pipe_log:
  assumes "run_pipe env schema t s = (r, s')"
  shows "(\<exists>new. ps_log s' = ps_log s @ new \<and> only_pipes new) \<and> (is_ok r \<longrightarrow> piped schema [t] s s')"
  using assms unfolding run_pipe_def
proof (cases rule: act_bindE)
  case (failed e)
  with enter_enhancer_same[OF failed(1)] show ?thesis by (simp add: only_pipes_def)
next
  case (passed x u)
  note same = enter_enhancer_same[OF passed(1)]
  let ?m = "rbind (pe_pipe env t u) (\<lambda>transformed.
            rbind (encode_schema schema transformed) (\<lambda>text. decode_schema schema (Some text)))"
  show ?thesis
  proof (cases ?m)
    case (Inl e)
    with passed same show ?thesis by (auto simp: logged_def only_pipes_def)
  next
    case (Inr decoded)
    then have "decoded_by schema decoded" by (auto simp: decoded_by_def elim!: rbind_InrE)
    with Inr passed same show ?thesis by (auto simp: logged_def only_pipes_def piped_def)
  qed
qed

lemma pipes_log:
  "act_each (run_pipe env schema) ts s = (r, s') \<Longrightarrow>
     (\<exists>new. ps_log s' = ps_log s @ new \<and> only_pipes new) \<and> (is_ok r \<longrightarrow> piped schema ts s s')"
proof (induction ts arbitrary: s)
  case Nil
  then show ?case by (auto simp: act_of_def only_pipes_def piped_def)
next
  case (Cons t ts)
  then have "act_bind (run_pipe env schema t) (\<lambda>_. act_each (run_pipe env schema) ts) s = (r, s')" by simp
  then show ?case
  proof (cases rule: act_bindE)
    case (failed e)
    with run_pipe_log[OF failed(1)] show ?thesis by simp
  next
    case (passed x u)
    from run_pipe_log[OF passed(1)] obtain n1 where
      u: "piped schema [t] s u" "ps_log u = ps_log s @ n1" "only_pipes n1" by auto
    from Cons.IH[OF passed(2)] obtain n2 where n2: "ps_log s' = ps_log u @ n2" "only_pipes n2" by auto
    have "\<exists>new. ps_log s' = ps_log s @ new \<and> only_pipes new"
      using u n2 by (intro exI[of _ "n1 @ n2"]) (auto simp: only_pipes_def)
    moreover have "is_ok r \<longrightarrow> piped schema (t # ts) s s'"
      using Cons.IH[OF passed(2)] u(1) by (auto simp: piped_def split: if_splits)
    ultimately show ?thesis by blast
  qed
qed

lemma filters_log:
  "run_filters env cause ts s = (r, s') \<Longrightarrow> appends (list_all is_filtered) s s'"
proof (induction ts arbitrary: s)
  case Nil
  then show ?case by (simp add: act_of_def appends_def)
next
  case (Cons t ts)
  let ?u = "s\<lparr>ps_log := ps_log s @ [Ran_Filter t], ps_checks := Suc (Suc (ps_checks s))\<rparr>"
  from Cons.prems consider (none) "ps_log s' = ps_log s" "ps_payload s' = ps_payload s"
    | (one) "ps_log s' = ps_log s @ [Ran_Filter t]" "ps_payload s' = ps_payload s"
    | (rest) "run_filters env cause ts ?u = (r, s')"
    by (auto simp: resolve_enhancer_def check_abort_def logged_def elim!: act_bindE split: if_splits)
  then show ?case
  proof cases
    case rest
    from Cons.IH[OF rest] show ?thesis by (fastforce simp: appends_def)
  qed (auto simp: appends_def)
qed

text \<open>
  C39. The handler of an invocation runs at most once, whatever interceptors and filters do: a second
  \<open>next\<close>, a \<open>next\<close> after the interceptor has settled and a retry after a failure never reach it. When
  it runs, every guard was asked before, in order, and answered \<open>true\<close>, every pipe ran, each
  interceptor was entered at most once, and the handler's payload is the delivered one if there are no
  pipes and else a value that the job's schema has encoded and decoded again.
\<close>

theorem pipeline_handler_once:
  assumes "pipeline_run env p schema (new_run payload) = (out, s)"
  shows "length (filter is_handled (ps_log s)) \<le> 1
    \<and> length (filter is_entered (ps_log s)) \<le> length (en_interceptors p)
    \<and> (\<forall>v. Handled v \<in> set (ps_log s) \<longrightarrow>
         (\<exists>later. ps_log s = map (\<lambda>t. Ran_Guard t (Inr (VBool True))) (en_guards p)
             @ map Ran_Pipe (en_pipes p) @ later)
         \<and> (if en_pipes p = [] then v = payload else decoded_by schema v))"
proof -
  define guarded where "guarded = map (\<lambda>t. Ran_Guard t (Inr (VBool True))) (en_guards p)"
  define good where "good log \<longleftrightarrow> length (filter is_handled log) \<le> 1
    \<and> length (filter is_entered log) \<le> length (en_interceptors p)
    \<and> (\<forall>v. Handled v \<in> set log \<longrightarrow> (\<exists>later. log = guarded @ map Ran_Pipe (en_pipes p) @ later)
         \<and> (if en_pipes p = [] then v = payload else decoded_by schema v))" for log
  have quiet: "good log" if "\<And>ev. ev \<in> set log \<Longrightarrow> \<not> is_handled ev \<and> \<not> is_entered ev" for log
  proof -
    from that have "filter is_handled log = []" "filter is_entered log = []" by (auto simp: filter_empty_conv)
    moreover have "Handled v \<notin> set log" for v using that[of "Handled v"] by auto
    ultimately show ?thesis by (simp add: good_def)
  qed
  have extend: "good (log @ new)" if "good log" and "list_all is_filtered new" for log new
  proof -
    have "\<not> is_handled ev \<and> \<not> is_entered ev" if "ev \<in> set new" for ev
    proof -
      from that \<open>list_all is_filtered new\<close> have "is_filtered ev" by (simp add: list_all_iff)
      then show ?thesis by (cases ev) simp_all
    qed
    then have "filter is_handled new = []" "filter is_entered new = []" "\<And>v. Handled v \<notin> set new"
      by (auto simp: filter_empty_conv) (metis is_handled.simps(1))
    with that(1) show ?thesis by (auto simp: good_def)
  qed
  have body: "good (ps_log t)" if "pipeline_body env p schema u = (r, t)" and u: "u = (new_run payload)\<lparr>ps_checks := Suc 0\<rparr>" for r t u
    using that(1) unfolding pipeline_body_def
  proof (cases rule: act_bindE)
    case (failed e)
    from guards_log[OF failed(1)] u show ?thesis
      by (intro quiet) (fastforce simp: appends_def only_guards_def new_run_def)
  next
    case guards: (passed x g)
    from guards_log[OF guards(1)] u have g: "ps_log g = guarded" "ps_payload g = payload"
      by (auto simp: appends_def new_run_def guarded_def)
    from guards(2) show ?thesis
    proof (cases rule: act_bindE)
      case (failed e)
      from pipes_log[OF failed(1)] g obtain new where "ps_log t = guarded @ new" "only_pipes new" by auto
      then show ?thesis by (intro quiet) (auto simp: only_pipes_def guarded_def)
    next
      case (passed y h)
      from pipes_log[OF passed(1)] have h: "ps_log h = guarded @ map Ran_Pipe (en_pipes p)"
        "if en_pipes p = [] then ps_payload h = payload else decoded_by schema (ps_payload h)"
        using g by (auto simp: piped_def split: if_splits)
      from dispatch_appends[OF passed(2)] obtain new where
        new: "ps_log t = ps_log h @ new" "dispatched (length (en_interceptors p)) (ps_payload h) new"
        by (auto simp: appends_def)
      have "filter is_handled (ps_log h) = []" "filter is_entered (ps_log h) = []" "Handled v \<notin> set (ps_log h)" for v
        using h(1) by (auto simp: guarded_def filter_empty_conv)
      with new h show ?thesis by (auto simp: good_def dispatched_def)
    qed
  qed
  have "good (ps_log s)"
    using assms unfolding pipeline_run_def
  proof (cases rule: act_bindE)
    case (failed e)
    then show ?thesis by (intro quiet) (auto simp: check_abort_def new_run_def)
  next
    case (passed x u)
    then have u: "u = (new_run payload)\<lparr>ps_checks := Suc 0\<rparr>" by (auto simp: check_abort_def new_run_def)
    obtain r t where t: "pipeline_body env p schema u = (r, t)" by fastforce
    note good = body[OF t u]
    show ?thesis
    proof (cases r)
      case (Inr v)
      with passed(2) t good show ?thesis by (simp add: act_catch_def)
    next
      case (Inl e)
      with passed(2) t have "act_bind (check_abort env) (\<lambda>_. run_filters env e (en_filters p)) t = (out, s)"
        by (simp add: act_catch_def)
      then show ?thesis
      proof (cases rule: act_bindE)
        case (failed e')
        then have "ps_log s = ps_log t" by (auto simp: check_abort_def)
        with good show ?thesis by simp
      next
        case (passed y v)
        then have "ps_log v = ps_log t" by (auto simp: check_abort_def)
        with filters_log[OF passed(2)] good extend show ?thesis by (auto simp: appends_def)
      qed
    qed
  qed
  then show ?thesis by (simp add: good_def guarded_def)
qed

text \<open>An interceptor that calls \<open>next\<close> again when it fails, around a handler that fails.\<close>

definition retrying :: interceptor_run where
  "retrying = Await_Next (\<lambda>r. if is_ok r then Finish 0 r else Await_Next (Finish 0))"

definition demo_pipe_env :: pipe_env where
  "demo_pipe_env = \<lparr>pe_aborted = (\<lambda>_. False), pe_reason = Native_Error 0, pe_resolve = (\<lambda>_ _. Inr ()),
     pe_guard = (\<lambda>_ _. Inr (VBool True)), pe_pipe = (\<lambda>_ s. Inr (ps_payload s)),
     pe_intercept = (\<lambda>_ _. retrying), pe_handler = (\<lambda>_ _. Inl (Native_Error 1)),
     pe_supports = (\<lambda>_ _ _. Inr (VBool True)), pe_catch = (\<lambda>_ _ _. Inr VNull)\<rparr>"

theorem pipeline_handler_once_witness:
  "\<exists>s. pipeline_run demo_pipe_env \<lparr>en_guards = [1], en_pipes = [], en_interceptors = [2], en_filters = [3]\<rparr>
       tag_schema (new_run (VStr ''x'')) = (Inr VNull, s)
     \<and> ps_log s = [Ran_Guard 1 (Inr (VBool True)), Entered 2, Handled (VStr ''x''), Ran_Filter 3]
     \<and> length (filter is_handled (ps_log s)) \<le> 1"
proof -
  let ?p = "\<lparr>en_guards = [1], en_pipes = [], en_interceptors = [2], en_filters = [3]\<rparr>"
  obtain out s where run: "pipeline_run demo_pipe_env ?p tag_schema (new_run (VStr ''x'')) = (out, s)"
    by fastforce
  moreover have "out = Inr VNull"
    "ps_log s = [Ran_Guard 1 (Inr (VBool True)), Entered 2, Handled (VStr ''x''), Ran_Filter 3]"
    using run
    by (auto simp: pipeline_run_def pipeline_body_def act_bind_def act_catch_def act_of_def check_abort_def
        enter_enhancer_def resolve_enhancer_def run_guard_def logged_def invoke_interceptor_def
        retrying_def demo_pipe_env_def new_run_def Let_def)
  ultimately show ?thesis using pipeline_handler_once[OF run] by blast
qed

end
