(* ===== verification/Mq_Workers.thy ===== *)
theory Mq_Workers
  imports Mq_Pipeline Mq_Flow_Results
begin

text \<open>
  \<open>src/engine/worker-discovery.ts\<close> and \<open>src/engine/worker-plan.ts\<close>: from the providers of an
  application to the plans of its workers, and what one invocation of a handler does. The module
  container, the registered jobs, the metadata Nest itself keeps on a class or a function, and the
  number of a function's parameters are a record of parameters.
\<close>

subsection \<open>Invocations\<close>

record worker_provider =
  wv_alias :: bool
  wv_class :: "nat option"
  wv_class_chain :: "nat list"
  wv_hierarchy :: "nat list"
  wv_levels :: object_levels
  wv_scope :: provider_scope
  wv_static :: bool

record worker_world =
  ww_workers :: "nat \<rightharpoonup> worker_options"
  ww_processes :: process_store
  ww_own :: "nat \<Rightarrow> string list"
  ww_parameters :: parameter_store
  ww_module :: "nat \<Rightarrow> queue_object res"
  ww_entries :: "nat \<rightharpoonup> flow_entry"
  ww_nest :: "nat \<Rightarrow> bool"
  ww_arity :: "nat \<Rightarrow> nat"
  ww_enhancers :: enhancer_store
  ww_enhancer_providers :: "enhancer_provider list"

definition reject_enhancers :: "worker_world \<Rightarrow> nat \<Rightarrow> unit res" where
  "reject_enhancers w target = throw_if (ww_nest w target) Contract_Definition"

datatype invocation_phase = Process_Phase | Fan_Out_Phase | Collect_Phase

record invocation =
  in_entry :: flow_entry
  in_function :: nat
  in_kinds :: "job_parameter list"
  in_pipeline :: enhancers
  in_scoped :: bool

definition parameter_count :: "nat \<Rightarrow> (nat \<times> job_parameter) list \<Rightarrow> nat" where
  "parameter_count arity parameters = foldr (\<lambda>(i, _) n. max (Suc i) n) parameters arity"

definition parameter_kind :: "invocation_phase \<Rightarrow> (nat \<times> job_parameter) list \<Rightarrow> nat \<Rightarrow> job_parameter res" where
  "parameter_kind phase parameters i =
     rbind (need (map_of parameters i) Contract_Definition) (\<lambda>kind.
     rbind (throw_if (kind = Children_Parameter \<and> phase \<noteq> Collect_Phase) flow_definition_error) (\<lambda>_.
     Inr kind))"

definition invocation_for :: "worker_world \<Rightarrow> worker_provider \<Rightarrow> string \<Rightarrow> flow_entry \<Rightarrow> invocation_phase
    \<Rightarrow> invocation res" where
  "invocation_for w p method entry phase =
     rbind (need (wv_class p) Contract_Definition) (\<lambda>target.
     case method_descriptor (wv_levels p) method of
       Some (Data_Function handler) \<Rightarrow>
         rbind (reject_enhancers w target) (\<lambda>_.
         rbind (reject_enhancers w handler) (\<lambda>_.
         let parameters = parameter_metadata (ww_own w) (ww_parameters w) (wv_hierarchy p) method in
         rbind (collect (parameter_kind phase parameters)
           [0..<parameter_count (ww_arity w handler) parameters]) (\<lambda>kinds.
         rbind (new_pipeline (enhancer_metadata (ww_enhancers w) (wv_class_chain p))
           (enhancer_metadata (ww_enhancers w) [handler]) (ww_enhancer_providers w)) (\<lambda>pipeline.
         Inr \<lparr>in_entry = entry, in_function = handler, in_kinds = kinds, in_pipeline = pipeline,
              in_scoped = wv_scope p = Request_Scope \<or> wv_scope p = Transient_Scope \<or> \<not> wv_static p\<rparr>))))
     | _ \<Rightarrow> Inl Contract_Definition)"

text \<open>
  One invocation: \<open>found\<close> is what resolving the worker's instance gives (\<open>Inr False\<close>: nothing), \<open>call\<close>
  the handler applied to its arguments.
\<close>

datatype handler_argument = Payload_Argument jsval | Context_Argument | Children_Argument

definition argument_of :: "jsval \<Rightarrow> job_parameter \<Rightarrow> handler_argument" where
  "argument_of payload kind =
     (case kind of
        Payload_Parameter \<Rightarrow> Payload_Argument payload
      | Context_Parameter \<Rightarrow> Context_Argument
      | Children_Parameter \<Rightarrow> Children_Argument)"

definition invoke_worker :: "pipe_env \<Rightarrow> (handler_argument list \<Rightarrow> pipe_state \<Rightarrow> jsval res) \<Rightarrow> invocation
    \<Rightarrow> (string \<times> string) list \<Rightarrow> bool res \<Rightarrow> jsval \<Rightarrow> jsval res \<times> pipe_state" where
  "invoke_worker env call run metadata found payload =
     (case rbind (assert_retry_reference (fe_registered (in_entry run)) metadata) (\<lambda>_.
             rbind found (\<lambda>i. throw_if (\<not> i) Contract_Definition)) of
        Inl e \<Rightarrow> (Inl e, new_run payload)
      | Inr _ \<Rightarrow>
          pipeline_run (env\<lparr>pe_handler := (\<lambda>v s. call (map (argument_of v) (in_kinds run)) s)\<rparr>)
            (in_pipeline run) (jc_payload (rj_contract (fe_registered (in_entry run)))) (new_run payload))"

text \<open>What the engine's handler gets: a value, or a typed failure that the job declares.\<close>

definition worker_handle :: "registered_job \<Rightarrow> jsval res \<Rightarrow> (exn + jsval) res" where
  "worker_handle job result = phase_outcome job result"

subsection \<open>Plans\<close>

record worker_invocation =
  wi_entry :: flow_entry
  wi_concurrency :: "jsnum option"
  wi_invocation :: invocation

datatype flow_registration = Defined_Flow compiled_flow | Owned_Flow compiled_flow invocation invocation

record worker_plan =
  wp_options :: worker_options
  wp_invocations :: "worker_invocation list"
  wp_flows :: "flow_registration list"
  wp_recovery_ids :: "string list"

definition add_handler :: "string list \<Rightarrow> job_identity \<Rightarrow> string list res" where
  "add_handler keys identity =
     rbind (throw_if (handler_key identity \<in> set keys) Contract_Definition) (\<lambda>_.
     Inr (handler_key identity # keys))"

definition entry_identity :: "flow_entry \<Rightarrow> job_identity" where
  "entry_identity e = rj_identity (fe_registered e)"

fun owned_parent :: "flow_registration \<Rightarrow> job_identity list" where
  "owned_parent (Defined_Flow f) = []"
| "owned_parent (Owned_Flow f fan_out collect') = [entry_identity (cw_parent f)]"

definition plan_identities :: "worker_invocation list \<Rightarrow> flow_registration list \<Rightarrow> job_identity list" where
  "plan_identities invocations flows =
     map (entry_identity \<circ> wi_entry) invocations @ concat (map owned_parent flows)"

definition compile_worker :: "worker_options \<Rightarrow> worker_invocation list \<Rightarrow> flow_registration list
    \<Rightarrow> worker_plan res" where
  "compile_worker o' invocations flows =
     rbind (loop add_handler [] (plan_identities invocations flows)) (\<lambda>_.
     Inr \<lparr>wp_options = o', wp_invocations = invocations, wp_flows = flows, wp_recovery_ids = []\<rparr>)"

fun registered_flow :: "flow_registration \<Rightarrow> compiled_flow" where
  "registered_flow (Defined_Flow f) = f"
| "registered_flow (Owned_Flow f fan_out collect') = f"

text \<open>
  \<open>tag\<close> is the service tag of a connection's operation store; a reader answers the ids of the flows
  with the given names that have to be swept.
\<close>

definition flow_names_of :: "(string \<Rightarrow> string) \<Rightarrow> flow_registration list \<Rightarrow> string \<Rightarrow> string list" where
  "flow_names_of tag flows connection =
     map flow_title (filter (\<lambda>f. tag (cj_connection (fe_compiled (cw_parent f))) = tag connection)
       (map registered_flow flows))"

definition recover_plan :: "(string \<Rightarrow> string) \<Rightarrow> (string \<times> (string list \<Rightarrow> string list res)) list
    \<Rightarrow> worker_plan \<Rightarrow> worker_plan res" where
  "recover_plan tag readers plan =
     rbind (loop (\<lambda>ids (connection, reader).
         rbind (reader (flow_names_of tag (wp_flows plan) connection)) (\<lambda>found. Inr (ids @ found)))
       [] readers) (\<lambda>ids.
     Inr (plan\<lparr>wp_recovery_ids := dedup ids\<rparr>))"

subsection \<open>Discovery\<close>

record method_scan =
  ms_retries :: "retry_policies option"
  ms_processed :: "string list"
  ms_invocations :: "worker_invocation list"

definition require_retry :: "retry_policies option \<Rightarrow> registered_job \<Rightarrow> retry_policies option res" where
  "require_retry retries job =
     (case retries of
        None \<Rightarrow> Inr None
      | Some policies \<Rightarrow> rbind (require_policy policies job) (\<lambda>(_, policies'). Inr (Some policies')))"

definition process_entry :: "worker_world \<Rightarrow> process_metadata \<Rightarrow> flow_entry res" where
  "process_entry w metadata =
     rbind (catch_res (ww_module w (pm_queue metadata)) (\<lambda>_. Inl Contract_Definition)) (\<lambda>queue.
     need (case map_of (ob_fields queue) (PString (pm_property metadata)) of
             Some (Contract_Field contract _) \<Rightarrow> ww_entries w contract
           | _ \<Rightarrow> None) Contract_Definition)"

definition discover_method :: "worker_world \<Rightarrow> compiled_flow list \<Rightarrow> worker_provider \<Rightarrow> method_scan
    \<Rightarrow> string \<times> process_metadata \<Rightarrow> method_scan res" where
  "discover_method w flows p s declared =
     (case declared of (method, metadata) \<Rightarrow>
        rbind (process_entry w metadata) (\<lambda>entry.
        rbind (throw_if (entry_key entry \<in> parent_key ` set flows) flow_definition_error) (\<lambda>_.
        rbind (throw_if (entry_key entry \<in> set (ms_processed s)) Contract_Definition) (\<lambda>_.
        rbind (require_retry (ms_retries s) (fe_registered entry)) (\<lambda>retries.
        rbind (invocation_for w p method entry Process_Phase) (\<lambda>run.
        Inr \<lparr>ms_retries = retries, ms_processed = entry_key entry # ms_processed s,
             ms_invocations = ms_invocations s @ [\<lparr>wi_entry = entry,
               wi_concurrency = pm_concurrency metadata, wi_invocation = run\<rparr>]\<rparr>))))))"

definition register_flow :: "worker_world \<Rightarrow> worker_provider \<Rightarrow> string \<Rightarrow> compiled_flow
    \<Rightarrow> flow_registration res" where
  "register_flow w p name f =
     (if cw_owner f \<noteq> name then Inr (Defined_Flow f)
      else rbind (invocation_for w p (cw_fan_out f) (cw_parent f) Fan_Out_Phase) (\<lambda>fan_out.
           rbind (invocation_for w p (cw_collect f) (cw_parent f) Collect_Phase) (\<lambda>collect'.
           Inr (Owned_Flow f fan_out collect'))))"

record worker_scan =
  wn_retries :: "retry_policies option"
  wn_names :: "string list"
  wn_processed :: "string list"
  wn_plans :: "worker_plan list"

definition declare_worker :: "worker_world \<Rightarrow> compiled_flow list \<Rightarrow> worker_provider \<Rightarrow> worker_options
    \<Rightarrow> (string \<times> process_metadata) list \<Rightarrow> worker_scan \<Rightarrow> worker_scan res" where
  "declare_worker w flows p o' methods s =
     rbind (throw_if (wk_name o' \<in> set (wn_names s)) Contract_Definition) (\<lambda>_.
     rbind (throw_if (methods = []) Contract_Definition) (\<lambda>_.
     rbind (loop (discover_method w flows p)
       \<lparr>ms_retries = wn_retries s, ms_processed = wn_processed s, ms_invocations = []\<rparr> methods) (\<lambda>m.
     rbind (loop (\<lambda>r f. require_retry r (fe_registered (cw_parent f))) (ms_retries m)
       (filter (\<lambda>f. cw_owner f = wk_name o') flows)) (\<lambda>retries.
     rbind (collect (register_flow w p (wk_name o')) flows) (\<lambda>registrations.
     rbind (compile_worker o' (ms_invocations m) registrations) (\<lambda>plan.
     Inr \<lparr>wn_retries = retries, wn_names = wk_name o' # wn_names s, wn_processed = ms_processed m,
          wn_plans = wn_plans s @ [plan]\<rparr>))))))"

definition discover_worker :: "worker_world \<Rightarrow> compiled_flow list \<Rightarrow> worker_scan \<Rightarrow> worker_provider
    \<Rightarrow> worker_scan res" where
  "discover_worker w flows s p =
     (if wv_alias p then Inr s
      else case wv_class p of
        None \<Rightarrow> Inr s
      | Some target \<Rightarrow>
          let methods = process_metadata_of (ww_processes w) (wv_hierarchy p) in
          (case worker_metadata (ww_workers w) target of
             None \<Rightarrow> rbind (throw_if (methods \<noteq> []) Contract_Definition) (\<lambda>_. Inr s)
           | Some o' \<Rightarrow> declare_worker w flows p o' methods s))"

definition discover_workers :: "worker_world \<Rightarrow> compiled_flow list \<Rightarrow> retry_policies option
    \<Rightarrow> worker_provider list \<Rightarrow> worker_plan list res" where
  "discover_workers w flows retries providers =
     rbind (loop (discover_worker w flows)
       \<lparr>wn_retries = retries, wn_names = [], wn_processed = [], wn_plans = []\<rparr> providers) (\<lambda>s.
     Inr (wn_plans s))"

subsection \<open>Properties\<close>

definition invocation_keys :: "worker_plan \<Rightarrow> string list" where
  "invocation_keys plan = map (entry_key \<circ> wi_entry) (wp_invocations plan)"

definition plan_name :: "worker_plan \<Rightarrow> string" where
  "plan_name plan = wk_name (wp_options plan)"

definition plan_ok :: "worker_plan \<Rightarrow> bool" where
  "plan_ok plan \<longleftrightarrow> wp_invocations plan \<noteq> []
     \<and> distinct (map handler_key (plan_identities (wp_invocations plan) (wp_flows plan)))"

lemma loop_add_handler:
  "loop add_handler keys ids = Inr keys' \<Longrightarrow> distinct keys \<Longrightarrow>
     keys' = rev (map handler_key ids) @ keys \<and> distinct keys'"
proof (induction ids arbitrary: keys)
  case (Cons i ids)
  then show ?case by (auto simp: add_handler_def throw_if_iff elim!: rbind_InrE)
qed simp

lemma compile_worker_ok:
  assumes "compile_worker o' invocations flows = Inr plan"
  shows "plan = \<lparr>wp_options = o', wp_invocations = invocations, wp_flows = flows, wp_recovery_ids = []\<rparr>
    \<and> distinct (map handler_key (plan_identities invocations flows))"
proof -
  from assms obtain keys where "loop add_handler [] (plan_identities invocations flows) = Inr keys"
    and p: "plan = \<lparr>wp_options = o', wp_invocations = invocations, wp_flows = flows, wp_recovery_ids = []\<rparr>"
    by (auto simp: compile_worker_def elim!: rbind_InrE)
  from loop_add_handler[OF this(1)] have "distinct (map handler_key (plan_identities invocations flows))"
    by (metis append_Nil2 distinct.simps(1) distinct_rev)
  with p show ?thesis by simp
qed

lemma discover_methods_ok:
  "loop (discover_method w flows p) s methods = Inr s' \<Longrightarrow>
     \<exists>new. ms_invocations s' = ms_invocations s @ new \<and> length new = length methods
       \<and> ms_processed s' = rev (map (entry_key \<circ> wi_entry) new) @ ms_processed s
       \<and> (distinct (ms_processed s) \<longrightarrow> distinct (ms_processed s'))
       \<and> (\<forall>i\<in>set new. entry_key (wi_entry i) \<notin> parent_key ` set flows)"
proof (induction methods arbitrary: s)
  case (Cons d methods)
  from Cons.prems obtain t where t: "discover_method w flows p s d = Inr t"
    and rest: "loop (discover_method w flows p) t methods = Inr s'" by (auto elim: rbind_InrE)
  from t obtain e i where e: "ms_invocations t = ms_invocations s @ [i]" "wi_entry i = e"
    "ms_processed t = entry_key e # ms_processed s" "entry_key e \<notin> set (ms_processed s)"
    "entry_key e \<notin> parent_key ` set flows"
    by (auto simp: discover_method_def throw_if_iff elim!: rbind_InrE split: prod.splits)
  from Cons.IH[OF rest] obtain new where new: "ms_invocations s' = ms_invocations t @ new"
    "length new = length methods" "ms_processed s' = rev (map (entry_key \<circ> wi_entry) new) @ ms_processed t"
    "distinct (ms_processed t) \<longrightarrow> distinct (ms_processed s')"
    "\<forall>i\<in>set new. entry_key (wi_entry i) \<notin> parent_key ` set flows" by blast
  from new(4) e have "distinct (ms_processed s) \<longrightarrow> distinct (ms_processed s')" by simp
  with e new(1-3,5) show ?case by (intro exI[of _ "i # new"]) simp
qed simp

definition worker_scan_ok :: "compiled_flow list \<Rightarrow> worker_scan \<Rightarrow> bool" where
  "worker_scan_ok flows s \<longleftrightarrow>
     rev (wn_names s) = map plan_name (wn_plans s) \<and> distinct (wn_names s)
     \<and> mset (wn_processed s) = mset (concat (map invocation_keys (wn_plans s)))
     \<and> distinct (wn_processed s)
     \<and> (\<forall>plan\<in>set (wn_plans s). plan_ok plan \<and> set (invocation_keys plan) \<inter> parent_key ` set flows = {})"

lemma declare_worker_ok:
  assumes "declare_worker w flows p o' methods s = Inr s'" and "worker_scan_ok flows s"
  shows "worker_scan_ok flows s'"
proof -
  from assms(1) obtain m retries registrations plan where
    new: "wk_name o' \<notin> set (wn_names s)" "methods \<noteq> []"
    and m: "loop (discover_method w flows p)
       \<lparr>ms_retries = wn_retries s, ms_processed = wn_processed s, ms_invocations = []\<rparr> methods = Inr m"
    and plan: "compile_worker o' (ms_invocations m) registrations = Inr plan"
    and s': "s' = \<lparr>wn_retries = retries, wn_names = wk_name o' # wn_names s, wn_processed = ms_processed m,
          wn_plans = wn_plans s @ [plan]\<rparr>"
    by (auto simp: declare_worker_def throw_if_iff elim!: rbind_InrE)
  from discover_methods_ok[OF m] obtain ivs where i: "ms_invocations m = ivs" "length ivs = length methods"
    "ms_processed m = rev (map (entry_key \<circ> wi_entry) ivs) @ wn_processed s"
    "distinct (wn_processed s) \<longrightarrow> distinct (ms_processed m)"
    "\<forall>i\<in>set ivs. entry_key (wi_entry i) \<notin> parent_key ` set flows" by auto
  from compile_worker_ok[OF plan] have pl: "wp_options plan = o'" "wp_invocations plan = ivs"
    "distinct (map handler_key (plan_identities (wp_invocations plan) (wp_flows plan)))"
    using i(1) by auto
  from i pl new(2) have "plan_ok plan" "set (invocation_keys plan) \<inter> parent_key ` set flows = {}"
    by (auto simp: plan_ok_def invocation_keys_def)
  moreover from i(4) assms(2) have "distinct (ms_processed m)" by (simp add: worker_scan_ok_def)
  moreover from i(3) pl assms(2) have "mset (ms_processed m) = mset (concat (map invocation_keys (wn_plans s)))
      + mset (invocation_keys plan)"
    by (simp add: worker_scan_ok_def invocation_keys_def)
  ultimately show ?thesis
    using assms(2) new(1) pl(1) s' by (auto simp: worker_scan_ok_def plan_name_def)
qed

lemma discover_worker_ok:
  assumes "discover_worker w flows s p = Inr s'" and "worker_scan_ok flows s"
  shows "worker_scan_ok flows s'"
  using assms
  by (auto simp: discover_worker_def Let_def throw_if_iff elim!: rbind_InrE
      intro: declare_worker_ok split: if_splits option.splits)

text \<open>
  C40. Discovered workers share nothing. Their names are distinct, every worker processes something, no
  job is processed twice in the whole application, no parent of a flow has a plain processor, and
  within one worker no two handlers, processors and flow parents together, agree in queue, name and
  version, which is all the engine's supervisor can tell them apart by.
\<close>

theorem discover_workers_exclusive:
  assumes "discover_workers w flows retries providers = Inr plans"
  shows "distinct (map plan_name plans) \<and> distinct (concat (map invocation_keys plans))
    \<and> (\<forall>plan\<in>set plans. plan_ok plan \<and> set (invocation_keys plan) \<inter> parent_key ` set flows = {})"
proof -
  from assms obtain s where l: "loop (discover_worker w flows)
       \<lparr>wn_retries = retries, wn_names = [], wn_processed = [], wn_plans = []\<rparr> providers = Inr s"
    and plans: "plans = wn_plans s"
    by (auto simp: discover_workers_def elim!: rbind_InrE)
  have "worker_scan_ok flows s"
    by (rule loop_invariant[OF l]) (simp add: worker_scan_ok_def, rule discover_worker_ok)
  then have s: "rev (wn_names s) = map plan_name plans" "distinct (wn_names s)"
    "mset (wn_processed s) = mset (concat (map invocation_keys plans))" "distinct (wn_processed s)"
    "\<forall>plan\<in>set plans. plan_ok plan \<and> set (invocation_keys plan) \<inter> parent_key ` set flows = {}"
    by (simp_all add: worker_scan_ok_def plans)
  from s(1,2) have "distinct (map plan_name plans)" by (metis distinct_rev)
  moreover from s(3,4) have "distinct (concat (map invocation_keys plans))"
    by (metis mset_eq_imp_distinct_iff)
  ultimately show ?thesis using s(5) by blast
qed

text \<open>The handlers of a plan are compiled jobs, and its flows those that were discovered.\<close>

definition plan_wired :: "worker_world \<Rightarrow> compiled_flow list \<Rightarrow> worker_plan \<Rightarrow> bool" where
  "plan_wired w flows plan \<longleftrightarrow> (\<forall>i\<in>set (wp_invocations plan). wi_entry i \<in> ran (ww_entries w))
     \<and> map registered_flow (wp_flows plan) = flows"

lemma discover_method_wired:
  "discover_method w flows p s d = Inr s' \<Longrightarrow> \<forall>i\<in>set (ms_invocations s). wi_entry i \<in> ran (ww_entries w)
     \<Longrightarrow> \<forall>i\<in>set (ms_invocations s'). wi_entry i \<in> ran (ww_entries w)"
  by (auto simp: discover_method_def process_entry_def need_ok ranI elim!: rbind_InrE
      split: prod.splits option.splits field.splits)

lemma register_flow_wired: "register_flow w p name f = Inr g \<Longrightarrow> registered_flow g = f"
  by (auto simp: register_flow_def elim!: rbind_InrE split: if_splits)

lemma declare_worker_wired:
  assumes "declare_worker w flows p o' methods s = Inr s'" and "\<forall>plan\<in>set (wn_plans s). plan_wired w flows plan"
  shows "\<forall>plan\<in>set (wn_plans s'). plan_wired w flows plan"
proof -
  from assms(1) obtain m registrations plan where
    m: "loop (discover_method w flows p)
       \<lparr>ms_retries = wn_retries s, ms_processed = wn_processed s, ms_invocations = []\<rparr> methods = Inr m"
    and r: "collect (register_flow w p (wk_name o')) flows = Inr registrations"
    and plan: "compile_worker o' (ms_invocations m) registrations = Inr plan"
    and s': "wn_plans s' = wn_plans s @ [plan]"
    by (auto simp: declare_worker_def throw_if_iff elim!: rbind_InrE)
  have "\<forall>i\<in>set (ms_invocations m). wi_entry i \<in> ran (ww_entries w)"
    by (rule loop_invariant[OF m]) (simp, rule discover_method_wired)
  moreover from r have "list_all2 (\<lambda>f g. register_flow w p (wk_name o') f = Inr g) flows registrations"
    by (simp add: collect_ok)
  then have "map registered_flow registrations = flows"
    by (induction rule: list_all2_induct) (auto simp: register_flow_wired)
  ultimately have "plan_wired w flows plan"
    using compile_worker_ok[OF plan] by (auto simp: plan_wired_def)
  with assms(2) s' show ?thesis by auto
qed

lemma discover_workers_wired:
  assumes "discover_workers w flows retries providers = Inr plans" and "plan \<in> set plans"
  shows "plan_wired w flows plan"
proof -
  from assms(1) obtain s where l: "loop (discover_worker w flows)
       \<lparr>wn_retries = retries, wn_names = [], wn_processed = [], wn_plans = []\<rparr> providers = Inr s"
    and plans: "plans = wn_plans s"
    by (auto simp: discover_workers_def elim!: rbind_InrE)
  have "\<forall>plan\<in>set (wn_plans s). plan_wired w flows plan"
  proof (rule loop_invariant[OF l])
    fix t p t'
    assume t: "\<forall>plan\<in>set (wn_plans t). plan_wired w flows plan" "discover_worker w flows t p = Inr t'"
    then show "\<forall>plan\<in>set (wn_plans t'). plan_wired w flows plan"
      by (auto simp: discover_worker_def Let_def throw_if_iff elim!: rbind_InrE
          dest: declare_worker_wired split: if_splits option.splits)
  qed simp
  with assms(2) plans show ?thesis by blast
qed

definition demo_worker_world :: worker_world where
  "demo_worker_world =
     \<lparr>ww_workers = [10 \<mapsto> plain_worker ''orders''],
      ww_processes = (\<lambda>p. if p = 11 then [(''run'', \<lparr>pm_queue = 3, pm_property = ''ship'',
        pm_concurrency = None\<rparr>)] else []),
      ww_own = (\<lambda>_. []), ww_parameters = (\<lambda>_. []),
      ww_module = fw_module demo_flow_world, ww_entries = fw_entries demo_flow_world,
      ww_nest = (\<lambda>_. False), ww_arity = (\<lambda>_. 0), ww_enhancers = (\<lambda>_ _. []), ww_enhancer_providers = []\<rparr>"

definition demo_worker_provider :: worker_provider where
  "demo_worker_provider = \<lparr>wv_alias = False, wv_class = Some 10, wv_class_chain = [10], wv_hierarchy = [11],
     wv_levels = [[(''run'', Data_Function 20), (''split'', Data_Function 21), (''join'', Data_Function 22)]],
     wv_scope = Default_Scope, wv_static = True\<rparr>"

lemma demo_invocation:
  assumes "method \<in> {''run'', ''split'', ''join''}"
  shows "\<exists>i. invocation_for demo_worker_world demo_worker_provider method entry phase = Inr i"
  using assms
  by (auto simp: invocation_for_def method_descriptor_def demo_worker_provider_def demo_worker_world_def
      reject_enhancers_def parameter_count_def Let_def new_pipeline_def enhancer_metadata_def
      inherited_def)

theorem discover_workers_exclusive_witness:
  "\<exists>plan. discover_workers demo_worker_world [demo_flow] None [demo_worker_provider] = Inr [plan]
     \<and> plan_ok plan \<and> invocation_keys plan = [entry_key (demo_entry ''ship'' 2)]
   \<and> \<not> is_ok (discover_workers demo_worker_world [demo_flow] None [demo_worker_provider, demo_worker_provider])"
proof -
  let ?w = demo_worker_world and ?p = demo_worker_provider and ?e = "demo_entry ''ship'' 2"
  obtain i where i: "invocation_for ?w ?p ''run'' ?e Process_Phase = Inr i"
    using demo_invocation[of "''run''"] by blast
  obtain f where f: "invocation_for ?w ?p ''split'' (cw_parent demo_flow) Fan_Out_Phase = Inr f"
    using demo_invocation[of "''split''"] by blast
  obtain c where c: "invocation_for ?w ?p ''join'' (cw_parent demo_flow) Collect_Phase = Inr c"
    using demo_invocation[of "''join''"] by blast
  let ?m = "(''run'', \<lparr>pm_queue = 3, pm_property = ''ship'', pm_concurrency = None\<rparr>)"
  have methods: "process_metadata_of (ww_processes ?w) [11] = [?m]"
    by (simp add: process_metadata_of_def overlay_def overlay_own_def replace_def demo_worker_world_def)
  have entry: "process_entry ?w (snd ?m) = Inr ?e"
    by (simp add: process_entry_def demo_worker_world_def demo_flow_world_def)
  have other: "entry_key ?e \<noteq> parent_key demo_flow"
    by (simp add: entry_key_def parent_key_def demo_flow_def demo_entry_def job_key_eq)
  have names: "wk_name (plain_worker ''orders'') = ''orders''" "cw_owner demo_flow = ''orders''"
    "cw_fan_out demo_flow = ''split''" "cw_collect demo_flow = ''join''"
    by (simp_all add: plain_worker_def demo_flow_def)
  let ?i = "\<lparr>wi_entry = ?e, wi_concurrency = None, wi_invocation = i\<rparr>"
  have plan: "compile_worker (plain_worker ''orders'') [?i] [Owned_Flow demo_flow f c]
      = Inr \<lparr>wp_options = plain_worker ''orders'', wp_invocations = [?i], wp_flows = [Owned_Flow demo_flow f c],
          wp_recovery_ids = []\<rparr>"
    by (simp add: compile_worker_def plan_identities_def add_handler_def entry_identity_def handler_key_def
        demo_flow_def demo_entry_def json_tuple_inject)
  define plan where "plan = \<lparr>wp_options = plain_worker ''orders'', wp_invocations = [?i],
      wp_flows = [Owned_Flow demo_flow f c], wp_recovery_ids = []\<rparr>"
  have discovered: "discover_method ?w [demo_flow] ?p \<lparr>ms_retries = None, ms_processed = [], ms_invocations = []\<rparr> ?m
      = Inr \<lparr>ms_retries = None, ms_processed = [entry_key ?e], ms_invocations = [?i]\<rparr>"
    using entry other by (simp add: discover_method_def require_retry_def i)
  have "declare_worker ?w [demo_flow] ?p (plain_worker ''orders'') [?m]
      \<lparr>wn_retries = None, wn_names = [], wn_processed = [], wn_plans = []\<rparr>
      = Inr \<lparr>wn_retries = None, wn_names = [''orders''], wn_processed = [entry_key ?e], wn_plans = [plan]\<rparr>"
    by (simp add: declare_worker_def names discovered require_retry_def register_flow_def f c plan plan_def)
  then have step: "discover_worker ?w [demo_flow]
      \<lparr>wn_retries = None, wn_names = [], wn_processed = [], wn_plans = []\<rparr> ?p
      = Inr \<lparr>wn_retries = None, wn_names = [''orders''], wn_processed = [entry_key ?e], wn_plans = [plan]\<rparr>"
    by (simp add: discover_worker_def demo_worker_provider_def methods worker_metadata_def Let_def)
       (simp add: demo_worker_world_def)
  then have one: "discover_workers ?w [demo_flow] None [?p] = Inr [plan]" by (simp add: discover_workers_def)
  have "\<not> is_ok (discover_workers ?w [demo_flow] None [?p, ?p])"
  proof
    assume "is_ok (discover_workers ?w [demo_flow] None [?p, ?p])"
    then obtain plans where two: "discover_workers ?w [demo_flow] None [?p, ?p] = Inr plans"
      by (auto simp: is_ok_iff)
    with step show False
      by (auto simp: discover_workers_def discover_worker_def demo_worker_provider_def methods
          worker_metadata_def Let_def declare_worker_def demo_worker_world_def plain_worker_def)
  qed
  moreover from discover_workers_exclusive[OF one] have "plan_ok plan" by simp
  ultimately show ?thesis using one by (auto simp: plan_def invocation_keys_def)
qed

end
