(* ===== verification/Mq_Client.thy ===== *)
theory Mq_Client
  imports Mq_Job_Client
begin

text \<open>
  The operations of a job contract and of the client bound to it: the asynchronous methods of
  \<open>JobDefinition\<close> in \<open>src/contracts/job-definition.ts\<close>, \<open>createJobClient\<close> in
  \<open>src/engine/job-client.ts\<close> and the views of \<open>src/jobs/types.ts\<close>. The compiled job of the engine is a
  record of operations on a state \<open>'w\<close>; each may throw, answer with an engine error or with a value.
\<close>

subsection \<open>Views\<close>

datatype job_status =
    Status_Waiting | Status_Delayed | Status_Active | Status_Completed | Status_Failed
  | Status_Cancelled | Status_Waiting_Children

text \<open>A record view of the engine, and the snapshot the application gets; they differ in the failure.\<close>

record 'f job_record_view =
  jr_id :: string
  jr_queue :: string
  jr_name :: string
  jr_version :: nat
  jr_state :: job_status
  jr_payload :: jsval
  jr_metadata :: "(string \<times> string) list"
  jr_priority :: int
  jr_run_at :: int
  jr_attempts_max :: nat
  jr_attempts_made :: nat
  jr_delivery_count :: nat
  jr_stalled_count :: nat
  jr_created_at :: int
  jr_updated_at :: int
  jr_processed_at :: "int option"
  jr_finished_at :: "int option"
  jr_cancellation_requested_at :: "int option"
  jr_result :: "jsval option"
  jr_failure :: "'f option"

datatype failure_kind =
    Kind_Typed | Kind_Defect | Kind_Encode | Kind_Decode | Kind_Timeout | Kind_Stalled | Kind_Cancelled

record failure_details =
  fd_kind :: failure_kind
  fd_message :: string
  fd_code :: "string option"
  fd_retryable :: bool
  fd_recorded_at :: int

text \<open>
  A decoded failure: its details with, if it is typed, the exception that wraps the domain failure,
  else plain data. The view unwraps the exception.
\<close>

record decoded_failure =
  df_details :: failure_details
  df_data :: failure_data

record job_failure_view =
  fv_details :: failure_details
  fv_data :: "jsval option"

definition view_failure :: "decoded_failure option \<Rightarrow> job_failure_view option" where
  "view_failure failure =
     (case failure of
        None \<Rightarrow> None
      | Some f \<Rightarrow> Some \<lparr>fv_details = df_details f, fv_data = failure_view (Some (df_data f))\<rparr>)"

definition snapshot :: "decoded_failure job_record_view \<Rightarrow> job_failure_view job_record_view" where
  "snapshot r =
     \<lparr>jr_id = jr_id r, jr_queue = jr_queue r, jr_name = jr_name r, jr_version = jr_version r,
      jr_state = jr_state r, jr_payload = jr_payload r, jr_metadata = jr_metadata r,
      jr_priority = jr_priority r, jr_run_at = jr_run_at r, jr_attempts_max = jr_attempts_max r,
      jr_attempts_made = jr_attempts_made r, jr_delivery_count = jr_delivery_count r,
      jr_stalled_count = jr_stalled_count r, jr_created_at = jr_created_at r,
      jr_updated_at = jr_updated_at r, jr_processed_at = jr_processed_at r,
      jr_finished_at = jr_finished_at r,
      jr_cancellation_requested_at = jr_cancellation_requested_at r, jr_result = jr_result r,
      jr_failure = view_failure (jr_failure r)\<rparr>"

datatype attempt_outcome =
    Outcome_Completed | Outcome_Retried | Outcome_Failed | Outcome_Cancelled | Outcome_Stalled
  | Outcome_Released | Outcome_Fanned_Out

record 'f job_attempt =
  at_attempt :: nat
  at_delivery :: nat
  at_started_at :: "int option"
  at_finished_at :: int
  at_outcome :: attempt_outcome
  at_result :: "jsval option"
  at_failure :: "'f option"
  at_retry_at :: "int option"
  at_retry_delay_ms :: "int option"

definition attempt_view :: "decoded_failure job_attempt \<Rightarrow> job_failure_view job_attempt" where
  "attempt_view a =
     \<lparr>at_attempt = at_attempt a, at_delivery = at_delivery a, at_started_at = at_started_at a,
      at_finished_at = at_finished_at a, at_outcome = at_outcome a, at_result = at_result a,
      at_failure = view_failure (at_failure a), at_retry_at = at_retry_at a,
      at_retry_delay_ms = at_retry_delay_ms a\<rparr>"

subsection \<open>The client\<close>

type_synonym ('w, 'v) engine_op = "'w \<Rightarrow> (engine_error + 'v) res \<times> 'w"

text \<open>\<open>run_time option\<close>: when a retried job runs, as given by the caller. \<open>'p\<close>: the engine's prepared request.\<close>

record ('w, 'p) job_engine =
  je_enqueue :: "jsval \<Rightarrow> engine_options \<Rightarrow> ('w, string) engine_op"
  je_enqueue_many :: "(jsval \<times> engine_options) list \<Rightarrow> ('w, string list) engine_op"
  je_prepare :: "jsval \<Rightarrow> engine_options \<Rightarrow> ('w, 'p) engine_op"
  je_poll :: "string \<Rightarrow> ('w, decoded_failure job_record_view option) engine_op"
  je_attempts :: "string \<Rightarrow> ('w, decoded_failure job_attempt list) engine_op"
  je_retry :: "string \<Rightarrow> run_time option \<Rightarrow> ('w, unit) engine_op"
  je_promote :: "string \<Rightarrow> ('w, unit) engine_op"

definition settle_op :: "job_operation \<Rightarrow> ('w, 'v) engine_op \<Rightarrow> 'w \<Rightarrow> 'v res \<times> 'w" where
  "settle_op operation op w = (case op w of (r, w') \<Rightarrow> (rbind r (\<lambda>result. unwrap result operation), w'))"

text \<open>A call that is made only with checked arguments: \<open>configured\<close> throws before it.\<close>

definition checked_op :: "'a res \<Rightarrow> ('a \<Rightarrow> 'w \<Rightarrow> 'v res \<times> 'w) \<Rightarrow> 'w \<Rightarrow> 'v res \<times> 'w" where
  "checked_op configured op w = (case configured of Inl e \<Rightarrow> (Inl e, w) | Inr a \<Rightarrow> op a w)"

text \<open>A payload text is the value \<open>JSON.parse\<close> gives, \<open>None\<close> if it throws.\<close>

definition client_input :: "registered_job \<Rightarrow> jsval option \<Rightarrow> enqueue_options option
    \<Rightarrow> (jsval \<times> engine_options) res" where
  "client_input job payload o' =
     rbind (engine_options_of job o') (\<lambda>configured.
     rbind (need payload (Native_Error 0)) (\<lambda>v. Inr (v, configured)))"

definition client_enqueue :: "('w, 'p) job_engine \<Rightarrow> registered_job \<Rightarrow> jsval option \<Rightarrow> enqueue_options option
    \<Rightarrow> 'w \<Rightarrow> string res \<times> 'w" where
  "client_enqueue eng job payload o' =
     checked_op (client_input job payload o') (\<lambda>(v, configured).
       settle_op OpEnqueue (je_enqueue eng v configured))"

definition client_item :: "registered_job \<Rightarrow> jsval option \<times> enqueue_options option
    \<Rightarrow> (jsval \<times> engine_options) res" where
  "client_item job item =
     rbind (need (fst item) (Native_Error 0)) (\<lambda>v.
     rbind (engine_options_of job (snd item)) (\<lambda>configured. Inr (v, configured)))"

definition client_enqueue_many :: "('w, 'p) job_engine \<Rightarrow> registered_job
    \<Rightarrow> (jsval option \<times> enqueue_options option) list \<Rightarrow> 'w \<Rightarrow> string list res \<times> 'w" where
  "client_enqueue_many eng job items =
     checked_op (collect (client_item job) items) (\<lambda>inputs.
       settle_op OpEnqueueMany (je_enqueue_many eng inputs))"

definition client_prepare :: "('w, 'p) job_engine \<Rightarrow> registered_job \<Rightarrow> jsval option \<Rightarrow> enqueue_options option
    \<Rightarrow> 'w \<Rightarrow> (string \<times> 'p) res \<times> 'w" where
  "client_prepare eng job payload o' =
     checked_op (client_input job payload o') (\<lambda>(v, configured) w.
       case settle_op OpPrepare (je_prepare eng v configured) w of
         (r, w') \<Rightarrow> (rbind r (\<lambda>request. Inr (ji_connection (rj_identity job), request)), w'))"

definition client_poll :: "('w, 'p) job_engine \<Rightarrow> string \<Rightarrow> 'w
    \<Rightarrow> job_failure_view job_record_view option res \<times> 'w" where
  "client_poll eng i w =
     (case settle_op OpPoll (je_poll eng i) w of (r, w') \<Rightarrow> (rbind r (\<lambda>found. Inr (map_option snapshot found)), w'))"

definition client_attempts :: "('w, 'p) job_engine \<Rightarrow> string \<Rightarrow> 'w
    \<Rightarrow> job_failure_view job_attempt list res \<times> 'w" where
  "client_attempts eng i w =
     (case settle_op OpAttempts (je_attempts eng i) w of
        (r, w') \<Rightarrow> (rbind r (\<lambda>found. Inr (map attempt_view found)), w'))"

definition client_retry :: "('w, 'p) job_engine \<Rightarrow> string \<Rightarrow> run_time option \<Rightarrow> 'w \<Rightarrow> unit res \<times> 'w" where
  "client_retry eng i t = settle_op OpRetry (je_retry eng i t)"

definition client_promote :: "('w, 'p) job_engine \<Rightarrow> string \<Rightarrow> 'w \<Rightarrow> unit res \<times> 'w" where
  "client_promote eng i = settle_op OpPromote (je_promote eng i)"

subsection \<open>The contract's operations\<close>

text \<open>
  \<open>bound\<close> is what \<open>jobClient\<close> finds: an exception if the contract is not bound. The client of a bound
  contract is the one above, for the engine of its application.
\<close>

definition contract_enqueue :: "('w, 'p) job_engine res \<Rightarrow> registered_job \<Rightarrow> jsval \<Rightarrow> enqueue_options option
    \<Rightarrow> 'w \<Rightarrow> string res \<times> 'w" where
  "contract_enqueue bound job input o' =
     checked_op (rbind bound (\<lambda>eng. rbind (publication (rj_contract job) input o') (\<lambda>p. Inr (eng, p))))
       (\<lambda>(eng, text, published). client_enqueue eng job (Some text) published)"

definition contract_enqueue_decoded :: "('w, 'p) job_engine res \<Rightarrow> registered_job \<Rightarrow> jsval
    \<Rightarrow> enqueue_options option \<Rightarrow> 'w \<Rightarrow> string res \<times> 'w" where
  "contract_enqueue_decoded bound job v o' =
     checked_op (rbind bound (\<lambda>eng.
         rbind (encode_schema (jc_payload (rj_contract job)) v) (\<lambda>text.
         rbind (publication_options (rj_contract job) v o') (\<lambda>published. Inr (eng, text, published)))))
       (\<lambda>(eng, text, published). client_enqueue eng job (Some text) published)"

definition contract_enqueue_many :: "('w, 'p) job_engine res \<Rightarrow> registered_job
    \<Rightarrow> (jsval \<times> enqueue_options option) list \<Rightarrow> 'w \<Rightarrow> string list res \<times> 'w" where
  "contract_enqueue_many bound job items =
     checked_op (rbind bound (\<lambda>eng. rbind (publications (rj_contract job) items) (\<lambda>ps. Inr (eng, ps))))
       (\<lambda>(eng, ps). client_enqueue_many eng job (map (apfst Some) ps))"

definition contract_prepare :: "('w, 'p) job_engine res \<Rightarrow> registered_job \<Rightarrow> jsval \<Rightarrow> enqueue_options option
    \<Rightarrow> 'w \<Rightarrow> (string \<times> 'p) res \<times> 'w" where
  "contract_prepare bound job input o' =
     checked_op (rbind bound (\<lambda>eng. rbind (publication (rj_contract job) input o') (\<lambda>p. Inr (eng, p))))
       (\<lambda>(eng, text, published). client_prepare eng job (Some text) published)"

text \<open>\<open>execute\<close>: enqueue, then wait; \<open>wait\<close> is the bound client's \<open>awaitResult\<close>.\<close>

definition contract_execute :: "('w, 'p) job_engine res \<Rightarrow> registered_job
    \<Rightarrow> (string \<Rightarrow> wait_options \<Rightarrow> 'w \<Rightarrow> jsval res \<times> 'w) \<Rightarrow> jsval \<Rightarrow> enqueue_options option
    \<Rightarrow> wait_options \<Rightarrow> 'w \<Rightarrow> jsval res \<times> 'w" where
  "contract_execute bound job wait input o' wait_opts w =
     (case contract_enqueue bound job input o' w of
        (Inl e, w') \<Rightarrow> (Inl e, w')
      | (Inr i, w') \<Rightarrow> wait i wait_opts w')"

definition contract_forward :: "('w, 'p) job_engine res \<Rightarrow> (('w, 'p) job_engine \<Rightarrow> 'w \<Rightarrow> 'v res \<times> 'w)
    \<Rightarrow> 'w \<Rightarrow> 'v res \<times> 'w" where
  "contract_forward bound op = checked_op bound op"

definition contract_poll :: "('w, 'p) job_engine res \<Rightarrow> string \<Rightarrow> 'w
    \<Rightarrow> job_failure_view job_record_view option res \<times> 'w" where
  "contract_poll bound i = contract_forward bound (\<lambda>eng. client_poll eng i)"

definition contract_attempts :: "('w, 'p) job_engine res \<Rightarrow> string \<Rightarrow> 'w
    \<Rightarrow> job_failure_view job_attempt list res \<times> 'w" where
  "contract_attempts bound i = contract_forward bound (\<lambda>eng. client_attempts eng i)"

definition contract_retry :: "('w, 'p) job_engine res \<Rightarrow> string \<Rightarrow> run_time option \<Rightarrow> 'w \<Rightarrow> unit res \<times> 'w" where
  "contract_retry bound i t = contract_forward bound (\<lambda>eng. client_retry eng i t)"

definition contract_promote :: "('w, 'p) job_engine res \<Rightarrow> string \<Rightarrow> 'w \<Rightarrow> unit res \<times> 'w" where
  "contract_promote bound i = contract_forward bound (\<lambda>eng. client_promote eng i)"

subsection \<open>Properties\<close>

text \<open>A publication that may be sent: the validated, encoded payload and checked options.\<close>

definition publishes :: "registered_job \<Rightarrow> jsval \<times> enqueue_options option \<Rightarrow> jsval \<times> engine_options \<Rightarrow> bool" where
  "publishes job item input \<longleftrightarrow>
     (\<exists>v published. validate_schema (jc_payload (rj_contract job)) (fst item) = Inr v
        \<and> encode_schema (jc_payload (rj_contract job)) v = Inr (fst input)
        \<and> publication_options (rj_contract job) v (snd item) = Inr published
        \<and> engine_options_of job published = Inr (snd input))"

lemma publication_ok:
  "publication c input o' = Inr (text, published) \<longleftrightarrow>
     (\<exists>v. validate_schema (jc_payload c) input = Inr v \<and> encode_schema (jc_payload c) v = Inr text
        \<and> publication_options c v o' = Inr published)"
  by (auto simp: publication_def rbind_Inr_iff)

lemma client_item_ok:
  "client_item job (Some text, published) = Inr input \<longleftrightarrow>
     fst input = text \<and> engine_options_of job published = Inr (snd input)"
  by (cases input) (auto simp: client_item_def rbind_Inr_iff)

text \<open>
  C16. Publishing many jobs is all or nothing on the client's side. Either some item is refused, by its
  schema, its keys, its metadata or its policy, or the contract is not bound; then the engine is not
  called at all. Or the engine is called exactly once, with every item in the caller's order, each
  validated, encoded and with checked options, and its answer is the result.
\<close>

theorem enqueue_many_all_or_nothing:
  assumes "contract_enqueue_many bound job items w = (out, w')"
  shows "(w' = w \<and> \<not> is_ok out \<and> (\<forall>eng inputs. \<not> (bound = Inr eng \<and> list_all2 (publishes job) items inputs)))
    \<or> (\<exists>eng inputs r. bound = Inr eng \<and> list_all2 (publishes job) items inputs
         \<and> je_enqueue_many eng inputs w = (r, w') \<and> out = rbind r (\<lambda>result. unwrap result OpEnqueueMany))"
proof (cases "\<exists>eng ps inputs. bound = Inr eng \<and> publications (rj_contract job) items = Inr ps
    \<and> collect (client_item job) (map (apfst Some) ps) = Inr inputs")
  case True
  then obtain eng ps inputs where b: "bound = Inr eng" and p: "publications (rj_contract job) items = Inr ps"
    and i: "collect (client_item job) (map (apfst Some) ps) = Inr inputs" by blast
  from p have l1: "list_all2 (\<lambda>item q. publication (rj_contract job) (fst item) (snd item) = Inr q) items ps"
    by (simp add: publications_def collect_ok case_prod_beta)
  from i have l2: "list_all2 (\<lambda>q input. client_item job (apfst Some q) = Inr input) ps inputs"
    by (simp add: collect_ok list.rel_map)
  have "list_all2 (publishes job) items inputs"
  proof (rule list_all2_trans[OF _ l1 l2])
    fix item q input
    assume "publication (rj_contract job) (fst item) (snd item) = Inr q"
      "client_item job (apfst Some q) = Inr input"
    then show "publishes job item input"
      by (cases q) (auto simp: publication_ok client_item_ok publishes_def)
  qed
  moreover obtain r w2 where "je_enqueue_many eng inputs w = (r, w2)" by fastforce
  ultimately show ?thesis
    using assms b p i
    by (auto simp: contract_enqueue_many_def checked_op_def client_enqueue_many_def settle_op_def)
next
  case False
  then have fail: "w' = w" "\<not> is_ok out"
    using assms by (auto simp: contract_enqueue_many_def checked_op_def client_enqueue_many_def
        elim!: rbind_InrE split: sum.splits prod.splits)
  have "\<not> list_all2 (publishes job) items inputs" if b: "bound = Inr eng" for eng inputs
  proof
    assume "list_all2 (publishes job) items inputs"
    then have "\<exists>ps. list_all2 (\<lambda>item q. publication (rj_contract job) (fst item) (snd item) = Inr q) items ps
        \<and> list_all2 (\<lambda>q input. client_item job (apfst Some q) = Inr input) ps inputs"
    proof (induction items inputs rule: list_all2_induct)
      case (Cons item items input inputs)
      then obtain ps v published where
        "list_all2 (\<lambda>item q. publication (rj_contract job) (fst item) (snd item) = Inr q) items ps"
        "list_all2 (\<lambda>q input. client_item job (apfst Some q) = Inr input) ps inputs"
        "publication (rj_contract job) (fst item) (snd item) = Inr (fst input, published)"
        "client_item job (Some (fst input), published) = Inr input"
        by (auto simp: publishes_def publication_ok client_item_ok)
      then show ?case by (intro exI[of _ "(fst input, published) # ps"]) simp
    qed simp
    then obtain ps where "publications (rj_contract job) items = Inr ps"
      "collect (client_item job) (map (apfst Some) ps) = Inr inputs"
      by (auto simp: publications_def collect_ok list.rel_map case_prod_beta)
    with b False show False by blast
  qed
  with fail show ?thesis by blast
qed

text \<open>An engine that counts the jobs it stores.\<close>

definition counting_engine :: "(nat, unit) job_engine" where
  "counting_engine = \<lparr>je_enqueue = (\<lambda>_ _ n. (Inr (Inr ''id''), Suc n)),
     je_enqueue_many = (\<lambda>inputs n. (Inr (Inr (map (\<lambda>_. ''id'') inputs)), n + length inputs)),
     je_prepare = (\<lambda>_ _ n. (Inr (Inr ()), n)), je_poll = (\<lambda>_ n. (Inr (Inr None), n)),
     je_attempts = (\<lambda>_ n. (Inr (Inr []), n)), je_retry = (\<lambda>_ _ n. (Inr (Inr ()), n)),
     je_promote = (\<lambda>_ n. (Inr (Inr ()), n))\<rparr>"

theorem enqueue_many_all_or_nothing_witness:
  "contract_enqueue_many (Inr counting_engine) sample_job [] 4 = (Inr [], 4)
   \<and> (\<exists>e. contract_enqueue_many (Inr counting_engine) sample_job [(VStr ''x'', None), (VStr ''y'', None)] 4
        = (Inl e, 4))"
proof -
  have none: "contract_enqueue_many (Inr counting_engine) sample_job [] 4 = (Inr [], 4)"
    by (simp add: contract_enqueue_many_def publications_def checked_op_def client_enqueue_many_def
        settle_op_def counting_engine_def unwrap_def)
  let ?items = "[(VStr ''x'', None), (VStr ''y'', None)]"
  obtain out w' where run: "contract_enqueue_many (Inr counting_engine) sample_job ?items 4 = (out, w')"
    by fastforce
  have "\<not> list_all2 (publishes sample_job) ?items inputs" for inputs
    by (auto simp: publishes_def sample_job_def keyed_contract_def tag_schema_def validate_schema_def
        list_all2_Cons1)
  with enqueue_many_all_or_nothing[OF run] have "w' = 4" "\<not> is_ok out" by blast+
  with run none show ?thesis by (auto simp: not_is_ok_iff)
qed

end
