(* ===== verification/Mq_Host.thy ===== *)
theory Mq_Host
  imports Mq_Workers Mq_Schedule_Compiler Mq_Session_Life
begin

text \<open>
  \<open>src/engine/mq-engine.host.ts\<close>: the host of one application. Bootstrapping scans the registry,
  compiles the contracts, flows, workers and schedules, starts the engine session, deploys policies,
  schedules and flow checks, binds a client to every contract and activates workers, publisher and
  scheduler; a failure detaches the clients and closes the session, and so does the destruction of the
  module. Every \<open>await\<close> is a point where other things may happen, so the host is a transition system
  over the session's: between two of its own steps the session moves on, the module is destroyed, or
  another application binds and unbinds contracts. The client of a contract is named by its contract.
\<close>

subsection \<open>Preparation\<close>

text \<open>What the host reads of the configuration and of Nest's container.\<close>

record host_env =
  hv_connections :: "connection list option"
  hv_workers :: bool
  hv_scheduler :: bool
  hv_publisher :: bool
  hv_metadata :: metadata_world
  hv_defaults :: job_policy
  hv_providers :: "provider list"
  hv_retry_store :: "nat \<rightharpoonup> policy_name"
  hv_retry_wrappers :: "retry_wrapper list"
  hv_flow_world :: flow_world
  hv_flow_providers :: "flow_provider list"
  hv_worker_world :: worker_world
  hv_worker_providers :: "worker_provider list"
  hv_schedule_env :: schedule_env
  hv_define :: define_schedule
  hv_schedule_config :: schedule_config_input

definition declare_entry :: "(nat \<times> flow_entry) list \<Rightarrow> registered_job \<Rightarrow> (nat \<times> flow_entry) list res" where
  "declare_entry entries registered =
     rbind (throw_if (map_of entries (rj_contract_id registered) \<noteq> None) Contract_Definition) (\<lambda>_.
     rbind (compile_job registered True) (\<lambda>compiled.
     Inr (AList.update (rj_contract_id registered)
       \<lparr>fe_registered = registered, fe_compiled = compiled\<rparr> entries)))"

definition host_entries :: "host_env \<Rightarrow> registry \<Rightarrow> (nat \<times> flow_entry) list res" where
  "host_entries env r =
     (if hv_connections env = None then Inr [] else loop declare_entry [] (rg_jobs r))"

record host_plan =
  hp_entries :: "(nat \<times> flow_entry) list"
  hp_flows :: "compiled_flow list"
  hp_plans :: "worker_plan list"
  hp_jobs :: "registered_job list"

definition host_prepare :: "host_env \<Rightarrow> registry \<Rightarrow> host_plan res" where
  "host_prepare env r =
     rbind (new_retry_policies (hv_retry_store env) (hv_retry_wrappers env)) (\<lambda>retries.
     rbind (host_entries env r) (\<lambda>entries.
     rbind (if hv_connections env = None then Inr []
            else discover_flows ((hv_flow_world env)\<lparr>fw_entries := map_of entries\<rparr>) (hv_flow_providers env)) (\<lambda>flows.
     rbind (if hv_workers env \<and> hv_connections env \<noteq> None
            then discover_workers ((hv_worker_world env)\<lparr>ww_entries := map_of entries\<rparr>) flows (Some retries)
              (hv_worker_providers env)
            else Inr []) (\<lambda>plans.
     Inr \<lparr>hp_entries = entries, hp_flows = flows, hp_plans = plans, hp_jobs = rg_jobs r\<rparr>))))"

text \<open>The arguments of \<open>session.start\<close>.\<close>

definition connection_of_entry :: "flow_entry \<Rightarrow> string" where
  "connection_of_entry e = ji_connection (rj_identity (fe_registered e))"

definition host_config :: "host_env \<Rightarrow> host_plan \<Rightarrow> queue_definition list \<Rightarrow> compiled_schedule list
    \<Rightarrow> session_config" where
  "host_config env plan queues schedules =
     \<lparr>cf_connections = hv_connections env, cf_queues = map qd_connection queues,
      cf_plans = map (wk_name \<circ> wp_options) (hp_plans plan),
      cf_flow_participants = concat (map (\<lambda>f. map connection_of_entry (cw_parent f # map snd (cw_children f)))
        (hp_flows plan)),
      cf_schedules = map (\<lambda>s. ji_connection (rj_identity (cs_registered s))) schedules,
      cf_scheduler = hv_scheduler env, cf_publisher = hv_publisher env\<rparr>"

subsection \<open>State and steps\<close>

text \<open>What the bootstrap is waiting for.\<close>

datatype host_phase =
    Host_New | Host_Preparing host_plan | Host_Starting | Host_Controls | Host_Schedules | Host_Flows
  | Host_Workers | Host_Publisher | Host_Scheduler | Host_Up | Host_Cleaning exn | Host_Failed exn

record host =
  ho_registry :: registry
  ho_config :: session_config
  ho_session :: session
  ho_entries :: "nat list"
  ho_bindings :: bindings
  ho_bound :: "nat list"
  ho_phase :: host_phase

definition no_config :: session_config where
  "no_config = \<lparr>cf_connections = None, cf_queues = [], cf_plans = [], cf_flow_participants = [],
     cf_schedules = [], cf_scheduler = False, cf_publisher = False\<rparr>"

definition new_host :: "bindings \<Rightarrow> host" where
  "new_host b = \<lparr>ho_registry = new_registry, ho_config = no_config, ho_session = new_session,
     ho_entries = [], ho_bindings = b, ho_bound = [], ho_phase = Host_New\<rparr>"

text \<open>The loop that binds: what is bound when a contract is refused stays bound until \<open>detach\<close>.\<close>

fun bind_entries :: "nat \<Rightarrow> nat list \<Rightarrow> bindings \<Rightarrow> nat list \<Rightarrow> unit res \<times> bindings \<times> nat list" where
  "bind_entries own [] b bound = (Inr (), b, bound)"
| "bind_entries own (c # cs) b bound =
     (case bind_job_client c own c b of
        Inl e \<Rightarrow> (Inl e, b, bound)
      | Inr b' \<Rightarrow> bind_entries own cs b' (bound @ [c]))"

definition detach :: "nat \<Rightarrow> host \<Rightarrow> host" where
  "detach own h =
     h\<lparr>ho_bindings := foldl (\<lambda>b c. unbind_job_client c own b) (ho_bindings h) (ho_bound h), ho_bound := []\<rparr>"

definition with_session :: "(session \<Rightarrow> session) \<Rightarrow> host \<Rightarrow> host" where
  "with_session f h = h\<lparr>ho_session := f (ho_session h)\<rparr>"

text \<open>The \<open>catch\<close> of the bootstrap: detach and close, then wait for the session to be closed.\<close>

definition host_fail :: "nat \<Rightarrow> exn \<Rightarrow> host \<Rightarrow> host" where
  "host_fail own cause h = (with_session session_close (detach own h))\<lparr>ho_phase := Host_Cleaning cause\<rparr>"

definition host_bootstrap :: "host_env \<Rightarrow> host \<Rightarrow> host" where
  "host_bootstrap env h =
     (case registry_initialize (hv_metadata env) (hv_defaults env) (hv_providers env) (ho_registry h) of
        Inl e \<Rightarrow> h\<lparr>ho_phase := Host_Failed e\<rparr>
      | Inr r \<Rightarrow>
          (case host_prepare env r of
             Inl e \<Rightarrow> h\<lparr>ho_registry := r, ho_phase := Host_Failed e\<rparr>
           | Inr plan \<Rightarrow>
               h\<lparr>ho_registry := r, ho_entries := map fst (hp_entries plan), ho_phase := Host_Preparing plan\<rparr>))"

definition host_start :: "nat \<Rightarrow> host_env \<Rightarrow> host_plan \<Rightarrow> host \<Rightarrow> host" where
  "host_start own env plan h =
     (case compile_schedules (hv_schedule_env env) (hv_define env) (hp_jobs plan) (hv_schedule_config env) of
        Inl e \<Rightarrow> h\<lparr>ho_phase := Host_Failed e\<rparr>
      | Inr schedules \<Rightarrow>
          let cfg = host_config env plan (rg_queues (ho_registry h)) schedules in
          (case session_start cfg (ho_session h) of
             (Inl e, s) \<Rightarrow> host_fail own e (h\<lparr>ho_config := cfg, ho_session := s\<rparr>)
           | (Inr _, s) \<Rightarrow> h\<lparr>ho_config := cfg, ho_session := s, ho_phase := Host_Starting\<rparr>))"

definition host_started :: "nat \<Rightarrow> host \<Rightarrow> host option" where
  "host_started own h =
     (case se_start (ho_session h) of
        Started \<Rightarrow> Some (h\<lparr>ho_phase := (if se_state (ho_session h) = Ready then Host_Controls else Host_Up)\<rparr>)
      | Start_Failed e \<Rightarrow> Some (host_fail own e h)
      | _ \<Rightarrow> None)"

definition host_bind :: "nat \<Rightarrow> host \<Rightarrow> host" where
  "host_bind own h =
     (case bind_entries own (ho_entries h) (ho_bindings h) (ho_bound h) of
        (Inl e, b, bound) \<Rightarrow> host_fail own e (h\<lparr>ho_bindings := b, ho_bound := bound\<rparr>)
      | (Inr _, b, bound) \<Rightarrow>
          (with_session (activate_workers (ho_config h)) (h\<lparr>ho_bindings := b, ho_bound := bound\<rparr>))
            \<lparr>ho_phase := Host_Workers\<rparr>)"

text \<open>
  The bootstrap goes on with the answer of the promise it awaits. The deployments of policies,
  schedules and flow checks answer freely; an activation answers once the session has settled it.
\<close>

definition host_answer :: "nat \<Rightarrow> unit res \<Rightarrow> host \<Rightarrow> host option" where
  "host_answer own answer' h =
     (let go = (\<lambda>ready next'. if \<not> ready then None
        else Some (case answer' of Inl e \<Rightarrow> host_fail own e h | Inr _ \<Rightarrow> next')) in
      case ho_phase h of
        Host_Controls \<Rightarrow> go True (h\<lparr>ho_phase := Host_Schedules\<rparr>)
      | Host_Schedules \<Rightarrow> go True (h\<lparr>ho_phase := Host_Flows\<rparr>)
      | Host_Flows \<Rightarrow> go True (host_bind own h)
      | Host_Workers \<Rightarrow> go (se_activating (ho_session h) = Activated)
          ((with_session activate_publisher h)\<lparr>ho_phase := Host_Publisher\<rparr>)
      | Host_Publisher \<Rightarrow> go (se_publishing (ho_session h) = Activated)
          ((with_session activate_scheduler h)\<lparr>ho_phase := Host_Scheduler\<rparr>)
      | Host_Scheduler \<Rightarrow> go (se_scheduling (ho_session h) = Activated) (h\<lparr>ho_phase := Host_Up\<rparr>)
      | _ \<Rightarrow> None)"

definition host_cleaned :: "exn \<Rightarrow> host \<Rightarrow> host option" where
  "host_cleaned cause h =
     (if se_state (ho_session h) \<noteq> Closed then None
      else Some (h\<lparr>ho_phase := Host_Failed
        (if cleanup_failed (ho_session h)
         then Aggregate [cause, Aggregate (the (se_cleaned (ho_session h)))] else cause)\<rparr>))"

definition host_destroy :: "nat \<Rightarrow> host \<Rightarrow> host" where
  "host_destroy own h = with_session session_close (detach own h)"

datatype host_event =
    Ho_Bootstrap
  | Ho_Prepared
  | Ho_Session session_event
  | Ho_Started
  | Ho_Answer "unit res"
  | Ho_Cleaned
  | Ho_Destroy
  | Ho_Destroy_Registry
  | Ho_Other_Bind nat nat nat
  | Ho_Other_Unbind nat nat

fun host_step :: "nat \<Rightarrow> host_env \<Rightarrow> host_event \<Rightarrow> host \<Rightarrow> host option" where
  "host_step own env Ho_Bootstrap h = (if ho_phase h = Host_New then Some (host_bootstrap env h) else None)"
| "host_step own env Ho_Prepared h =
     (case ho_phase h of Host_Preparing plan \<Rightarrow> Some (host_start own env plan h) | _ \<Rightarrow> None)"
| "host_step own env (Ho_Session ev) h =
     (if \<not> internal ev then None
      else map_option (\<lambda>s. h\<lparr>ho_session := s\<rparr>) (session_step (ho_config h) ev (ho_session h)))"
| "host_step own env Ho_Started h = (if ho_phase h = Host_Starting then host_started own h else None)"
| "host_step own env (Ho_Answer a) h = host_answer own a h"
| "host_step own env Ho_Cleaned h =
     (case ho_phase h of Host_Cleaning cause \<Rightarrow> host_cleaned cause h | _ \<Rightarrow> None)"
| "host_step own env Ho_Destroy h = Some (host_destroy own h)"
| "host_step own env Ho_Destroy_Registry h = Some (h\<lparr>ho_registry := registry_destroy (ho_registry h)\<rparr>)"
| "host_step own env (Ho_Other_Bind c owner client) h =
     (if owner = own then None
      else case bind_job_client c owner client (ho_bindings h) of
        Inl _ \<Rightarrow> None | Inr b \<Rightarrow> Some (h\<lparr>ho_bindings := b\<rparr>))"
| "host_step own env (Ho_Other_Unbind c owner) h =
     (if owner = own then None else Some (h\<lparr>ho_bindings := unbind_job_client c owner (ho_bindings h)\<rparr>))"

definition fresh_owner :: "nat \<Rightarrow> bindings \<Rightarrow> bool" where
  "fresh_owner own b \<longleftrightarrow> (\<forall>c. map_option bd_owner (b c) \<noteq> Some own)"

inductive host_reachable :: "nat \<Rightarrow> host_env \<Rightarrow> host \<Rightarrow> bool" for own env where
  host_new: "fresh_owner own b \<Longrightarrow> host_reachable own env (new_host b)"
| host_step: "host_reachable own env h \<Longrightarrow> host_step own env ev h = Some h' \<Longrightarrow> host_reachable own env h'"


inductive_cases host_reachableE: "host_reachable own env h"

subsection \<open>Bindings\<close>

definition owned :: "nat \<Rightarrow> bindings \<Rightarrow> nat set" where
  "owned own b = {c. map_option bd_owner (b c) = Some own}"

lemma bind_entries_effect:
  assumes "bind_entries own cs b bound = (r, b', bound')"
  shows "\<exists>ds. bound' = bound @ ds \<and> (r = Inr () \<longrightarrow> ds = cs) \<and> distinct ds \<and> set ds \<inter> dom b = {}
    \<and> b' = (\<lambda>c. if c \<in> set ds then Some \<lparr>bd_owner = own, bd_client = c\<rparr> else b c)"
  using assms
proof (induction own cs b bound rule: bind_entries.induct)
  case (2 own c cs b bound)
  show ?case
  proof (cases "b c")
    case (Some x)
    with 2(2) show ?thesis by (auto simp: bind_job_client_def)
  next
    case None
    let ?b = "b(c \<mapsto> \<lparr>bd_owner = own, bd_client = c\<rparr>)"
    have bound: "bind_job_client c own c b = Inr ?b" using None by (simp add: bind_job_client_def)
    with 2(2) have "bind_entries own cs ?b (bound @ [c]) = (r, b', bound')" by simp
    from 2(1)[OF bound this] obtain ds where
      "bound' = (bound @ [c]) @ ds" "r = Inr () \<longrightarrow> ds = cs" "distinct ds" "set ds \<inter> dom ?b = {}"
      "b' = (\<lambda>d. if d \<in> set ds then Some \<lparr>bd_owner = own, bd_client = d\<rparr> else ?b d)" by blast
    with None show ?thesis by (intro exI[of _ "c # ds"]) (auto simp: fun_eq_iff)
  qed
qed auto

lemma unbind_all:
  "foldl (\<lambda>b c. unbind_job_client c own b) b cs = (\<lambda>c. if c \<in> set cs \<and> c \<in> owned own b then None else b c)"
proof (induction cs arbitrary: b)
  case (Cons c cs)
  have "owned own (unbind_job_client c own b) = owned own b - {c}"
    by (auto simp: owned_def unbind_job_client_def)
  with Cons.IH[of "unbind_job_client c own b"] show ?case
    by (auto simp: fun_eq_iff unbind_job_client_def owned_def)
qed simp

text \<open>What the host owns is exactly what it recorded, each contract with its own client.\<close>

definition bound_exactly :: "nat \<Rightarrow> bindings \<Rightarrow> nat list \<Rightarrow> bool" where
  "bound_exactly own b bound \<longleftrightarrow> owned own b = set bound \<and> distinct bound
     \<and> (\<forall>c\<in>set bound. b c = Some \<lparr>bd_owner = own, bd_client = c\<rparr>)"

lemma bound_exactly_bind:
  assumes "bound_exactly own b []" and "bind_entries own cs b [] = (r, b', bound')"
  shows "bound_exactly own b' bound' \<and> (r = Inr () \<longrightarrow> bound' = cs)"
  using assms(1) bind_entries_effect[OF assms(2)] by (auto simp: bound_exactly_def owned_def)

lemma bound_exactly_detach:
  assumes "bound_exactly own b bound"
  shows "bound_exactly own (foldl (\<lambda>b c. unbind_job_client c own b) b bound) []"
  using assms by (auto simp: bound_exactly_def unbind_all owned_def)

lemma bound_exactly_other:
  assumes "bound_exactly own b bound" and "owner \<noteq> own"
  shows "bind_job_client c owner k b = Inr b' \<Longrightarrow> bound_exactly own b' bound"
    and "bound_exactly own (unbind_job_client c owner b) bound"
proof -
  have o': "owned own (unbind_job_client c owner b) = owned own b"
    using assms(2) by (auto simp: owned_def unbind_job_client_def)
  from assms show "bound_exactly own (unbind_job_client c owner b) bound"
    unfolding bound_exactly_def o' by (auto simp: owned_def unbind_job_client_def)
  assume "bind_job_client c owner k b = Inr b'"
  then have n: "b c = None" and b': "b' = b(c \<mapsto> \<lparr>bd_owner = owner, bd_client = k\<rparr>)"
    by (auto simp: bind_job_client_def rbind_Inr_iff throw_if_iff)
  have "owned own b' = owned own b" using assms(2) n by (auto simp: owned_def b')
  moreover have "c \<notin> set bound" using assms(1) n by (auto simp: bound_exactly_def)
  ultimately show "bound_exactly own b' bound" using assms(1) by (auto simp: bound_exactly_def b')
qed

lemma bound_exactly_new: "fresh_owner own b \<Longrightarrow> bound_exactly own b []"
  by (simp add: bound_exactly_def owned_def fresh_owner_def)

subsection \<open>The session below the host\<close>

text \<open>Until the host starts it, the session can only be closed, whatever it will be configured with.\<close>

lemma unstarted_step:
  assumes "session_inv s" and "se_start s = Not_Started" and "internal ev \<or> ev = Ev_Close"
    and "session_step cfg ev s = Some s'"
  shows "session_step cfg' ev s = Some s' \<and> se_start s' = Not_Started"
  using assms
  by (cases ev) (auto simp: session_inv_def session_close_def session_finish_close_def session_cleanup_def
      release_resources_def settled_activation_def split: if_splits)

lemma internal_ready:
  assumes "session_inv s" and "internal ev" and "session_step cfg ev s = Some s'"
    and "se_start s = Started"
  shows "se_start s' = Started \<and> (se_state s' = Ready \<longrightarrow> se_state s = Ready)"
proof (cases ev)
  case (Ev_Worker ok)
  with assms show ?thesis
    by (cases "(cfg, ok, se_activating s, s)" rule: worker_step.cases) (auto split: if_splits)
qed (use assms in \<open>auto simp: session_finish_close_def session_cleanup_def release_resources_def
      publisher_step_def scheduler_step_def split: if_splits\<close>)

lemma ready_open: "session_inv s \<Longrightarrow> se_state s = Ready \<Longrightarrow> \<not> se_closing s"
  by (auto simp: session_inv_def phase_ok_def)

lemma close_keeps [simp]:
  "se_start (session_close s) = se_start s" "se_closing (session_close s)"
  by (simp_all add: session_close_def)

lemma activation_keeps [simp]:
  "se_start (activate_workers cfg s) = se_start s" "se_state (activate_workers cfg s) = se_state s"
  "se_closing (activate_workers cfg s) = se_closing s"
  "se_start (activate_publisher s) = se_start s" "se_state (activate_publisher s) = se_state s"
  "se_closing (activate_publisher s) = se_closing s"
  "se_start (activate_scheduler s) = se_start s" "se_state (activate_scheduler s) = se_state s"
  "se_closing (activate_scheduler s) = se_closing s"
  by (simp_all add: activate_workers_def activate_publisher_def activate_scheduler_def)

lemmas reach_close = reach_step[where ev = Ev_Close, simplified]
lemmas reach_activate =
  reach_step[where ev = Ev_Activate_Workers, simplified]
  reach_step[where ev = Ev_Activate_Publisher, simplified]
  reach_step[where ev = Ev_Activate_Scheduler, simplified]


subsection \<open>The invariant of a host\<close>

fun unstarted :: "host_phase \<Rightarrow> bool" where
  "unstarted Host_New = True"
| "unstarted (Host_Preparing _) = True"
| "unstarted _ = False"

fun holds_clients :: "host_phase \<Rightarrow> bool" where
  "holds_clients Host_Workers = True"
| "holds_clients Host_Publisher = True"
| "holds_clients Host_Scheduler = True"
| "holds_clients Host_Up = True"
| "holds_clients _ = False"

fun past_start :: "host_phase \<Rightarrow> bool" where
  "past_start Host_Controls = True"
| "past_start Host_Schedules = True"
| "past_start Host_Flows = True"
| "past_start ph = holds_clients ph"

text \<open>What the bootstrap prepared.\<close>

definition prepared :: "host_env \<Rightarrow> registry \<Rightarrow> host_plan \<Rightarrow> bool" where
  "prepared env r plan \<longleftrightarrow>
     registry_initialize (hv_metadata env) (hv_defaults env) (hv_providers env) new_registry = Inr r
     \<and> host_prepare env r = Inr plan"

definition planned :: "host_env \<Rightarrow> nat list \<Rightarrow> bool" where
  "planned env keys \<longleftrightarrow> (\<exists>r plan. prepared env r plan \<and> keys = map fst (hp_entries plan))"

definition plan_of :: "host_env \<Rightarrow> host \<Rightarrow> bool" where
  "plan_of env h \<longleftrightarrow> (case ho_phase h of
       Host_New \<Rightarrow> ho_registry h = new_registry \<and> ho_entries h = []
     | Host_Preparing plan \<Rightarrow> (\<exists>r. prepared env r plan \<and> ho_entries h = map fst (hp_entries plan))
     | Host_Failed _ \<Rightarrow> True
     | _ \<Rightarrow> cf_connections (ho_config h) = hv_connections env \<and> planned env (ho_entries h))"

definition session_of :: "host \<Rightarrow> bool" where
  "session_of h \<longleftrightarrow>
     session_reachable (ho_config h) (ho_session h)
     \<and> (unstarted (ho_phase h) \<longrightarrow>
          se_start (ho_session h) = Not_Started \<and> (\<forall>cfg. session_reachable cfg (ho_session h)))
     \<and> (past_start (ho_phase h) \<longrightarrow> se_start (ho_session h) = Started)
     \<and> (\<forall>e. ho_phase h = Host_Cleaning e \<longrightarrow> se_closing (ho_session h))
     \<and> (\<forall>e. ho_phase h = Host_Failed e \<longrightarrow>
          se_start (ho_session h) = Not_Started \<or> se_state (ho_session h) = Closed)"

definition clients_of :: "nat \<Rightarrow> host \<Rightarrow> bool" where
  "clients_of own h \<longleftrightarrow>
     bound_exactly own (ho_bindings h) (ho_bound h)
     \<and> (ho_bound h \<noteq> [] \<longrightarrow> holds_clients (ho_phase h) \<and> ho_bound h = ho_entries h)
     \<and> (holds_clients (ho_phase h) \<longrightarrow> ho_bound h = ho_entries h \<or> se_closing (ho_session h)
          \<or> se_state (ho_session h) \<noteq> Ready)"

definition host_inv :: "nat \<Rightarrow> host_env \<Rightarrow> host \<Rightarrow> bool" where
  "host_inv own env h \<longleftrightarrow> session_of h \<and> plan_of env h \<and> clients_of own h"

lemma host_inv_new: "fresh_owner own b \<Longrightarrow> host_inv own env (new_host b)"
  by (auto simp: host_inv_def session_of_def plan_of_def clients_of_def new_host_def bound_exactly_new
      new_session_def intro: reach_new[unfolded new_session_def])

lemma host_fail_fields [simp]:
  "ho_phase (host_fail own e h) = Host_Cleaning e" "ho_bound (host_fail own e h) = []"
  "ho_session (host_fail own e h) = session_close (ho_session h)"
  "ho_config (host_fail own e h) = ho_config h" "ho_entries (host_fail own e h) = ho_entries h"
  "ho_bindings (host_fail own e h) = ho_bindings (detach own h)"
  by (simp_all add: host_fail_def with_session_def detach_def)

lemma detach_bindings: "ho_bindings (detach own h) = foldl (\<lambda>b c. unbind_job_client c own b) (ho_bindings h) (ho_bound h)"
  by (simp add: detach_def)

text \<open>A failure after the start: nothing of the host's stays bound, and the session closes.\<close>

lemma host_fail_inv:
  assumes "session_reachable (ho_config h) (ho_session h)"
    and "bound_exactly own (ho_bindings h) (ho_bound h)"
    and "cf_connections (ho_config h) = hv_connections env"
    and "planned env (ho_entries h)"
  shows "host_inv own env (host_fail own e h)"
  using assms by (auto simp: host_inv_def session_of_def plan_of_def clients_of_def detach_bindings
      bound_exactly_detach intro: reach_close)

lemma past_start_plan:
  assumes "plan_of env h" and "past_start (ho_phase h) \<or> ho_phase h = Host_Starting"
  shows "cf_connections (ho_config h) = hv_connections env \<and> planned env (ho_entries h)"
  using assms by (cases "ho_phase h") (auto simp: plan_of_def)

lemma host_bootstrap_inv:
  assumes "host_inv own env h" and "ho_phase h = Host_New"
  shows "host_inv own env (host_bootstrap env h)"
  using assms
  by (auto simp: host_bootstrap_def host_inv_def session_of_def plan_of_def clients_of_def prepared_def
      split: sum.split)

lemma session_start_cases:
  assumes "session_start cfg s = (r, t)"
  shows "session_step cfg Ev_Start s = Some t"
    and "r = Inl e \<Longrightarrow> t = s" and "r = Inr u \<Longrightarrow> se_start t \<noteq> Not_Started"
  using assms by (auto simp: session_start_def split: if_splits)

lemma host_start_inv:
  assumes inv: "host_inv own env h" and ph: "ho_phase h = Host_Preparing plan"
  shows "host_inv own env (host_start own env plan h)"
proof -
  from inv ph have all: "\<And>cfg. session_reachable cfg (ho_session h)"
    and ns: "se_start (ho_session h) = Not_Started"
    and b: "bound_exactly own (ho_bindings h) (ho_bound h)" "ho_bound h = []"
    by (auto simp: host_inv_def session_of_def clients_of_def)
  from inv ph have p: "planned env (ho_entries h)"
    by (auto simp: host_inv_def plan_of_def planned_def)
  show ?thesis
  proof (cases "compile_schedules (hv_schedule_env env) (hv_define env) (hp_jobs plan) (hv_schedule_config env)")
    case (Inl e)
    with all ns b show ?thesis
      by (auto simp: host_start_def host_inv_def session_of_def plan_of_def clients_of_def)
  next
    case (Inr schedules)
    let ?cfg = "host_config env plan (rg_queues (ho_registry h)) schedules"
    obtain out t where st: "session_start ?cfg (ho_session h) = (out, t)" by fastforce
    note step = session_start_cases[OF st]
    from reach_step[OF all step(1)] have t: "session_reachable ?cfg t" .
    have c: "cf_connections ?cfg = hv_connections env" by (simp add: host_config_def)
    show ?thesis
    proof (cases out)
      case (Inl e)
      with Inr st have "host_start own env plan h = host_fail own e (h\<lparr>ho_config := ?cfg, ho_session := t\<rparr>)"
        by (simp add: host_start_def Let_def)
      with t b p c show ?thesis by (auto intro!: host_fail_inv)
    next
      case [simp]: (Inr u)
      have "host_start own env plan h = h\<lparr>ho_config := ?cfg, ho_session := t, ho_phase := Host_Starting\<rparr>"
        using \<open>compile_schedules _ _ _ _ = Inr schedules\<close> st by (simp add: host_start_def Let_def)
      with t b p c show ?thesis
        by (auto simp: host_inv_def session_of_def plan_of_def clients_of_def)
    qed
  qed
qed

lemma host_fail_from:
  assumes "host_inv own env h" and "past_start (ho_phase h) \<or> ho_phase h = Host_Starting"
  shows "host_inv own env (host_fail own e h)"
proof -
  from assms have "cf_connections (ho_config h) = hv_connections env" "planned env (ho_entries h)"
    by (auto simp: host_inv_def dest: past_start_plan)
  moreover from assms(1) have "session_reachable (ho_config h) (ho_session h)"
    "bound_exactly own (ho_bindings h) (ho_bound h)"
    by (simp_all add: host_inv_def session_of_def clients_of_def)
  ultimately show ?thesis by (blast intro: host_fail_inv)
qed

lemma host_started_inv:
  assumes inv: "host_inv own env h" and ph: "ho_phase h = Host_Starting" and st: "host_started own h = Some h'"
  shows "host_inv own env h'"
proof (cases "se_start (ho_session h)")
  case (Start_Failed e)
  with st inv ph show ?thesis by (auto simp: host_started_def host_fail_from)
next
  case Started
  with st inv ph show ?thesis
    by (cases "se_state (ho_session h) = Ready")
       (auto simp: host_started_def host_inv_def session_of_def plan_of_def clients_of_def)
qed (use st in \<open>auto simp: host_started_def\<close>)

lemma host_bind_inv:
  assumes inv: "host_inv own env h" and ph: "ho_phase h = Host_Flows"
  shows "host_inv own env (host_bind own h)"
proof -
  have "past_start (ho_phase h) \<or> ho_phase h = Host_Starting" using ph by simp
  with inv have p: "cf_connections (ho_config h) = hv_connections env" "planned env (ho_entries h)"
    by (auto simp: host_inv_def dest: past_start_plan)
  from inv ph have b: "bound_exactly own (ho_bindings h) []" "ho_bound h = []"
    and reach: "session_reachable (ho_config h) (ho_session h)" "se_start (ho_session h) = Started"
    by (auto simp: host_inv_def session_of_def clients_of_def)
  obtain out b' bound' where st: "bind_entries own (ho_entries h) (ho_bindings h) [] = (out, b', bound')"
    by (metis prod_cases3)
  note e = bound_exactly_bind[OF b(1) st]
  show ?thesis
  proof (cases out)
    case (Inl x)
    with st b(2) have "host_bind own h = host_fail own x (h\<lparr>ho_bindings := b', ho_bound := bound'\<rparr>)"
      by (simp add: host_bind_def)
    with e p reach show ?thesis by (auto intro!: host_fail_inv)
  next
    case (Inr u)
    with st b(2) have "host_bind own h
        = (with_session (activate_workers (ho_config h)) (h\<lparr>ho_bindings := b', ho_bound := bound'\<rparr>))
            \<lparr>ho_phase := Host_Workers\<rparr>"
      by (simp add: host_bind_def)
    with e p reach Inr show ?thesis
      by (auto simp: host_inv_def session_of_def plan_of_def clients_of_def with_session_def
          intro: reach_activate)
  qed
qed

text \<open>The steps of \<open>host_answer\<close>: where it can happen, and what comes next.\<close>

lemma host_answer_cases:
  assumes "host_answer own a h = Some h'"
  obtains (failed) e where "a = Inl e" "h' = host_fail own e h" "past_start (ho_phase h)"
  | (controls) "ho_phase h = Host_Controls" "h' = h\<lparr>ho_phase := Host_Schedules\<rparr>"
  | (schedules) "ho_phase h = Host_Schedules" "h' = h\<lparr>ho_phase := Host_Flows\<rparr>"
  | (flows) "ho_phase h = Host_Flows" "h' = host_bind own h"
  | (workers) "ho_phase h = Host_Workers"
      "h' = (with_session activate_publisher h)\<lparr>ho_phase := Host_Publisher\<rparr>"
  | (publisher) "ho_phase h = Host_Publisher"
      "h' = (with_session activate_scheduler h)\<lparr>ho_phase := Host_Scheduler\<rparr>"
  | (scheduler) "ho_phase h = Host_Scheduler" "h' = h\<lparr>ho_phase := Host_Up\<rparr>"
  using assms
  by (cases a; cases "ho_phase h") (auto simp: host_answer_def Let_def split: if_splits)

lemma host_answer_inv:
  assumes inv: "host_inv own env h" and st: "host_answer own a h = Some h'"
  shows "host_inv own env h'"
  using st
proof (cases rule: host_answer_cases)
  case (failed e)
  with inv show ?thesis by (simp add: host_fail_from)
next
  case flows
  with inv show ?thesis by (simp add: host_bind_inv)
qed (use inv in \<open>auto simp: host_inv_def session_of_def plan_of_def clients_of_def with_session_def
      intro: reach_activate\<close>)

lemma closed_closing: "session_inv s \<Longrightarrow> se_state s = Closed \<Longrightarrow> se_closing s"
  by (cases "se_start s") (auto simp: session_inv_def phase_ok_def)

lemma host_session_inv:
  assumes inv: "host_inv own env h" and int: "internal ev"
    and st: "session_step (ho_config h) ev (ho_session h) = Some s"
  shows "host_inv own env (h\<lparr>ho_session := s\<rparr>)"
proof -
  from inv have reach: "session_reachable (ho_config h) (ho_session h)"
    by (simp add: host_inv_def session_of_def)
  note si = reachable_inv[OF reach]
  from reach_step[OF reach st] have "session_reachable (ho_config h) s" .
  moreover have "unstarted (ho_phase h) \<longrightarrow> se_start s = Not_Started \<and> (\<forall>cfg. session_reachable cfg s)"
    using inv unstarted_step[OF si _ disjI1[OF int] st] reach_step
    by (fastforce simp: host_inv_def session_of_def)
  moreover have started: "past_start (ho_phase h) \<longrightarrow> se_start s = Started
      \<and> (se_state s = Ready \<longrightarrow> se_state (ho_session h) = Ready)"
    using inv internal_ready[OF si int st] by (auto simp: host_inv_def session_of_def)
  moreover have closing: "se_closing (ho_session h) \<longrightarrow> se_closing s
      \<and> (se_state (ho_session h) = Closed \<longrightarrow> se_state s = Closed)"
    using closing_step[OF si _ st] by auto
  moreover have "\<forall>e. ho_phase h = Host_Failed e \<longrightarrow> se_start s = Not_Started \<or> se_state s = Closed"
    using inv unstarted_step[OF si _ disjI1[OF int] st] closing closed_closing[OF si]
    by (auto simp: host_inv_def session_of_def)
  ultimately have "session_of (h\<lparr>ho_session := s\<rparr>)"
    using inv by (auto simp: host_inv_def session_of_def)
  moreover have "plan_of env (h\<lparr>ho_session := s\<rparr>)"
    using inv by (simp add: host_inv_def plan_of_def split: host_phase.splits)
  moreover have "clients_of own (h\<lparr>ho_session := s\<rparr>)"
    using inv started closing by (cases "ho_phase h") (auto simp: host_inv_def clients_of_def)
  ultimately show ?thesis by (simp add: host_inv_def)
qed

lemma host_destroy_inv:
  assumes "host_inv own env h"
  shows "host_inv own env (host_destroy own h)"
proof -
  let ?h = "host_destroy own h"
  have f: "ho_phase ?h = ho_phase h" "ho_session ?h = session_close (ho_session h)" "ho_bound ?h = []"
    "ho_config ?h = ho_config h" "ho_entries ?h = ho_entries h" "ho_registry ?h = ho_registry h"
    "ho_bindings ?h = ho_bindings (detach own h)"
    by (simp_all add: host_destroy_def with_session_def detach_def)
  have "se_state s = Closed \<longrightarrow> se_state (session_close s) = Closed" if "session_inv s" for s
    using that closed_closing by (auto simp: session_close_def)
  with assms have "session_of ?h" unfolding session_of_def host_inv_def f
    by (auto intro: reach_close dest: reachable_inv)
  moreover from assms have "plan_of env ?h" by (simp add: host_inv_def plan_of_def f split: host_phase.splits)
  moreover from assms have "clients_of own ?h"
    by (simp add: host_inv_def clients_of_def f detach_bindings bound_exactly_detach)
  ultimately show ?thesis by (simp add: host_inv_def)
qed

lemma host_cleaned_inv:
  assumes "host_inv own env h" and "ho_phase h = Host_Cleaning e" and "host_cleaned e h = Some h'"
  shows "host_inv own env h'"
  using assms by (auto simp: host_inv_def session_of_def plan_of_def clients_of_def host_cleaned_def split: if_splits)

lemma host_inv_bindings:
  assumes "host_inv own env h" and "bound_exactly own b (ho_bound h)"
  shows "host_inv own env (h\<lparr>ho_bindings := b\<rparr>)"
  using assms by (cases "ho_phase h") (auto simp: host_inv_def session_of_def plan_of_def clients_of_def)

lemma host_step_inv:
  assumes inv: "host_inv own env h" and st: "host_step own env ev h = Some h'"
  shows "host_inv own env h'"
proof (cases ev)
  case (Ho_Other_Bind c owner client)
  with st obtain b where n: "owner \<noteq> own" and b: "bind_job_client c owner client (ho_bindings h) = Inr b"
    "h' = h\<lparr>ho_bindings := b\<rparr>" by (auto split: if_splits sum.splits)
  from inv have "bound_exactly own (ho_bindings h) (ho_bound h)" by (simp add: host_inv_def clients_of_def)
  from bound_exactly_other(1)[OF this n b(1)] show ?thesis
    unfolding b(2) by (rule host_inv_bindings[OF inv])
next
  case (Ho_Other_Unbind c owner)
  with st have n: "owner \<noteq> own" and h': "h' = h\<lparr>ho_bindings := unbind_job_client c owner (ho_bindings h)\<rparr>"
    by (auto split: if_splits)
  from inv have "bound_exactly own (ho_bindings h) (ho_bound h)" by (simp add: host_inv_def clients_of_def)
  from bound_exactly_other(2)[OF this n] show ?thesis
    unfolding h' by (rule host_inv_bindings[OF inv])
next
  case Ho_Destroy_Registry
  have "registry_destroy new_registry = new_registry" by (simp add: registry_destroy_def new_registry_def)
  moreover have "h' = h\<lparr>ho_registry := registry_destroy (ho_registry h)\<rparr>" using Ho_Destroy_Registry st by simp
  ultimately show ?thesis
    using inv by (cases "ho_phase h") (auto simp: host_inv_def session_of_def plan_of_def clients_of_def)
next
  case Ho_Bootstrap
  with st have "ho_phase h = Host_New" "h' = host_bootstrap env h" by (auto split: if_splits)
  with host_bootstrap_inv[OF inv] show ?thesis by simp
next
  case Ho_Prepared
  with st obtain plan where "ho_phase h = Host_Preparing plan" "h' = host_start own env plan h"
    by (auto split: host_phase.splits)
  with host_start_inv[OF inv] show ?thesis by simp
next
  case (Ho_Session ev')
  with st obtain s where "internal ev'" "session_step (ho_config h) ev' (ho_session h) = Some s"
    "h' = h\<lparr>ho_session := s\<rparr>" by (auto split: if_splits)
  with host_session_inv[OF inv] show ?thesis by simp
next
  case Ho_Started
  with st have "ho_phase h = Host_Starting" "host_started own h = Some h'" by (auto split: if_splits)
  with host_started_inv[OF inv] show ?thesis by simp
next
  case (Ho_Answer a)
  with st host_answer_inv[OF inv] show ?thesis by simp
next
  case Ho_Cleaned
  with st obtain e where "ho_phase h = Host_Cleaning e" "host_cleaned e h = Some h'"
    by (auto split: host_phase.splits)
  with host_cleaned_inv[OF inv] show ?thesis by simp
next
  case Ho_Destroy
  with st host_destroy_inv[OF inv] show ?thesis by simp
qed

lemma host_reachable_inv: "host_reachable own env h \<Longrightarrow> host_inv own env h"
  by (induction rule: host_reachable.induct) (auto intro: host_inv_new host_step_inv)


subsection \<open>The registry below the host\<close>

text \<open>
  The session is started with the queues of the registry that the bootstrap initialised, unless the registry
  has been destroyed before.
\<close>

definition started_with :: "host_env \<Rightarrow> registry \<Rightarrow> session_config \<Rightarrow> bool" where
  "started_with env reg cfg \<longleftrightarrow> (\<exists>r plan queues schedules. prepared env r plan \<and> reg \<in> {r, registry_destroy r}
     \<and> cfg = host_config env plan queues schedules \<and> (queues = rg_queues r \<or> reg = registry_destroy r))"

definition registry_kept :: "host_env \<Rightarrow> host \<Rightarrow> bool" where
  "registry_kept env h \<longleftrightarrow> (case ho_phase h of
       Host_New \<Rightarrow> ho_registry h = new_registry
     | Host_Preparing plan \<Rightarrow> (\<exists>r. prepared env r plan \<and> ho_registry h \<in> {r, registry_destroy r})
     | Host_Failed _ \<Rightarrow> True
     | _ \<Rightarrow> started_with env (ho_registry h) (ho_config h))"

fun underway :: "host_phase \<Rightarrow> bool" where
  "underway Host_New = False"
| "underway (Host_Preparing _) = False"
| "underway (Host_Failed _) = False"
| "underway _ = True"

lemma registry_kept_underway:
  "underway (ho_phase h) \<Longrightarrow> registry_kept env h \<longleftrightarrow> started_with env (ho_registry h) (ho_config h)"
  by (cases "ho_phase h") (simp_all add: registry_kept_def)

lemma registry_kept_moved:
  assumes "registry_kept env h" and "underway (ho_phase h)" and "underway (ho_phase h') \<or> (\<exists>e. ho_phase h' = Host_Failed e)"
    and "ho_registry h' = ho_registry h" and "ho_config h' = ho_config h"
  shows "registry_kept env h'"
  using assms by (auto simp: registry_kept_underway) (simp add: registry_kept_def)

lemma registry_kept_same:
  assumes "registry_kept env h" and "ho_phase h' = ho_phase h" and "ho_registry h' = ho_registry h"
    and "ho_config h' = ho_config h"
  shows "registry_kept env h'"
  using assms(1) unfolding registry_kept_def assms(2-4) .

lemma destroy_twice [simp]: "registry_destroy (registry_destroy r) = registry_destroy r"
  by (simp add: registry_destroy_def)

lemma destroy_new [simp]: "registry_destroy new_registry = new_registry"
  by (simp add: registry_destroy_def new_registry_def)

lemma started_with_destroyed: "started_with env reg cfg \<Longrightarrow> started_with env (registry_destroy reg) cfg"
  unfolding started_with_def by (metis destroy_twice insertCI insertE singletonD)

lemma underway_fail [simp]:
  "underway (ho_phase (host_fail own e h))" "ho_registry (host_fail own e h) = ho_registry h"
  "ho_config (host_fail own e h) = ho_config h"
  by (simp_all add: host_fail_def with_session_def detach_def)

lemma host_bind_keeps [simp]:
  "ho_registry (host_bind own h) = ho_registry h" "ho_config (host_bind own h) = ho_config h"
  "underway (ho_phase (host_bind own h))"
  by (auto simp: host_bind_def with_session_def split: sum.splits prod.splits)

lemma registry_kept_start:
  assumes "registry_kept env h" and "ho_phase h = Host_Preparing plan"
  shows "registry_kept env (host_start own env plan h)"
proof (cases "compile_schedules (hv_schedule_env env) (hv_define env) (hp_jobs plan) (hv_schedule_config env)")
  case (Inl e)
  then show ?thesis by (simp add: host_start_def registry_kept_def)
next
  case (Inr schedules)
  let ?cfg = "host_config env plan (rg_queues (ho_registry h)) schedules"
  from assms obtain r where r: "prepared env r plan" "ho_registry h \<in> {r, registry_destroy r}"
    by (auto simp: registry_kept_def)
  then have "started_with env (ho_registry h) ?cfg" unfolding started_with_def by blast
  moreover obtain out t where st: "session_start ?cfg (ho_session h) = (out, t)" by fastforce
  ultimately show ?thesis
    using Inr by (cases out) (simp_all add: host_start_def registry_kept_underway)
qed

lemma registry_kept_answer:
  assumes "host_answer own a h = Some h'" and "registry_kept env h"
  shows "registry_kept env h'"
  using assms(1)
proof (cases rule: host_answer_cases)
  case (failed e)
  then have "underway (ho_phase h)" by (cases "ho_phase h") simp_all
  with failed(2) assms(2) show ?thesis by (auto intro: registry_kept_moved)
qed (use assms(2) in \<open>auto intro!: registry_kept_moved[where h = h] simp: with_session_def\<close>)

lemma registry_kept_step:
  assumes "host_step own env ev h = Some h'" and "registry_kept env h"
  shows "registry_kept env h'"
proof (cases ev)
  case Ho_Bootstrap
  with assms show ?thesis
    by (auto simp: host_bootstrap_def registry_kept_def prepared_def split: if_splits sum.split)
next
  case Ho_Prepared
  with assms show ?thesis by (auto simp: registry_kept_start split: host_phase.splits)
next
  case Ho_Started
  with assms(1) have ph: "ho_phase h = Host_Starting" and st: "host_started own h = Some h'" by (auto split: if_splits)
  from st have "ho_registry h' = ho_registry h" "ho_config h' = ho_config h" "underway (ho_phase h')"
    by (auto simp: host_started_def split: start_status.splits)
  with assms(2) ph show ?thesis by (auto intro: registry_kept_moved)
next
  case (Ho_Answer a)
  with assms show ?thesis by (simp add: registry_kept_answer)
next
  case Ho_Cleaned
  with assms show ?thesis
    by (auto simp: host_cleaned_def registry_kept_def split: host_phase.splits if_splits)
next
  case Ho_Destroy_Registry
  with assms(1) have "h' = h\<lparr>ho_registry := registry_destroy (ho_registry h)\<rparr>" by simp
  with assms(2) show ?thesis
    by (cases "ho_phase h") (auto simp: registry_kept_def intro: started_with_destroyed)
qed (use assms in \<open>auto simp: host_destroy_def with_session_def detach_def
      intro!: registry_kept_same[where h = h] split: if_splits sum.splits\<close>)

lemma reachable_registry: "host_reachable own env h \<Longrightarrow> registry_kept env h"
  by (induction rule: host_reachable.induct)
    (auto simp: registry_kept_def new_host_def, simp add: registry_kept_step[unfolded registry_kept_def])

text \<open>The store of a connection a ready session has checked is there for its clients.\<close>

lemma ready_store:
  assumes "ready_ok cfg s" and "se_state s = Ready" and "q \<in> set (cf_queues cfg)" and "cf_connections cfg = Some cs"
  shows "q \<in> cn_name ` set cs \<and> with_store q s = Inr ()"
proof -
  from assms(1,4) have q: "check_queues (cf_queues cfg) cs = Inr ()"
    and r: "cs = [] \<or> se_runtime s \<and> st_jobs (se_ready s) = map cn_name cs"
    by (auto simp: ready_ok_def accepted_config_def)
  from q assms(3) have "q \<in> cn_name ` set cs" by (auto simp: check_queues_iff)
  with r assms(2) show ?thesis by (auto simp: with_store_def engine_ready_def)
qed

text \<open>The contracts of the entries are those of the registered jobs, each once.\<close>

lemma declare_entries:
  "loop declare_entry entries jobs = Inr out \<Longrightarrow>
     map fst out = map fst entries @ map rj_contract_id jobs \<and> (distinct (map fst entries) \<longrightarrow> distinct (map fst out))"
proof (induction jobs arbitrary: entries)
  case (Cons job jobs)
  from Cons.prems obtain mid where d: "declare_entry entries job = Inr mid" and l: "loop declare_entry mid jobs = Inr out"
    by (auto elim: rbind_InrE)
  from d obtain e where "rj_contract_id job \<notin> fst ` set entries"
    "mid = AList.update (rj_contract_id job) e entries"
    by (auto simp: declare_entry_def throw_if_iff map_of_eq_None elim!: rbind_InrE)
  then have "map fst mid = map fst entries @ [rj_contract_id job]" "rj_contract_id job \<notin> set (map fst entries)"
    by (auto simp: update_new)
  then have "map fst mid = map fst entries @ [rj_contract_id job]"
    "distinct (map fst entries) \<longrightarrow> distinct (map fst mid)" by (simp_all del: set_map)
  moreover note Cons.IH[OF l]
  ultimately show ?case by (intro conjI impI) (simp, blast)
qed simp

lemma prepared_jobs:
  assumes "prepared env r plan" and "hv_connections env \<noteq> None"
  shows "map fst (hp_entries plan) = map rj_contract_id (rg_jobs r) \<and> distinct (map rj_contract_id (rg_jobs r))"
proof -
  from assms obtain entries where "loop declare_entry [] (rg_jobs r) = Inr entries" "hp_entries plan = entries"
    by (auto simp: prepared_def host_prepare_def host_entries_def elim!: rbind_InrE)
  with declare_entries[of "[]" "rg_jobs r"] show ?thesis by auto
qed

subsection \<open>A concrete bootstrap\<close>

fun host_run :: "nat \<Rightarrow> host_env \<Rightarrow> host_event list \<Rightarrow> host \<Rightarrow> host option" where
  "host_run own env [] h = Some h"
| "host_run own env (ev # evs) h =
     (case host_step own env ev h of None \<Rightarrow> None | Some h' \<Rightarrow> host_run own env evs h')"

lemma host_run_reachable:
  "host_run own env evs h = Some h' \<Longrightarrow> host_reachable own env h \<Longrightarrow> host_reachable own env h'"
  by (induction evs arbitrary: h) (auto split: option.splits intro: host_step)

text \<open>One queue with one job on one connection, without flows, workers or schedules.\<close>

definition demo_env :: "flow_world \<Rightarrow> worker_world \<Rightarrow> schedule_env \<Rightarrow> define_schedule
    \<Rightarrow> schedule_config_input \<Rightarrow> host_env" where
  "demo_env fw ww se up cfg =
     \<lparr>hv_connections = Some [\<lparr>cn_name = ''default'', cn_boundary = 1, cn_scope = ''a'', cn_requirements = []\<rparr>],
      hv_workers = True, hv_scheduler = True, hv_publisher = True,
      hv_metadata = sample_world, hv_defaults = empty_policy, hv_providers = [sample_provider],
      hv_retry_store = (\<lambda>_. None), hv_retry_wrappers = [],
      hv_flow_world = fw, hv_flow_providers = [], hv_worker_world = ww, hv_worker_providers = [],
      hv_schedule_env = se, hv_define = up, hv_schedule_config = cfg\<rparr>"

definition demo_resource :: answer where
  "demo_resource = Answer_Resource \<lparr>rs_events = False, rs_flows = False, rs_schedules = False, rs_outbox = False\<rparr>"

definition demo_startup :: "host_event list" where
  "demo_startup = [Ho_Bootstrap, Ho_Prepared] @ map (Ho_Session \<circ> Ev_Init)
     [Answer_Runtime, demo_resource, Answer_Runtime, Answer_Runtime, Answer_Store True True [] True,
      Answer_Runtime, Answer_Runtime, Answer_Runtime, Answer_Runtime, Answer_Runtime]
     @ [Ho_Started, Ho_Answer (Inr ()), Ho_Answer (Inr ())]"

definition demo_activation :: "host_event list" where
  "demo_activation = [Ho_Answer (Inr ()), Ho_Answer (Inr ()), Ho_Answer (Inr ()), Ho_Answer (Inr ())]"

lemma demo_registry: "registry_initialize sample_world empty_policy [sample_provider] new_registry
   = Inr \<lparr>rg_queues = [\<lparr>qd_name = ''mail'', qd_connection = ''default'', qd_controls = None, qd_jobs = [sample_job]\<rparr>],
       rg_jobs = [sample_job], rg_by_identity = [(job_key ''default'' ''mail'' ''send'' 1, sample_job)],
       rg_initialized = True\<rparr>"
  by (simp add: registry_initialize_def new_registry_def scan_provider_def sample_provider_def
      new_scan_def register_queue_def register_job_def sample_definition)
     (simp add: sample_job_def sample_queue_def)

lemma demo_compiled: "\<exists>c. compile_job sample_job True = Inr c"
  by (simp add: compile_job_def sample_job_def initial_policy_def is_custom_def compile_backoff_def
      copy_retry_def Let_def jint_def require_integer_def is_safe_integer_def max_safe_def)

lemma demo_prepared:
  "\<exists>e. host_prepare (demo_env fw ww se up cfg)
     \<lparr>rg_queues = qs, rg_jobs = [sample_job], rg_by_identity = is, rg_initialized = True\<rparr>
   = Inr \<lparr>hp_entries = [(5, e)], hp_flows = [], hp_plans = [], hp_jobs = [sample_job]\<rparr>"
proof -
  obtain c where "compile_job sample_job True = Inr c" using demo_compiled by blast
  then have "host_entries (demo_env fw ww se up cfg)
      \<lparr>rg_queues = qs, rg_jobs = [sample_job], rg_by_identity = is, rg_initialized = True\<rparr>
    = Inr [(5, \<lparr>fe_registered = sample_job, fe_compiled = c\<rparr>)]"
    by (simp add: host_entries_def demo_env_def declare_entry_def) (simp add: sample_job_def)
  then show ?thesis
    by (simp add: host_prepare_def demo_env_def new_retry_policies_def discover_flows_def scan_flows_def
        discover_workers_def)
qed

text \<open>The host after \<open>demo_startup\<close>: the flow checks are being awaited.\<close>

definition demo_waiting :: "nat \<Rightarrow> host \<Rightarrow> bool" where
  "demo_waiting own h \<longleftrightarrow> ho_phase h = Host_Flows \<and> ho_entries h = [5] \<and> ho_bound h = []
     \<and> ho_bindings h = (\<lambda>_. None) \<and> se_state (ho_session h) = Ready \<and> se_runtime (ho_session h)
     \<and> cf_plans (ho_config h) = [] \<and> \<not> se_has_publisher (ho_session h) \<and> \<not> se_has_scheduler (ho_session h)
     \<and> se_activating (ho_session h) = Not_Activated \<and> se_publishing (ho_session h) = Not_Activated
     \<and> se_scheduling (ho_session h) = Not_Activated \<and> \<not> se_closing (ho_session h)
     \<and> registry_initialize sample_world empty_policy [sample_provider] new_registry = Inr (ho_registry h)"

lemma demo_startup_run:
  "\<exists>h. host_run own (demo_env fw ww se up cfg) demo_startup (new_host (\<lambda>_. None)) = Some h \<and> demo_waiting own h"
proof -
  let ?env = "demo_env fw ww se up cfg"
  obtain e where p: "host_prepare ?env \<lparr>rg_queues = [\<lparr>qd_name = ''mail'', qd_connection = ''default'',
        qd_controls = None, qd_jobs = [sample_job]\<rparr>], rg_jobs = [sample_job],
      rg_by_identity = [(job_key ''default'' ''mail'' ''send'' 1, sample_job)], rg_initialized = True\<rparr>
    = Inr \<lparr>hp_entries = [(5, e)], hp_flows = [], hp_plans = [], hp_jobs = [sample_job]\<rparr>"
    using demo_prepared by blast
  have s: "compile_schedules se' up' [sample_job] cfg' = Inr []" for se' up' cfg'
    by (simp add: compile_schedules_def declared_schedules_def sample_job_def)
  have r: "registry_initialize (hv_metadata ?env) (hv_defaults ?env) (hv_providers ?env) new_registry
    = Inr \<lparr>rg_queues = [\<lparr>qd_name = ''mail'', qd_connection = ''default'', qd_controls = None, qd_jobs = [sample_job]\<rparr>],
       rg_jobs = [sample_job], rg_by_identity = [(job_key ''default'' ''mail'' ''send'' 1, sample_job)],
       rg_initialized = True\<rparr>"
    using demo_registry by (simp add: demo_env_def)
  have c: "hv_connections ?env = Some [\<lparr>cn_name = ''default'', cn_boundary = 1, cn_scope = ''a'', cn_requirements = []\<rparr>]"
    by (simp add: demo_env_def)
  show ?thesis
    using p r s c
    by (simp add: demo_startup_def host_bootstrap_def new_host_def host_start_def host_config_def Let_def
        sample_session host_started_def host_answer_def demo_resource_def demo_waiting_def demo_registry)
qed

lemmas host_wait_defs = host_answer_def host_bind_def bind_job_client_def with_session_def activate_workers_def
  activate_publisher_def activate_scheduler_def host_destroy_def detach_def session_close_def

lemma demo_activated:
  assumes "demo_waiting own h"
  shows "\<exists>h'. host_run own env demo_activation h = Some h' \<and> ho_phase h' = Host_Up
     \<and> se_state (ho_session h') = Ready \<and> ho_bound h' = [5]
     \<and> registry_initialize sample_world empty_policy [sample_provider] new_registry = Inr (ho_registry h')"
  using assms by (simp add: demo_waiting_def demo_activation_def host_wait_defs engine_ready_def)

lemma demo_up:
  "\<exists>h. host_reachable own (demo_env fw ww se up cfg) h \<and> ho_phase h = Host_Up
     \<and> se_state (ho_session h) = Ready \<and> ho_bound h = [5]
     \<and> registry_initialize sample_world empty_policy [sample_provider] new_registry = Inr (ho_registry h)"
proof -
  let ?env = "demo_env fw ww se up cfg"
  obtain h where h: "host_run own ?env demo_startup (new_host (\<lambda>_. None)) = Some h" "demo_waiting own h"
    using demo_startup_run by blast
  obtain h' where h': "host_run own ?env demo_activation h = Some h'" "ho_phase h' = Host_Up"
    "se_state (ho_session h') = Ready" "ho_bound h' = [5]"
    "registry_initialize sample_world empty_policy [sample_provider] new_registry = Inr (ho_registry h')"
    using demo_activated[OF h(2)] by blast
  have "host_reachable own ?env (new_host (\<lambda>_. None))" by (rule host_new) (simp add: fresh_owner_def)
  from host_run_reachable[OF h'(1) host_run_reachable[OF h(1) this]] h' show ?thesis by blast
qed

text \<open>
  A destruction that comes while the bootstrap awaits its last check detaches nothing, because nothing is
  bound yet; the bootstrap then binds its clients to a closing application and keeps them.
\<close>

lemma late_destroy_keeps_clients:
  "\<exists>h. host_reachable own (demo_env fw ww se up cfg) h \<and> ho_phase h = Host_Up
     \<and> se_closing (ho_session h) \<and> ho_bound h = [5]"
proof -
  let ?env = "demo_env fw ww se up cfg"
  obtain h where h: "host_run own ?env demo_startup (new_host (\<lambda>_. None)) = Some h" "demo_waiting own h"
    using demo_startup_run by blast
  have "\<exists>h'. host_run own ?env (Ho_Destroy # demo_activation) h = Some h' \<and> ho_phase h' = Host_Up
     \<and> se_closing (ho_session h') \<and> ho_bound h' = [5]"
    using h(2) by (simp add: demo_waiting_def demo_activation_def host_wait_defs engine_ready_def)
  then obtain h' where h': "host_run own ?env (Ho_Destroy # demo_activation) h = Some h'"
    "ho_phase h' = Host_Up" "se_closing (ho_session h')" "ho_bound h' = [5]" by blast
  have "host_reachable own ?env (new_host (\<lambda>_. None))" by (rule host_new) (simp add: fresh_owner_def)
  from host_run_reachable[OF h'(1) host_run_reachable[OF h(1) this]] h' show ?thesis by blast
qed

subsection \<open>Properties\<close>

text \<open>
  C5. Through any interleaving of the bootstrap, the session, the destruction of the module and other
  applications, what an application has bound is exactly what it recorded: its own contracts, each once
  and with its own client. It holds either none or all of its contracts, and none before the flow checks
  have passed; a bootstrap that fails leaves nothing bound, and one that fails after the session was
  started ends with the session closed.
\<close>

theorem host_bindings_exact:
  assumes "host_reachable own env h"
  shows "owned own (ho_bindings h) = set (ho_bound h)
    \<and> (\<forall>c\<in>set (ho_bound h). ho_bindings h c = Some \<lparr>bd_owner = own, bd_client = c\<rparr>)
    \<and> (ho_bound h = [] \<or> ho_bound h = ho_entries h \<and> holds_clients (ho_phase h))
    \<and> (\<forall>e. ho_phase h = Host_Failed e \<longrightarrow> ho_bound h = []
         \<and> (se_start (ho_session h) = Not_Started \<or> se_state (ho_session h) = Closed))"
  using host_reachable_inv[OF assms]
  by (auto simp: host_inv_def clients_of_def bound_exactly_def session_of_def)

theorem host_bindings_exact_witness:
  "\<forall>fw ww se up cfg. \<exists>h. host_reachable 1 (demo_env fw ww se up cfg) h
     \<and> ho_bindings h 5 = Some \<lparr>bd_owner = 1, bd_client = 5\<rparr>"
proof (intro allI)
  fix fw ww se up cfg
  obtain h where "host_reachable 1 (demo_env fw ww se up cfg) h" "ho_bound h = [5]" using demo_up by blast
  with host_bindings_exact[OF this(1)] show "\<exists>h. host_reachable 1 (demo_env fw ww se up cfg) h
     \<and> ho_bindings h 5 = Some \<lparr>bd_owner = 1, bd_client = 5\<rparr>" by auto
qed

text \<open>
  C6. An application that has come up ready serves every job it registered: no two jobs share a contract,
  every contract is bound to this application with its own client, the session runs on the configured
  connections, all of which it acquired, and, as long as the registry is not destroyed (Nest does so together
  with the host), the connection of every job is one of them and its store is open to the job's client.
\<close>

theorem host_ready_serves:
  assumes "host_reachable own env h" and "ho_phase h = Host_Up" and "se_state (ho_session h) = Ready"
  shows "\<exists>r cs. registry_initialize (hv_metadata env) (hv_defaults env) (hv_providers env) new_registry = Inr r
    \<and> hv_connections env = Some cs \<and> se_taken (ho_session h) = map cn_name cs
    \<and> distinct (map rj_contract_id (rg_jobs r))
    \<and> (\<forall>job\<in>set (rg_jobs r). job_client (rj_contract_id job) (ho_bindings h) = Inr (rj_contract_id job)
         \<and> map_option bd_owner (ho_bindings h (rj_contract_id job)) = Some own)
    \<and> ho_registry h \<in> {r, registry_destroy r}
    \<and> (ho_registry h = r \<longrightarrow> (\<forall>job\<in>set (rg_jobs r). ji_connection (rj_identity job) \<in> cn_name ` set cs
         \<and> with_store (ji_connection (rj_identity job)) (ho_session h) = Inr ()))"
proof -
  note inv = host_reachable_inv[OF assms(1), unfolded host_inv_def session_of_def plan_of_def clients_of_def]
  from inv have reach: "session_reachable (ho_config h) (ho_session h)" by simp
  note ready = reachable_ready[OF reach assms(3)]
  then obtain cs where
    cs: "cf_connections (ho_config h) = Some cs" "se_taken (ho_session h) = map cn_name cs"
    by (auto simp: ready_ok_def accepted_config_def)
  from reachable_registry[OF assms(1)] assms(2) obtain r plan queues schedules where p: "prepared env r plan"
    and reg: "ho_registry h \<in> {r, registry_destroy r}" and cfg: "ho_config h = host_config env plan queues schedules"
    and queues: "queues = rg_queues r \<or> ho_registry h = registry_destroy r"
    by (auto simp: registry_kept_def started_with_def)
  have init: "registry_initialize (hv_metadata env) (hv_defaults env) (hv_providers env) new_registry = Inr r"
    using p by (simp add: prepared_def)
  have c: "hv_connections env = Some cs" using cs(1) cfg by (simp add: host_config_def)
  from inv assms(2) obtain r' plan' where p': "prepared env r' plan'" "ho_entries h = map fst (hp_entries plan')"
    by (auto simp: planned_def)
  with p have same: "r' = r" by (simp add: prepared_def)
  from ready_open[OF reachable_inv[OF reach] assms(3)] inv assms(2,3)
  have b: "ho_bound h = ho_entries h" "bound_exactly own (ho_bindings h) (ho_bound h)" by auto
  from prepared_jobs[OF p'(1)] c have j: "ho_entries h = map rj_contract_id (rg_jobs r)"
    "distinct (map rj_contract_id (rg_jobs r))" by (simp_all add: p'(2) same)
  have bound: "ho_bindings h (rj_contract_id job) = Some \<lparr>bd_owner = own, bd_client = rj_contract_id job\<rparr>"
    if "job \<in> set (rg_jobs r)" for job
    using b j(1) that by (auto simp: bound_exactly_def)
  have served: "ji_connection (rj_identity job) \<in> cn_name ` set cs
      \<and> with_store (ji_connection (rj_identity job)) (ho_session h) = Inr ()"
    if "ho_registry h = r" "job \<in> set (rg_jobs r)" for job
  proof (rule ready_store[OF ready assms(3) _ cs(1)])
    have "rg_jobs (registry_destroy r) = []" by (simp add: registry_destroy_def)
    with that queues have "queues = rg_queues r" by (metis empty_iff list.set(1))
    with registry_job_connection[OF init that(2)] show "ji_connection (rj_identity job) \<in> set (cf_queues (ho_config h))"
      by (simp add: cfg host_config_def)
  qed
  show ?thesis
    using init c cs(2) j(2) bound reg served
    by (intro exI[of _ r] exI[of _ cs]) (auto simp: job_client_def)
qed

theorem host_ready_serves_witness:
  "\<forall>fw ww se up cfg. \<exists>h :: host. ho_phase h = Host_Up \<and> se_taken (ho_session h) = [''default'']
     \<and> job_client (rj_contract_id sample_job) (ho_bindings h) = Inr 5 \<and> with_store ''default'' (ho_session h) = Inr ()"
proof (intro allI)
  fix fw ww se up cfg
  let ?env = "demo_env fw ww se up cfg"
  obtain h where h: "host_reachable 1 ?env h" "ho_phase h = Host_Up" "se_state (ho_session h) = Ready"
    and reg: "registry_initialize sample_world empty_policy [sample_provider] new_registry = Inr (ho_registry h)"
    using demo_up by blast
  from host_ready_serves[OF h] obtain r cs where
    r: "registry_initialize (hv_metadata ?env) (hv_defaults ?env) (hv_providers ?env) new_registry = Inr r"
    and cs: "hv_connections ?env = Some cs" "se_taken (ho_session h) = map cn_name cs"
    and b: "\<forall>job\<in>set (rg_jobs r). job_client (rj_contract_id job) (ho_bindings h) = Inr (rj_contract_id job)"
    and w: "ho_registry h = r \<longrightarrow> (\<forall>job\<in>set (rg_jobs r). with_store (ji_connection (rj_identity job)) (ho_session h) = Inr ())"
    by auto
  from r reg have same: "ho_registry h = r" by (simp add: demo_env_def)
  from r have "rg_jobs r = [sample_job]" using demo_registry by (auto simp: demo_env_def)
  with b w same have "job_client (rj_contract_id sample_job) (ho_bindings h) = Inr (rj_contract_id sample_job)"
    "with_store (ji_connection (rj_identity sample_job)) (ho_session h) = Inr ()" by simp_all
  moreover have "rj_contract_id sample_job = 5" "ji_connection (rj_identity sample_job) = ''default''"
    by (simp_all add: sample_job_def)
  moreover from cs have "se_taken (ho_session h) = [''default'']" by (auto simp: demo_env_def)
  ultimately show "\<exists>h :: host. ho_phase h = Host_Up \<and> se_taken (ho_session h) = [''default'']
     \<and> job_client (rj_contract_id sample_job) (ho_bindings h) = Inr 5 \<and> with_store ''default'' (ho_session h) = Inr ()"
    using h(2) by (intro exI[of _ h]) simp
qed

text \<open>
  Applications do not disturb each other: no step of an application changes a binding another one
  owns.
\<close>

theorem host_isolated:
  assumes "host_reachable own env h" and "host_step own env ev h = Some h'"
    and "\<And>c owner client. ev \<noteq> Ho_Other_Bind c owner client \<and> ev \<noteq> Ho_Other_Unbind c owner"
    and "ho_bindings h c = Some x" "bd_owner x \<noteq> own"
  shows "ho_bindings h' c = Some x"
proof -
  have d: "ho_bindings (detach own g) c = Some x" if "ho_bindings g c = Some x" for g
    using that assms(5) by (simp add: detach_bindings unbind_all owned_def)
  have f: "ho_bindings (host_fail own e g) c = Some x" if "ho_bindings g c = Some x" for e g
    using that d by simp
  have b: "ho_bindings (host_bind own h) c = Some x"
  proof -
    obtain out b' bound' where st: "bind_entries own (ho_entries h) (ho_bindings h) (ho_bound h) = (out, b', bound')"
      by (metis prod_cases3)
    from bind_entries_effect[OF st] obtain ds where "set ds \<inter> dom (ho_bindings h) = {}"
      "b' = (\<lambda>c. if c \<in> set ds then Some \<lparr>bd_owner = own, bd_client = c\<rparr> else ho_bindings h c)" by blast
    with assms(4) have "b' c = Some x" by auto
    with st f show ?thesis by (cases out) (simp_all add: host_bind_def with_session_def)
  qed
  show ?thesis
  proof (cases ev)
    case (Ho_Answer a)
    with assms(2) have "host_answer own a h = Some h'" by simp
    then show ?thesis using assms(4) f b
      by (cases rule: host_answer_cases) (auto simp: with_session_def)
  qed (use assms f d in \<open>auto simp: host_bootstrap_def host_start_def host_started_def host_cleaned_def
        host_destroy_def with_session_def Let_def split: if_splits sum.splits host_phase.splits
        start_status.splits prod.splits\<close>)
qed

theorem host_isolated_witness:
  "\<forall>fw ww se up cfg. \<exists>h :: host. host_step 1 (demo_env fw ww se up cfg) Ho_Destroy
       (new_host (\<lambda>c. if c = 9 then Some \<lparr>bd_owner = 2, bd_client = 9\<rparr> else None)) = Some h
     \<and> ho_bindings h 9 = Some \<lparr>bd_owner = 2, bd_client = 9\<rparr>"
proof (intro allI)
  fix fw ww se up cfg
  let ?env = "demo_env fw ww se up cfg" and ?b = "\<lambda>c. if c = 9 then Some \<lparr>bd_owner = 2, bd_client = 9\<rparr> else None"
  have r: "host_reachable 1 ?env (new_host ?b)" by (rule host_new) (simp add: fresh_owner_def)
  have st: "host_step 1 ?env Ho_Destroy (new_host ?b) = Some (host_destroy 1 (new_host ?b))" by simp
  from host_isolated[OF r st, of 9] st
  show "\<exists>h :: host. host_step 1 ?env Ho_Destroy (new_host ?b) = Some h
     \<and> ho_bindings h 9 = Some \<lparr>bd_owner = 2, bd_client = 9\<rparr>" by (simp add: new_host_def)
qed

end
