(* ===== verification/Mq_Configuration.thy ===== *)
theory Mq_Configuration
  imports Mq_Host Mq_Outbox
begin

text \<open>
  \<open>src/module/mq.configuration.ts\<close>, \<open>src/module/mq-module.options.ts\<close>,
  \<open>src/engine/connection-definition.ts\<close>, the constructor of \<open>src/engine/engine-session.ts\<close> and the
  selection of queues in \<open>src/engine/operation-store.ts\<close>: what becomes of the options of the module.
  A connection is an opaque object, here a number; the \<open>WeakMap\<close> of definitions is a map from these
  numbers. The acquisition function of a definition is of any type \<open>'q\<close>; a boundary, an object or a
  string, is named by a number.
\<close>

subsection \<open>Connection definitions\<close>

datatype ownership = Owned | Borrowed

record mq_connection =
  mc_id :: nat
  mc_adapter :: string
  mc_ownership :: ownership

record 'q connection_definition =
  cd_boundary :: nat
  cd_scope :: string
  cd_requirements :: "string list"
  cd_acquire :: 'q

record connection_input =
  ci_adapter :: string
  ci_ownership :: ownership
  ci_boundary :: nat
  ci_scope :: string
  ci_requirements :: "string list option"

type_synonym 'q definitions = "nat \<rightharpoonup> 'q connection_definition"

text \<open>\<open>fresh\<close> is the identity of the object that is created.\<close>

definition define_connection :: "nat \<Rightarrow> connection_input \<Rightarrow> 'q \<Rightarrow> 'q definitions
    \<Rightarrow> mq_connection \<times> 'q definitions" where
  "define_connection fresh i acquire defs =
     (\<lparr>mc_id = fresh, mc_adapter = ci_adapter i, mc_ownership = ci_ownership i\<rparr>,
      defs(fresh \<mapsto> \<lparr>cd_boundary = ci_boundary i, cd_scope = ci_scope i,
        cd_requirements = orelse (ci_requirements i) [], cd_acquire = acquire\<rparr>))"

definition connection_definition_of :: "'q definitions \<Rightarrow> mq_connection \<Rightarrow> string
    \<Rightarrow> 'q connection_definition res" where
  "connection_definition_of defs c name = need (defs (mc_id c)) (Mq_Connection name ConnConfiguration)"

text \<open>
  The service tokens of a connection, named by its store, and what an acquisition hands over: the layer
  of its job store, whether it has a release of its own, and a layer per further store. \<open>'l\<close> is the
  adapter's type of layers.
\<close>

datatype service_token = Job_Store string | Events_Of service_token | Schedules_Of service_token
  | Flows_Of service_token | Outbox_Store string

definition named_store_token :: "string \<Rightarrow> service_token" where
  "named_store_token name = Job_Store (''nestjs/'' @ name)"

definition event_token :: "string \<Rightarrow> service_token" where
  "event_token name = Events_Of (named_store_token name)"

definition schedule_token :: "string \<Rightarrow> service_token" where
  "schedule_token name = Schedules_Of (named_store_token name)"

definition flow_token :: "string \<Rightarrow> service_token" where
  "flow_token name = Flows_Of (named_store_token name)"

definition outbox_token :: "string \<Rightarrow> service_token" where
  "outbox_token name = Outbox_Store (''nestjs/'' @ name)"

record 'l acquired_connection =
  ac_layer :: 'l
  ac_release :: bool
  ac_events :: "(string \<Rightarrow> 'l) option"
  ac_flow_reads :: "(string \<Rightarrow> 'l) option"
  ac_flows :: "(string \<Rightarrow> 'l) option"
  ac_schedules :: "(string \<Rightarrow> 'l) option"
  ac_outbox :: "(string \<Rightarrow> 'l) option"

text \<open>What the session reads of it.\<close>

definition offered :: "'l acquired_connection \<Rightarrow> resource" where
  "offered a = \<lparr>rs_events = ac_events a \<noteq> None, rs_flows = ac_flows a \<noteq> None,
     rs_schedules = ac_schedules a \<noteq> None, rs_outbox = ac_outbox a \<noteq> None\<rparr>"

type_synonym connection_map = "(string \<times> mq_connection) list"

definition copy_connections :: "'q definitions \<Rightarrow> connection_map option \<Rightarrow> connection_map option res" where
  "copy_connections defs connections =
     (case connections of
        None \<Rightarrow> Inr None
      | Some entries \<Rightarrow>
          rbind (each (\<lambda>(name, c).
            rbind (require_name name) (\<lambda>_.
            rbind (connection_definition_of defs c name) (\<lambda>_. Inr ()))) entries) (\<lambda>_.
          Inr (Some entries)))"

text \<open>What the session reads of the connections: their names with boundary, scope and requirements.\<close>

definition session_connections :: "'q definitions \<Rightarrow> connection_map \<Rightarrow> connection list res" where
  "session_connections defs entries =
     collect (\<lambda>(name, c). rbind (connection_definition_of defs c name) (\<lambda>d.
       Inr \<lparr>cn_name = name, cn_boundary = cd_boundary d, cn_scope = cd_scope d,
            cn_requirements = cd_requirements d\<rparr>)) entries"

text \<open>The queues an operation store dispatches for: those of its own connection.\<close>

definition operation_queues :: "string \<Rightarrow> queue_definition list \<Rightarrow> queue_definition list" where
  "operation_queues name queues = filter (\<lambda>q. qd_connection q = name) queues"

subsection \<open>Module options\<close>

record shutdown_options =
  so_grace_period_ms :: "jsnum option"
  so_abort_after :: "bool option"

record execution_options =
  xo_scheduler :: "bool option"
  xo_workers :: "bool option"
  xo_publisher :: "bool option"

record module_options =
  mo_shutdown :: "shutdown_options option"
  mo_defaults :: "job_policy option"
  mo_schedules :: schedule_config_input
  mo_outbox :: outbox_options
  mo_controls_mode :: "sync_mode option"
  mo_controls_group :: "string option"
  mo_connections :: "connection_map option"
  mo_execution :: "execution_options option"

record resolved_options =
  rv_grace_period_ms :: jsnum
  rv_abort_after :: bool
  rv_defaults :: resolved_policy
  rv_schedules :: schedule_config
  rv_outbox :: outbox_config
  rv_controls :: controls_config
  rv_connections :: "connection_map option"
  rv_workers :: bool
  rv_scheduler :: bool
  rv_publisher :: bool

definition mq_configuration :: "schedule_env \<Rightarrow> 'q definitions \<Rightarrow> module_options \<Rightarrow> resolved_options res" where
  "mq_configuration env defs opts =
     (let grace = orelse (Option.bind (mo_shutdown opts) so_grace_period_ms) (jint 30000) in
      rbind (throw_if (\<not> is_safe_integer grace \<or> js_less grace (jint 0)) Range_Error) (\<lambda>_.
      rbind (resolve_job_policy [orelse (mo_defaults opts) empty_policy]) (\<lambda>defaults.
      rbind (resolve_schedule_options env (mo_schedules opts)) (\<lambda>schedules.
      rbind (resolve_outbox_options (mo_outbox opts)) (\<lambda>outbox.
      rbind (resolve_controls_options (mo_controls_mode opts) (mo_controls_group opts)) (\<lambda>controls.
      rbind (copy_connections defs (mo_connections opts)) (\<lambda>connections.
      Inr \<lparr>rv_grace_period_ms = grace,
           rv_abort_after = orelse (Option.bind (mo_shutdown opts) so_abort_after) True,
           rv_defaults = defaults, rv_schedules = schedules, rv_outbox = outbox, rv_controls = controls,
           rv_connections = connections,
           rv_workers = orelse (Option.bind (mo_execution opts) xo_workers) True,
           rv_scheduler = orelse (Option.bind (mo_execution opts) xo_scheduler) True,
           rv_publisher = orelse (Option.bind (mo_execution opts) xo_publisher) True\<rparr>)))))))"

subsection \<open>The session's constructor\<close>

text \<open>The resolved options are options again: every field is present.\<close>

definition outbox_input_of :: "outbox_config \<Rightarrow> outbox_options" where
  "outbox_input_of c =
     \<lparr>oo_concurrency = Some (oc_concurrency c), oo_lease_ms = Some (oc_lease_ms c),
      oo_heartbeat_ms = Some (oc_heartbeat_ms c), oo_poll_ms = Some (oc_poll_ms c),
      oo_retry_base_ms = Some (oc_retry_base_ms c), oo_retry_max_ms = Some (oc_retry_max_ms c)\<rparr>"

definition schedule_input_of :: "schedule_config \<Rightarrow> schedule_config_input" where
  "schedule_input_of c =
     \<lparr>si_shape = plain_shape [''mode'', ''group'', ''sweepIntervalMs'', ''batchSize'', ''maxStoreRetries'', ''retryDelayMs''],
      si_mode = Some (sc_mode c), si_group = Some (sc_group c),
      si_sweep_interval_ms = Some (sc_sweep_interval_ms c), si_batch_size = Some (sc_batch_size c),
      si_max_store_retries = Some (sc_max_store_retries c), si_retry_delay_ms = Some (sc_retry_delay_ms c)\<rparr>"

record session_options =
  ss_outbox :: outbox_config
  ss_schedules :: schedule_config
  ss_scheduler :: bool
  ss_publisher :: bool
  ss_connections :: "connection_map option"
  ss_grace_period_ms :: jsnum
  ss_abort_after :: bool

definition session_constructor :: "schedule_env \<Rightarrow> 'q definitions \<Rightarrow> connection_map option
    \<Rightarrow> shutdown_options \<Rightarrow> bool option \<times> outbox_options \<Rightarrow> bool option \<times> schedule_config_input
    \<Rightarrow> session_options res" where
  "session_constructor env defs connections shutdown outbox schedules =
     rbind (resolve_outbox_options (snd outbox)) (\<lambda>outbox_options.
     rbind (resolve_schedule_options env (snd schedules)) (\<lambda>schedule_options.
     rbind (copy_connections defs connections) (\<lambda>configured.
     Inr \<lparr>ss_outbox = outbox_options, ss_schedules = schedule_options,
          ss_scheduler = orelse (fst schedules) True, ss_publisher = orelse (fst outbox) True,
          ss_connections = configured,
          ss_grace_period_ms = orelse (so_grace_period_ms shutdown) (jint 30000),
          ss_abort_after = orelse (so_abort_after shutdown) True\<rparr>)))"

text \<open>The host hands the resolved options to the session.\<close>

definition host_session_options :: "schedule_env \<Rightarrow> 'q definitions \<Rightarrow> resolved_options \<Rightarrow> session_options res" where
  "host_session_options env defs c =
     session_constructor env defs (rv_connections c)
       \<lparr>so_grace_period_ms = Some (rv_grace_period_ms c), so_abort_after = Some (rv_abort_after c)\<rparr>
       (Some (rv_publisher c), outbox_input_of (rv_outbox c))
       (Some (rv_scheduler c), schedule_input_of (rv_schedules c))"

subsection \<open>Properties\<close>

lemma resolve_outbox_again:
  assumes "resolve_outbox_options opts = Inr c"
  shows "resolve_outbox_options (outbox_input_of c) = Inr c"
proof -
  have "outbox_config_of (outbox_input_of c) = c" by (simp add: outbox_config_of_def outbox_input_of_def Let_def)
  moreover from assms have "c = outbox_config_of opts"
    by (auto simp: resolve_outbox_options_def Let_def elim!: rbind_InrE)
  ultimately show ?thesis using assms by (simp add: resolve_outbox_options_def Let_def)
qed

lemma resolve_schedule_again:
  assumes "resolve_schedule_options env i = Inr c"
  shows "resolve_schedule_options env (schedule_input_of c) = Inr c"
proof -
  have same: "schedule_config_of (schedule_input_of c) = c"
    by (simp add: schedule_config_of_def schedule_input_of_def)
  from assms have "c = schedule_config_of i"
    by (auto simp: resolve_schedule_options_def catch_res_Inr_iff Let_def elim!: rbind_InrE)
  moreover have "schedule_fields (si_shape (schedule_input_of c))
      [''mode'', ''group'', ''sweepIntervalMs'', ''batchSize'', ''maxStoreRetries'', ''retryDelayMs''] = Inr ()"
    by (simp add: schedule_fields_def schedule_input_of_def check_shape_eq)
  ultimately show ?thesis
    using assms unfolding resolve_schedule_options_def catch_res_Inr_iff Let_def same
    by (auto simp: same elim!: rbind_InrE)
qed

lemma copy_connections_ok:
  "copy_connections defs m = Inr out \<longleftrightarrow> out = m
     \<and> (\<forall>entries. m = Some entries \<longrightarrow> (\<forall>(name, c)\<in>set entries. valid_name name \<and> defs (mc_id c) \<noteq> None))"
  by (cases m) (auto simp: copy_connections_def rbind_Inr_iff each_ok checks_ok connection_definition_of_def need_ok)

lemma session_connections_total:
  "\<forall>(name, c)\<in>set entries. defs (mc_id c) \<noteq> None \<Longrightarrow>
     \<exists>cs. session_connections defs entries = Inr cs \<and> map cn_name cs = map fst entries"
proof (induction entries)
  case (Cons e entries)
  obtain name c where e: "e = (name, c)" by fastforce
  with Cons.prems obtain d where "defs (mc_id c) = Some d" by auto
  moreover from Cons obtain cs where "session_connections defs entries = Inr cs" "map cn_name cs = map fst entries"
    by auto
  ultimately show ?case by (simp add: e session_connections_def connection_definition_of_def)
qed (simp add: session_connections_def)

lemma resolve_controls_valid:
  "resolve_controls_options mode grp = Inr k \<Longrightarrow> cc_mode k \<in> {Validate, Reconcile} \<and> valid_name (cc_group k)"
  by (auto simp: resolve_controls_options_def Let_def throw_if_iff checks_ok elim!: rbind_InrE)

text \<open>
  C28. Options the module accepts are valid as a whole, and stay so: the grace period is a non-negative
  safe integer, the default policy, the scheduler, the publisher and the deployment mode are valid, every
  connection has a valid name and a definition; and the session built from the resolved options accepts
  them unchanged, since resolving what is resolved gives the same.
\<close>

theorem configuration_sound:
  assumes "mq_configuration env defs opts = Inr c"
  shows "(\<exists>g. rv_grace_period_ms c = jint g \<and> 0 \<le> g \<and> g \<le> max_safe)
    \<and> valid_resolved (rv_defaults c) \<and> valid_schedule_config (rv_schedules c)
    \<and> cc_mode (rv_controls c) \<in> {Validate, Reconcile} \<and> valid_name (cc_group (rv_controls c))
    \<and> (\<forall>entries. rv_connections c = Some entries \<longrightarrow>
         (\<exists>cs. session_connections defs entries = Inr cs \<and> map cn_name cs = map fst entries
            \<and> list_all (valid_name \<circ> cn_name) cs))
    \<and> host_session_options env defs c = Inr \<lparr>ss_outbox = rv_outbox c, ss_schedules = rv_schedules c,
        ss_scheduler = rv_scheduler c, ss_publisher = rv_publisher c, ss_connections = rv_connections c,
        ss_grace_period_ms = rv_grace_period_ms c, ss_abort_after = rv_abort_after c\<rparr>"
proof -
  let ?g = "orelse (Option.bind (mo_shutdown opts) so_grace_period_ms) (jint 30000)"
  from assms have g: "is_safe_integer ?g" "\<not> js_less ?g (jint 0)" "rv_grace_period_ms c = ?g"
    and p: "resolve_job_policy [orelse (mo_defaults opts) empty_policy] = Inr (rv_defaults c)"
    and s: "resolve_schedule_options env (mo_schedules opts) = Inr (rv_schedules c)"
    and o': "resolve_outbox_options (mo_outbox opts) = Inr (rv_outbox c)"
    and k: "resolve_controls_options (mo_controls_mode opts) (mo_controls_group opts) = Inr (rv_controls c)"
    and m: "copy_connections defs (mo_connections opts) = Inr (rv_connections c)"
    by (auto simp: mq_configuration_def Let_def throw_if_iff elim!: rbind_InrE)
  from g obtain i where "?g = jint i" "\<bar>i\<bar> \<le> max_safe" by (auto simp: is_safe_integer_iff)
  with g have grace: "\<exists>g. rv_grace_period_ms c = jint g \<and> 0 \<le> g \<and> g \<le> max_safe" by auto
  from m have same: "rv_connections c = mo_connections opts" by (simp add: copy_connections_ok)
  have connections: "\<exists>cs. session_connections defs entries = Inr cs \<and> map cn_name cs = map fst entries
      \<and> list_all (valid_name \<circ> cn_name) cs" if e: "rv_connections c = Some entries" for entries
  proof -
    from m e same have c: "copy_connections defs (Some entries) = Inr (Some entries)" by simp
    from c have "\<forall>(name, c)\<in>set entries. defs (mc_id c) \<noteq> None" by (auto simp: copy_connections_ok)
    from session_connections_total[OF this] obtain cs where
      cs: "session_connections defs entries = Inr cs" "map cn_name cs = map fst entries" by blast
    from c have "list_all valid_name (map fst entries)" by (auto simp: copy_connections_ok list_all_iff)
    then have "list_all valid_name (map cn_name cs)" by (simp only: cs(2))
    then have "list_all (valid_name \<circ> cn_name) cs" by (simp only: list.pred_map)
    with cs show ?thesis by blast
  qed
  from m same have again: "copy_connections defs (rv_connections c) = Inr (rv_connections c)" by simp
  show ?thesis
    using grace resolve_controls_valid[OF k] connections resolve_job_policy_valid[OF p] resolve_schedule_options_valid[OF s]
    by (simp add: host_session_options_def session_constructor_def resolve_outbox_again[OF o']
        resolve_schedule_again[OF s] again)
qed


definition demo_definitions :: "unit definitions" where
  "demo_definitions = snd (define_connection 1 \<lparr>ci_adapter = ''postgres'', ci_ownership = Owned,
     ci_boundary = 1, ci_scope = ''a'', ci_requirements = None\<rparr> () (\<lambda>_. None))"

definition demo_options :: module_options where
  "demo_options = \<lparr>mo_shutdown = Some \<lparr>so_grace_period_ms = Some (jint 500), so_abort_after = None\<rparr>,
     mo_defaults = None, mo_schedules = \<lparr>si_shape = plain_shape [], si_mode = None, si_group = Some ''ops'',
       si_sweep_interval_ms = None, si_batch_size = None, si_max_store_retries = None, si_retry_delay_ms = None\<rparr>,
     mo_outbox = \<lparr>oo_concurrency = None, oo_lease_ms = None, oo_heartbeat_ms = None, oo_poll_ms = None,
       oo_retry_base_ms = None, oo_retry_max_ms = None\<rparr>,
     mo_controls_mode = Some Reconcile, mo_controls_group = Some ''ops'',
     mo_connections = Some [(''main'', \<lparr>mc_id = 1, mc_adapter = ''postgres'', mc_ownership = Owned\<rparr>)],
     mo_execution = None\<rparr>"

theorem configuration_sound_witness:
  "\<exists>c. mq_configuration demo_schedule_env demo_definitions demo_options = Inr c
     \<and> rv_grace_period_ms c = jint 500 \<and> valid_resolved (rv_defaults c)"
proof -
  have n: "valid_name ''ops''" "valid_name ''main''" "nul \<notin> set ''ops''"
    by (simp_all add: valid_name_def is_js_space_def nul_def)
  have p: "resolve_job_policy [empty_policy] = Inr initial_policy"
    by (simp add: resolve_valid resolution_def latest_def valid_policy_def empty_policy_def initial_policy_def)
  have "\<exists>c. mq_configuration demo_schedule_env demo_definitions demo_options = Inr c \<and> rv_grace_period_ms c = jint 500"
    using n by (simp add: mq_configuration_def demo_options_def Let_def p resolve_schedule_options_def
        schedule_fields_def check_shape_eq schedule_config_of_def schedule_name_def require_name_eq
        require_integer_eq demo_schedule_env_def resolve_outbox_options_def config_values_def
        outbox_config_of_def max_timer_def max_safe_def resolve_controls_options_def copy_connections_def
        connection_definition_of_def demo_definitions_def define_connection_def)
  with configuration_sound show ?thesis by blast
qed

end
