(* ===== verification/Mq_Flow_Reads.thy ===== *)
theory Mq_Flow_Reads
  imports Mq_Flow_Control Mq_Client
begin

text \<open>
  \<open>src/integrations/postgres-flow-reads.ts\<close>, \<open>src/integrations/postgres-flow-snapshot.ts\<close> and the
  namespace of \<open>src/integrations/postgres-flow-resource.ts\<close>: the reads of jobs, attempts, counts and
  recoverable parents from the flow tables, and the snapshot of a flow with the results the pinned
  store loses. The SQL statements of the sources are functions on tables, lists of rows; a statement
  may also throw (\<open>None\<close>). The validators of the engine package are parameters.
\<close>

subsection \<open>Numbers of the database\<close>

text \<open>A column is absent, a number, or the text of one (\<open>bigint\<close>).\<close>

datatype database_number = Db_Null | Db_Number jsnum | Db_Text string

text \<open>
  \<open>Number(text)\<close>: the text of a safe integer in decimal gives that integer; \<open>other\<close> is the rest of
  ECMAScript's conversion.
\<close>

definition decimal_text :: "string \<Rightarrow> int option" where
  "decimal_text s =
     (case s of
        [] \<Rightarrow> None
      | c # cs \<Rightarrow>
          if c = CHR ''-''
          then (if cs \<noteq> [] \<and> list_all is_digit cs \<and> digits_value cs \<noteq> 0 then Some (- int (digits_value cs)) else None)
          else if list_all is_digit s then Some (int (digits_value s)) else None)"

definition number_of_text :: "(string \<Rightarrow> jsnum) \<Rightarrow> string \<Rightarrow> jsnum" where
  "number_of_text other s =
     (case decimal_text s of Some i \<Rightarrow> if \<bar>i\<bar> \<le> max_safe then jint i else other s | None \<Rightarrow> other s)"

fun db_numeric :: "(string \<Rightarrow> jsnum) \<Rightarrow> database_number \<Rightarrow> jsnum" where
  "db_numeric other Db_Null = NaN"
| "db_numeric other (Db_Number x) = x"
| "db_numeric other (Db_Text s) = number_of_text other s"

definition optional_numeric :: "(string \<Rightarrow> jsnum) \<Rightarrow> database_number \<Rightarrow> jsnum option" where
  "optional_numeric other v = (if v = Db_Null then None else Some (db_numeric other v))"

text \<open>A JSON column that is absent or JSON's null is undefined.\<close>

definition json_present :: "jsval \<Rightarrow> jsval option" where
  "json_present v = (if v = VNull \<or> v = VUndefined then None else Some v)"

subsection \<open>Jobs\<close>

record flow_job_row =
  fr_id :: string
  fr_name :: string
  fr_queue :: string
  fr_state :: string
  fr_dispatch_key :: "string option"
  fr_idempotency_key :: "string option"
  fr_lease_owner :: "string option"
  fr_lease_token :: "string option"
  fr_payload :: jsval
  fr_metadata :: jsval
  fr_result :: "jsval"
  fr_result_present :: bool
  fr_failure :: jsval
  fr_parent :: jsval
  fr_flow :: jsval
  fr_backoff :: jsval
  fr_version :: database_number
  fr_priority :: database_number
  fr_run_at_ms :: database_number
  fr_sequence :: database_number
  fr_attempts_max :: database_number
  fr_attempts_made :: database_number
  fr_attempt_sequence :: database_number
  fr_delivery_count :: database_number
  fr_stalled_count :: database_number
  fr_timeout_ms :: database_number
  fr_created_at_ms :: database_number
  fr_updated_at_ms :: database_number
  fr_processed_at_ms :: database_number
  fr_finished_at_ms :: database_number
  fr_lease_expires_at_ms :: database_number
  fr_cancellation_requested_at_ms :: database_number

text \<open>What the validator gets, and its record.\<close>

record flow_job_record =
  fj_id :: string
  fj_name :: string
  fj_queue :: string
  fj_version :: jsnum
  fj_state :: string
  fj_dispatch_key :: "string option"
  fj_payload :: jsval
  fj_metadata :: jsval
  fj_priority :: jsnum
  fj_run_at :: jsnum
  fj_ordering_sequence :: jsnum
  fj_attempts_max :: jsnum
  fj_attempts_made :: jsnum
  fj_attempt_sequence :: jsnum
  fj_delivery_count :: jsnum
  fj_stalled_count :: jsnum
  fj_backoff :: "jsval option"
  fj_timeout_ms :: "jsnum option"
  fj_idempotency_key :: "string option"
  fj_created_at :: jsnum
  fj_updated_at :: jsnum
  fj_processed_at :: "jsnum option"
  fj_finished_at :: "jsnum option"
  fj_lease_owner :: "string option"
  fj_lease_token :: "string option"
  fj_lease_expires_at :: "jsnum option"
  fj_cancellation_requested_at :: "jsnum option"
  fj_result :: "jsval option"
  fj_failure :: "jsval option"
  fj_parent :: "jsval option"
  fj_flow :: "jsval option"

datatype flow_read_error = Job_Definition_Error string | Job_Store_Failure string bool

type_synonym 'v flow_read = "flow_read_error + 'v"

definition flow_job_of_row :: "(string \<Rightarrow> jsnum) \<Rightarrow> flow_job_row \<Rightarrow> flow_job_record" where
  "flow_job_of_row other r =
     \<lparr>fj_id = fr_id r, fj_name = fr_name r, fj_queue = fr_queue r,
      fj_version = db_numeric other (fr_version r), fj_state = fr_state r,
      fj_dispatch_key = fr_dispatch_key r, fj_payload = fr_payload r, fj_metadata = fr_metadata r,
      fj_priority = db_numeric other (fr_priority r), fj_run_at = db_numeric other (fr_run_at_ms r),
      fj_ordering_sequence = db_numeric other (fr_sequence r),
      fj_attempts_max = db_numeric other (fr_attempts_max r),
      fj_attempts_made = db_numeric other (fr_attempts_made r),
      fj_attempt_sequence = db_numeric other (fr_attempt_sequence r),
      fj_delivery_count = db_numeric other (fr_delivery_count r),
      fj_stalled_count = db_numeric other (fr_stalled_count r),
      fj_backoff = json_present (fr_backoff r),
      fj_timeout_ms = optional_numeric other (fr_timeout_ms r),
      fj_idempotency_key = fr_idempotency_key r,
      fj_created_at = db_numeric other (fr_created_at_ms r),
      fj_updated_at = db_numeric other (fr_updated_at_ms r),
      fj_processed_at = optional_numeric other (fr_processed_at_ms r),
      fj_finished_at = optional_numeric other (fr_finished_at_ms r),
      fj_lease_owner = fr_lease_owner r, fj_lease_token = fr_lease_token r,
      fj_lease_expires_at = optional_numeric other (fr_lease_expires_at_ms r),
      fj_cancellation_requested_at = optional_numeric other (fr_cancellation_requested_at_ms r),
      fj_result = (if fr_result_present r then Some (fr_result r) else None),
      fj_failure = json_present (fr_failure r), fj_parent = json_present (fr_parent r),
      fj_flow = json_present (fr_flow r)\<rparr>"

definition decode_flow_job_row :: "(string \<Rightarrow> jsnum) \<Rightarrow> (flow_job_record \<Rightarrow> flow_job_record flow_read)
    \<Rightarrow> flow_job_row \<Rightarrow> flow_job_record flow_read" where
  "decode_flow_job_row other validate row = validate (flow_job_of_row other row)"

type_synonym flow_table = "(string \<times> flow_job_row) list"

definition select_jobs :: "flow_table \<Rightarrow> string \<Rightarrow> (flow_job_row \<Rightarrow> bool) \<Rightarrow> flow_job_row list" where
  "select_jobs table scoped P = map snd (filter (\<lambda>(ns, r). ns = scoped \<and> P r) table)"

definition flow_get_job :: "(string \<Rightarrow> jsnum) \<Rightarrow> (flow_job_record \<Rightarrow> flow_job_record flow_read)
    \<Rightarrow> flow_table option \<Rightarrow> string \<Rightarrow> string \<Rightarrow> flow_job_record option flow_read" where
  "flow_get_job other validate db scoped i =
     (case db of
        None \<Rightarrow> Inl (Job_Store_Failure ''getJobV2'' False)
      | Some table \<Rightarrow>
          (case select_jobs table scoped (\<lambda>r. fr_id r = i) of
             [] \<Rightarrow> Inr None
           | row # _ \<Rightarrow> rbind (decode_flow_job_row other validate row) (\<lambda>j. Inr (Some j))))"

subsection \<open>Attempts\<close>

record flow_attempt_row =
  ar_job :: string
  ar_outcome :: string
  ar_result :: jsval
  ar_result_present :: bool
  ar_failure :: jsval
  ar_attempt :: database_number
  ar_attempt_sequence :: database_number
  ar_delivery :: database_number
  ar_started_at_ms :: database_number
  ar_finished_at_ms :: database_number
  ar_retry_at_ms :: database_number
  ar_retry_delay_ms :: database_number

record flow_attempt =
  fa_attempt :: jsnum
  fa_attempt_sequence :: "jsnum option"
  fa_delivery :: jsnum
  fa_started_at :: "jsnum option"
  fa_finished_at :: "jsnum option"
  fa_outcome :: string
  fa_result :: "jsval option"
  fa_failure :: "jsval option"
  fa_retry_at :: "jsnum option"
  fa_retry_delay_ms :: "jsnum option"

definition fanned_out :: string where
  "fanned_out = ''fanned-out''"

definition flow_attempt_of_row :: "(string \<Rightarrow> jsnum) \<Rightarrow> flow_attempt_row \<Rightarrow> flow_attempt" where
  "flow_attempt_of_row other r =
     \<lparr>fa_attempt = db_numeric other (ar_attempt r),
      fa_attempt_sequence = optional_numeric other (ar_attempt_sequence r),
      fa_delivery = db_numeric other (ar_delivery r),
      fa_started_at = optional_numeric other (ar_started_at_ms r),
      fa_finished_at = optional_numeric other (ar_finished_at_ms r),
      fa_outcome = (if ar_outcome r = fanned_out then ''released'' else ar_outcome r),
      fa_result = (if ar_result_present r then Some (ar_result r) else None),
      fa_failure = json_present (ar_failure r),
      fa_retry_at = optional_numeric other (ar_retry_at_ms r),
      fa_retry_delay_ms = optional_numeric other (ar_retry_delay_ms r)\<rparr>"

definition decode_attempt :: "(string \<Rightarrow> jsnum) \<Rightarrow> (flow_attempt \<Rightarrow> flow_attempt flow_read)
    \<Rightarrow> flow_attempt_row \<Rightarrow> flow_attempt flow_read" where
  "decode_attempt other validate row =
     (let fanned = (ar_outcome row = fanned_out) in
      rbind (throw_if (fanned \<and> (ar_result_present row \<or> ar_failure row \<noteq> VNull
          \<or> ar_retry_at_ms row \<noteq> Db_Null \<or> ar_retry_delay_ms row \<noteq> Db_Null))
        (Job_Definition_Error ''attempt'')) (\<lambda>_.
      rbind (validate (flow_attempt_of_row other row)) (\<lambda>checked.
      Inr (if fanned then checked\<lparr>fa_outcome := fanned_out\<rparr> else checked))))"

text \<open>\<open>place\<close>: the place of a row in \<open>ORDER BY attempt_sequence\<close>.\<close>

definition flow_get_attempts :: "(string \<Rightarrow> jsnum) \<Rightarrow> (flow_attempt \<Rightarrow> flow_attempt flow_read)
    \<Rightarrow> (database_number \<Rightarrow> nat) \<Rightarrow> (string \<times> flow_attempt_row) list option \<Rightarrow> string \<Rightarrow> string
    \<Rightarrow> flow_attempt list flow_read" where
  "flow_get_attempts other validate place db scoped i =
     (case db of
        None \<Rightarrow> Inl (Job_Store_Failure ''getAttemptsV2'' False)
      | Some table \<Rightarrow>
          collect (decode_attempt other validate)
            (sort_key (\<lambda>r. place (ar_attempt_sequence r))
              (map snd (filter (\<lambda>(ns, r). ns = scoped \<and> ar_job r = i) table))))"

subsection \<open>Counts\<close>

record job_counts =
  fc_waiting :: int
  fc_delayed :: int
  fc_active :: int
  fc_completed :: int
  fc_failed :: int
  fc_cancelled :: int
  fc_waiting_children :: int
  fc_total :: int

definition no_counts :: job_counts where
  "no_counts = \<lparr>fc_waiting = 0, fc_delayed = 0, fc_active = 0, fc_completed = 0, fc_failed = 0,
     fc_cancelled = 0, fc_waiting_children = 0, fc_total = 0\<rparr>"

text \<open>The \<open>switch\<close> over the state texts: which count a row sets.\<close>

definition state_texts :: "(string \<times> job_status) list" where
  "state_texts = [(''waiting'', Status_Waiting), (''delayed'', Status_Delayed), (''active'', Status_Active),
     (''completed'', Status_Completed), (''failed'', Status_Failed), (''cancelled'', Status_Cancelled),
     (''waiting-children'', Status_Waiting_Children)]"

fun set_count :: "job_status \<Rightarrow> int \<Rightarrow> job_counts \<Rightarrow> job_counts" where
  "set_count Status_Waiting n c = c\<lparr>fc_waiting := n\<rparr>"
| "set_count Status_Delayed n c = c\<lparr>fc_delayed := n\<rparr>"
| "set_count Status_Active n c = c\<lparr>fc_active := n\<rparr>"
| "set_count Status_Completed n c = c\<lparr>fc_completed := n\<rparr>"
| "set_count Status_Failed n c = c\<lparr>fc_failed := n\<rparr>"
| "set_count Status_Cancelled n c = c\<lparr>fc_cancelled := n\<rparr>"
| "set_count Status_Waiting_Children n c = c\<lparr>fc_waiting_children := n\<rparr>"

definition count_row :: "(string \<Rightarrow> jsnum) \<Rightarrow> job_counts \<Rightarrow> string \<times> string \<Rightarrow> job_counts flow_read" where
  "count_row other c row =
     (case safe_int (number_of_text other (snd row)) of
        None \<Rightarrow> Inl (Job_Store_Failure ''countsV2'' False)
      | Some n \<Rightarrow>
          rbind (throw_if (n < 0) (Job_Store_Failure ''countsV2'' False)) (\<lambda>_.
          rbind (need (map_of state_texts (fst row)) (Job_Definition_Error ''state'')) (\<lambda>state.
          let c' = set_count state n c; c'' = c'\<lparr>fc_total := fc_total c' + n\<rparr> in
          rbind (throw_if (\<not> is_safe_integer (jint (fc_total c''))) (Job_Store_Failure ''countsV2'' False)) (\<lambda>_.
          Inr c''))))"

definition flow_counts_of :: "(string \<Rightarrow> jsnum) \<Rightarrow> (string \<times> string) list option \<Rightarrow> job_counts flow_read" where
  "flow_counts_of other rows =
     (case rows of
        None \<Rightarrow> Inl (Job_Store_Failure ''countsV2'' False)
      | Some rs \<Rightarrow> loop (count_row other) no_counts rs)"

text \<open>The statement: the selected jobs grouped by state, in any order, each with its count as text.\<close>

definition counted :: "flow_table \<Rightarrow> string \<Rightarrow> string option \<Rightarrow> string option \<Rightarrow> flow_job_row list" where
  "counted table scoped queue name =
     select_jobs table scoped (\<lambda>r. (queue = None \<or> queue = Some (fr_queue r)) \<and> (name = None \<or> name = Some (fr_name r)))"

definition state_count :: "flow_job_row list \<Rightarrow> string \<Rightarrow> nat" where
  "state_count jobs state = length (filter (\<lambda>r. fr_state r = state) jobs)"

definition counts_answer :: "flow_job_row list \<Rightarrow> (string \<times> string) list \<Rightarrow> bool" where
  "counts_answer jobs rows \<longleftrightarrow> distinct (map fst rows) \<and> fst ` set rows = fr_state ` set jobs
     \<and> list_all (\<lambda>(state, n). n = nat_text (state_count jobs state)) rows"


subsection \<open>Recovery\<close>

record flow_child_row =
  cr_flow_id :: string
  cr_child_key :: string
  cr_child_job_id :: string
  cr_status :: string
  cr_cascaded :: bool
  cr_result :: "jsval option"

text \<open>\<open>named\<close> is the statement's \<open>flow->>'flowName'\<close>; \<open>place\<close> the order of ids.\<close>

definition recoverable :: "(jsval \<Rightarrow> string option) \<Rightarrow> (string \<times> flow_child_row) list \<Rightarrow> string
    \<Rightarrow> string list \<Rightarrow> flow_job_row \<Rightarrow> bool" where
  "recoverable named children scoped names r \<longleftrightarrow>
     (\<exists>n\<in>set names. named (fr_flow r) = Some n)
     \<and> (fr_state r \<in> {''waiting'', ''active'', ''waiting-children''}
        \<or> (\<exists>(ns, c)\<in>set children. ns = scoped \<and> cr_flow_id c = fr_id r
             \<and> cr_status c = ''cancelled'' \<and> \<not> cr_cascaded c))"

definition select_recoverable :: "(jsval \<Rightarrow> string option) \<Rightarrow> (string \<Rightarrow> nat) \<Rightarrow> flow_table
    \<Rightarrow> (string \<times> flow_child_row) list \<Rightarrow> string \<Rightarrow> string list \<Rightarrow> string list" where
  "select_recoverable named place jobs children scoped names =
     take 10001 (sort_key place (map fr_id (select_jobs jobs scoped (recoverable named children scoped names))))"

text \<open>\<open>make_id\<close>: the package's \<open>makeJobId\<close>; \<open>rows\<close>: the answer of the statement, which may throw.\<close>

definition recovery_ids :: "(string \<Rightarrow> string option) \<Rightarrow> exn + string list \<Rightarrow> string list \<Rightarrow> string list res" where
  "recovery_ids make_id rows names =
     (if names = [] then Inr []
      else rbind rows (\<lambda>rs.
        rbind (throw_if (length rs > 10000) (Mq_Flow FlowUnavailable)) (\<lambda>_.
        collect (\<lambda>i. need (make_id i) (Mq_Flow FlowOperation)) rs)))"

subsection \<open>Snapshots\<close>

record stored_child =
  fh_key :: string
  fh_job_id :: string
  fh_status :: string
  fh_result :: "jsval option"

definition missing_result :: "stored_child \<Rightarrow> bool" where
  "missing_result c \<longleftrightarrow> fh_status c = ''completed'' \<and> fh_result c = None"

text \<open>The statement: the completed rows of the missing children that have a result.\<close>

definition select_results :: "(string \<times> flow_child_row) list \<Rightarrow> string \<Rightarrow> string \<Rightarrow> string list
    \<Rightarrow> (string \<times> string \<times> jsval) list" where
  "select_results table ns flow_id keys =
     concat (map (\<lambda>(n, r). case cr_result r of
        None \<Rightarrow> []
      | Some v \<Rightarrow> if n = ns \<and> cr_flow_id r = flow_id \<and> cr_child_key r \<in> set keys \<and> cr_status r = ''completed''
                 then [(cr_child_key r, cr_child_job_id r, v)] else []) table)"

definition restore_child :: "(stored_child \<Rightarrow> stored_child flow_read) \<Rightarrow> (string \<rightharpoonup> string \<times> jsval) \<Rightarrow> stored_child
    \<Rightarrow> stored_child flow_read" where
  "restore_child validate stored_rows c =
     (case stored_rows (fh_key c) of
        None \<Rightarrow> Inr c
      | Some (job_id, v) \<Rightarrow>
          if \<not> missing_result c then Inr c
          else rbind (throw_if (job_id \<noteq> fh_job_id c) (Job_Store_Failure ''getFlow'' True)) (\<lambda>_.
            validate (c\<lparr>fh_result := Some v\<rparr>)))"

text \<open>A \<open>Map\<close> of the rows: of two rows with one key the later counts.\<close>

definition persisted_rows :: "(string \<times> string \<times> jsval) list \<Rightarrow> string \<rightharpoonup> string \<times> jsval" where
  "persisted_rows rows = map_of (rev rows)"

text \<open>\<open>children\<close>: the snapshot of the pinned store; \<open>db\<close>: the table when the statement runs.\<close>

definition restore_snapshot :: "(stored_child \<Rightarrow> stored_child flow_read) \<Rightarrow> (string \<times> flow_child_row) list option
    \<Rightarrow> string \<Rightarrow> string \<Rightarrow> stored_child list \<Rightarrow> stored_child list flow_read" where
  "restore_snapshot validate db ns flow_id children =
     (let missing = filter missing_result children in
      if missing = [] then Inr children
      else case db of
        None \<Rightarrow> Inl (Job_Store_Failure ''getFlow'' False)
      | Some table \<Rightarrow>
          collect (restore_child validate (persisted_rows
            (select_results table ns flow_id (map fh_key missing)))) children)"

definition flow_get_flow :: "(stored_child \<Rightarrow> stored_child flow_read) \<Rightarrow> (string \<times> flow_child_row) list option
    \<Rightarrow> string \<Rightarrow> string \<Rightarrow> stored_child list option flow_read \<Rightarrow> stored_child list option flow_read" where
  "flow_get_flow validate db ns flow_id stored =
     rbind stored (\<lambda>found.
     case found of
       None \<Rightarrow> Inr None
     | Some children \<Rightarrow> rbind (restore_snapshot validate db ns flow_id children) (\<lambda>cs. Inr (Some cs)))"

text \<open>The namespace of the tables: \<open>tag\<close> is the service tag of a named store, \<open>sha\<close> SHA-256 in hex.\<close>

definition flow_namespace :: "(string \<Rightarrow> string) \<Rightarrow> (string \<Rightarrow> string) \<Rightarrow> string \<Rightarrow> string \<Rightarrow> string" where
  "flow_namespace sha tag name ns = ns @ '':store-'' @ take 48 (sha (tag (''nestjs/'' @ name)))"

subsection \<open>Numbers\<close>

lemma decimal_nat_text: "decimal_text (nat_text n) = Some (int n)"
proof -
  obtain c cs where c: "nat_text n = c # cs" using nat_text_nonempty by (cases "nat_text n") auto
  have "list_all is_digit (nat_text n)" using nat_text_digits by (simp add: list_all_iff)
  moreover from this c have "c \<noteq> CHR ''-''" by (auto simp: is_digit_def)
  ultimately show ?thesis using c digits_value_nat_text[of n] by (simp add: decimal_text_def)
qed

lemma number_nat_text: "int n \<le> max_safe \<Longrightarrow> number_of_text other (nat_text n) = jint (int n)"
  by (simp add: number_of_text_def decimal_nat_text)

subsection \<open>Counting\<close>

text \<open>
  ECMAScript's conversion of a decimal text beyond the safe integers is not a safe integer; of any other
  text the guards of the sources do not care.
\<close>

definition converts_decimals :: "(string \<Rightarrow> jsnum) \<Rightarrow> bool" where
  "converts_decimals other \<longleftrightarrow> (\<forall>s i. decimal_text s = Some i \<longrightarrow> max_safe < \<bar>i\<bar> \<longrightarrow> \<not> is_safe_integer (other s))"

lemma safe_count:
  assumes "converts_decimals other"
  shows "safe_int (number_of_text other (nat_text n)) = (if int n \<le> max_safe then Some (int n) else None)"
proof (cases "int n \<le> max_safe")
  case True
  then show ?thesis by (simp add: number_nat_text)
next
  case False
  then have "\<not> is_safe_integer (other (nat_text n))"
    using assms decimal_nat_text[of n] by (auto simp: converts_decimals_def)
  with False show ?thesis by (simp add: number_of_text_def decimal_nat_text is_safe_integer_def)
qed

fun count_of :: "job_status \<Rightarrow> job_counts \<Rightarrow> int" where
  "count_of Status_Waiting c = fc_waiting c"
| "count_of Status_Delayed c = fc_delayed c"
| "count_of Status_Active c = fc_active c"
| "count_of Status_Completed c = fc_completed c"
| "count_of Status_Failed c = fc_failed c"
| "count_of Status_Cancelled c = fc_cancelled c"
| "count_of Status_Waiting_Children c = fc_waiting_children c"

lemma count_of_set [simp]:
  "count_of t (set_count s n c) = (if t = s then n else count_of t c)"
  "fc_total (set_count s n c) = fc_total c"
  by (cases s; cases t; simp)+

lemma count_of_total [simp]: "count_of t (c\<lparr>fc_total := n\<rparr>) = count_of t c"
  by (cases t) simp_all

lemma count_row_ok:
  assumes "converts_decimals other"
  shows "count_row other c (text, nat_text n) = Inr c' \<longleftrightarrow>
     (\<exists>state. map_of state_texts text = Some state
        \<and> c' = (set_count state (int n) c)\<lparr>fc_total := fc_total c + int n\<rparr>
        \<and> int n \<le> max_safe \<and> \<bar>fc_total c + int n\<bar> \<le> max_safe)"
  by (auto simp: count_row_def safe_count[OF assms] Let_def rbind_Inr_iff throw_if_iff need_ok)


lemma sum_by_key:
  "finite A \<Longrightarrow> (\<Sum>k\<in>A. length (filter (\<lambda>x. key x = k) xs)) = length (filter (\<lambda>x. key x \<in> A) xs)"
proof (induction xs)
  case (Cons x xs)
  have "(\<Sum>k\<in>A. length (filter (\<lambda>x. key x = k) (x # xs)))
      = (\<Sum>k\<in>A. (if key x = k then 1 else 0) + length (filter (\<lambda>x. key x = k) xs))"
    by (rule sum.cong) auto
  also have "\<dots> = (if key x \<in> A then 1 else 0) + length (filter (\<lambda>x. key x \<in> A) xs)"
    using Cons by (simp add: sum.distrib sum.delta)
  finally show ?case by simp
qed simp

definition counted_rows :: "(string \<Rightarrow> nat) \<Rightarrow> (string \<times> string) list \<Rightarrow> bool" where
  "counted_rows f rows \<longleftrightarrow> (\<forall>(t, n)\<in>set rows. n = nat_text (f t))"

lemma counted_rows_Cons [simp]:
  "counted_rows f ((t, n) # rows) \<longleftrightarrow> n = nat_text (f t) \<and> counted_rows f rows"
  by (auto simp: counted_rows_def)

lemma state_texts_iff: "map_of state_texts t = Some st \<longleftrightarrow> (t, st) \<in> set state_texts"
  by (rule map_of_eq_Some_iff) (simp add: state_texts_def)

lemma state_texts_inj: "(t, st) \<in> set state_texts \<Longrightarrow> (u, st) \<in> set state_texts \<Longrightarrow> t = u"
  by (cases st) (auto simp: state_texts_def)

lemma count_rows_total:
  assumes conv: "converts_decimals other"
  shows "loop (count_row other) c rows = Inr c' \<Longrightarrow> counted_rows f rows \<Longrightarrow> distinct (map fst rows)
    \<Longrightarrow> 0 \<le> fc_total c \<Longrightarrow> fc_total c \<le> max_safe
    \<Longrightarrow> (\<forall>t\<in>fst ` set rows. map_of state_texts t \<noteq> None)
      \<and> fc_total c' = fc_total c + int (\<Sum>t\<in>fst ` set rows. f t) \<and> fc_total c' \<le> max_safe
      \<and> (\<forall>t st. map_of state_texts t = Some st \<longrightarrow>
           count_of st c' = (if t \<in> fst ` set rows then int (f t) else count_of st c))"
proof (induction rows arbitrary: c)
  case (Cons row rows)
  obtain t n where row: "row = (t, n)" by fastforce
  from Cons.prems(2) row have n: "n = nat_text (f t)" and rest: "counted_rows f rows" by simp_all
  from Cons.prems(1) row n obtain d where "count_row other c (t, nat_text (f t)) = Inr d"
    and l: "loop (count_row other) d rows = Inr c'" by (auto elim: rbind_InrE)
  then obtain st where st: "map_of state_texts t = Some st"
    and d: "d = (set_count st (int (f t)) c)\<lparr>fc_total := fc_total c + int (f t)\<rparr>"
    and b: "\<bar>fc_total c + int (f t)\<bar> \<le> max_safe" unfolding count_row_ok[OF conv] by blast
  from Cons.prems(3) row have dist: "distinct (map fst rows)" "t \<notin> fst ` set rows" by auto
  from b d Cons.prems(4) have "0 \<le> fc_total d" "fc_total d \<le> max_safe" by auto
  from Cons.IH[OF l rest dist(1) this] have
    ih: "\<forall>u\<in>fst ` set rows. map_of state_texts u \<noteq> None"
      "fc_total c' = fc_total d + int (\<Sum>u\<in>fst ` set rows. f u)" "fc_total c' \<le> max_safe"
      "\<And>u su. map_of state_texts u = Some su \<Longrightarrow>
         count_of su c' = (if u \<in> fst ` set rows then int (f u) else count_of su d)" by blast+
  have "count_of su c' = (if u \<in> fst ` set (row # rows) then int (f u) else count_of su c)"
    if "map_of state_texts u = Some su" for u su
    using ih(4)[OF that] dist(2) that st row d state_texts_inj[of u su t]
    by (cases "u = t") (auto simp: state_texts_iff)
  with ih(1-3) st row d dist(2) show ?case by auto
qed simp

lemma count_rows_succeeds:
  assumes conv: "converts_decimals other"
  shows "counted_rows f rows \<Longrightarrow> distinct (map fst rows) \<Longrightarrow> \<forall>t\<in>fst ` set rows. map_of state_texts t \<noteq> None
    \<Longrightarrow> 0 \<le> fc_total c \<Longrightarrow> fc_total c + int (\<Sum>t\<in>fst ` set rows. f t) \<le> max_safe
    \<Longrightarrow> \<exists>c'. loop (count_row other) c rows = Inr c'"
proof (induction rows arbitrary: c)
  case (Cons row rows)
  obtain t n where row: "row = (t, n)" by fastforce
  from Cons.prems row have n: "n = nat_text (f t)" and rest: "counted_rows f rows" "distinct (map fst rows)"
    and fresh: "t \<notin> fst ` set rows" by auto
  from Cons.prems(3) row obtain st where st: "map_of state_texts t = Some st" by auto
  let ?d = "(set_count st (int (f t)) c)\<lparr>fc_total := fc_total c + int (f t)\<rparr>"
  from Cons.prems(5) row fresh have sum: "fc_total ?d + int (\<Sum>u\<in>fst ` set rows. f u) \<le> max_safe" by simp
  have "0 \<le> int (\<Sum>u\<in>fst ` set rows. f u)" by (rule of_nat_0_le_iff)
  with sum Cons.prems(4) have b: "fc_total c + int (f t) \<le> max_safe" by simp
  with Cons.prems(4) st have "count_row other c row = Inr ?d"
    unfolding row n count_row_ok[OF conv] by (intro exI[of _ st]) simp
  moreover obtain c' where "loop (count_row other) ?d rows = Inr c'"
    using Cons.IH[OF rest _ _ sum] Cons.prems(3,4) by auto
  ultimately show ?case by simp
qed simp

text \<open>
  C17. The counts of a namespace are exact: with one row per state that occurs, in any order, every count
  is the number of selected jobs in that state and the total is the number of selected jobs; they are
  refused exactly when a job has a state the facade does not know or there are more jobs than a safe
  integer can count.
\<close>

theorem flow_counts_exact:
  assumes "converts_decimals other" and "counts_answer jobs rows"
  shows "if (\<forall>r\<in>set jobs. map_of state_texts (fr_state r) \<noteq> None) \<and> int (length jobs) \<le> max_safe
    then \<exists>c. flow_counts_of other (Some rows) = Inr c \<and> fc_total c = int (length jobs)
      \<and> list_all (\<lambda>(text, state). count_of state c = int (state_count jobs text)) state_texts
    else \<exists>e. flow_counts_of other (Some rows) = Inl e"
proof -
  let ?f = "state_count jobs"
  from assms(2) have r: "counted_rows ?f rows" "distinct (map fst rows)" "fst ` set rows = fr_state ` set jobs"
    by (auto simp: counts_answer_def counted_rows_def list_all_iff)
  have "(\<Sum>t\<in>fr_state ` set jobs. ?f t) = length (filter (\<lambda>r. fr_state r \<in> fr_state ` set jobs) jobs)"
    unfolding state_count_def by (rule sum_by_key) simp
  also have "filter (\<lambda>r. fr_state r \<in> fr_state ` set jobs) jobs = jobs" by (simp add: filter_id_conv)
  finally have sum: "(\<Sum>t\<in>fst ` set rows. ?f t) = length jobs" by (simp add: r(3))
  have z: "fc_total no_counts = 0" "count_of st no_counts = 0" for st
    by (cases st; simp add: no_counts_def)+
  note total = count_rows_total[OF assms(1) _ r(1,2), of no_counts, unfolded sum z]
  note succeeds = count_rows_succeeds[OF assms(1) r(1,2), of no_counts, unfolded sum z]
  show ?thesis
  proof (cases "(\<forall>r\<in>set jobs. map_of state_texts (fr_state r) \<noteq> None) \<and> int (length jobs) \<le> max_safe")
    case True
    then obtain c where c: "loop (count_row other) no_counts rows = Inr c" using succeeds r(3) by auto
    have "?f t = 0" if "t \<notin> fst ` set rows" for t
      using that unfolding r(3) by (auto simp: state_count_def filter_empty_conv)
    with total[OF c] True have "count_of st c = int (?f t)" if "(t, st) \<in> set state_texts" for t st
      using that by (simp add: state_texts_iff max_safe_def)
    with total[OF c] c True show ?thesis
      by (auto simp: flow_counts_of_def list_all_iff max_safe_def)
  next
    case False
    then have "\<nexists>c. loop (count_row other) no_counts rows = Inr c"
      using total r(3) by (fastforce simp: max_safe_def)
    with False show ?thesis by (cases "loop (count_row other) no_counts rows") (auto simp: flow_counts_of_def)
  qed
qed


definition demo_row :: "string \<Rightarrow> string \<Rightarrow> flow_job_row" where
  "demo_row i state = \<lparr>fr_id = i, fr_name = ''send'', fr_queue = ''mail'', fr_state = state,
     fr_dispatch_key = None, fr_idempotency_key = None, fr_lease_owner = None, fr_lease_token = None,
     fr_payload = VStr ''x'', fr_metadata = VObject ObjectProto [], fr_result = VNull, fr_result_present = False,
     fr_failure = VNull, fr_parent = VNull, fr_flow = VStr ''orders'', fr_backoff = VNull,
     fr_version = Db_Number (jint 1), fr_priority = Db_Number (jint 0), fr_run_at_ms = Db_Text ''5'',
     fr_sequence = Db_Text ''1'', fr_attempts_max = Db_Number (jint 1), fr_attempts_made = Db_Number (jint 0),
     fr_attempt_sequence = Db_Text ''0'', fr_delivery_count = Db_Number (jint 0),
     fr_stalled_count = Db_Number (jint 0), fr_timeout_ms = Db_Null, fr_created_at_ms = Db_Text ''5'',
     fr_updated_at_ms = Db_Text ''5'', fr_processed_at_ms = Db_Null, fr_finished_at_ms = Db_Null,
     fr_lease_expires_at_ms = Db_Null, fr_cancellation_requested_at_ms = Db_Null\<rparr>"

lemma demo_converts: "converts_decimals (\<lambda>_. NaN)"
  by (simp add: converts_decimals_def is_safe_integer_def)

theorem flow_counts_exact_witness:
  "\<exists>c. flow_counts_of (\<lambda>_. NaN) (Some [(''active'', nat_text 1), (''waiting'', nat_text 2)]) = Inr c
     \<and> fc_total c = 3 \<and> fc_waiting c = 2"
proof -
  let ?jobs = "[demo_row ''a'' ''waiting'', demo_row ''b'' ''active'', demo_row ''c'' ''waiting'']"
  have "counts_answer ?jobs [(''active'', nat_text 1), (''waiting'', nat_text 2)]"
    by (simp add: counts_answer_def state_count_def demo_row_def numeral_2_eq_2 insert_commute)
  from flow_counts_exact[OF demo_converts this] show ?thesis
    by (auto simp: demo_row_def state_texts_def state_count_def max_safe_def)
qed

subsection \<open>Recovery\<close>

text \<open>A job id is a branded string.\<close>

definition keeps_ids :: "(string \<Rightarrow> string option) \<Rightarrow> bool" where
  "keeps_ids make_id \<longleftrightarrow> (\<forall>i j. make_id i = Some j \<longrightarrow> j = i)"

lemma collect_same:
  "collect f xs = Inr ys \<Longrightarrow> (\<And>x y. f x = Inr y \<Longrightarrow> y = x) \<Longrightarrow> ys = xs"
  by (induction xs arbitrary: ys) (auto elim!: rbind_InrE)

text \<open>
  C18. Recovery misses no one: the parents it returns are exactly the recoverable ones of the namespace and
  of the named flows (waiting, active, waiting for children, or with a cancelled child whose cancellation
  has not cascaded), at most ten thousand; if there are more, it fails instead of returning some.
\<close>

theorem recovery_ids_complete:
  assumes "keeps_ids make_id"
    and "recovery_ids make_id (Inr (select_recoverable named place jobs children scoped names)) names = Inr ids"
  shows "set ids = fr_id ` set (select_jobs jobs scoped (recoverable named children scoped names))
    \<and> length ids \<le> 10000"
proof (cases "names = []")
  case True
  then have "select_jobs jobs scoped (recoverable named children scoped names) = []"
    by (auto simp: select_jobs_def recoverable_def filter_empty_conv)
  with True assms(2) show ?thesis by (simp add: recovery_ids_def)
next
  case False
  let ?all = "sort_key place (map fr_id (select_jobs jobs scoped (recoverable named children scoped names)))"
  from False assms(2) have short: "\<not> length (take 10001 ?all) > 10000"
    and c: "collect (\<lambda>i. need (make_id i) (Mq_Flow FlowOperation)) (take 10001 ?all) = Inr ids"
    by (auto simp: recovery_ids_def select_recoverable_def throw_if_iff elim!: rbind_InrE)
  from short have len: "length ?all \<le> 10000" by simp
  have "ids = take 10001 ?all"
    using assms(1) by (intro collect_same[OF c]) (auto simp: need_ok keeps_ids_def)
  with len have "ids = ?all" by simp
  with len show ?thesis by simp
qed

theorem recovery_ids_complete_witness:
  "\<exists>ids. set ids = {''b'', ''c''} \<and> recovery_ids Some (Inr (select_recoverable
       (\<lambda>v. if v = VStr ''orders'' then Some ''orders'' else None) length
       [(''ns'', demo_row ''a'' ''completed''), (''ns'', demo_row ''b'' ''active''), (''ns'', demo_row ''c'' ''failed'')]
       [(''ns'', \<lparr>cr_flow_id = ''c'', cr_child_key = ''k'', cr_child_job_id = ''j'', cr_status = ''cancelled'',
          cr_cascaded = False, cr_result = None\<rparr>)] ''ns'' [''orders''])) [''orders''] = Inr ids"
proof -
  let ?named = "\<lambda>v. if v = VStr ''orders'' then Some ''orders'' else None"
  let ?jobs = "[(''ns'', demo_row ''a'' ''completed''), (''ns'', demo_row ''b'' ''active''), (''ns'', demo_row ''c'' ''failed'')]"
  let ?children = "[(''ns'', \<lparr>cr_flow_id = ''c'', cr_child_key = ''k'', cr_child_job_id = ''j'',
     cr_status = ''cancelled'', cr_cascaded = False, cr_result = None\<rparr>)]"
  have sel: "map fr_id (select_jobs ?jobs ''ns'' (recoverable ?named ?children ''ns'' [''orders''])) = [''b'', ''c'']"
    by (simp add: select_jobs_def recoverable_def demo_row_def)
  then have "\<exists>ids. recovery_ids Some (Inr (select_recoverable ?named length ?jobs ?children ''ns'' [''orders'']))
      [''orders''] = Inr ids"
    by (simp add: recovery_ids_def select_recoverable_def)
  then obtain ids where r: "recovery_ids Some (Inr (select_recoverable ?named length ?jobs ?children ''ns'' [''orders'']))
      [''orders''] = Inr ids" ..
  have "keeps_ids Some" by (simp add: keeps_ids_def)
  from recovery_ids_complete[OF this r] have "set ids = set (map fr_id
      (select_jobs ?jobs ''ns'' (recoverable ?named ?children ''ns'' [''orders''])))" by simp
  then have "set ids = {''b'', ''c''}" unfolding sel by simp
  with r show ?thesis by blast
qed


subsection \<open>Snapshots\<close>

lemma select_results_member:
  "(k, j, v) \<in> set (select_results table ns flow_id keys) \<longleftrightarrow>
     (\<exists>r. (ns, r) \<in> set table \<and> cr_flow_id r = flow_id \<and> cr_child_key r = k \<and> k \<in> set keys
        \<and> cr_status r = ''completed'' \<and> cr_child_job_id r = j \<and> cr_result r = Some v)"
  by (auto simp: select_results_def split: option.splits if_splits) force+

text \<open>The stored result of a child: a completed row of its flow and key that has one.\<close>

definition stored_result :: "(string \<times> flow_child_row) list \<Rightarrow> string \<Rightarrow> string \<Rightarrow> stored_child \<Rightarrow> flow_child_row \<Rightarrow> bool" where
  "stored_result table ns flow_id c r \<longleftrightarrow> (ns, r) \<in> set table \<and> cr_flow_id r = flow_id
     \<and> cr_child_key r = fh_key c \<and> cr_status r = ''completed'' \<and> cr_result r \<noteq> None"

definition restored :: "(string \<times> flow_child_row) list \<Rightarrow> string \<Rightarrow> string \<Rightarrow> stored_child \<Rightarrow> stored_child \<Rightarrow> bool" where
  "restored table ns flow_id c d \<longleftrightarrow>
     (if \<not> missing_result c then d = c
      else if \<exists>r. stored_result table ns flow_id c r
      then \<exists>r. stored_result table ns flow_id c r \<and> cr_child_job_id r = fh_job_id c
             \<and> d = c\<lparr>fh_result := cr_result r\<rparr>
      else d = c)"

lemma restore_child_ok:
  assumes keeps: "\<And>c d. validate c = Inr d \<Longrightarrow> d = c"
    and k: "missing_result c \<Longrightarrow> fh_key c \<in> set keys"
    and r: "restore_child validate (persisted_rows (select_results table ns flow_id keys)) c = Inr d"
  shows "restored table ns flow_id c d"
proof (cases "missing_result c")
  case False
  with r show ?thesis by (auto simp: restore_child_def restored_def split: option.splits)
next
  case True
  let ?rows = "select_results table ns flow_id keys"
  show ?thesis
  proof (cases "persisted_rows ?rows (fh_key c)")
    case None
    then have "fh_key c \<notin> fst ` set ?rows" by (simp add: persisted_rows_def map_of_eq_None_iff)
    then have "\<nexists>j v. (fh_key c, j, v) \<in> set ?rows" by force
    with k[OF True] have "\<nexists>r. stored_result table ns flow_id c r"
      unfolding select_results_member stored_result_def by blast
    with None r True show ?thesis by (simp add: restore_child_def restored_def)
  next
    case (Some jv)
    then obtain j v where jv: "persisted_rows ?rows (fh_key c) = Some (j, v)" by (cases jv) auto
    then have "(fh_key c, j, v) \<in> set ?rows" unfolding persisted_rows_def by (auto dest: map_of_SomeD)
    then obtain row where row: "stored_result table ns flow_id c row" "cr_child_job_id row = j" "cr_result row = Some v"
      by (auto simp: select_results_member stored_result_def)
    from r jv True keeps have "j = fh_job_id c" "d = c\<lparr>fh_result := Some v\<rparr>"
      by (auto simp: restore_child_def rbind_Inr_iff throw_if_iff)
    with row True show ?thesis unfolding restored_def by (auto intro!: exI[of _ row])
  qed
qed

text \<open>
  C19. The snapshot of a flow gets back exactly the results the pinned store loses: a completed child
  without a result gets the stored one, JSON's null included, if a completed row of the same child has
  one; every other child is as it was, in the same order. A row of another child under the same key is
  never used.
\<close>

theorem flow_snapshot_restored:
  assumes "\<And>c d. validate c = Inr d \<Longrightarrow> d = c"
    and "flow_get_flow validate (Some table) ns flow_id (Inr (Some children)) = Inr (Some out)"
  shows "list_all2 (restored table ns flow_id) children out"
proof (cases "filter missing_result children = []")
  case True
  with assms(2) have "out = children" by (simp add: flow_get_flow_def restore_snapshot_def)
  moreover from True have "restored table ns flow_id c c" if "c \<in> set children" for c
    using that by (auto simp: filter_empty_conv restored_def)
  ultimately show ?thesis by (simp add: list_all2_same)
next
  case False
  let ?keys = "map fh_key (filter missing_result children)"
  from False assms(2) have "collect (restore_child validate
      (persisted_rows (select_results table ns flow_id ?keys))) children = Inr out"
    by (auto simp: flow_get_flow_def restore_snapshot_def Let_def elim!: rbind_InrE)
  then have "list_all2 (\<lambda>c d. restore_child validate
      (persisted_rows (select_results table ns flow_id ?keys)) c = Inr d) children out"
    by (simp add: collect_ok)
  then show ?thesis
    by (rule list.rel_mono_strong) (auto intro: restore_child_ok[OF assms(1), where keys = ?keys])
qed

theorem flow_snapshot_restored_witness:
  "\<exists>out. flow_get_flow Inr (Some [(''ns'', \<lparr>cr_flow_id = ''f'', cr_child_key = ''k'', cr_child_job_id = ''j'',
       cr_status = ''completed'', cr_cascaded = False, cr_result = Some VNull\<rparr>)]) ''ns'' ''f''
     (Inr (Some [\<lparr>fh_key = ''k'', fh_job_id = ''j'', fh_status = ''completed'', fh_result = None\<rparr>])) = Inr (Some out)
     \<and> map fh_result out = [Some VNull]"
proof -
  let ?table = "[(''ns'', \<lparr>cr_flow_id = ''f'', cr_child_key = ''k'', cr_child_job_id = ''j'',
       cr_status = ''completed'', cr_cascaded = False, cr_result = Some VNull\<rparr>)]"
  let ?c = "\<lparr>fh_key = ''k'', fh_job_id = ''j'', fh_status = ''completed'', fh_result = None\<rparr>"
  have r: "flow_get_flow Inr (Some ?table) ''ns'' ''f'' (Inr (Some [?c]))
      = Inr (Some [?c\<lparr>fh_result := Some VNull\<rparr>])"
    by (simp add: flow_get_flow_def restore_snapshot_def missing_result_def select_results_def
        restore_child_def persisted_rows_def)
  have "restored ?table ''ns'' ''f'' ?c (?c\<lparr>fh_result := Some VNull\<rparr>)"
    using flow_snapshot_restored[OF _ r] by simp
  with r show ?thesis by simp
qed

subsection \<open>Attempts\<close>

text \<open>
  The ledger is shown as it is stored: every attempt keeps the outcome of its row, the fan-outs included,
  and a fan-out has no result, no failure and no retry.
\<close>

theorem flow_attempts_faithful:
  assumes "\<And>a b. validate a = Inr b \<Longrightarrow> b = a"
    and "flow_get_attempts other validate place (Some table) scoped i = Inr ledger"
  shows "list_all2 (\<lambda>row a. fa_outcome a = ar_outcome row
      \<and> (ar_outcome row = fanned_out \<longrightarrow> fa_result a = None \<and> fa_failure a = None
           \<and> fa_retry_at a = None \<and> fa_retry_delay_ms a = None))
    (sort_key (\<lambda>r. place (ar_attempt_sequence r))
       (map snd (filter (\<lambda>(ns, r). ns = scoped \<and> ar_job r = i) table))) ledger"
proof -
  have "fa_outcome a = ar_outcome row \<and> (ar_outcome row = fanned_out \<longrightarrow> fa_result a = None
      \<and> fa_failure a = None \<and> fa_retry_at a = None \<and> fa_retry_delay_ms a = None)"
    if "decode_attempt other validate row = Inr a" for row a
  proof -
    from that obtain b where b: "validate (flow_attempt_of_row other row) = Inr b"
      and a: "a = (if ar_outcome row = fanned_out then b\<lparr>fa_outcome := fanned_out\<rparr> else b)"
      and ok: "ar_outcome row = fanned_out \<longrightarrow> \<not> ar_result_present row \<and> ar_failure row = VNull
        \<and> ar_retry_at_ms row = Db_Null \<and> ar_retry_delay_ms row = Db_Null"
      by (auto simp: decode_attempt_def Let_def throw_if_iff elim!: rbind_InrE)
    from assms(1)[OF b] a ok show ?thesis
      by (simp add: flow_attempt_of_row_def optional_numeric_def json_present_def)
  qed
  with assms(2) show ?thesis
    by (auto simp: flow_get_attempts_def collect_ok intro: list.rel_mono_strong)
qed


definition demo_attempt :: flow_attempt_row where
  "demo_attempt = \<lparr>ar_job = ''p'', ar_outcome = fanned_out, ar_result = VNull, ar_result_present = False,
     ar_failure = VNull, ar_attempt = Db_Number (jint 1), ar_attempt_sequence = Db_Text ''1'',
     ar_delivery = Db_Number (jint 1), ar_started_at_ms = Db_Text ''5'', ar_finished_at_ms = Db_Text ''6'',
     ar_retry_at_ms = Db_Null, ar_retry_delay_ms = Db_Null\<rparr>"

lemma demo_attempt_decoded: "\<exists>a. decode_attempt (\<lambda>_. NaN) Inr demo_attempt = Inr a"
  by (simp add: decode_attempt_def demo_attempt_def)

theorem flow_attempts_faithful_witness:
  "\<exists>a. flow_get_attempts (\<lambda>_. NaN) Inr (\<lambda>_. 0) (Some [(''ns'', demo_attempt)]) ''ns'' ''p'' = Inr [a]
     \<and> fa_outcome a = fanned_out \<and> fa_result a = None"
proof -
  obtain a where "decode_attempt (\<lambda>_. NaN) Inr demo_attempt = Inr a" using demo_attempt_decoded by blast
  moreover have "ar_job demo_attempt = ''p''" "ar_outcome demo_attempt = fanned_out"
    by (simp_all add: demo_attempt_def)
  ultimately have l: "flow_get_attempts (\<lambda>_. NaN) Inr (\<lambda>_. 0) (Some [(''ns'', demo_attempt)]) ''ns'' ''p'' = Inr [a]"
    by (simp add: flow_get_attempts_def)
  from flow_attempts_faithful[OF _ l] \<open>ar_job demo_attempt = _\<close> \<open>ar_outcome demo_attempt = _\<close>
  have "fa_outcome a = fanned_out \<and> fa_result a = None" by simp
  with l show ?thesis by blast
qed

end
