(* ===== verification/Mq_Sqlite.thy ===== *)
theory Mq_Sqlite
  imports Mq_Configuration
begin

text \<open>
  \<open>src/integrations/sqlite-adapter-version.ts\<close> and \<open>src/integrations/sqlite-connection.ts\<close>: which
  releases of the SQLite adapter may run schedules, the options of a SQLite connection, and the life of
  the handle it opens. Native handles are numbers; the host that opens and closes them, the adapter and
  \<open>node:path\<close> answer through parameters, and what happens to a handle is recorded.
\<close>

subsection \<open>Versions\<close>

text \<open>The three parts of \<open>/^(0|[1-9]\d*)\.(0|[1-9]\d*)\.(0|[1-9]\d*)$/\<close>.\<close>

fun split_dots :: "string \<Rightarrow> string list" where
  "split_dots [] = [[]]"
| "split_dots (c # cs) =
     (if c = CHR ''.'' then [] # split_dots cs
      else case split_dots cs of [] \<Rightarrow> [[c]] | p # ps \<Rightarrow> (c # p) # ps)"

definition version_part :: "string \<Rightarrow> bool" where
  "version_part s \<longleftrightarrow> s \<noteq> [] \<and> list_all is_digit s \<and> (hd s = CHR ''0'' \<longrightarrow> s = ''0'')"

definition version_of :: "string \<Rightarrow> (nat \<times> nat \<times> nat) option" where
  "version_of s =
     (case split_dots s of
        [a, b, c] \<Rightarrow>
          if version_part a \<and> version_part b \<and> version_part c
          then Some (digits_value a, digits_value b, digits_value c) else None
      | _ \<Rightarrow> None)"

definition sqlite_schedules_qualified :: "string option \<Rightarrow> bool" where
  "sqlite_schedules_qualified version =
     (case Option.bind version version_of of
        None \<Rightarrow> False
      | Some (major, minor, patch) \<Rightarrow> major = 0 \<and> minor = 1 \<and> patch \<ge> 3)"

definition assert_qualified_sqlite_schedules :: "string option \<Rightarrow> unit res" where
  "assert_qualified_sqlite_schedules version = throw_if (\<not> sqlite_schedules_qualified version) (Native_Error 0)"

lemma split_dots_nonempty: "split_dots s \<noteq> []"
  by (cases s) (auto split: list.splits)

lemma split_dots_append:
  "CHR ''.'' \<notin> set p \<Longrightarrow> split_dots (p @ CHR ''.'' # s) = p # split_dots s"
  by (induction p) auto

lemma split_dots_last: "CHR ''.'' \<notin> set p \<Longrightarrow> split_dots p = [p]"
  by (induction p) auto

lemma split_dots_join: "concat (map (\<lambda>p. CHR ''.'' # p) (split_dots s)) = CHR ''.'' # s"
proof (induction s)
  case (Cons c s)
  then show ?case by (cases "split_dots s") (auto simp: split_dots_nonempty)
qed simp

text \<open>A numeral without a leading zero is the text of its value.\<close>

lemma digit_char_inverse: "is_digit c \<Longrightarrow> digit_char (of_char c - 48) = c"
  by (simp add: is_digit_def digit_char_def)

lemma digits_value_snoc: "digits_value (s @ [c]) = 10 * digits_value s + (of_char c - 48)"
  by (simp add: digits_value_def)

lemma version_part_text:
  "version_part s \<Longrightarrow> nat_text (digits_value s) = s \<and> (s \<noteq> ''0'' \<longrightarrow> digits_value s > 0)"
proof (induction s rule: rev_induct)
  case (snoc c s)
  from snoc.prems have c: "is_digit c" by (simp add: version_part_def)
  then have lt: "(of_char c :: nat) - 48 < 10" by (auto simp: is_digit_def)
  show ?case
  proof (cases "s = []")
    case True
    have "digit_char 0 = CHR ''0''" by (simp add: digit_char_def char_of_def bit_0)
    then have "c = CHR ''0''" if "(of_char c :: nat) - 48 = 0"
      using digit_char_inverse[OF c] that by metis
    then have "0 < (of_char c :: nat) - 48" if "c \<noteq> CHR ''0''" using that by blast
    moreover have "digits_value [c] = of_char c - 48" by (simp add: digits_value_def)
    ultimately show ?thesis
      using True lt digit_char_inverse[OF c] by (simp add: nat_text.simps)
  next
    case False
    with snoc.prems have s: "version_part s" "s \<noteq> ''0''"
      by (cases s; auto simp: version_part_def)+
    with snoc.IH have ih: "nat_text (digits_value s) = s" "digits_value s > 0" by auto
    let ?n = "10 * digits_value s + (of_char c - 48)"
    have "?n div 10 = digits_value s" "?n mod 10 = of_char c - 48" "\<not> ?n < 10" using lt ih(2) by auto
    then have "nat_text ?n = s @ [c]"
      using ih(1) digit_char_inverse[OF c] by (subst nat_text.simps) simp
    with ih(2) show ?thesis by (simp add: digits_value_snoc)
  qed
qed (simp add: version_part_def)

lemma version_part_nat_text: "version_part (nat_text n)"
proof -
  have "hd (nat_text n) = CHR ''0'' \<longrightarrow> nat_text n = ''0''"
  proof (induction n rule: nat_text.induct)
    case (1 n)
    show ?case
    proof (cases "n < 10")
      case True
      then show ?thesis by (subst (1 2) nat_text.simps) simp
    next
      case False
      then have "nat_text n = nat_text (n div 10) @ [digit_char (n mod 10)]" by (subst nat_text.simps) simp
      moreover have "hd (nat_text (n div 10)) \<noteq> CHR ''0''"
      proof
        assume "hd (nat_text (n div 10)) = CHR ''0''"
        with 1 False have "nat_text (n div 10) = ''0''" by simp
        then have "n div 10 = digits_value ''0''" by (metis digits_value_nat_text)
        with False show False by (simp add: digits_value_def)
      qed
      ultimately show ?thesis using nat_text_nonempty[of "n div 10"] by simp
    qed
  qed
  with nat_text_digits nat_text_nonempty show ?thesis by (simp add: version_part_def list_all_iff)
qed

text \<open>
  Schedules are enabled exactly for the adapter releases 0.1.3, 0.1.4 and so on of the 0.1 line, and
  for no other text: no pre-release, no build metadata, no leading zero, no other line, no unknown version.
\<close>

theorem sqlite_schedules_qualified_iff:
  "sqlite_schedules_qualified (Some v) \<longleftrightarrow> (\<exists>patch\<ge>3. v = ''0.1.'' @ nat_text patch)"
proof
  assume "sqlite_schedules_qualified (Some v)"
  then obtain patch where p: "version_of v = Some (0, 1, patch)" "patch \<ge> 3"
    by (auto simp: sqlite_schedules_qualified_def split: option.splits)
  then obtain a b c where sp: "split_dots v = [a, b, c]" and parts: "version_part a" "version_part b" "version_part c"
    and vals: "digits_value a = 0" "digits_value b = 1" "digits_value c = patch"
    by (auto simp: version_of_def split: list.splits if_splits)
  from version_part_text[OF parts(1)] vals(1) have "a = ''0''" by auto
  moreover from version_part_text[OF parts(2)] vals(2) have "b = nat_text 1" by simp
  moreover have "nat_text 1 = ''1''" by (simp add: nat_text.simps digit_char_def char_of_def bit_0)
  moreover from version_part_text[OF parts(3)] vals(3) have "c = nat_text patch" by simp
  ultimately have "v = ''0.1.'' @ nat_text patch" using split_dots_join[of v] sp by simp
  with p(2) show "\<exists>patch\<ge>3. v = ''0.1.'' @ nat_text patch" by blast
next
  assume "\<exists>patch\<ge>3. v = ''0.1.'' @ nat_text patch"
  then obtain patch where p: "patch \<ge> 3" and v: "v = ''0.1.'' @ nat_text patch" by blast
  have "CHR ''.'' \<notin> set (nat_text patch)" using nat_text_digits[of patch] by (auto simp: is_digit_def)
  then have sp: "split_dots v = [''0'', ''1'', nat_text patch]" by (simp add: v split_dots_last)
  have "version_part ''0''" "version_part ''1''" "digits_value ''0'' = 0" "digits_value ''1'' = 1"
    by (simp_all add: version_part_def is_digit_def digits_value_def)
  with sp have "version_of v = Some (0, 1, patch)"
    by (simp add: version_of_def version_part_nat_text digits_value_nat_text)
  with p show "sqlite_schedules_qualified (Some v)" by (simp add: sqlite_schedules_qualified_def)
qed


subsection \<open>Options of a connection\<close>

text \<open>
  The fields that a caller without types may fill with anything are values; an absent field is
  \<open>VUndefined\<close>. \<open>sl_shape\<close> is what the guard looks at before it reads a field.
\<close>

record sqlite_location =
  sl_shape :: shape
  sl_path :: "string option"
  sl_database :: "nat option"

record sqlite_options = sqlite_location +
  sq_namespace :: "string option"
  sq_configure_pragmas :: jsval
  sq_busy_timeout_ms :: "jsnum option"
  sq_poll_interval_ms :: "jsnum option"
  sq_events :: jsval
  sq_schedules :: jsval
  sq_require_capabilities :: "string list option"

datatype sqlite_source = Owned_Path string | Borrowed_Database nat

datatype sqlite_layer =
    Sqlite_Jobs service_token nat string bool jsnum jsnum
  | Sqlite_Schedules service_token nat string
  | Sqlite_Events service_token nat string jsnum

text \<open>
  The adapter package, \<open>node:path\<close> and the host: validation of a namespace and of a handle, \<open>exec\<close> on
  a handle, the creation of the job layer, and opening and closing of a file. Each answers with a value or
  throws. \<open>sv_boundary\<close> names a source by a number.
\<close>

record sqlite_env =
  sv_version :: "string option"
  sv_namespace :: "string \<Rightarrow> string res"
  sv_database :: "nat \<Rightarrow> unit res"
  sv_exec :: "nat \<Rightarrow> string \<Rightarrow> unit res"
  sv_layer :: "sqlite_layer \<Rightarrow> unit res"
  sv_resolve :: "string \<Rightarrow> string"
  sv_boundary :: "sqlite_source \<Rightarrow> nat"
  sv_open :: "string \<Rightarrow> nat res"
  sv_close :: "nat \<Rightarrow> unit res"

definition assert_options :: "shape \<Rightarrow> string list \<Rightarrow> unit res" where
  "assert_options s allowed = check_shape (Native_Error 0) s allowed"

definition sqlite_location_of :: "sqlite_env \<Rightarrow> ('x sqlite_location_scheme) \<Rightarrow> sqlite_source res" where
  "sqlite_location_of env opts =
     rbind (throw_if ((sl_path opts = None) = (sl_database opts = None)) (Native_Error 0)) (\<lambda>_.
     case sl_database opts of
       Some db \<Rightarrow> rbind (sv_database env db) (\<lambda>_. Inr (Borrowed_Database db))
     | None \<Rightarrow>
         rbind (need (sl_path opts) (Native_Error 0)) (\<lambda>path.
         rbind (require_name path) (\<lambda>_.
         rbind (throw_if (nul \<in> set path \<or> take 5 path = ''file:'' \<or> path = '':memory:'') (Native_Error 0)) (\<lambda>_.
         Inr (Owned_Path (sv_resolve env path))))))"

definition sqlite_integer :: "jsnum \<Rightarrow> int \<Rightarrow> jsnum res" where
  "sqlite_integer value minimum =
     rbind (require_integer value minimum) (\<lambda>_.
     rbind (throw_if (js_less (jint 2147483647) value) (Native_Error 0)) (\<lambda>_. Inr value))"

text \<open>\<open>x === undefined ? false : x\<close>, which has to be a boolean.\<close>

definition strict_flag :: "jsval \<Rightarrow> bool res" where
  "strict_flag v = (case v of VUndefined \<Rightarrow> Inr False | VBool b \<Rightarrow> Inr b | _ \<Rightarrow> Inl (Native_Error 0))"

text \<open>\<open>x ?? d\<close>, which has to be a boolean.\<close>

definition nullish_flag :: "exn \<Rightarrow> bool \<Rightarrow> jsval \<Rightarrow> bool res" where
  "nullish_flag err d v =
     (case v of VUndefined \<Rightarrow> Inr d | VNull \<Rightarrow> Inr d | VBool b \<Rightarrow> Inr b | _ \<Rightarrow> Inl err)"

record sqlite_plan =
  sp_source :: sqlite_source
  sp_namespace :: string
  sp_configure_pragmas :: bool
  sp_busy_timeout_ms :: jsnum
  sp_poll_interval_ms :: jsnum
  sp_events :: bool
  sp_schedules :: bool

definition is_owned :: "sqlite_source \<Rightarrow> bool" where
  "is_owned s = (case s of Owned_Path _ \<Rightarrow> True | Borrowed_Database _ \<Rightarrow> False)"

definition sqlite_plan_of :: "sqlite_env \<Rightarrow> sqlite_options \<Rightarrow> sqlite_plan res" where
  "sqlite_plan_of env opts =
     rbind (assert_options (sl_shape opts) [''database'', ''path'', ''namespace'', ''configurePragmas'',
       ''busyTimeoutMs'', ''pollIntervalMs'', ''events'', ''schedules'', ''requireCapabilities'']) (\<lambda>_.
     rbind (sv_namespace env (orelse (sq_namespace opts) ''default'')) (\<lambda>namespace.
     rbind (strict_flag (sq_schedules opts)) (\<lambda>schedules.
     rbind (if schedules then assert_qualified_sqlite_schedules (sv_version env) else Inr ()) (\<lambda>_.
     rbind (strict_flag (sq_events opts)) (\<lambda>events.
     rbind (sqlite_location_of env opts) (\<lambda>source.
     rbind (nullish_flag (Native_Error 0) (is_owned source) (sq_configure_pragmas opts)) (\<lambda>pragmas.
     rbind (throw_if (\<not> pragmas \<and> sq_busy_timeout_ms opts \<noteq> None) (Native_Error 0)) (\<lambda>_.
     rbind (sqlite_integer (orelse (sq_busy_timeout_ms opts) (jint 5000)) 0) (\<lambda>busy.
     rbind (sqlite_integer (orelse (sq_poll_interval_ms opts) (jint 1000)) 1) (\<lambda>poll.
     Inr \<lparr>sp_source = source, sp_namespace = namespace, sp_configure_pragmas = pragmas,
          sp_busy_timeout_ms = busy, sp_poll_interval_ms = poll, sp_events = events,
          sp_schedules = schedules\<rparr>))))))))))"

text \<open>\<open>fresh\<close> is the identity of the connection object; the plan is what its \<open>acquire\<close> closes over.\<close>

definition sqlite_connection :: "sqlite_env \<Rightarrow> nat \<Rightarrow> sqlite_options \<Rightarrow> sqlite_plan definitions
    \<Rightarrow> (mq_connection \<times> sqlite_plan definitions) res" where
  "sqlite_connection env fresh opts defs =
     catch_res
       (rbind (sqlite_plan_of env opts) (\<lambda>p.
        Inr (define_connection fresh
          \<lparr>ci_adapter = ''sqlite'', ci_ownership = (if is_owned (sp_source p) then Owned else Borrowed),
           ci_boundary = sv_boundary env (sp_source p), ci_scope = sp_namespace p,
           ci_requirements = Some (orelse (sq_require_capabilities opts) [])\<rparr> p defs)))
       (\<lambda>cause. case cause of
          Mq_Connection name phase \<Rightarrow> Inl (Mq_Connection name phase)
        | _ \<Rightarrow> Inl (Mq_Connection ''<sqlite>'' ConnConfiguration))"

subsection \<open>The life of a handle\<close>

text \<open>What the host and the adapter are asked to do, in order.\<close>

datatype sqlite_event =
    Sq_Open string
  | Sq_Exec nat string
  | Sq_Layer sqlite_layer
  | Sq_Run nat
  | Sq_Close nat

text \<open>An acquisition: the events so far and the \<open>closed\<close> flag of its \<open>release\<close>.\<close>

record sqlite_handle =
  hd_database :: nat
  hd_owned :: bool
  hd_closed :: bool
  hd_events :: "sqlite_event list"

definition sqlite_release :: "sqlite_env \<Rightarrow> sqlite_handle \<Rightarrow> unit res \<times> sqlite_handle" where
  "sqlite_release env h =
     (if hd_closed h \<or> \<not> hd_owned h then (Inr (), h)
      else (sv_close env (hd_database h),
            h\<lparr>hd_closed := True, hd_events := hd_events h @ [Sq_Close (hd_database h)]\<rparr>))"

definition job_layer_of :: "sqlite_plan \<Rightarrow> service_token \<Rightarrow> nat \<Rightarrow> sqlite_layer" where
  "job_layer_of p token db =
     Sqlite_Jobs token db (sp_namespace p) (sp_configure_pragmas p) (sp_busy_timeout_ms p) (sp_poll_interval_ms p)"

definition sqlite_schedule_layer :: "string \<Rightarrow> nat \<Rightarrow> string \<Rightarrow> sqlite_layer" where
  "sqlite_schedule_layer name db namespace = Sqlite_Schedules (schedule_token name) db namespace"

definition sqlite_event_layer :: "string \<Rightarrow> nat \<Rightarrow> string \<Rightarrow> jsnum \<Rightarrow> sqlite_layer" where
  "sqlite_event_layer name db namespace poll = Sqlite_Events (event_token name) db namespace poll"

text \<open>The \<open>try\<close> block of \<open>acquire\<close>.\<close>

definition sqlite_setup :: "sqlite_env \<Rightarrow> sqlite_plan \<Rightarrow> service_token \<Rightarrow> sqlite_handle
    \<Rightarrow> sqlite_layer acquired_connection res \<times> sqlite_handle" where
  "sqlite_setup env p token h =
     (let db = hd_database h; owned = is_owned (sp_source p); layer = job_layer_of p token db in
      case sv_database env db of
        Inl e \<Rightarrow> (Inl e, h)
      | Inr _ \<Rightarrow>
          let pragma = (if owned then [Sq_Exec db ''PRAGMA journal_mode = WAL''] else []);
              h1 = h\<lparr>hd_events := hd_events h @ pragma\<rparr> in
          (case (if owned then sv_exec env db ''PRAGMA journal_mode = WAL'' else Inr ()) of
             Inl e \<Rightarrow> (Inl e, h1)
           | Inr _ \<Rightarrow>
               let h2 = h1\<lparr>hd_events := hd_events h1 @ [Sq_Layer layer]\<rparr> in
               (case sv_layer env layer of
                  Inl e \<Rightarrow> (Inl e, h2)
                | Inr _ \<Rightarrow>
                    (Inr \<lparr>ac_layer = layer, ac_release = owned,
                       ac_events = (if sp_events p
                         then Some (\<lambda>name. sqlite_event_layer name db (sp_namespace p) (sp_poll_interval_ms p)) else None),
                       ac_flow_reads = None, ac_flows = None,
                       ac_schedules = (if sp_schedules p
                         then Some (\<lambda>name. sqlite_schedule_layer name db (sp_namespace p)) else None),
                       ac_outbox = None\<rparr>, h2))))"

text \<open>\<open>acquire\<close>: the answer, the handle if one was obtained, and the events.\<close>

definition sqlite_acquire :: "sqlite_env \<Rightarrow> sqlite_plan \<Rightarrow> service_token
    \<Rightarrow> sqlite_layer acquired_connection res \<times> sqlite_handle option \<times> sqlite_event list" where
  "sqlite_acquire env p token =
     (let opened = (case sp_source p of
          Owned_Path path \<Rightarrow> (sv_open env path, [Sq_Open path])
        | Borrowed_Database db \<Rightarrow> (Inr db, [])) in
      case fst opened of
        Inl e \<Rightarrow> (Inl e, None, snd opened)
      | Inr db \<Rightarrow>
          let h = \<lparr>hd_database = db, hd_owned = is_owned (sp_source p), hd_closed = False,
                   hd_events = snd opened\<rparr> in
          (case sqlite_setup env p token h of
             (Inr a, h1) \<Rightarrow> (Inr a, Some h1, hd_events h1)
           | (Inl cause, h1) \<Rightarrow>
               (case sqlite_release env h1 of
                  (Inl cleanup, h2) \<Rightarrow> (Inl (Aggregate [cause, cleanup]), Some h2, hd_events h2)
                | (Inr _, h2) \<Rightarrow> (Inl cause, Some h2, hd_events h2))))"

subsection \<open>Migration and validation\<close>

definition sqlite_with_database :: "sqlite_env \<Rightarrow> ('x sqlite_location_scheme) \<Rightarrow> (nat \<Rightarrow> 'v res)
    \<Rightarrow> 'v res \<times> sqlite_event list" where
  "sqlite_with_database env opts operation =
     (case rbind (assert_options (sl_shape opts) [''path'', ''database'']) (\<lambda>_. sqlite_location_of env opts) of
        Inl e \<Rightarrow> (Inl e, [])
      | Inr source \<Rightarrow>
          let opened = (case source of
              Owned_Path path \<Rightarrow> (sv_open env path, [Sq_Open path])
            | Borrowed_Database db \<Rightarrow> (Inr db, [])) in
          (case fst opened of
             Inl e \<Rightarrow> (Inl e, snd opened)
           | Inr db \<Rightarrow>
               let ran = (case sv_database env db of Inl e \<Rightarrow> (Inl e, snd opened)
                          | Inr _ \<Rightarrow> (operation db, snd opened @ [Sq_Run db]));
                   closing = (if is_owned source then [Sq_Close db] else []) in
               (case fst ran of
                  Inl cause \<Rightarrow>
                    ((if is_owned source then
                        (case sv_close env db of Inl cleanup \<Rightarrow> Inl (Aggregate [cause, cleanup]) | Inr _ \<Rightarrow> Inl cause)
                      else Inl cause), snd ran @ closing)
                | Inr v \<Rightarrow>
                    ((if is_owned source then rbind (sv_close env db) (\<lambda>_. Inr v) else Inr v), snd ran @ closing))))"

record sqlite_report =
  sr_component :: string
  sr_version :: nat
  sr_applied :: "nat list"

definition migrate_sqlite_database :: "sqlite_env \<Rightarrow> sqlite_location \<Rightarrow> (nat \<Rightarrow> sqlite_report res)
    \<Rightarrow> sqlite_report res \<times> sqlite_event list" where
  "migrate_sqlite_database env opts migrate =
     (case sqlite_with_database env opts migrate of
        (r, es) \<Rightarrow> (catch_res r (\<lambda>_. Inl (Mq_Connection ''<sqlite-migrations>'' ConnMigrate)), es))"

definition validate_sqlite_database :: "sqlite_env \<Rightarrow> sqlite_location \<Rightarrow> (nat \<Rightarrow> unit res)
    \<Rightarrow> unit res \<times> sqlite_event list" where
  "validate_sqlite_database env opts validate =
     (case sqlite_with_database env opts validate of
        (r, es) \<Rightarrow> (catch_res r (\<lambda>_. Inl (Mq_Connection ''<sqlite-migrations>'' ConnProbe)), es))"


subsection \<open>Properties\<close>

definition is_host_event :: "sqlite_event \<Rightarrow> bool" where
  "is_host_event e = (case e of Sq_Open _ \<Rightarrow> True | Sq_Close _ \<Rightarrow> True | _ \<Rightarrow> False)"

definition host_events :: "sqlite_event list \<Rightarrow> sqlite_event list" where
  "host_events es = filter is_host_event es"

lemma host_events_simps [simp]:
  "host_events [] = []"
  "host_events (es @ fs) = host_events es @ host_events fs"
  "host_events (Sq_Open p # es) = Sq_Open p # host_events es"
  "host_events (Sq_Close d # es) = Sq_Close d # host_events es"
  "host_events (Sq_Exec d t # es) = host_events es"
  "host_events (Sq_Layer l # es) = host_events es"
  "host_events (Sq_Run d # es) = host_events es"
  by (simp_all add: host_events_def is_host_event_def)

fun sqlite_releases :: "sqlite_env \<Rightarrow> nat \<Rightarrow> sqlite_handle \<Rightarrow> sqlite_handle" where
  "sqlite_releases env 0 h = h"
| "sqlite_releases env (Suc n) h = sqlite_releases env n (snd (sqlite_release env h))"

lemma releases_idle: "hd_closed h \<or> \<not> hd_owned h \<Longrightarrow> sqlite_releases env n h = h"
  by (induction n arbitrary: h) (simp_all add: sqlite_release_def)

lemma releases_owned:
  "hd_owned h \<Longrightarrow> \<not> hd_closed h \<Longrightarrow>
     host_events (hd_events (sqlite_releases env n h))
       = host_events (hd_events h) @ (if n = 0 then [] else [Sq_Close (hd_database h)])"
  by (cases n) (simp_all add: sqlite_release_def releases_idle)

lemma sqlite_setup_frame:
  "sqlite_setup env p token h = (r, h') \<Longrightarrow>
     hd_database h' = hd_database h \<and> hd_owned h' = hd_owned h \<and> hd_closed h' = hd_closed h
     \<and> host_events (hd_events h') = host_events (hd_events h)"
  by (auto simp: sqlite_setup_def Let_def split: sum.splits if_splits)

lemma sqlite_setup_offers:
  "sqlite_setup env p token h = (Inr a, h') \<Longrightarrow>
     offered a = \<lparr>rs_events = sp_events p, rs_flows = False, rs_schedules = sp_schedules p, rs_outbox = False\<rparr>
     \<and> ac_release a = is_owned (sp_source p)"
  by (auto simp: sqlite_setup_def offered_def Let_def split: sum.splits if_splits)

text \<open>
  C25. A connection that owns its file closes each handle it opened exactly once: at once when the
  acquisition fails after the file was opened, whatever failed and even if closing fails too, and
  otherwise at the first release, however often it is released. A handle of the application is never
  opened and never closed. What the resource offers is what the options asked for.
\<close>

theorem sqlite_handle_closed_once:
  assumes "sqlite_acquire env p token = (r, h, es)"
  shows "(case sp_source p of
      Borrowed_Database db \<Rightarrow>
        \<exists>g. h = Some g \<and> (\<forall>n. host_events (hd_events (sqlite_releases env n g)) = [])
    | Owned_Path path \<Rightarrow>
        (case sv_open env path of
           Inl e \<Rightarrow> r = Inl e \<and> h = None \<and> es = [Sq_Open path]
         | Inr db \<Rightarrow>
             \<exists>g. h = Some g \<and> host_events es = Sq_Open path # (if is_ok r then [] else [Sq_Close db])
               \<and> (\<forall>n. host_events (hd_events (sqlite_releases env n g))
                    = Sq_Open path # (if is_ok r \<and> n = 0 then [] else [Sq_Close db]))))
    \<and> (\<forall>a. r = Inr a \<longrightarrow> ac_release a = is_owned (sp_source p)
         \<and> offered a = \<lparr>rs_events = sp_events p, rs_flows = False, rs_schedules = sp_schedules p, rs_outbox = False\<rparr>)"
proof (cases "sp_source p")
  case (Borrowed_Database db)
  let ?h = "\<lparr>hd_database = db, hd_owned = False, hd_closed = False, hd_events = []\<rparr>"
  obtain q h1 where st: "sqlite_setup env p token ?h = (q, h1)" by fastforce
  from sqlite_setup_frame[OF st] have h1: "\<not> hd_owned h1" "host_events (hd_events h1) = []" by simp_all
  from Borrowed_Database st h1(1) assms have "r = q" "h = Some h1"
    by (auto simp: sqlite_acquire_def is_owned_def sqlite_release_def Let_def split: sum.splits)
  with Borrowed_Database h1 sqlite_setup_offers[of env p token ?h _ h1] st show ?thesis
    by (auto simp: releases_idle)
next
  case (Owned_Path path)
  show ?thesis
  proof (cases "sv_open env path")
    case (Inl e)
    with Owned_Path assms show ?thesis by (auto simp: sqlite_acquire_def Let_def)
  next
    case (Inr db)
    let ?h = "\<lparr>hd_database = db, hd_owned = True, hd_closed = False, hd_events = [Sq_Open path]\<rparr>"
    obtain q h1 where st: "sqlite_setup env p token ?h = (q, h1)" by fastforce
    from sqlite_setup_frame[OF st] have h1: "hd_owned h1" "\<not> hd_closed h1" "hd_database h1 = db"
      "host_events (hd_events h1) = [Sq_Open path]" by simp_all
    show ?thesis
    proof (cases q)
      case (Inl cause)
      with Owned_Path Inr st h1 assms have h: "h = Some (snd (sqlite_release env h1))"
        and r: "\<not> is_ok r" and es: "es = hd_events (snd (sqlite_release env h1))"
        by (auto simp: sqlite_acquire_def is_owned_def Let_def split: prod.splits sum.splits)
      from h1 have "hd_closed (snd (sqlite_release env h1))"
        "host_events (hd_events (snd (sqlite_release env h1))) = [Sq_Open path, Sq_Close db]"
        by (simp_all add: sqlite_release_def)
      with h r es Owned_Path Inr show ?thesis by (auto simp: releases_idle)
    next
      case (Inr a)
      with Owned_Path \<open>sv_open env path = Inr db\<close> st h1 assms have "h = Some h1" "r = Inr a" "es = hd_events h1"
        by (auto simp: sqlite_acquire_def is_owned_def Let_def)
      with h1 Owned_Path \<open>sv_open env path = Inr db\<close> sqlite_setup_offers[of env p token ?h a h1] st Inr
      show ?thesis by (auto simp: releases_owned)
    qed
  qed
qed

definition demo_sqlite :: sqlite_env where
  "demo_sqlite = \<lparr>sv_version = Some ''0.1.3'', sv_namespace = Inr, sv_database = (\<lambda>_. Inr ()),
     sv_exec = (\<lambda>_ _. Inl (Native_Error 7)), sv_layer = (\<lambda>_. Inr ()), sv_resolve = (\<lambda>p. ''/srv/'' @ p),
     sv_boundary = (\<lambda>_. 3), sv_open = (\<lambda>_. Inr 5), sv_close = (\<lambda>_. Inl (Native_Error 8))\<rparr>"

definition demo_sqlite_plan :: sqlite_plan where
  "demo_sqlite_plan = \<lparr>sp_source = Owned_Path ''/srv/mq.db'', sp_namespace = ''default'',
     sp_configure_pragmas = True, sp_busy_timeout_ms = jint 5000, sp_poll_interval_ms = jint 1000,
     sp_events = True, sp_schedules = False\<rparr>"

text \<open>The pragma fails, and closing fails too: the file is closed once, and both errors are reported.\<close>

theorem sqlite_handle_closed_once_witness:
  "\<exists>g es. sqlite_acquire demo_sqlite demo_sqlite_plan (named_store_token ''main'')
       = (Inl (Aggregate [Native_Error 7, Native_Error 8]), Some g, es)
     \<and> host_events (hd_events (sqlite_releases demo_sqlite 3 g)) = [Sq_Open ''/srv/mq.db'', Sq_Close 5]"
proof -
  have "\<exists>g es. sqlite_acquire demo_sqlite demo_sqlite_plan (named_store_token ''main'')
       = (Inl (Aggregate [Native_Error 7, Native_Error 8]), Some g, es)"
    by (simp add: sqlite_acquire_def sqlite_setup_def sqlite_release_def demo_sqlite_def demo_sqlite_plan_def
        is_owned_def Let_def)
  then obtain g es where run: "sqlite_acquire demo_sqlite demo_sqlite_plan (named_store_token ''main'')
       = (Inl (Aggregate [Native_Error 7, Native_Error 8]), Some g, es)" by blast
  have "sp_source demo_sqlite_plan = Owned_Path ''/srv/mq.db''" "sv_open demo_sqlite ''/srv/mq.db'' = Inr 5"
    by (simp_all add: demo_sqlite_plan_def demo_sqlite_def)
  with sqlite_handle_closed_once[OF run]
  have "host_events (hd_events (sqlite_releases demo_sqlite 3 g)) = [Sq_Open ''/srv/mq.db'', Sq_Close 5]" by simp
  with run show ?thesis by blast
qed


text \<open>
  Migration and validation of a file bracket it: the operation runs between the opening and the
  closing of the handle, the handle is closed whether the operation succeeds or throws, and the caller
  gets a value exactly if the operation gave it and the file closed. A database of the application is
  neither opened nor closed. Options that name no usable place touch nothing.
\<close>

theorem sqlite_database_bracketed:
  "(case rbind (assert_options (sl_shape opts) [''path'', ''database'']) (\<lambda>_. sqlite_location_of env opts) of
      Inl e \<Rightarrow> sqlite_with_database env opts operation = (Inl e, [])
    | Inr (Borrowed_Database db) \<Rightarrow> sqlite_with_database env opts operation = (operation db, [Sq_Run db])
    | Inr (Owned_Path path) \<Rightarrow>
        (case sv_open env path of
           Inl e \<Rightarrow> sqlite_with_database env opts operation = (Inl e, [Sq_Open path])
         | Inr db \<Rightarrow>
             snd (sqlite_with_database env opts operation)
               = [Sq_Open path] @ (if is_ok (sv_database env db) then [Sq_Run db] else []) @ [Sq_Close db]
             \<and> (\<forall>v. fst (sqlite_with_database env opts operation) = Inr v
                 \<longleftrightarrow> sv_database env db = Inr () \<and> operation db = Inr v \<and> sv_close env db = Inr ())))"
proof (cases "rbind (assert_options (sl_shape opts) [''path'', ''database'']) (\<lambda>_. sqlite_location_of env opts)")
  case (Inl e)
  then show ?thesis by (simp add: sqlite_with_database_def)
next
  case (Inr source)
  show ?thesis
  proof (cases source)
    case (Borrowed_Database db)
    with Inr have "sv_database env db = Inr ()"
      by (auto simp: sqlite_location_of_def split: option.splits elim!: rbind_InrE)
    with Inr Borrowed_Database show ?thesis
      by (cases "operation db") (simp_all add: sqlite_with_database_def is_owned_def)
  next
    case (Owned_Path path)
    show ?thesis
    proof (cases "sv_open env path")
      case (Inl e)
      with Inr Owned_Path show ?thesis by (simp add: sqlite_with_database_def)
    next
      case (Inr db)
      with \<open>_ = Inr source\<close> Owned_Path show ?thesis
        by (cases "sv_database env db"; cases "operation db"; cases "sv_close env db")
          (simp_all add: sqlite_with_database_def is_owned_def)
    qed
  qed
qed

definition sqlite_place :: "sqlite_env \<Rightarrow> sqlite_options \<Rightarrow> sqlite_source \<Rightarrow> bool" where
  "sqlite_place env opts source =
     (case (sl_path opts, sl_database opts) of
        (None, Some db) \<Rightarrow> source = Borrowed_Database db
      | (Some path, None) \<Rightarrow> valid_name path \<and> nul \<notin> set path \<and> take 5 path \<noteq> ''file:''
          \<and> path \<noteq> '':memory:'' \<and> source = Owned_Path (sv_resolve env path)
      | _ \<Rightarrow> False)"

lemma sqlite_location_of_ok: "sqlite_location_of env opts = Inr source \<Longrightarrow> sqlite_place env opts source"
  by (auto simp: sqlite_location_of_def sqlite_place_def throw_if_iff checks_ok need_ok split: option.splits
      elim!: rbind_InrE)

lemma sqlite_integer_ok:
  "sqlite_integer value m = Inr x \<longleftrightarrow> x = value \<and> (\<exists>i. value = jint i \<and> m \<le> i \<and> i \<le> 2147483647 \<and> \<bar>i\<bar> \<le> max_safe)"
  by (auto simp: sqlite_integer_def throw_if_iff checks_ok int_at_least_def rbind_Inr_iff)

text \<open>
  A SQLite connection that is created is bound to exactly one place, a valid local path or a handle of
  the application, with that ownership; its timers fit 32 bits; schedules are on only for a qualified
  adapter; a borrowed handle gets no pragma setting unless pragmas were asked for. Options that are
  refused always raise a connection error.
\<close>

theorem sqlite_connection_sound:
  assumes "sqlite_connection env fresh opts defs = r"
  shows "(case r of
      Inl e \<Rightarrow> \<exists>name phase. e = Mq_Connection name phase
    | Inr (c, defs') \<Rightarrow>
        \<exists>p busy poll. connection_definition_of defs' c name = Inr
            \<lparr>cd_boundary = sv_boundary env (sp_source p), cd_scope = sp_namespace p,
             cd_requirements = orelse (sq_require_capabilities opts) [], cd_acquire = p\<rparr>
          \<and> sqlite_place env opts (sp_source p)
          \<and> mc_ownership c = (if is_owned (sp_source p) then Owned else Borrowed)
          \<and> sp_busy_timeout_ms p = jint busy \<and> 0 \<le> busy \<and> busy < 2 ^ 31
          \<and> sp_poll_interval_ms p = jint poll \<and> 1 \<le> poll \<and> poll < 2 ^ 31
          \<and> (sp_schedules p \<longrightarrow> sqlite_schedules_qualified (sv_version env))
          \<and> (sp_configure_pragmas p \<or> sq_busy_timeout_ms opts = None))"
proof (cases "sqlite_plan_of env opts")
  case (Inl e)
  with assms show ?thesis by (auto simp: sqlite_connection_def split: exn.splits)
next
  case (Inr p)
  then obtain ok namespace schedules q events source pragmas where parts:
    "(if schedules then assert_qualified_sqlite_schedules (sv_version env) else Inr ()) = Inr q"
    "sqlite_location_of env opts = Inr source"
    "\<not> (\<not> pragmas \<and> sq_busy_timeout_ms opts \<noteq> None)"
    "sqlite_integer (orelse (sq_busy_timeout_ms opts) (jint 5000)) 0 = Inr (sp_busy_timeout_ms p)"
    "sqlite_integer (orelse (sq_poll_interval_ms opts) (jint 1000)) 1 = Inr (sp_poll_interval_ms p)"
    "sp_source p = source" "sp_configure_pragmas p = pragmas" "sp_schedules p = schedules"
    unfolding sqlite_plan_of_def by (auto simp: throw_if_iff elim!: rbind_InrE)
  from parts(4,5) obtain busy poll where ints:
    "sp_busy_timeout_ms p = jint busy" "0 \<le> busy" "busy < 2 ^ 31"
    "sp_poll_interval_ms p = jint poll" "1 \<le> poll" "poll < 2 ^ 31"
    unfolding sqlite_integer_ok by auto
  from parts(1) have "schedules \<longrightarrow> sqlite_schedules_qualified (sv_version env)"
    by (auto simp: assert_qualified_sqlite_schedules_def throw_if_iff)
  moreover from assms Inr have "r = Inr (\<lparr>mc_id = fresh, mc_adapter = ''sqlite'',
        mc_ownership = (if is_owned (sp_source p) then Owned else Borrowed)\<rparr>,
      defs(fresh \<mapsto> \<lparr>cd_boundary = sv_boundary env (sp_source p), cd_scope = sp_namespace p,
        cd_requirements = orelse (sq_require_capabilities opts) [], cd_acquire = p\<rparr>))"
    by (simp add: sqlite_connection_def define_connection_def)
  moreover have "sqlite_place env opts (sp_source p)" using sqlite_location_of_ok[OF parts(2)] parts(6) by simp
  moreover have "sp_configure_pragmas p \<or> sq_busy_timeout_ms opts = None" using parts(3,7) by auto
  ultimately show ?thesis
    using ints parts(8)
    by (simp only: sum.case prod.case) (intro exI[of _ p] exI[of _ busy] exI[of _ poll],
      simp add: connection_definition_of_def)
qed

definition demo_sqlite_options :: sqlite_options where
  "demo_sqlite_options = \<lparr>sl_shape = plain_shape [''path'', ''schedules''], sl_path = Some ''mq.db'',
     sl_database = None, sq_namespace = None, sq_configure_pragmas = VUndefined, sq_busy_timeout_ms = None,
     sq_poll_interval_ms = None, sq_events = VUndefined, sq_schedules = VBool True,
     sq_require_capabilities = None\<rparr>"

theorem sqlite_connection_sound_witness:
  "\<exists>c defs. sqlite_connection demo_sqlite 1 demo_sqlite_options (\<lambda>_. None) = Inr (c, defs)
     \<and> (\<exists>p. sp_source p = Owned_Path ''/srv/mq.db'' \<and> map_option cd_acquire (defs 1) = Some p)
     \<and> sqlite_schedules_qualified (sv_version demo_sqlite)"
proof -
  have q: "sqlite_schedules_qualified (Some ''0.1.3'')"
    by (simp add: sqlite_schedules_qualified_def version_of_def version_part_def is_digit_def digits_value_def)
  have names: "valid_name ''mq.db''" by (simp add: valid_name_def is_js_space_def)
  have loc: "sqlite_location_of demo_sqlite demo_sqlite_options = Inr (Owned_Path ''/srv/mq.db'')"
    by (simp add: sqlite_location_of_def demo_sqlite_options_def demo_sqlite_def require_name_eq names nul_def)
  have ints: "sqlite_integer (jint 5000) 0 = Inr (jint 5000)" "sqlite_integer (jint 1000) 1 = Inr (jint 1000)"
    by (auto simp: sqlite_integer_ok max_safe_def)
  have "\<exists>p. sqlite_plan_of demo_sqlite demo_sqlite_options = Inr p \<and> sp_schedules p"
    unfolding sqlite_plan_of_def loc
    by (simp add: demo_sqlite_options_def demo_sqlite_def assert_options_def check_shape_eq strict_flag_def
        assert_qualified_sqlite_schedules_def q nullish_flag_def is_owned_def ints)
  then have "\<exists>c defs. sqlite_connection demo_sqlite 1 demo_sqlite_options (\<lambda>_. None) = Inr (c, defs) \<and> mc_id c = 1"
    by (auto simp: sqlite_connection_def define_connection_def)
  then obtain c defs where run: "sqlite_connection demo_sqlite 1 demo_sqlite_options (\<lambda>_. None) = Inr (c, defs)"
    and c: "mc_id c = 1" by blast
  from sqlite_connection_sound[OF run] obtain p where
    p: "connection_definition_of defs c [] = Inr \<lparr>cd_boundary = sv_boundary demo_sqlite (sp_source p),
      cd_scope = sp_namespace p, cd_requirements = [], cd_acquire = p\<rparr>"
    "sqlite_place demo_sqlite demo_sqlite_options (sp_source p)"
    by (force simp: demo_sqlite_options_def)
  then have "map_option cd_acquire (defs 1) = Some p" using c by (auto simp: connection_definition_of_def need_ok)
  moreover from p(2) have "sp_source p = Owned_Path ''/srv/mq.db''"
    by (simp add: sqlite_place_def demo_sqlite_options_def demo_sqlite_def)
  ultimately show ?thesis using run q by (auto simp: demo_sqlite_def)
qed

end
