(* ===== verification/Mq_Postgres.thy ===== *)
theory Mq_Postgres
  imports Mq_Sqlite Mq_Flow_Reads
begin

text \<open>
  \<open>src/integrations/postgres.ts\<close>, \<open>postgres-json-pool.ts\<close> and the layers of \<open>postgres-schedule-resource.ts\<close>,
  \<open>postgres-event-resource.ts\<close>, \<open>postgres-flow-resource.ts\<close> and \<open>postgres-outbox-resource.ts\<close>: the options of a
  PostgreSQL connection, the life of a pool it owns, and the views through which the adapter sees a pool.
  Pools and clients are numbers; \<open>pg\<close>, the adapter package, the URL parser and SHA-256 answer through
  parameters, and what happens to a pool or to a client is recorded.
\<close>

subsection \<open>Views of a pool\<close>

text \<open>The parser of a column: a native one for its type and format, the text itself, or \<open>JSON.parse\<close>.\<close>

datatype type_parser = Native_Parser int bool | Keep_Text | Parse_Json

text \<open>\<open>binary\<close> says whether the format is \<open>binary\<close>.\<close>

definition json_types :: "bool \<Rightarrow> int \<Rightarrow> bool \<Rightarrow> type_parser" where
  "json_types decoded oid binary =
     (if binary then Native_Parser oid True
      else if oid = 114 \<or> oid = 3802 then (if decoded then Parse_Json else Keep_Text)
      else Native_Parser oid False)"

definition adapter_json_types :: "int \<Rightarrow> bool \<Rightarrow> type_parser" where
  "adapter_json_types = json_types False"

definition flow_json_types :: "int \<Rightarrow> bool \<Rightarrow> type_parser" where
  "flow_json_types = json_types True"

text \<open>The two caches, and the identities of the views made so far.\<close>

record json_views =
  jv_views :: "nat \<rightharpoonup> nat"
  jv_flow_views :: "nat \<rightharpoonup> nat"
  jv_next :: nat

definition no_views :: json_views where
  "no_views = \<lparr>jv_views = Map.empty, jv_flow_views = Map.empty, jv_next = 0\<rparr>"

definition json_pool :: "nat \<Rightarrow> bool \<Rightarrow> json_views \<Rightarrow> nat \<times> json_views" where
  "json_pool pool decoded s =
     (case (if decoded then jv_flow_views s else jv_views s) pool of
        Some previous \<Rightarrow> (previous, s)
      | None \<Rightarrow>
          let view = jv_next s; s' = s\<lparr>jv_next := Suc view\<rparr> in
          (view, if decoded then s'\<lparr>jv_flow_views := (jv_flow_views s)(pool \<mapsto> view)\<rparr>
                 else s'\<lparr>jv_views := (jv_views s)(pool \<mapsto> view)\<rparr>))"

definition postgres_json_pool :: "nat \<Rightarrow> json_views \<Rightarrow> nat \<times> json_views" where
  "postgres_json_pool pool = json_pool pool False"

definition postgres_flow_json_pool :: "nat \<Rightarrow> json_views \<Rightarrow> nat \<times> json_views" where
  "postgres_flow_json_pool pool = json_pool pool True"

text \<open>The views that a sequence of calls, each of a pool and a kind, gets.\<close>

fun json_pools :: "(nat \<times> bool) list \<Rightarrow> json_views \<Rightarrow> nat list \<times> json_views" where
  "json_pools [] s = ([], s)"
| "json_pools ((pool, decoded) # calls) s =
     (case json_pool pool decoded s of
        (view, s1) \<Rightarrow> (case json_pools calls s1 of (views, s2) \<Rightarrow> (view # views, s2)))"

subsection \<open>A query on a view\<close>

text \<open>What a promise rejects with: an \<open>Error\<close>, or any other value.\<close>

datatype thrown = Thrown_Error exn | Thrown_Value jsval

record native_query =
  nq_text :: string
  nq_values :: "jsval list option"
  nq_decoded :: bool

text \<open>What the query asks of the pool's client.\<close>

datatype client_action =
    Listen_Once nat
  | Send_Query nat native_query
  | Stop_Listening nat
  | Release_Client nat "exn option"

text \<open>What the client answers, in the order in which it happens.\<close>

datatype 'v client_event = Query_Settled "thrown + 'v" | Client_Failed exn

definition json_client_query :: "bool \<Rightarrow> nat \<Rightarrow> string \<Rightarrow> jsval list option \<Rightarrow> client_action" where
  "json_client_query decoded client query values =
     Send_Query client \<lparr>nq_text = query, nq_values = values, nq_decoded = decoded\<rparr>"

fun race :: "'v client_event list \<Rightarrow> (thrown + 'v) option" where
  "race [] = None"
| "race (Query_Settled r # _) = Some r"
| "race (Client_Failed e # _) = Some (Inl (Thrown_Error e))"

text \<open>\<open>Native_Error 1\<close> is the new error that wraps a thrown value that is none.\<close>

definition release_error :: "thrown + 'v \<Rightarrow> exn option" where
  "release_error r =
     (case r of Inr _ \<Rightarrow> None | Inl (Thrown_Error e) \<Rightarrow> Some e | Inl (Thrown_Value _) \<Rightarrow> Some (Native_Error 1))"

text \<open>\<open>None\<close> as long as neither the query nor the connection has settled.\<close>

definition json_pool_query :: "bool \<Rightarrow> thrown + nat \<Rightarrow> 'v client_event list \<Rightarrow> string \<Rightarrow> jsval list option
    \<Rightarrow> (thrown + 'v) option \<times> client_action list" where
  "json_pool_query decoded reserved events query values =
     (case reserved of
        Inl e \<Rightarrow> (Some (Inl e), [])
      | Inr client \<Rightarrow>
          let sent = [Listen_Once client, json_client_query decoded client query values] in
          (case race events of
             None \<Rightarrow> (None, sent)
           | Some r \<Rightarrow> (Some r, sent @ [Stop_Listening client, Release_Client client (release_error r)])))"

subsection \<open>Layers\<close>

text \<open>A view is named by its pool and kind; see \<open>json_views_identify\<close> below.\<close>

datatype pool_view = Text_View nat | Decoded_View nat

datatype postgres_layer =
    Postgres_Jobs service_token pool_view string string bool
  | Postgres_Schedules service_token pool_view string string
  | Postgres_Events service_token pool_view string string
  | Postgres_Flows service_token pool_view string string
  | Postgres_Flow_Reads pool_view string string
  | Postgres_Outbox service_token pool_view string string

text \<open>Where a connection goes: a pool of the application, or a URL with the settings of a pool to create.\<close>

datatype postgres_place = Borrowed_Pool nat | Owned_Pool string jsnum jsnum jsnum

text \<open>
  \<open>pv_protocol\<close> is the protocol of the parsed URL, \<open>pv_new_pool\<close> the constructor of a pool, \<open>pv_end\<close> its
  \<open>end\<close>, \<open>pv_layer\<close> the creation of the job layer, \<open>pv_sha\<close> SHA-256 in hexadecimal, \<open>pv_tag\<close> the service
  tag of a named store.
\<close>

record postgres_env =
  pv_schema :: "string \<Rightarrow> string res"
  pv_namespace :: "string \<Rightarrow> string res"
  pv_pool :: "nat \<Rightarrow> unit res"
  pv_protocol :: "string \<Rightarrow> string res"
  pv_boundary :: "postgres_place \<Rightarrow> nat"
  pv_new_pool :: "postgres_place \<Rightarrow> nat res"
  pv_end :: "nat \<Rightarrow> unit res"
  pv_layer :: "postgres_layer \<Rightarrow> unit res"
  pv_sha :: "string \<Rightarrow> string"
  pv_tag :: "string \<Rightarrow> string"

definition postgres_schedule_layer :: "string \<Rightarrow> nat \<Rightarrow> string \<Rightarrow> string \<Rightarrow> postgres_layer" where
  "postgres_schedule_layer name pool schema namespace =
     Postgres_Schedules (schedule_token name) (Text_View pool) schema namespace"

definition postgres_event_layer :: "string \<Rightarrow> nat \<Rightarrow> string \<Rightarrow> string \<Rightarrow> postgres_layer" where
  "postgres_event_layer name pool schema namespace =
     Postgres_Events (event_token name) (Decoded_View pool) schema namespace"

definition postgres_flow_layer :: "postgres_env \<Rightarrow> string \<Rightarrow> nat \<Rightarrow> string \<Rightarrow> string \<Rightarrow> postgres_layer" where
  "postgres_flow_layer env name pool schema namespace =
     Postgres_Flows (flow_token name) (Decoded_View pool) schema
       (flow_namespace (pv_sha env) (pv_tag env) name namespace)"

definition postgres_flow_reads :: "postgres_env \<Rightarrow> string \<Rightarrow> nat \<Rightarrow> string \<Rightarrow> string \<Rightarrow> postgres_layer" where
  "postgres_flow_reads env name pool schema namespace =
     Postgres_Flow_Reads (Decoded_View pool) schema (flow_namespace (pv_sha env) (pv_tag env) name namespace)"

definition outbox_namespace :: "(string \<Rightarrow> string) \<Rightarrow> string \<Rightarrow> string \<Rightarrow> string" where
  "outbox_namespace sha name namespace =
     ''nestjs-outbox-'' @ sha (json_tuple [JText namespace, JText name])"

definition postgres_outbox_layer :: "postgres_env \<Rightarrow> string \<Rightarrow> nat \<Rightarrow> string \<Rightarrow> string \<Rightarrow> postgres_layer" where
  "postgres_outbox_layer env name pool schema namespace =
     Postgres_Outbox (outbox_token name) (Text_View pool) schema (outbox_namespace (pv_sha env) name namespace)"

subsection \<open>Options of a connection\<close>

record postgres_options =
  po_schema :: "string option"
  po_namespace :: "string option"
  po_validate_schema :: "bool option"
  po_require_capabilities :: "string list option"
  po_outbox :: jsval
  po_schedules :: jsval
  po_flows :: jsval
  po_events :: jsval
  po_pool :: "nat option"
  po_connection_string :: "string option"
  po_max :: "jsnum option"
  po_connection_timeout_ms :: "jsnum option"
  po_idle_timeout_ms :: "jsnum option"

record postgres_plan =
  pp_place :: postgres_place
  pp_schema :: string
  pp_namespace :: string
  pp_validate :: bool
  pp_outbox :: bool
  pp_schedules :: bool
  pp_flows :: bool
  pp_events :: bool

definition pg_refused :: exn where
  "pg_refused = Mq_Connection ''<postgres>'' ConnConfiguration"

definition postgres_place_of :: "postgres_env \<Rightarrow> postgres_options \<Rightarrow> postgres_place res" where
  "postgres_place_of env opts =
     (case po_pool opts of
        Some pool \<Rightarrow>
          rbind (throw_if (po_connection_string opts \<noteq> None) pg_refused) (\<lambda>_.
          rbind (pv_pool env pool) (\<lambda>_. Inr (Borrowed_Pool pool)))
      | None \<Rightarrow>
          rbind (need (po_connection_string opts) Type_Error) (\<lambda>url.
          rbind (pv_protocol env url) (\<lambda>protocol.
          rbind (throw_if (protocol \<noteq> ''postgres:'' \<and> protocol \<noteq> ''postgresql:'') (Native_Error 0)) (\<lambda>_.
          let most = orelse (po_max opts) (jint 10);
              connecting = orelse (po_connection_timeout_ms opts) (jint 10000);
              idle = orelse (po_idle_timeout_ms opts) (jint 10000) in
          rbind (require_integer most 2) (\<lambda>_.
          rbind (require_integer connecting 1) (\<lambda>_.
          rbind (require_integer idle 0) (\<lambda>_.
          Inr (Owned_Pool url most connecting idle))))))))"

definition postgres_plan_of :: "postgres_env \<Rightarrow> postgres_options \<Rightarrow> postgres_plan res" where
  "postgres_plan_of env opts =
     rbind (pv_schema env (orelse (po_schema opts) ''public'')) (\<lambda>schema.
     rbind (pv_namespace env (orelse (po_namespace opts) ''default'')) (\<lambda>namespace.
     rbind (nullish_flag pg_refused False (po_events opts)) (\<lambda>events.
     rbind (nullish_flag pg_refused False (po_flows opts)) (\<lambda>flows.
     rbind (nullish_flag pg_refused False (po_schedules opts)) (\<lambda>schedules.
     rbind (nullish_flag pg_refused False (po_outbox opts)) (\<lambda>outbox.
     rbind (postgres_place_of env opts) (\<lambda>place.
     Inr \<lparr>pp_place = place, pp_schema = schema, pp_namespace = namespace,
          pp_validate = orelse (po_validate_schema opts) True, pp_outbox = outbox,
          pp_schedules = schedules, pp_flows = flows, pp_events = events\<rparr>)))))))"

definition owns_pool :: "postgres_place \<Rightarrow> bool" where
  "owns_pool place = (case place of Borrowed_Pool _ \<Rightarrow> False | Owned_Pool _ _ _ _ \<Rightarrow> True)"

definition create_postgres_connection :: "postgres_env \<Rightarrow> nat \<Rightarrow> postgres_options \<Rightarrow> postgres_plan definitions
    \<Rightarrow> (mq_connection \<times> postgres_plan definitions) res" where
  "create_postgres_connection env fresh opts defs =
     rbind (postgres_plan_of env opts) (\<lambda>p.
     Inr (define_connection fresh
       \<lparr>ci_adapter = ''postgres'', ci_ownership = (if owns_pool (pp_place p) then Owned else Borrowed),
        ci_boundary = pv_boundary env (pp_place p),
        ci_scope = json_tuple [JText (pp_schema p), JText (pp_namespace p)],
        ci_requirements = Some (orelse (po_require_capabilities opts) [])\<rparr> p defs))"

definition postgres :: "postgres_env \<Rightarrow> nat \<Rightarrow> postgres_options \<Rightarrow> postgres_plan definitions
    \<Rightarrow> (mq_connection \<times> postgres_plan definitions) res" where
  "postgres env fresh opts defs =
     catch_res (create_postgres_connection env fresh opts defs)
       (\<lambda>cause. case cause of Mq_Connection name phase \<Rightarrow> Inl (Mq_Connection name phase) | _ \<Rightarrow> Inl pg_refused)"

subsection \<open>The life of a pool\<close>

datatype pool_event =
    Pool_Created nat
  | Listener_Added nat
  | Layer_Made postgres_layer
  | Pool_Ended nat
  | Listener_Removed nat

definition with_postgres_outbox :: "postgres_env \<Rightarrow> postgres_layer acquired_connection \<Rightarrow> nat \<Rightarrow> postgres_plan
    \<Rightarrow> postgres_layer acquired_connection" where
  "with_postgres_outbox env resource pool p =
     (let schema = pp_schema p; namespace = pp_namespace p;
          r1 = (if pp_outbox p then resource\<lparr>ac_outbox := Some (\<lambda>name. postgres_outbox_layer env name pool schema namespace)\<rparr> else resource);
          r2 = (if pp_schedules p then r1\<lparr>ac_schedules := Some (\<lambda>name. postgres_schedule_layer name pool schema namespace)\<rparr> else r1);
          r3 = (if pp_flows p then r2\<lparr>ac_flows := Some (\<lambda>name. postgres_flow_layer env name pool schema namespace),
                                      ac_flow_reads := Some (\<lambda>name. postgres_flow_reads env name pool schema namespace)\<rparr> else r2)
      in if pp_events p then r3\<lparr>ac_events := Some (\<lambda>name. postgres_event_layer name pool schema namespace)\<rparr> else r3)"

text \<open>The resource around the job layer, \<open>release\<close> only for a pool of its own.\<close>

definition postgres_resource :: "postgres_env \<Rightarrow> postgres_plan \<Rightarrow> service_token \<Rightarrow> nat
    \<Rightarrow> postgres_layer acquired_connection res" where
  "postgres_resource env p token pool =
     (let layer = Postgres_Jobs token (Text_View pool) (pp_schema p) (pp_namespace p) (pp_validate p) in
      rbind (pv_layer env layer) (\<lambda>_.
      Inr (with_postgres_outbox env
        \<lparr>ac_layer = layer, ac_release = owns_pool (pp_place p), ac_events = None, ac_flow_reads = None,
         ac_flows = None, ac_schedules = None, ac_outbox = None\<rparr> pool p)))"

definition postgres_release :: "postgres_env \<Rightarrow> nat \<Rightarrow> unit res \<times> pool_event list" where
  "postgres_release env pool =
     (case pv_end env pool of
        Inl e \<Rightarrow> (Inl e, [Pool_Ended pool])
      | Inr _ \<Rightarrow> (Inr (), [Pool_Ended pool, Listener_Removed pool]))"

definition postgres_acquire :: "postgres_env \<Rightarrow> postgres_plan \<Rightarrow> service_token
    \<Rightarrow> postgres_layer acquired_connection res \<times> pool_event list" where
  "postgres_acquire env p token =
     (case pp_place p of
        Borrowed_Pool pool \<Rightarrow>
          (postgres_resource env p token pool,
           [Layer_Made (Postgres_Jobs token (Text_View pool) (pp_schema p) (pp_namespace p) (pp_validate p))])
      | Owned_Pool _ _ _ _ \<Rightarrow>
          (case pv_new_pool env (pp_place p) of
             Inl e \<Rightarrow> (Inl e, [])
           | Inr pool \<Rightarrow>
               let made = [Pool_Created pool, Listener_Added pool,
                 Layer_Made (Postgres_Jobs token (Text_View pool) (pp_schema p) (pp_namespace p) (pp_validate p))] in
               (case postgres_resource env p token pool of
                  Inr a \<Rightarrow> (Inr a, made)
                | Inl cause \<Rightarrow>
                    (case postgres_release env pool of
                       (Inl cleanup, es) \<Rightarrow> (Inl (Aggregate [cause, cleanup]), made @ es)
                     | (Inr _, es) \<Rightarrow> (Inl cause, made @ es)))))"

subsection \<open>Migration and validation\<close>

record postgres_report =
  pr_schema :: string
  pr_version :: nat
  pr_applied :: "nat list"

definition migrate_postgres :: "postgres_env \<Rightarrow> (nat \<Rightarrow> string \<Rightarrow> postgres_report res) \<Rightarrow> nat \<Rightarrow> string option
    \<Rightarrow> postgres_report res" where
  "migrate_postgres env run pool schema =
     catch_res (rbind (pv_schema env (orelse schema ''public'')) (\<lambda>s. run pool s))
       (\<lambda>_. Inl (Mq_Connection ''<postgres-migrations>'' ConnMigrate))"

definition validate_postgres :: "postgres_env \<Rightarrow> (nat \<Rightarrow> string \<Rightarrow> (string \<times> nat) res) \<Rightarrow> nat \<Rightarrow> string option
    \<Rightarrow> (string \<times> nat) res" where
  "validate_postgres env validate pool schema =
     catch_res (rbind (pv_schema env (orelse schema ''public'')) (\<lambda>s. validate pool s))
       (\<lambda>_. Inl (Mq_Connection ''<postgres-migrations>'' ConnProbe))"


subsection \<open>Properties of the views\<close>

definition view_cache :: "json_views \<Rightarrow> nat \<times> bool \<Rightarrow> nat option" where
  "view_cache s c = (if snd c then jv_flow_views s else jv_views s) (fst c)"

text \<open>Every view was made before, and no view serves two pools or two kinds.\<close>

definition views_inv :: "json_views \<Rightarrow> bool" where
  "views_inv s \<longleftrightarrow>
     (\<forall>c v. view_cache s c = Some v \<longrightarrow> v < jv_next s)
     \<and> (\<forall>c d v. view_cache s c = Some v \<longrightarrow> view_cache s d = Some v \<longrightarrow> c = d)"

lemma views_inv_initial: "views_inv no_views"
  by (simp add: views_inv_def view_cache_def no_views_def)

lemma json_pool_cache:
  assumes "json_pool pool decoded s = (view, s')" "views_inv s"
  shows "views_inv s'" "view_cache s' (pool, decoded) = Some view"
    "\<And>c v. view_cache s c = Some v \<Longrightarrow> view_cache s' c = Some v"
proof -
  have step: "view_cache s' (pool, decoded) = Some view \<and>
      (view_cache s (pool, decoded) = Some view \<and> s' = s
       \<or> view_cache s (pool, decoded) = None \<and> view = jv_next s \<and> jv_next s' = Suc view
         \<and> view_cache s' = (view_cache s)((pool, decoded) \<mapsto> view))"
    using assms(1) by (auto simp: json_pool_def view_cache_def Let_def fun_eq_iff split: option.splits if_splits)
  then show "view_cache s' (pool, decoded) = Some view" by blast
  from step show "view_cache s' c = Some v" if "view_cache s c = Some v" for c v using that by auto
  from step show "views_inv s'"
  proof (elim conjE disjE)
    assume new: "view = jv_next s" "jv_next s' = Suc view" "view_cache s' = (view_cache s)((pool, decoded) \<mapsto> view)"
    from assms(2) have lt: "v < jv_next s" if "view_cache s c = Some v" for c v
      using that unfolding views_inv_def by blast
    from assms(2) have one: "c = d" if "view_cache s c = Some v" "view_cache s d = Some v" for c d v
      using that unfolding views_inv_def by blast
    have "c = d" if "view_cache s' c = Some v" "view_cache s' d = Some v" for c d v
      using that new lt[of c v] lt[of d v] one[of c v d] by (auto split: if_splits)
    moreover have "v < jv_next s'" if "view_cache s' c = Some v" for c v
      using that new lt[of c v] by (auto split: if_splits)
    ultimately show ?thesis unfolding views_inv_def by blast
  qed (use assms(2) in simp)
qed

lemma json_pools_cache:
  "json_pools calls s = (views, s') \<Longrightarrow> views_inv s \<Longrightarrow>
     views_inv s' \<and> list_all2 (\<lambda>c v. view_cache s' c = Some v) calls views
     \<and> (\<forall>c v. view_cache s c = Some v \<longrightarrow> view_cache s' c = Some v)"
proof (induction calls arbitrary: s views s')
  case (Cons c calls)
  obtain pool decoded where c: "c = (pool, decoded)" by fastforce
  obtain view s1 where one: "json_pool pool decoded s = (view, s1)" by fastforce
  obtain vs s2 where more: "json_pools calls s1 = (vs, s2)" by fastforce
  from Cons.prems(1) c one more have eq: "views = view # vs" "s' = s2" by simp_all
  from json_pool_cache[OF one Cons.prems(2)] Cons.IH[OF more] eq c show ?case by auto
qed simp

text \<open>
  The views a run of the application gets identify pools: two requests, at whatever time and for
  whichever store, get the same view exactly if they name the same pool and the same kind of view. So the
  adapter, which keeps its reservations per pool object, keeps them per native pool.
\<close>

theorem json_views_identify:
  assumes "i < length calls" and "j < length calls"
  shows "fst (json_pools calls no_views) ! i = fst (json_pools calls no_views) ! j \<longleftrightarrow> calls ! i = calls ! j"
proof -
  obtain views s where run: "json_pools calls no_views = (views, s)" by fastforce
  from json_pools_cache[OF run views_inv_initial] have inv: "views_inv s"
    and all: "list_all2 (\<lambda>c v. view_cache s c = Some v) calls views" by auto
  from all assms have "view_cache s (calls ! i) = Some (views ! i)" "view_cache s (calls ! j) = Some (views ! j)"
    by (auto dest: list_all2_nthD)
  moreover from inv have "c = d" if "view_cache s c = Some v" "view_cache s d = Some v" for c d v
    using that unfolding views_inv_def by blast
  ultimately show ?thesis unfolding run by (metis fst_conv option.inject)
qed

theorem json_views_identify_witness:
  "fst (json_pools [(4, False), (9, False), (4, True), (4, False)] no_views) ! 0
     = fst (json_pools [(4, False), (9, False), (4, True), (4, False)] no_views) ! 3
   \<and> fst (json_pools [(4, False), (9, False), (4, True), (4, False)] no_views) ! 0
     \<noteq> fst (json_pools [(4, False), (9, False), (4, True), (4, False)] no_views) ! 2"
  using json_views_identify[of 0 "[(4, False), (9, False), (4, True), (4, False)]" 3]
    json_views_identify[of 0 "[(4, False), (9, False), (4, True), (4, False)]" 2]
  by simp

subsection \<open>Properties of queries\<close>

definition is_release :: "client_action \<Rightarrow> bool" where
  "is_release a = (case a of Release_Client _ _ \<Rightarrow> True | _ \<Rightarrow> False)"

text \<open>
  A query on a view keeps the pool whole: once it has settled, the client that was reserved is
  released exactly once and its listener is gone, and it is released as healthy exactly if the query
  succeeded; a connection that breaks while the query runs ends the query with that error. A client that
  was never reserved is not released.
\<close>

theorem json_pool_query_returns_client:
  assumes "json_pool_query decoded reserved events query values = (Some r, actions)"
  shows "(case reserved of
      Inl e \<Rightarrow> r = Inl e \<and> actions = []
    | Inr client \<Rightarrow>
        (\<exists>err. filter is_release actions = [Release_Client client err] \<and> last actions = Release_Client client err
           \<and> (err = None \<longleftrightarrow> (\<exists>v. r = Inr v)))
        \<and> count_list actions (Listen_Once client) = 1 \<and> count_list actions (Stop_Listening client) = 1
        \<and> (\<forall>e rest. events = Client_Failed e # rest \<longrightarrow> r = Inl (Thrown_Error e)
             \<and> Release_Client client (Some e) \<in> set actions))"
proof (cases reserved)
  case (Inr client)
  with assms obtain q where q: "race events = Some q" "r = q"
    and a: "actions = [Listen_Once client, json_client_query decoded client query values, Stop_Listening client,
      Release_Client client (release_error r)]"
    by (auto simp: json_pool_query_def Let_def split: option.splits)
  have "release_error r = None \<longleftrightarrow> (\<exists>v. r = Inr v)"
    by (cases r) (auto simp: release_error_def split: thrown.splits)
  moreover have "r = Inl (Thrown_Error e)" if "events = Client_Failed e # rest" for e rest
    using that q by simp
  ultimately show ?thesis
    by (auto simp: Inr a is_release_def json_client_query_def release_error_def)
qed (use assms in \<open>simp add: json_pool_query_def\<close>)

theorem json_pool_query_returns_client_witness:
  "fst (json_pool_query False (Inr 3) [Client_Failed (Native_Error 9), Query_Settled (Inr ())] ''SELECT 1'' None)
     = Some (Inl (Thrown_Error (Native_Error 9)))
   \<and> Release_Client 3 (Some (Native_Error 9))
     \<in> set (snd (json_pool_query False (Inr 3) [Client_Failed (Native_Error 9), Query_Settled (Inr ())] ''SELECT 1'' None))"
proof -
  have "json_pool_query False (Inr 3) [Client_Failed (Native_Error 9), Query_Settled (Inr ())] ''SELECT 1'' None
    = (Some (Inl (Thrown_Error (Native_Error 9))),
       snd (json_pool_query False (Inr 3) [Client_Failed (Native_Error 9), Query_Settled (Inr ())] ''SELECT 1'' None))"
    by (simp add: json_pool_query_def Let_def)
  from json_pool_query_returns_client[OF this] show ?thesis by (simp add: json_pool_query_def Let_def)
qed


subsection \<open>Properties of connections\<close>

text \<open>What the life of a pool consists of, without the layers.\<close>

definition pool_life :: "pool_event list \<Rightarrow> pool_event list" where
  "pool_life es = filter (\<lambda>e. case e of Layer_Made _ \<Rightarrow> False | _ \<Rightarrow> True) es"

definition plan_offers :: "postgres_plan \<Rightarrow> resource" where
  "plan_offers p = \<lparr>rs_events = pp_events p, rs_flows = pp_flows p, rs_schedules = pp_schedules p,
     rs_outbox = pp_outbox p\<rparr>"

lemma postgres_resource_ok:
  "postgres_resource env p token pool = Inr a \<Longrightarrow>
     offered a = plan_offers p \<and> ac_release a = owns_pool (pp_place p)
     \<and> (ac_flow_reads a = None) = (ac_flows a = None)"
  by (cases "pp_outbox p"; cases "pp_schedules p"; cases "pp_flows p"; cases "pp_events p")
    (auto simp: postgres_resource_def with_postgres_outbox_def offered_def plan_offers_def Let_def elim!: rbind_InrE)

text \<open>
  C26. A PostgreSQL connection ends every pool it creates and no other: a failed setup ends the new pool
  once before it reports, with both errors if ending fails too; a successful one hands over a release that
  ends it, and drops the error listener once the pool has ended. A pool of the application is neither
  created, nor listened to, nor ended. The resource offers what the options asked for, and reads of flows
  exactly with flows.
\<close>

theorem postgres_pool_ended_once:
  assumes "postgres_acquire env p token = (r, es)"
  shows "(case pp_place p of
      Borrowed_Pool _ \<Rightarrow> pool_life es = []
    | Owned_Pool _ _ _ _ \<Rightarrow>
        (case pv_new_pool env (pp_place p) of
           Inl e \<Rightarrow> r = Inl e \<and> es = []
         | Inr pool \<Rightarrow>
             (case r of
                Inr _ \<Rightarrow> pool_life (es @ snd (postgres_release env pool))
                  = [Pool_Created pool, Listener_Added pool, Pool_Ended pool]
                    @ (if is_ok (pv_end env pool) then [Listener_Removed pool] else [])
              | Inl _ \<Rightarrow> pool_life es
                  = [Pool_Created pool, Listener_Added pool, Pool_Ended pool]
                    @ (if is_ok (pv_end env pool) then [Listener_Removed pool] else [])
                  \<and> (\<forall>e cause. pv_end env pool = Inl e \<longrightarrow> postgres_resource env p token pool = Inl cause
                       \<longrightarrow> r = Inl (Aggregate [cause, e])))))
    \<and> (\<forall>a. r = Inr a \<longrightarrow> offered a = plan_offers p \<and> ac_release a = owns_pool (pp_place p)
         \<and> (ac_flow_reads a = None) = (ac_flows a = None))"
proof (cases "pp_place p")
  case (Borrowed_Pool pool)
  with assms have "r = postgres_resource env p token pool" "pool_life es = []"
    by (auto simp: postgres_acquire_def pool_life_def)
  with Borrowed_Pool postgres_resource_ok[of env p token pool] show ?thesis by auto
next
  case (Owned_Pool url most connecting idle)
  show ?thesis
  proof (cases "pv_new_pool env (pp_place p)")
    case (Inr pool)
    show ?thesis
    proof (cases "postgres_resource env p token pool")
      case res: (Inl cause)
      show ?thesis
      proof (cases "pv_end env pool")
        case (Inl e)
        with assms Inr Owned_Pool res have "r = Inl (Aggregate [cause, e])"
          "pool_life es = [Pool_Created pool, Listener_Added pool, Pool_Ended pool]"
          by (auto simp: postgres_acquire_def postgres_release_def pool_life_def Let_def)
        with Inl Inr Owned_Pool res show ?thesis by simp
      next
        case (Inr u)
        with assms \<open>pv_new_pool env (pp_place p) = Inr pool\<close> Owned_Pool res have "r = Inl cause"
          "pool_life es = [Pool_Created pool, Listener_Added pool, Pool_Ended pool, Listener_Removed pool]"
          by (auto simp: postgres_acquire_def postgres_release_def pool_life_def Let_def)
        with Inr \<open>pv_new_pool env (pp_place p) = Inr pool\<close> Owned_Pool res show ?thesis by simp
      qed
    next
      case res: (Inr a)
      with assms Inr Owned_Pool have "r = Inr a"
        "pool_life es = [Pool_Created pool, Listener_Added pool]"
        by (auto simp: postgres_acquire_def pool_life_def Let_def)
      with Inr Owned_Pool postgres_resource_ok[OF res] show ?thesis
        by (cases "pv_end env pool") (auto simp: postgres_release_def pool_life_def)
    qed
  qed (use assms Owned_Pool in \<open>auto simp: postgres_acquire_def\<close>)
qed

definition demo_pg :: postgres_env where
  "demo_pg = \<lparr>pv_schema = Inr, pv_namespace = Inr, pv_pool = (\<lambda>_. Inr ()),
     pv_protocol = (\<lambda>_. Inr ''postgres:''), pv_boundary = (\<lambda>_. 2), pv_new_pool = (\<lambda>_. Inr 6),
     pv_end = (\<lambda>_. Inl (Native_Error 5)), pv_layer = (\<lambda>_. Inl (Native_Error 4)), pv_sha = (\<lambda>s. s),
     pv_tag = (\<lambda>s. s)\<rparr>"

definition demo_pg_plan :: postgres_plan where
  "demo_pg_plan = \<lparr>pp_place = Owned_Pool ''postgres://db'' (jint 10) (jint 10000) (jint 10000),
     pp_schema = ''public'', pp_namespace = ''default'', pp_validate = True, pp_outbox = True,
     pp_schedules = False, pp_flows = True, pp_events = False\<rparr>"

text \<open>The layer cannot be made, and the pool does not end: both errors are reported.\<close>

theorem postgres_pool_ended_once_witness:
  "\<exists>es. postgres_acquire demo_pg demo_pg_plan (named_store_token ''main'')
       = (Inl (Aggregate [Native_Error 4, Native_Error 5]), es)
     \<and> pool_life es = [Pool_Created 6, Listener_Added 6, Pool_Ended 6]"
proof -
  have "\<exists>es. postgres_acquire demo_pg demo_pg_plan (named_store_token ''main'')
       = (Inl (Aggregate [Native_Error 4, Native_Error 5]), es)"
    by (simp add: postgres_acquire_def postgres_resource_def postgres_release_def demo_pg_def demo_pg_plan_def Let_def)
  then obtain es where run: "postgres_acquire demo_pg demo_pg_plan (named_store_token ''main'')
       = (Inl (Aggregate [Native_Error 4, Native_Error 5]), es)" by blast
  from postgres_pool_ended_once[OF run] run show ?thesis by (simp add: demo_pg_def demo_pg_plan_def)
qed

text \<open>Where an accepted connection goes.\<close>

definition postgres_place_ok :: "postgres_env \<Rightarrow> postgres_options \<Rightarrow> postgres_place \<Rightarrow> bool" where
  "postgres_place_ok env opts place =
     (case place of
        Borrowed_Pool pool \<Rightarrow> po_pool opts = Some pool \<and> po_connection_string opts = None
      | Owned_Pool url most connecting idle \<Rightarrow> po_pool opts = None \<and> po_connection_string opts = Some url
          \<and> (pv_protocol env url = Inr ''postgres:'' \<or> pv_protocol env url = Inr ''postgresql:'')
          \<and> int_at_least 2 most \<and> int_at_least 1 connecting \<and> int_at_least 0 idle)"

lemma postgres_place_of_ok: "postgres_place_of env opts = Inr place \<Longrightarrow> postgres_place_ok env opts place"
  by (auto simp: postgres_place_of_def postgres_place_ok_def throw_if_iff checks_ok need_ok Let_def
      split: option.splits elim!: rbind_InrE)

text \<open>
  C27. A PostgreSQL connection that is created goes to exactly one place, a pool of the application or a
  PostgreSQL URL with at least two connections and valid timeouts, and says so in its ownership; its scope
  tells schema and namespace apart, so two connections with equal scopes have equal schemas and namespaces.
  Options that are refused always raise a connection error.
\<close>

theorem postgres_connection_sound:
  assumes "postgres env fresh opts defs = r"
  shows "(case r of
      Inl e \<Rightarrow> \<exists>name phase. e = Mq_Connection name phase
    | Inr (c, defs') \<Rightarrow>
        \<exists>p d. connection_definition_of defs' c name = Inr d \<and> cd_acquire d = p
          \<and> cd_boundary d = pv_boundary env (pp_place p)
          \<and> postgres_place_ok env opts (pp_place p)
          \<and> mc_ownership c = (if owns_pool (pp_place p) then Owned else Borrowed)
          \<and> (\<forall>schema namespace. cd_scope d = json_tuple [JText schema, JText namespace]
               \<longrightarrow> schema = pp_schema p \<and> namespace = pp_namespace p))"
proof (cases "postgres_plan_of env opts")
  case (Inl e)
  with assms show ?thesis
    by (auto simp: postgres_def create_postgres_connection_def pg_refused_def split: exn.splits)
next
  case (Inr p)
  let ?d = "\<lparr>cd_boundary = pv_boundary env (pp_place p),
    cd_scope = json_tuple [JText (pp_schema p), JText (pp_namespace p)],
    cd_requirements = orelse (po_require_capabilities opts) [], cd_acquire = p\<rparr>"
  from Inr have "postgres_place_of env opts = Inr (pp_place p)"
    by (auto simp: postgres_plan_of_def elim!: rbind_InrE)
  then have place: "postgres_place_ok env opts (pp_place p)" by (rule postgres_place_of_ok)
  from assms Inr have r: "r = Inr (\<lparr>mc_id = fresh, mc_adapter = ''postgres'',
      mc_ownership = (if owns_pool (pp_place p) then Owned else Borrowed)\<rparr>, defs(fresh \<mapsto> ?d))"
    by (simp add: postgres_def create_postgres_connection_def define_connection_def)
  have "schema = pp_schema p \<and> namespace = pp_namespace p"
    if "cd_scope ?d = json_tuple [JText schema, JText namespace]" for schema namespace
    using that by (simp add: json_tuple_inject)
  with place show ?thesis unfolding r
    by (simp only: sum.case prod.case) (intro exI[of _ p] exI[of _ ?d], simp add: connection_definition_of_def)
qed

definition demo_pg_options :: postgres_options where
  "demo_pg_options = \<lparr>po_schema = None, po_namespace = Some ''orders'', po_validate_schema = None,
     po_require_capabilities = None, po_outbox = VBool True, po_schedules = VUndefined, po_flows = VNull,
     po_events = VUndefined, po_pool = None, po_connection_string = Some ''postgres://db'', po_max = None,
     po_connection_timeout_ms = None, po_idle_timeout_ms = None\<rparr>"

theorem postgres_connection_sound_witness:
  "\<exists>c defs. postgres demo_pg 1 demo_pg_options (\<lambda>_. None) = Inr (c, defs) \<and> mc_ownership c = Owned
     \<and> (\<exists>d. defs 1 = Some d
         \<and> postgres_place_ok demo_pg demo_pg_options (pp_place (cd_acquire d)))"
proof -
  have "\<exists>c defs. postgres demo_pg 1 demo_pg_options (\<lambda>_. None) = Inr (c, defs)
      \<and> mc_ownership c = Owned \<and> mc_id c = 1"
    by (simp add: postgres_def create_postgres_connection_def postgres_plan_of_def postgres_place_of_def demo_pg_def
        demo_pg_options_def nullish_flag_def require_integer_eq max_safe_def Let_def define_connection_def owns_pool_def)
  then obtain c defs where run: "postgres demo_pg 1 demo_pg_options (\<lambda>_. None) = Inr (c, defs)"
    and c: "mc_ownership c = Owned" "mc_id c = 1" by blast
  from postgres_connection_sound[OF run, where name = "[]"] obtain d where
    "connection_definition_of defs c [] = Inr d" "postgres_place_ok demo_pg demo_pg_options (pp_place (cd_acquire d))"
    by auto
  with run c show ?thesis by (auto simp: connection_definition_of_def need_ok)
qed

end
