(* ===== verification/Mq_Outbox_Source.thy ===== *)
theory Mq_Outbox_Source
  imports Mq_Postgres Mq_Outbox_Retry Mq_Transaction Mq_Session_Life
begin

text \<open>
  The PostgreSQL outbox as the application reaches it: the stores of \<open>postgres-outbox-resource.ts\<close> with the
  retry adapters that \<open>src/engine/outbox-retry.ts\<close> binds to them, the reads of
  \<open>src/engine/outbox-coordinator.ts\<close>, and the client factories \<open>src/integrations/postgres-outbox.ts\<close> and
  \<open>src/integrations/kysely.ts\<close>. Stores and pools are numbers. The two \<open>WeakMap\<close>s are a map and a list; an
  adapter, once made for a store, may still be held by a caller after its store was released.
\<close>

subsection \<open>Stores and their retry adapters\<close>

record outbox_hub =
  hub_native :: "nat \<rightharpoonup> nat"
  hub_bound :: "nat list"
  hub_adapter :: "nat \<Rightarrow> retry_adapter"
  hub_made :: "nat list"
  hub_releasing :: "nat list"
  hub_disposed :: "nat list"

text \<open>\<open>hub_made\<close> and \<open>hub_disposed\<close> are the history of stores; \<open>hub_releasing\<close> those being released.\<close>

definition new_adapter :: retry_adapter where
  "new_adapter = \<lparr>ra_closed = False, ra_pending = []\<rparr>"

definition empty_hub :: outbox_hub where
  "empty_hub = \<lparr>hub_native = Map.empty, hub_bound = [], hub_adapter = (\<lambda>_. new_adapter), hub_made = [],
     hub_releasing = [], hub_disposed = []\<rparr>"

definition bind_outbox_retry :: "nat \<Rightarrow> outbox_hub \<Rightarrow> unit res \<times> outbox_hub" where
  "bind_outbox_retry store h =
     (if store \<in> set (hub_bound h) then (Inl (Mq_Outbox OutboxConfiguration), h)
      else (Inr (), h\<lparr>hub_bound := store # hub_bound h, hub_adapter := (hub_adapter h)(store := new_adapter)\<rparr>))"

text \<open>An adapter is named by its store.\<close>

definition outbox_retry_adapter :: "nat \<Rightarrow> outbox_hub \<Rightarrow> nat res" where
  "outbox_retry_adapter store h =
     (if store \<in> set (hub_bound h) then Inr store else Inl (Mq_Outbox OutboxUnavailable))"

text \<open>\<open>closeOutboxRetry\<close> up to the point where it waits for the writes that are pending.\<close>

definition close_outbox_retry :: "nat \<Rightarrow> outbox_hub \<Rightarrow> outbox_hub" where
  "close_outbox_retry store h =
     (if store \<in> set (hub_bound h)
      then h\<lparr>hub_bound := removeAll store (hub_bound h),
             hub_adapter := (hub_adapter h)(store := adapter_close (hub_adapter h store))\<rparr>
      else h)"

definition native_postgres_outbox :: "nat \<Rightarrow> outbox_hub \<Rightarrow> (nat \<times> nat) res" where
  "native_postgres_outbox store h =
     rbind (need (hub_native h store) (Mq_Outbox OutboxUnavailable)) (\<lambda>pool. Inr (pool, store))"

text \<open>The layer's acquisition of a new store, and its release up to the wait.\<close>

definition acquire_outbox :: "nat \<Rightarrow> nat \<Rightarrow> outbox_hub \<Rightarrow> unit res \<times> outbox_hub" where
  "acquire_outbox store pool h =
     bind_outbox_retry store
       (h\<lparr>hub_native := (hub_native h)(store \<mapsto> pool), hub_made := store # hub_made h\<rparr>)"

definition release_outbox :: "nat \<Rightarrow> outbox_hub \<Rightarrow> outbox_hub" where
  "release_outbox store h =
     close_outbox_retry store
       (h\<lparr>hub_native := (hub_native h)(store := None), hub_releasing := store # hub_releasing h\<rparr>)"

text \<open>
  \<open>Hub_Retry\<close> is a caller that holds the adapter of a store, however long ago it got it; \<open>Hub_Settle\<close> the
  end of a write; \<open>Hub_Dispose\<close> the disposal of the store, after the wait.
\<close>

datatype hub_event = Hub_Acquire nat nat | Hub_Retry nat nat | Hub_Settle nat nat | Hub_Release nat | Hub_Dispose nat

definition set_adapter :: "nat \<Rightarrow> retry_adapter \<Rightarrow> outbox_hub \<Rightarrow> outbox_hub" where
  "set_adapter store a h = h\<lparr>hub_adapter := (hub_adapter h)(store := a)\<rparr>"

fun hub_step :: "hub_event \<Rightarrow> outbox_hub \<Rightarrow> outbox_hub option" where
  "hub_step (Hub_Acquire store pool) h =
     (if store \<in> set (hub_made h) then None else Some (snd (acquire_outbox store pool h)))"
| "hub_step (Hub_Retry store i) h =
     (if store \<in> set (hub_made h) then Some (set_adapter store (snd (adapter_retry i (hub_adapter h store))) h)
      else None)"
| "hub_step (Hub_Settle store i) h =
     (if store \<in> set (hub_made h) \<and> i \<in> set (ra_pending (hub_adapter h store))
      then Some (set_adapter store (adapter_settle i None (hub_adapter h store)) h) else None)"
| "hub_step (Hub_Release store) h =
     (if store \<in> set (hub_made h) \<and> store \<notin> set (hub_releasing h) \<and> store \<notin> set (hub_disposed h)
      then Some (release_outbox store h) else None)"
| "hub_step (Hub_Dispose store) h =
     (if store \<in> set (hub_releasing h) \<and> ra_pending (hub_adapter h store) = []
      then Some (h\<lparr>hub_releasing := removeAll store (hub_releasing h), hub_disposed := store # hub_disposed h\<rparr>)
      else None)"

inductive hub_reachable :: "outbox_hub \<Rightarrow> bool" where
  hub_start: "hub_reachable empty_hub"
| hub_next: "hub_reachable h \<Longrightarrow> hub_step e h = Some h' \<Longrightarrow> hub_reachable h'"

fun hub_run :: "hub_event list \<Rightarrow> outbox_hub \<Rightarrow> outbox_hub option" where
  "hub_run [] h = Some h"
| "hub_run (e # es) h = Option.bind (hub_step e h) (hub_run es)"

subsection \<open>The coordinator\<close>

text \<open>Services and coordinators are numbers too.\<close>

definition bind_outbox_service :: "nat \<Rightarrow> nat \<Rightarrow> (nat \<rightharpoonup> nat) \<Rightarrow> (nat \<rightharpoonup> nat)" where
  "bind_outbox_service srv coordinator m = m(srv \<mapsto> coordinator)"

definition outbox_coordinator :: "nat \<Rightarrow> (nat \<rightharpoonup> nat) \<Rightarrow> nat res" where
  "outbox_coordinator srv m = need (m srv) (Mq_Outbox OutboxUnavailable)"

definition with_source :: "session \<Rightarrow> string \<Rightarrow> 'v res \<Rightarrow> 'v res" where
  "with_source s source operation = rbind (with_outbox source s) (\<lambda>_. operation)"

text \<open>The answer of the store is a list of records, or counts, or an error.\<close>

definition outbox_list :: "session \<Rightarrow> string \<Rightarrow> exn + outbox_record list \<Rightarrow> outbox_snapshot list res" where
  "outbox_list s source listed =
     with_source s source
       (rbind (catch_res listed (\<lambda>_. Inl (Mq_Outbox OutboxRead))) (\<lambda>records.
        Inr (map (outbox_snapshot_of source) records)))"

definition outbox_counts :: "session \<Rightarrow> string \<Rightarrow> exn + (string \<times> nat) list \<Rightarrow> (string \<times> nat) list res" where
  "outbox_counts s source answered = with_source s source (catch_res answered (\<lambda>_. Inl (Mq_Outbox OutboxRead)))"

subsection \<open>The client factories\<close>

text \<open>What \<open>transaction\<close> gets: a callback alone, or one entry or several with a callback that may miss.\<close>

datatype 'c tx_input = Only_Callback 'c | One_Entry outbox_entry "'c option" | Entries "outbox_entry list" "'c option"

definition tx_input_of :: "'c tx_input \<Rightarrow> ('c \<times> outbox_entry list) res" where
  "tx_input_of input =
     (case input of
        Only_Callback run \<Rightarrow> Inr (run, [])
      | One_Entry entry run \<Rightarrow> rbind (need run (Mq_Outbox OutboxConfiguration)) (\<lambda>run. Inr (run, [entry]))
      | Entries entries run \<Rightarrow> rbind (need run (Mq_Outbox OutboxConfiguration)) (\<lambda>run. Inr (run, entries)))"

text \<open>
  \<open>Promise.all\<close>: the values in the order of the inputs, or the first rejection; \<open>order\<close> is the order in
  which the inputs settle.
\<close>

definition promise_all :: "nat list \<Rightarrow> ('a \<Rightarrow> 'e + 'b) \<Rightarrow> 'a list \<Rightarrow> 'e + 'b list" where
  "promise_all order f xs =
     (case filter (\<lambda>i. \<not> is_ok (f (xs ! i))) order of
        i # _ \<Rightarrow> rbind (f (xs ! i)) (\<lambda>_. Inr [])
      | [] \<Rightarrow> collect f xs)"

text \<open>
  \<open>script\<close> is what the managed transaction meets when it runs the callback with the prepared records.
  The answer \<open>None\<close> is a transaction that waits for ever; the commands are those of the database.
\<close>

definition postgres_outbox_run :: "outbox_env \<Rightarrow> (nat \<rightharpoonup> nat) \<Rightarrow> nat \<Rightarrow> session \<Rightarrow> string \<Rightarrow> registered_job list
    \<Rightarrow> outbox_hub \<Rightarrow> nat \<Rightarrow> jsnum \<Rightarrow> nat list \<Rightarrow> 'c tx_input
    \<Rightarrow> ('c \<Rightarrow> nat \<Rightarrow> outbox_record list \<Rightarrow> 'v tx_script) \<Rightarrow> ('v res \<times> tx_command list) option" where
  "postgres_outbox_run env services srv s source jobs h store now order input script =
     (case rbind (tx_input_of input) (\<lambda>(run, entries).
           rbind (outbox_coordinator srv services) (\<lambda>_.
           with_source s source
             (rbind (native_postgres_outbox store h) (\<lambda>(pool, _).
              rbind (promise_all order (compile_outbox_record env source jobs now) entries) (\<lambda>records.
              Inr (run, pool, records)))))) of
        Inl e \<Rightarrow> Some (Inl e, [])
      | Inr (run, pool, records) \<Rightarrow> outbox_transaction (script run pool records))"

text \<open>The Kysely factory wraps the callback and hands the same input to the native client.\<close>

definition kysely_input :: "('c \<Rightarrow> 'd) \<Rightarrow> 'c tx_input \<Rightarrow> 'd tx_input res" where
  "kysely_input invoke input =
     rbind (tx_input_of input) (\<lambda>(run, _).
     Inr (case input of
        Only_Callback _ \<Rightarrow> Only_Callback (invoke run)
      | One_Entry entry _ \<Rightarrow> One_Entry entry (Some (invoke run))
      | Entries entries _ \<Rightarrow> Entries entries (Some (invoke run))))"

definition kysely_outbox_run :: "outbox_env \<Rightarrow> (nat \<rightharpoonup> nat) \<Rightarrow> nat \<Rightarrow> session \<Rightarrow> string \<Rightarrow> registered_job list
    \<Rightarrow> outbox_hub \<Rightarrow> nat \<Rightarrow> jsnum \<Rightarrow> nat list \<Rightarrow> ('c \<Rightarrow> 'd) \<Rightarrow> 'c tx_input
    \<Rightarrow> ('d \<Rightarrow> nat \<Rightarrow> outbox_record list \<Rightarrow> 'v tx_script) \<Rightarrow> ('v res \<times> tx_command list) option" where
  "kysely_outbox_run env services srv s source jobs h store now order invoke input script =
     (case kysely_input invoke input of
        Inl e \<Rightarrow> Some (Inl e, [])
      | Inr native \<Rightarrow> postgres_outbox_run env services srv s source jobs h store now order native script)"


subsection \<open>Properties\<close>

text \<open>Where a store is in its life, and what each of the tables says about it then.\<close>

definition hub_inv :: "outbox_hub \<Rightarrow> bool" where
  "hub_inv h \<longleftrightarrow>
     set (hub_releasing h) \<inter> set (hub_disposed h) = {}
     \<and> set (hub_releasing h) \<union> set (hub_disposed h) \<subseteq> set (hub_made h)
     \<and> set (hub_bound h) = set (hub_made h) - (set (hub_releasing h) \<union> set (hub_disposed h))
     \<and> dom (hub_native h) = set (hub_bound h)
     \<and> (\<forall>store. ra_closed (hub_adapter h store) \<longleftrightarrow> store \<in> set (hub_releasing h) \<union> set (hub_disposed h))
     \<and> (\<forall>store\<in>set (hub_disposed h). ra_pending (hub_adapter h store) = [])
     \<and> (\<forall>store. store \<notin> set (hub_made h) \<longrightarrow> ra_pending (hub_adapter h store) = [])"

lemmas hub_ops = acquire_outbox_def bind_outbox_retry_def release_outbox_def close_outbox_retry_def set_adapter_def
  adapter_retry_def adapter_settle_def adapter_close_def new_adapter_def

lemma hub_inv_step:
  assumes "hub_step e h = Some h'" "hub_inv h"
  shows "hub_inv h'"
proof (cases e)
  case (Hub_Acquire store pool)
  with assms have "h' = snd (acquire_outbox store pool h)" "store \<notin> set (hub_made h)" by (auto split: if_splits)
  with assms(2) show ?thesis by (auto simp: hub_inv_def hub_ops)
next
  case (Hub_Retry store i)
  with assms have "h' = set_adapter store (snd (adapter_retry i (hub_adapter h store))) h" "store \<in> set (hub_made h)"
    by (auto split: if_splits)
  with assms(2) show ?thesis by (auto simp: hub_inv_def hub_ops)
next
  case (Hub_Settle store i)
  with assms have "h' = set_adapter store (adapter_settle i None (hub_adapter h store)) h" "store \<in> set (hub_made h)"
    by (auto split: if_splits)
  with assms(2) show ?thesis by (auto simp: hub_inv_def hub_ops)
next
  case (Hub_Release store)
  with assms have "h' = release_outbox store h" "store \<in> set (hub_made h)" "store \<notin> set (hub_releasing h)"
    "store \<notin> set (hub_disposed h)" by (auto split: if_splits)
  with assms(2) show ?thesis by (auto simp: hub_inv_def hub_ops)
next
  case (Hub_Dispose store)
  with assms have "h' = h\<lparr>hub_releasing := removeAll store (hub_releasing h), hub_disposed := store # hub_disposed h\<rparr>"
    "store \<in> set (hub_releasing h)" "ra_pending (hub_adapter h store) = []" by (auto split: if_splits)
  with assms(2) show ?thesis by (auto simp: hub_inv_def)
qed

lemma hub_reachable_inv: "hub_reachable h \<Longrightarrow> hub_inv h"
  by (induction rule: hub_reachable.induct)
    (auto simp: hub_inv_step, simp add: hub_inv_def empty_hub_def new_adapter_def)

text \<open>
  C11. A PostgreSQL outbox is released in order. Until its release begins a store has its pool and an open
  retry adapter; from then on neither is found, and a retry by a caller that still holds the adapter is
  refused and changes nothing. A store is disposed only once the administrative writes that had begun have
  settled, so none is pending on a disposed store.
\<close>

theorem outbox_release_ordered:
  assumes "hub_reachable h" and "store \<in> set (hub_made h)"
  shows "(if store \<in> set (hub_releasing h) \<union> set (hub_disposed h)
      then outbox_retry_adapter store h = Inl (Mq_Outbox OutboxUnavailable)
        \<and> native_postgres_outbox store h = Inl (Mq_Outbox OutboxUnavailable)
        \<and> hub_step (Hub_Retry store i) h = Some h
      else outbox_retry_adapter store h = Inr store \<and> is_ok (native_postgres_outbox store h)
        \<and> fst (adapter_retry i (hub_adapter h store)))
    \<and> (store \<in> set (hub_disposed h) \<longrightarrow> ra_pending (hub_adapter h store) = [])"
proof -
  note inv = hub_reachable_inv[OF assms(1)]
  show ?thesis
  proof (cases "store \<in> set (hub_releasing h) \<union> set (hub_disposed h)")
    case True
    with inv have closed: "ra_closed (hub_adapter h store)" and unbound: "store \<notin> set (hub_bound h)"
      and gone: "hub_native h store = None" by (auto simp: hub_inv_def)
    from closed have "hub_step (Hub_Retry store i) h = Some h"
      using assms(2) by (simp add: adapter_retry_def set_adapter_def)
    with True inv unbound gone show ?thesis
      by (auto simp: outbox_retry_adapter_def native_postgres_outbox_def hub_inv_def)
  next
    case False
    with inv assms(2) have "store \<in> set (hub_bound h)" "\<not> ra_closed (hub_adapter h store)"
      "store \<in> dom (hub_native h)" by (auto simp: hub_inv_def)
    with False show ?thesis
      by (auto simp: outbox_retry_adapter_def native_postgres_outbox_def adapter_retry_def)
  qed
qed

definition demo_hub_run :: "hub_event list" where
  "demo_hub_run = [Hub_Acquire 1 7, Hub_Retry 1 40, Hub_Release 1]"

definition demo_hub :: outbox_hub where
  "demo_hub = the (hub_run demo_hub_run empty_hub)"

lemma hub_run_reachable: "hub_reachable h \<Longrightarrow> hub_run evs h = Some h' \<Longrightarrow> hub_reachable h'"
  by (induction evs arbitrary: h) (auto simp: bind_eq_Some_conv intro: hub_next)

lemma demo_hub: "hub_run demo_hub_run empty_hub = Some demo_hub" "hub_made demo_hub = [1]"
  "hub_releasing demo_hub = [1]" "ra_pending (hub_adapter demo_hub 1) = [40]"
  by (simp_all add: demo_hub_def demo_hub_run_def hub_ops empty_hub_def)

theorem outbox_release_ordered_witness:
  "outbox_retry_adapter 1 demo_hub = Inl (Mq_Outbox OutboxUnavailable)
   \<and> hub_step (Hub_Retry 1 41) demo_hub = Some demo_hub"
  using outbox_release_ordered[OF hub_run_reachable[OF hub_start demo_hub(1)], of 1 41] by (simp add: demo_hub)

text \<open>The settlements of a store's writes in a run, and what every step after a release keeps.\<close>

definition settled_writes :: "nat \<Rightarrow> hub_event list \<Rightarrow> nat" where
  "settled_writes store es = length (filter (\<lambda>e. \<exists>i. e = Hub_Settle store i) es)"

lemma released_step:
  assumes "hub_step e h = Some h'" and "hub_inv h" and "store \<in> set (hub_releasing h) \<union> set (hub_disposed h)"
  shows "store \<in> set (hub_releasing h') \<union> set (hub_disposed h')
    \<and> length (ra_pending (hub_adapter h store)) = settled_writes store [e] + length (ra_pending (hub_adapter h' store))
    \<and> set (ra_pending (hub_adapter h' store)) \<subseteq> set (ra_pending (hub_adapter h store))"
proof -
  from assms(2,3) have closed: "ra_closed (hub_adapter h store)" and made: "store \<in> set (hub_made h)"
    and unbound: "store \<notin> set (hub_bound h)"
    by (auto simp: hub_inv_def)
  show ?thesis
  proof (cases e)
    case (Hub_Settle t i)
    with assms(1) have i: "i \<in> set (ra_pending (hub_adapter h t))"
      and h': "h' = set_adapter t (adapter_settle i None (hub_adapter h t)) h" by (auto split: if_splits)
    from i have "length (ra_pending (hub_adapter h t)) = Suc (length (remove1 i (ra_pending (hub_adapter h t))))"
      by (simp add: length_remove1) (metis Suc_pred length_pos_if_in_set)
    with assms(3) set_remove1_subset[of i "ra_pending (hub_adapter h t)"] show ?thesis
      by (cases "t = store") (auto simp: Hub_Settle h' settled_writes_def set_adapter_def adapter_settle_def)
  qed (use assms(1,3) closed made unbound in \<open>auto simp: settled_writes_def hub_ops split: if_splits\<close>)
qed

lemma released_run:
  assumes "hub_run es h = Some h'" and "hub_inv h" and "store \<in> set (hub_releasing h) \<union> set (hub_disposed h)"
  shows "store \<in> set (hub_releasing h') \<union> set (hub_disposed h')
    \<and> length (ra_pending (hub_adapter h store)) = settled_writes store es + length (ra_pending (hub_adapter h' store))
    \<and> set (ra_pending (hub_adapter h' store)) \<subseteq> set (ra_pending (hub_adapter h store))"
  using assms
proof (induction es arbitrary: h)
  case (Cons e es)
  from Cons.prems(1) obtain g where g: "hub_step e h = Some g" "hub_run es g = Some h'" by (auto simp: bind_eq_Some_conv)
  from released_step[OF g(1) Cons.prems(2,3)] Cons.IH[OF g(2) hub_inv_step[OF g(1) Cons.prems(2)]]
  show ?case by (auto simp: settled_writes_def)
qed (simp add: settled_writes_def)

text \<open>
  C12. A release waits for exactly the administrative writes that had begun when it was called. Whatever happens
  afterwards, callers that still hold the adapter and ask for more retries included, the store stays out of
  reach, no write joins those that are pending, every settlement takes the release one step further, and each
  pending write can settle; the store can be disposed once as many writes have settled as were pending at
  the release, and not before.
\<close>

theorem outbox_release_finishes:
  assumes "hub_reachable h" and "hub_step (Hub_Release store) h = Some h0" and "hub_run es h0 = Some h'"
  shows "outbox_retry_adapter store h' = Inl (Mq_Outbox OutboxUnavailable)
    \<and> native_postgres_outbox store h' = Inl (Mq_Outbox OutboxUnavailable)
    \<and> length (ra_pending (hub_adapter h store)) = settled_writes store es + length (ra_pending (hub_adapter h' store))
    \<and> set (ra_pending (hub_adapter h' store)) \<subseteq> set (ra_pending (hub_adapter h store))
    \<and> (\<forall>i\<in>set (ra_pending (hub_adapter h' store)). hub_step (Hub_Settle store i) h' \<noteq> None)
    \<and> (store \<in> set (hub_disposed h')
       \<or> (hub_step (Hub_Dispose store) h' \<noteq> None
            \<longleftrightarrow> settled_writes store es = length (ra_pending (hub_adapter h store))))"
proof -
  from assms(2) have "h0 = release_outbox store h" by (auto split: if_splits)
  then have r0: "store \<in> set (hub_releasing h0) \<union> set (hub_disposed h0)"
    and p0: "ra_pending (hub_adapter h0 store) = ra_pending (hub_adapter h store)"
    by (simp_all add: hub_ops)
  have inv0: "hub_inv h0" by (rule hub_inv_step[OF assms(2) hub_reachable_inv[OF assms(1)]])
  note run = released_run[OF assms(3) inv0 r0, unfolded p0]
  have "hub_reachable h'"
    using hub_run_reachable[OF hub_next[OF assms(1,2)] assms(3)] .
  from hub_reachable_inv[OF this] run have "store \<notin> set (hub_bound h')" "hub_native h' store = None" "store \<in> set (hub_made h')"
    by (auto simp: hub_inv_def)
  with run show ?thesis
    by (auto simp: outbox_retry_adapter_def native_postgres_outbox_def need_def)
qed

text \<open>A release while one write is pending: a late retry is refused, and the store is disposed after the write.\<close>

definition demo_live :: outbox_hub where
  "demo_live = the (hub_run [Hub_Acquire 2 7, Hub_Retry 2 40] empty_hub)"

lemma demo_live: "hub_run [Hub_Acquire 2 7, Hub_Retry 2 40] empty_hub = Some demo_live"
  "hub_made demo_live = [2]" "hub_releasing demo_live = []" "hub_disposed demo_live = []" "hub_bound demo_live = [2]"
  "ra_pending (hub_adapter demo_live 2) = [40]" "\<not> ra_closed (hub_adapter demo_live 2)"
  by (simp_all add: demo_live_def hub_ops empty_hub_def)

theorem outbox_release_finishes_witness:
  "\<exists>h'. hub_run [Hub_Release 2, Hub_Retry 2 41, Hub_Settle 2 40] demo_live = Some h'
     \<and> ra_pending (hub_adapter demo_live 2) = [40] \<and> hub_step (Hub_Dispose 2) h' \<noteq> None"
proof -
  have rel: "hub_step (Hub_Release 2) demo_live = Some (release_outbox 2 demo_live)" by (simp add: demo_live)
  obtain h' where h': "hub_run [Hub_Retry 2 41, Hub_Settle 2 40] (release_outbox 2 demo_live) = Some h'"
    "hub_disposed h' = []"
    by (simp add: demo_live release_outbox_def close_outbox_retry_def set_adapter_def adapter_close_def adapter_retry_def
        adapter_settle_def)
  have "settled_writes 2 [Hub_Retry 2 41, Hub_Settle 2 40] = 1" by (simp add: settled_writes_def)
  with outbox_release_finishes[OF hub_run_reachable[OF hub_start demo_live(1)] rel h'(1)] h'(2)
  have "hub_step (Hub_Dispose 2) h' \<noteq> None" by (simp add: demo_live del: hub_step.simps)
  with rel h'(1) show ?thesis by (intro exI[of _ h']) (simp add: demo_live)
qed


subsection \<open>Admission of a transaction\<close>

lemma promise_all_ok: "promise_all order f xs = Inr ys \<Longrightarrow> list_all2 (\<lambda>x y. f x = Inr y) xs ys"
proof (cases "filter (\<lambda>i. \<not> is_ok (f (xs ! i))) order")
  case (Cons i rest)
  then have "\<not> is_ok (f (xs ! i))" by (auto simp: filter_eq_Cons_iff)
  moreover assume "promise_all order f xs = Inr ys"
  ultimately show ?thesis using Cons by (auto simp: promise_all_def not_is_ok_iff)
qed (simp add: promise_all_def collect_ok)

text \<open>
  C10. Nothing reaches the database of a business transaction unless everything before it was in order: the
  call has a callback, the engine is ready and serves the source, the store is a PostgreSQL store that has
  not been released, and every entry compiled, in order, against the contracts captured at the call. What
  then runs is the managed transaction on the store's own pool with exactly these records.
\<close>

theorem outbox_run_admitted:
  assumes "postgres_outbox_run env services srv s source jobs h store now order input script = Some (out, cs)"
    and "cs \<noteq> [] \<or> is_ok out"
  shows "\<exists>run entries pool records. tx_input_of input = Inr (run, entries) \<and> services srv \<noteq> None
    \<and> engine_ready s \<and> source \<in> set (st_outboxes (se_ready s)) \<and> hub_native h store = Some pool
    \<and> list_all2 (\<lambda>entry record. compile_outbox_record env source jobs now entry = Inr record) entries records
    \<and> outbox_transaction (script run pool records) = Some (out, cs)"
proof -
  let ?pre = "rbind (tx_input_of input) (\<lambda>(run, entries).
           rbind (outbox_coordinator srv services) (\<lambda>_.
           with_source s source
             (rbind (native_postgres_outbox store h) (\<lambda>(pool, _).
              rbind (promise_all order (compile_outbox_record env source jobs now) entries) (\<lambda>records.
              Inr (run, pool, records))))))"
  from assms have "is_ok ?pre" by (cases ?pre) (auto simp: postgres_outbox_run_def)
  then obtain run pool records where pre: "?pre = Inr (run, pool, records)" by (cases ?pre) auto
  then obtain entries where input: "tx_input_of input = Inr (run, entries)"
    and srv: "is_ok (outbox_coordinator srv services)" and ready: "with_outbox source s = Inr ()"
    and native: "hub_native h store = Some pool"
    and records: "promise_all order (compile_outbox_record env source jobs now) entries = Inr records"
    by (auto simp: with_source_def native_postgres_outbox_def need_ok elim!: rbind_InrE)
  from srv have "services srv \<noteq> None" by (auto simp: outbox_coordinator_def is_ok_iff need_ok)
  moreover from ready have "engine_ready s" "source \<in> set (st_outboxes (se_ready s))"
    by (auto simp: with_outbox_def throw_if_iff elim!: rbind_InrE)
  moreover from pre assms(1) have "outbox_transaction (script run pool records) = Some (out, cs)"
    by (simp add: postgres_outbox_run_def)
  ultimately show ?thesis using input native promise_all_ok[OF records] by blast
qed

text \<open>
  The Kysely client is the native client with the callback wrapped: the same guards, the same entries
  and the same transaction, for every input.
\<close>

theorem kysely_outbox_equivalent:
  "kysely_outbox_run env services srv s source jobs h store now order invoke input script
     = postgres_outbox_run env services srv s source jobs h store now order input (\<lambda>run. script (invoke run))"
  by (auto simp: kysely_outbox_run_def kysely_input_def postgres_outbox_run_def tx_input_of_def rbind_def
      outbox_coordinator_def with_source_def native_postgres_outbox_def need_def
      split: tx_input.splits option.splits sum.splits)

definition serving_session :: session where
  "serving_session = new_session\<lparr>se_state := Ready, se_runtime := True,
     se_ready := no_stores\<lparr>st_outboxes := [''main'']\<rparr>\<rparr>"

theorem outbox_run_admitted_witness:
  "\<exists>pool cs. postgres_outbox_run plain_env [2 \<mapsto> 3] 2 serving_session ''main'' [] (snd (acquire_outbox 1 7 empty_hub))
       1 (jint 0) [] (Only_Callback ()) (\<lambda>_ _ _. sample_script) = Some (Inr 7, cs)
     \<and> cs \<noteq> [] \<and> hub_native (snd (acquire_outbox 1 7 empty_hub)) 1 = Some pool"
proof -
  have ready: "with_outbox ''main'' serving_session = Inr ()"
    by (simp add: with_outbox_def serving_session_def engine_ready_def new_session_def no_stores_def)
  have "\<exists>cs. postgres_outbox_run plain_env [2 \<mapsto> 3] 2 serving_session ''main'' [] (snd (acquire_outbox 1 7 empty_hub))
       1 (jint 0) [] (Only_Callback ()) (\<lambda>_ _ _. sample_script) = Some (Inr 7, cs) \<and> cs \<noteq> []"
    by (simp add: postgres_outbox_run_def tx_input_of_def outbox_coordinator_def with_source_def ready
        native_postgres_outbox_def promise_all_def hub_ops empty_hub_def sample_transaction)
  then obtain cs where run: "postgres_outbox_run plain_env [2 \<mapsto> 3] 2 serving_session ''main'' []
       (snd (acquire_outbox 1 7 empty_hub)) 1 (jint 0) [] (Only_Callback ()) (\<lambda>_ _ _. sample_script) = Some (Inr 7, cs)"
    and cs: "cs \<noteq> []" by blast
  from outbox_run_admitted[OF run] cs run show ?thesis by blast
qed

end
