(* ===== verification/Mq_Session_Access.thy ===== *)
theory Mq_Session_Access
  imports Mq_Session_Life Mq_Host Mq_Controlled_Store
begin

text \<open>
  The rest of \<open>src/engine/engine-session.ts\<close>: the operations that outlive a check (a probe, a sweep, a
  deployment of schedules, waiting for idle workers) and the snapshots of the running services; and the
  views of a job store that \<open>src/engine/flow-read-store.ts\<close> and \<open>src/engine/controlled-store.ts\<close> put
  before the adapter. An operation that awaits the adapter has the session before and after the answer.
\<close>

subsection \<open>Snapshots\<close>

record service_handle =
  wh_id :: string
  wh_state :: string
  wh_active_count :: nat

record worker_snapshot =
  ws_name :: string
  ws_id :: string
  ws_state :: string
  ws_active_count :: nat

definition worker_snapshots :: "(string \<times> service_handle) list \<Rightarrow> worker_snapshot list" where
  "worker_snapshots running =
     map (\<lambda>(name, h). \<lparr>ws_name = name, ws_id = wh_id h, ws_state = wh_state h,
       ws_active_count = wh_active_count h\<rparr>) running"

record scheduler_handle =
  sg_state :: string
  sg_active_ticks :: nat

record scheduler_snapshot =
  sn_state :: string
  sn_active_ticks :: nat
  sn_reported_errors :: nat

definition scheduler_snapshot_of :: "scheduler_handle option \<Rightarrow> nat \<Rightarrow> scheduler_snapshot option" where
  "scheduler_snapshot_of handle errors =
     map_option (\<lambda>h. \<lparr>sn_state = sg_state h, sn_active_ticks = sg_active_ticks h, sn_reported_errors = errors\<rparr>) handle"

definition publisher_snapshot_of :: "service_handle option \<Rightarrow> (string \<times> string \<times> nat) option" where
  "publisher_snapshot_of handle = map_option (\<lambda>h. (wh_id h, wh_state h, wh_active_count h)) handle"

definition schedule_sources :: "session \<Rightarrow> string list" where
  "schedule_sources s = st_schedules (se_ready s)"

subsection \<open>Operations\<close>

text \<open>
  \<open>s\<close> is the session when \<open>probe\<close> is called, \<open>counted\<close> the adapter's answer, \<open>s'\<close> the session when it
  comes. The snapshot of a connection lives with its store in the map of ready connections.
\<close>

definition session_probe :: "string \<Rightarrow> session \<Rightarrow> exn + 'c \<Rightarrow> session \<Rightarrow> string res" where
  "session_probe name s answered s' =
     rbind (with_store name s) (\<lambda>_.
     rbind (catch_res answered (\<lambda>_. Inl (Mq_Connection name ConnProbe))) (\<lambda>_.
     rbind (throw_if (name \<notin> set (st_jobs (se_ready s')) \<or> se_state s' \<noteq> Ready)
       (Mq_Engine_State (se_state s') ''finish a probe'')) (\<lambda>_.
     Inr name)))"

definition reconcile_schedules :: "session \<Rightarrow> exn + 'v \<Rightarrow> 'v res" where
  "reconcile_schedules s answered =
     rbind (throw_if (\<not> engine_ready s) (Mq_Schedule ScheduleUnavailable)) (\<lambda>_.
     catch_res answered (\<lambda>_. Inl (Mq_Schedule ScheduleOperation)))"

text \<open>\<open>errors\<close> and \<open>errors'\<close> are what the scheduler had reported before and after the sweep.\<close>

definition sweep_schedules :: "session \<Rightarrow> unit res \<Rightarrow> nat \<Rightarrow> nat \<Rightarrow> unit res" where
  "sweep_schedules s swept errors errors' =
     rbind (throw_if (se_state s \<noteq> Ready \<or> \<not> se_scheduler s \<or> \<not> se_runtime s) (Mq_Schedule ScheduleUnavailable)) (\<lambda>_.
     rbind swept (\<lambda>_.
     throw_if (errors \<noteq> errors') (Mq_Schedule ScheduleOperation)))"

text \<open>The handles of the workers are awaited together; \<open>first\<close> is the first rejection, if there is one.\<close>

definition await_workers :: "session \<Rightarrow> exn option \<Rightarrow> unit res" where
  "await_workers s first = rbind (await_idle s) (\<lambda>_. case first of None \<Rightarrow> Inr () | Some e \<Rightarrow> Inl e)"

definition cleanup_error :: "exn + jsval \<Rightarrow> exn" where
  "cleanup_error cause = (case cause of Inl e \<Rightarrow> e | Inr _ \<Rightarrow> Native_Error 2)"

subsection \<open>Readiness lasts until the application closes\<close>

lemma ready_step:
  assumes "session_inv s" "se_state s = Ready" "session_step cfg ev s = Some s'" "ev \<noteq> Ev_Close"
  shows "core s' = core s"
proof -
  from assms(1,2) have open': "se_start s = Started" "\<not> se_closing s"
  proof -
    show "se_start s = Started" using ready_started assms(1,2) by blast
    from assms(1) have "phase_ok s" by (simp add: session_inv_def)
    with assms(2) show "\<not> se_closing s" by (auto simp: phase_ok_def)
  qed
  show ?thesis
  proof (cases ev)
    case Ev_Start
    with assms(3) open' show ?thesis by (auto simp: session_start_def split: if_splits)
  next
    case (Ev_Init ans)
    with assms(3) open'(1) show ?thesis by simp
  next
    case (Ev_Unwind a)
    with assms(3) open'(1) show ?thesis by simp
  next
    case (Ev_Finish a)
    with assms(3) open'(2) show ?thesis by simp
  next
    case (Ev_Worker ok)
    with assms(3) have "s' = worker_step cfg ok (se_activating s) s" by (simp split: if_splits)
    then show ?thesis by (simp only: activation_core)
  next
    case (Ev_Publisher ok)
    with assms(3) have "s' = publisher_step ok s" by (simp split: if_splits)
    then show ?thesis by (simp only: activation_core)
  next
    case (Ev_Scheduler ok)
    with assms(3) have "s' = scheduler_step ok s" by (simp split: if_splits)
    then show ?thesis by (simp only: activation_core)
  next
    case Ev_Close
    with assms(4) show ?thesis by simp
  next
    case Ev_Activate_Workers
    with assms(3) have "s' = activate_workers cfg s" by simp
    then show ?thesis by (simp only: activation_core)
  next
    case Ev_Activate_Publisher
    with assms(3) have "s' = activate_publisher s" by simp
    then show ?thesis by (simp only: activation_core)
  next
    case Ev_Activate_Scheduler
    with assms(3) have "s' = activate_scheduler s" by simp
    then show ?thesis by (simp only: activation_core)
  qed
qed

lemma ready_run:
  "session_run cfg evs s = Some s' \<Longrightarrow> session_reachable cfg s \<Longrightarrow> se_state s = Ready \<Longrightarrow> Ev_Close \<notin> set evs
     \<Longrightarrow> core s' = core s"
proof (induction evs arbitrary: s)
  case (Cons ev evs)
  then obtain t where t: "session_step cfg ev s = Some t" and r: "session_run cfg evs t = Some s'"
    by (auto split: option.splits)
  from ready_step[OF reachable_inv[OF Cons.prems(2)] Cons.prems(3) t] Cons.prems(4) have c: "core t = core s" by auto
  with Cons.prems(3) have "se_state t = Ready" by (simp add: core_def)
  with Cons.IH[OF r reach_step[OF Cons.prems(2) t]] Cons.prems(4) c show ?case by simp
qed simp

lemma session_run_append:
  "session_run cfg (as @ bs) s = Option.bind (session_run cfg as s) (session_run cfg bs)"
  by (induction as arbitrary: s) (auto split: option.splits)

text \<open>Once \<open>close\<close> was called the engine is never ready again.\<close>

lemma closed_run_not_ready:
  assumes "session_run cfg evs s = Some s'" "session_reachable cfg s" "Ev_Close \<in> set evs"
  shows "se_state s' \<noteq> Ready"
proof -
  from assms(3) obtain as bs where evs: "evs = as @ Ev_Close # bs" by (meson split_list)
  with assms(1) obtain t where t: "session_run cfg as s = Some t"
    and more: "session_run cfg bs (session_close t) = Some s'"
    by (auto simp: session_run_append bind_eq_Some_conv)
  from run_reachable[OF t assms(2)] have "session_reachable cfg (session_close t)"
    by (rule reach_step[where ev = Ev_Close]) simp
  moreover have "se_closing (session_close t)" by (simp add: session_close_def)
  ultimately have "session_inv s'" "se_closing s'" using closing_run[OF more] reachable_inv by blast+
  then show ?thesis by (auto simp: session_inv_def phase_ok_def)
qed

text \<open>
  C7. A probe tells the truth about the moment it answers. Whatever happens to the session between its call
  and the adapter's answer, it succeeds exactly if the engine was ready and served the connection, the
  adapter answered, and the application did not start to close in between; so a snapshot is never handed out
  for a store that is being torn down.
\<close>

theorem session_probe_honest:
  assumes "session_reachable cfg s" and "session_run cfg evs s = Some s'"
  shows "is_ok (session_probe name s answered s') \<longleftrightarrow>
      engine_ready s \<and> name \<in> set (st_jobs (se_ready s)) \<and> is_ok answered \<and> Ev_Close \<notin> set evs"
proof -
  have probe: "is_ok (session_probe name s answered s') \<longleftrightarrow>
      engine_ready s \<and> name \<in> set (st_jobs (se_ready s)) \<and> is_ok answered
      \<and> name \<in> set (st_jobs (se_ready s')) \<and> se_state s' = Ready"
    by (auto simp: session_probe_def with_store_def is_ok_rbind is_ok_iff rbind_Inr_iff throw_if_iff catch_res_Inr_iff)
  show ?thesis
  proof (cases "Ev_Close \<in> set evs")
    case True
    with closed_run_not_ready[OF assms(2,1)] probe show ?thesis by simp
  next
    case False
    have "core s' = core s" if "engine_ready s"
      using ready_run[OF assms(2,1) _ False] that by (simp add: engine_ready_def)
    then have "st_jobs (se_ready s') = st_jobs (se_ready s) \<and> se_state s' = Ready" if "engine_ready s"
      using that by (simp add: core_def engine_ready_def)
    with probe False show ?thesis by auto
  qed
qed

text \<open>A probe across a call of \<open>close\<close>.\<close>

theorem session_probe_honest_witness:
  "\<not> is_ok (session_probe ''main'' sample_ready (Inr ()) sample_closing)
   \<and> is_ok (session_probe ''main'' sample_ready (Inr ()) sample_ready)"
proof -
  have "session_run sample_config [Ev_Close] sample_ready = Some sample_closing"
    by (simp add: sample_closing_def)
  moreover have "engine_ready sample_ready \<and> ''main'' \<in> set (st_jobs (se_ready sample_ready))"
    by (simp add: sample_ready_def sample_session engine_ready_def)
  ultimately show ?thesis
    using session_probe_honest[OF sample_ready_reachable, of "[Ev_Close]" sample_closing "''main''" "Inr ()"]
      session_probe_honest[OF sample_ready_reachable, of "[]" sample_ready "''main''" "Inr ()"]
    by simp
qed


subsection \<open>Views of a job store\<close>

text \<open>
  A store or a view of one is an object literal: its methods, each with who answers it, the adapter, the
  flow reads, or the dispatcher that applies the policies of controlled queues.
\<close>

datatype answered_by = By_Adapter | By_Reads | By_Policy

type_synonym store_view = "(string \<times> answered_by) list"

definition bound_methods :: "store_view \<Rightarrow> string list \<Rightarrow> store_view" where
  "bound_methods store names = map (\<lambda>m. (m, the (map_of store m))) names"

definition view_controlled :: "store_view \<Rightarrow> bool" where
  "view_controlled store \<longleftrightarrow> (\<forall>m\<in>set controlled_methods. m \<in> fst ` set store)"

definition controlled_view :: "store_view \<Rightarrow> store_view \<Rightarrow> store_view" where
  "controlled_view store view =
     (if \<not> view_controlled store then view
      else view @ bound_methods store [''getControls'', ''reconcile'', ''claimControlled'', ''settleControlled'',
        ''releaseControlled'', ''recoverStalledControlled'', ''cancelControlled''])"

definition flow_read_store :: "store_view \<Rightarrow> bool \<Rightarrow> store_view" where
  "flow_read_store store reads =
     (if \<not> reads then store
      else controlled_view store
        (bound_methods store [''enqueue'', ''enqueueMany'', ''claim'', ''heartbeat'', ''settle'',
          ''release'', ''recoverStalled'', ''awaitWake'', ''list'', ''retry'', ''requestCancellation'',
          ''promote'', ''remove'', ''pause'', ''resume'', ''pausedQueues'']
         @ [(''getJob'', By_Reads), (''getAttempts'', By_Reads), (''counts'', By_Reads), (''cancel'', By_Reads)]))"

definition dispatch_store :: "store_view \<Rightarrow> store_view" where
  "dispatch_store store =
     (if \<not> view_controlled store then store
      else bound_methods store [''enqueue'', ''enqueueMany'', ''heartbeat'', ''awaitWake'', ''getJob'',
          ''getAttempts'', ''list'', ''counts'', ''retry'', ''requestCancellation'', ''promote'', ''remove'',
          ''pause'', ''resume'', ''pausedQueues'']
        @ [(''claim'', By_Policy), (''settle'', By_Policy), (''release'', By_Policy), (''cancel'', By_Policy),
           (''recoverStalled'', By_Policy)])"

definition contract_methods :: "string list" where
  "contract_methods = [''enqueue'', ''enqueueMany'', ''claim'', ''heartbeat'', ''settle'', ''release'',
     ''recoverStalled'', ''awaitWake'', ''getJob'', ''getAttempts'', ''list'', ''counts'', ''cancel'',
     ''retry'', ''requestCancellation'', ''promote'', ''remove'', ''pause'', ''resume'', ''pausedQueues'']"

definition adapter_store :: "bool \<Rightarrow> store_view" where
  "adapter_store controlled =
     map (\<lambda>m. (m, By_Adapter)) (contract_methods @ (if controlled then controlled_methods else []))"

text \<open>
  With or without flow reads, an adapter that can control its queues is recognised through the view, so its
  policies are applied; and the store the workers use has every method of the contract.
\<close>

lemma store_view_complete:
  "view_controlled (flow_read_store (adapter_store controlled) reads) = controlled
   \<and> set contract_methods = fst ` set (dispatch_store (flow_read_store (adapter_store True) reads))
   \<and> map_of (dispatch_store (flow_read_store (adapter_store True) reads)) ''claim'' = Some By_Policy
   \<and> map_of (dispatch_store (flow_read_store (adapter_store True) reads)) ''cancel'' = Some By_Policy
   \<and> map_of (dispatch_store (flow_read_store (adapter_store True) reads)) ''getJob''
       = Some (if reads then By_Reads else By_Adapter)"
  by (induction controlled; induction reads; code_simp)

subsection \<open>The public state only advances\<close>

text \<open>
  What an application may see of the state over time, as an order: idle, starting, then ready, disabled or
  failed, which are not comparable, then stopping and closed.
\<close>

fun state_rank :: "engine_state \<Rightarrow> nat" where
  "state_rank Idle = 0"
| "state_rank Starting = 1"
| "state_rank Ready = 2"
| "state_rank Disabled = 2"
| "state_rank Failed = 2"
| "state_rank Stopping = 3"
| "state_rank Closed = 4"

instantiation engine_state :: order
begin

definition less_engine_state :: "engine_state \<Rightarrow> engine_state \<Rightarrow> bool" where
  "a < b \<longleftrightarrow> state_rank a < state_rank b"

definition less_eq_engine_state :: "engine_state \<Rightarrow> engine_state \<Rightarrow> bool" where
  "a \<le> b \<longleftrightarrow> a = b \<or> state_rank a < state_rank b"

instance
  by standard (auto simp: less_engine_state_def less_eq_engine_state_def)

end

lemma started_state_rank:
  "started_state (Initializing ph) st \<Longrightarrow> state_rank st = 1" "started_state (Unwinding e) st \<Longrightarrow> state_rank st = 1"
  "started_state Not_Started st \<Longrightarrow> state_rank st = 0"
  by simp_all

lemma session_init_advances:
  assumes "session_inv s" and "se_start s = Initializing ph"
  shows "se_state s \<le> se_state (session_init cfg ans ph s)"
proof -
  obtain p t where st: "init_step cfg ans ph s = (p, t)" by fastforce
  from init_step_frame[OF st] have frame: "init_frame p s t" .
  show ?thesis
  proof (cases "p = Finished")
    case True
    with frame have "\<not> se_stop s" "se_state t \<in> {Ready, Disabled}" by (auto simp: init_frame_def)
    moreover from this assms have "se_state s = Starting" by (simp add: session_inv_def phase_ok_def)
    ultimately show ?thesis using st True by (auto simp: session_init_def less_eq_engine_state_def)
  next
    case False
    with frame have "se_state t = se_state s" by (simp add: init_frame_def)
    with st False show ?thesis by (cases p) (simp_all add: session_init_def)
  qed
qed

lemma session_step_advances:
  assumes "session_inv s" and "session_step cfg ev s = Some s'"
  shows "se_state s \<le> se_state s'"
proof (cases ev)
  case Ev_Start
  with assms show ?thesis
    by (auto simp: session_start_def session_inv_def phase_ok_def less_eq_engine_state_def)
next
  case (Ev_Init ans)
  with assms show ?thesis by (auto intro: session_init_advances split: start_status.splits)
next
  case (Ev_Unwind a)
  with assms obtain e where e: "se_start s = Unwinding e" "s' = session_unwind a e s"
    by (auto split: start_status.splits)
  with assms(1) have c: "se_cleaned s = None"
    by (auto simp: session_inv_def session_settled_def settled_start_def)
  have "se_state s' = (if se_stop s then se_state s else Failed)"
    unfolding e(2) session_unwind_def session_cleanup_def Let_def by (simp add: c)
  with assms(1) e(1) show ?thesis by (simp add: session_inv_def phase_ok_def less_eq_engine_state_def)
next
  case Ev_Close
  with assms show ?thesis
    by (cases "se_start s")
      (auto simp: session_close_def session_inv_def phase_ok_def less_eq_engine_state_def)
next
  case (Ev_Finish a)
  with assms show ?thesis
    by (auto simp: session_finish_close_def session_inv_def phase_ok_def less_eq_engine_state_def split: if_splits)
next
  case (Ev_Worker ok)
  with assms(2) show ?thesis
    by (cases "(cfg, ok, se_activating s, s)" rule: worker_step.cases) (auto split: if_splits)
qed (use assms in \<open>auto simp: activate_workers_def activate_publisher_def publisher_step_def activate_scheduler_def
      scheduler_step_def split: if_splits\<close>)

text \<open>
  C29. However startup, activations and \<open>close\<close> interleave, the state an application sees never goes back: an
  engine that stopped, failed or was disabled is never ready again, and a closed one stays closed.
\<close>

theorem session_state_advances:
  assumes "session_reachable cfg s" and "session_run cfg evs s = Some s'"
  shows "se_state s \<le> se_state s'"
  using assms
proof (induction evs arbitrary: s)
  case (Cons ev evs)
  then obtain t where t: "session_step cfg ev s = Some t" "session_run cfg evs t = Some s'"
    by (auto split: option.splits)
  have "se_state s \<le> se_state t" by (rule session_step_advances[OF reachable_inv[OF Cons.prems(1)] t(1)])
  also have "se_state t \<le> se_state s'" by (rule Cons.IH[OF reach_step[OF Cons.prems(1) t(1)] t(2)])
  finally show ?case .
qed simp

theorem session_state_advances_witness:
  "se_state sample_ready = Ready \<and> \<not> Ready \<le> Failed \<and> Ready \<le> se_state (session_close sample_ready)"
proof -
  have "session_run sample_config [Ev_Close] sample_ready = Some (session_close sample_ready)" by simp
  from session_state_advances[OF sample_ready_reachable this] conjunct2[OF sample_ready_run]
  show ?thesis by (simp add: less_eq_engine_state_def)
qed

end
