(* ===== verification/Mq_Lint_Types.thy ===== *)
theory Mq_Lint_Types
  imports Mq_Prelude
begin

text \<open>
  \<open>tools/oxlint/anti-slop/shared/dictionary-types.ts\<close> and the rule \<open>no-unsafe-dictionary-type\<close> that rests
  on it: the analysis of TypeScript types by which the repository's lint finds dictionaries whose values
  have no contract. Syntax trees are datatypes with what the analysis reads of them. A \<open>Map\<close> is an
  association list, a \<open>Set\<close> of names a list. The recursions may run for ever (see
  \<open>captured_argument_diverges\<close>), so they take fuel: \<open>None\<close> is that it ran out.
\<close>

subsection \<open>Types\<close>

text \<open>
  \<open>Ts_Readonly\<close> is the operator \<open>readonly\<close>, \<open>Ts_Structural\<close> an array, tuple, function or constructor
  type and \<open>Ts_Other\<close> every other type the rules do not look into. The name of a reference is \<open>None\<close> if it
  is qualified; its arguments are \<open>None\<close> without brackets. An index signature has the types of its
  parameters and of its value.
\<close>

datatype ts_type =
    Ts_Unknown | Ts_Any | Ts_Object | Ts_Never | Ts_String | Ts_Number | Ts_Symbol
  | Ts_Structural
  | Ts_Other
  | Ts_Paren ts_type
  | Ts_Readonly ts_type
  | Ts_Literal "ts_member list"
  | Ts_Union "ts_type list"
  | Ts_Intersection "ts_type list"
  | Ts_Mapped ts_type "ts_type option"
  | Ts_Ref "string option" "ts_type list option"
and ts_member =
    Ts_Property bool "ts_type option"
  | Ts_Index "ts_type list" "ts_type option"
  | Ts_Member

record alias_decl =
  al_params :: "(string \<times> ts_type option) list"
  al_type :: ts_type

record interface_decl =
  in_extends :: nat
  in_members :: "ts_member list"

record type_env =
  te_aliases :: "(string \<times> alias_decl) list"
  te_interfaces :: "(string \<times> interface_decl list) list"
  te_shadowed :: "string list"

datatype program_declaration =
    De_Import "string list"
  | De_Alias string alias_decl
  | De_Interface string interface_decl
  | De_Enum string
  | De_Class "string option"
  | De_Function "string option"
  | De_Other

text \<open>A statement, possibly exported; an export need not declare anything.\<close>

datatype program_statement = St_Plain program_declaration | St_Export "program_declaration option"

type_synonym substitutions = "(string \<times> ts_type) list"

definition built_ins :: "string list" where
  "built_ins = [''Record'', ''Readonly'', ''Partial'', ''Required'', ''Pick'', ''Omit'', ''PropertyKey'', ''NonNullable'']"

definition transparent_wrappers :: "string list" where
  "transparent_wrappers = [''Readonly'', ''Partial'', ''Required'', ''NonNullable'']"

text \<open>White space in regular expressions.\<close>

definition js_space :: "char \<Rightarrow> bool" where
  "js_space c \<longleftrightarrow> of_char c \<in> {9 :: nat, 10, 11, 12, 13, 32, 160}"

subsection \<open>The environment of a program\<close>

definition declared_statement :: "program_statement \<Rightarrow> program_declaration option" where
  "declared_statement st = (case st of St_Plain d \<Rightarrow> Some d | St_Export d \<Rightarrow> d)"

definition empty_type_env :: type_env where
  "empty_type_env = \<lparr>te_aliases = [], te_interfaces = [], te_shadowed = []\<rparr>"

definition shadow :: "bool \<Rightarrow> string \<Rightarrow> type_env \<Rightarrow> type_env" where
  "shadow c name env = (if c then env\<lparr>te_shadowed := name # te_shadowed env\<rparr> else env)"

definition shadow_built_in :: "string \<Rightarrow> type_env \<Rightarrow> type_env" where
  "shadow_built_in name env = shadow (name \<in> set built_ins) name env"

fun declare_statement :: "program_declaration \<Rightarrow> type_env \<Rightarrow> type_env" where
  "declare_statement (De_Import names) env = fold shadow_built_in names env"
| "declare_statement (De_Alias name al) env =
     shadow_built_in name
       (if map_of (te_aliases env) name = None
        then env\<lparr>te_aliases := AList.update name al (te_aliases env)\<rparr>
        else shadow True name env)"
| "declare_statement (De_Interface name i) env =
     shadow_built_in name
       (env\<lparr>te_interfaces := AList.update name (orelse (map_of (te_interfaces env) name) [] @ [i]) (te_interfaces env)\<rparr>)"
| "declare_statement (De_Enum name) env = shadow_built_in name env"
| "declare_statement (De_Class name) env = (case name of None \<Rightarrow> env | Some n \<Rightarrow> shadow_built_in n env)"
| "declare_statement (De_Function name) env = (case name of None \<Rightarrow> env | Some n \<Rightarrow> shadow_built_in n env)"
| "declare_statement De_Other env = env"

definition create_type_environment :: "program_statement list \<Rightarrow> type_env" where
  "create_type_environment program =
     fold (\<lambda>st env. case declared_statement st of None \<Rightarrow> env | Some d \<Rightarrow> declare_statement d env)
       program empty_type_env"

subsection \<open>Looking through types\<close>

definition is_built_in :: "string \<Rightarrow> type_env \<Rightarrow> bool" where
  "is_built_in name env \<longleftrightarrow> name \<in> set built_ins \<and> name \<notin> set (te_shadowed env)"

fun unwrap_transparent :: "ts_type \<Rightarrow> ts_type" where
  "unwrap_transparent (Ts_Paren t) = unwrap_transparent t"
| "unwrap_transparent (Ts_Readonly t) = unwrap_transparent t"
| "unwrap_transparent t = t"

definition is_unapplied_reference_to :: "ts_type \<Rightarrow> string \<Rightarrow> bool" where
  "is_unapplied_reference_to t name =
     (case unwrap_transparent t of
        Ts_Ref n args \<Rightarrow> n = Some name \<and> (args = None \<or> args = Some [])
      | _ \<Rightarrow> False)"

definition is_never_type :: "ts_type \<Rightarrow> bool" where
  "is_never_type t \<longleftrightarrow> unwrap_transparent t = Ts_Never"

fun effectively_empty_member :: "ts_member \<Rightarrow> bool" where
  "effectively_empty_member (Ts_Property opt (Some t)) = (opt \<and> is_never_type t)"
| "effectively_empty_member _ = False"

definition effectively_empty_literal :: "ts_member list \<Rightarrow> bool" where
  "effectively_empty_literal ms \<longleftrightarrow> ms = [] \<or> list_all effectively_empty_member ms"

definition effectively_empty_interface :: "interface_decl list \<Rightarrow> bool" where
  "effectively_empty_interface is' =
     (case is' of
        [i] \<Rightarrow> in_extends i = 0 \<and> (in_members i = [] \<or> list_all effectively_empty_member (in_members i))
      | _ \<Rightarrow> False)"

text \<open>The first argument of a reference, and the argument at an index.\<close>

definition type_argument :: "nat \<Rightarrow> ts_type list option \<Rightarrow> ts_type option" where
  "type_argument i args =
     (case args of None \<Rightarrow> None | Some ts \<Rightarrow> if i < length ts then Some (ts ! i) else None)"

subsection \<open>Substitution of type parameters\<close>

function resolved_argument :: "substitutions \<Rightarrow> string list \<Rightarrow> ts_type \<Rightarrow> ts_type" where
  "resolved_argument base resolving t =
     (case unwrap_transparent t of
        Ts_Ref (Some name) _ \<Rightarrow>
          if name \<in> set resolving then t
          else (case map_of base name of
            None \<Rightarrow> t
          | Some s \<Rightarrow> resolved_argument base (name # resolving) s)
      | _ \<Rightarrow> t)"
  by auto
termination
proof (relation "measure (\<lambda>(base, resolving, t). card (fst ` set base - set resolving))")
  fix base resolving t name args s x2
  assume "name \<notin> set resolving" "map_of base name = Some s"
  then have "name \<in> fst ` set base - set resolving" by (force dest: map_of_SomeD)
  then have "card (fst ` set base - set (name # resolving)) < card (fst ` set base - set resolving)"
    by (intro psubset_card_mono) auto
  then show "((base, name # resolving, s), base, resolving, t)
      \<in> measure (\<lambda>(base, resolving, t). card (fst ` set base - set resolving))" by simp
qed auto

declare resolved_argument.simps [simp del]

fun substitute_params :: "(string \<times> ts_type option) list \<Rightarrow> ts_type list \<Rightarrow> substitutions \<Rightarrow> substitutions option" where
  "substitute_params [] args next' = Some next'"
| "substitute_params ((name, fallback) # params) args next' =
     (case (case args of a # _ \<Rightarrow> Some a | [] \<Rightarrow> fallback) of
        None \<Rightarrow> None
      | Some argument \<Rightarrow>
          substitute_params params (tl args) (AList.update name (resolved_argument next' [] argument) next'))"

definition alias_substitution :: "alias_decl \<Rightarrow> ts_type list option \<Rightarrow> substitutions \<Rightarrow> substitutions option" where
  "alias_substitution al args base = substitute_params (al_params al) (orelse args []) base"


subsection \<open>Unsafe values\<close>

datatype unsafe_value = Unsafe_Any | Unsafe_Empty_Object | Unsafe_Object | Unsafe_Union | Unsafe_Unknown

text \<open>\<open>types.some\<close> stops at the first member that is found; \<open>types.map\<close> looks at every one.\<close>

fun some_found :: "('a \<Rightarrow> 'b option option) \<Rightarrow> 'a list \<Rightarrow> bool option" where
  "some_found f [] = Some False"
| "some_found f (x # xs) =
     (case f x of None \<Rightarrow> None | Some (Some _) \<Rightarrow> Some True | Some None \<Rightarrow> some_found f xs)"

fun all_found :: "('a \<Rightarrow> 'b option option) \<Rightarrow> 'a list \<Rightarrow> 'b option list option" where
  "all_found f [] = Some []"
| "all_found f (x # xs) =
     (case f x of None \<Rightarrow> None | Some v \<Rightarrow> map_option ((#) v) (all_found f xs))"

definition intersection_value :: "unsafe_value option list \<Rightarrow> unsafe_value option" where
  "intersection_value vs =
     (if Some Unsafe_Any \<in> set vs then Some Unsafe_Any
      else if vs \<noteq> [] \<and> None \<notin> set vs then hd vs else None)"

primrec unsafe_direct_value :: "nat \<Rightarrow> type_env \<Rightarrow> substitutions \<Rightarrow> string list \<Rightarrow> ts_type
    \<Rightarrow> unsafe_value option option" where
  "unsafe_direct_value 0 env subst resolving t = None"
| "unsafe_direct_value (Suc n) env subst resolving t =
     (case unwrap_transparent t of
        Ts_Unknown \<Rightarrow> Some (Some Unsafe_Unknown)
      | Ts_Any \<Rightarrow> Some (Some Unsafe_Any)
      | Ts_Object \<Rightarrow> Some (Some Unsafe_Object)
      | Ts_Literal ms \<Rightarrow> Some (if effectively_empty_literal ms then Some Unsafe_Empty_Object else None)
      | Ts_Union ts \<Rightarrow>
          map_option (\<lambda>b. if b then Some Unsafe_Union else None)
            (some_found (unsafe_direct_value n env subst resolving) ts)
      | Ts_Intersection ts \<Rightarrow>
          map_option intersection_value (all_found (unsafe_direct_value n env subst resolving) ts)
      | Ts_Ref (Some name) args \<Rightarrow>
          if name \<in> set transparent_wrappers \<and> is_built_in name env
          then (case type_argument 0 args of
            None \<Rightarrow> Some None | Some wrapped \<Rightarrow> unsafe_direct_value n env subst resolving wrapped)
          else (case map_of subst name of
            Some s \<Rightarrow> if is_unapplied_reference_to s name then Some None
              else unsafe_direct_value n env subst resolving s
          | None \<Rightarrow>
              (case map_of (te_interfaces env) name of
                 Some ds \<Rightarrow> Some (if effectively_empty_interface ds then Some Unsafe_Empty_Object else None)
               | None \<Rightarrow>
                   (case map_of (te_aliases env) name of
                      None \<Rightarrow> Some None
                    | Some al \<Rightarrow>
                        if name \<in> set resolving then Some None
                        else (case alias_substitution al args subst of
                          None \<Rightarrow> Some None
                        | Some subst' \<Rightarrow> unsafe_direct_value n env subst' (name # resolving) (al_type al)))))
      | _ \<Rightarrow> Some None)"

subsection \<open>Dictionaries\<close>

primrec dictionary_value_types :: "nat \<Rightarrow> type_env \<Rightarrow> substitutions \<Rightarrow> string list \<Rightarrow> ts_type
    \<Rightarrow> (ts_type \<times> substitutions) list option" where
  "dictionary_value_types 0 env subst resolving t = None"
| "dictionary_value_types (Suc n) env subst resolving t =
     (case unwrap_transparent t of
        Ts_Literal ms \<Rightarrow>
          Some (concat (map (\<lambda>m. case m of Ts_Index ps (Some v) \<Rightarrow> [(v, subst)] | _ \<Rightarrow> []) ms))
      | Ts_Mapped key v \<Rightarrow> Some (case v of None \<Rightarrow> [] | Some v \<Rightarrow> [(v, subst)])
      | Ts_Ref (Some name) args \<Rightarrow>
          (case map_of subst name of
             Some s \<Rightarrow> if is_unapplied_reference_to s name then Some []
               else dictionary_value_types n env subst resolving s
           | None \<Rightarrow>
               if name \<in> set transparent_wrappers \<and> is_built_in name env
               then (case type_argument 0 args of
                 None \<Rightarrow> Some [] | Some wrapped \<Rightarrow> dictionary_value_types n env subst resolving wrapped)
               else if name = ''Record'' \<and> is_built_in name env
               then Some (case type_argument 1 args of None \<Rightarrow> [] | Some v \<Rightarrow> [(v, subst)])
               else if (name = ''Pick'' \<or> name = ''Omit'') \<and> is_built_in name env
               then (case type_argument 0 args of
                 None \<Rightarrow> Some [] | Some source \<Rightarrow> dictionary_value_types n env subst resolving source)
               else (case map_of (te_aliases env) name of
                 None \<Rightarrow> Some []
               | Some al \<Rightarrow>
                   if name \<in> set resolving then Some []
                   else (case alias_substitution al args subst of
                     None \<Rightarrow> Some []
                   | Some subst' \<Rightarrow> dictionary_value_types n env subst' (name # resolving) (al_type al))))
      | _ \<Rightarrow> Some [])"

definition classify_unsafe_dictionary_value :: "nat \<Rightarrow> ts_type \<Rightarrow> type_env \<Rightarrow> unsafe_value option option" where
  "classify_unsafe_dictionary_value n t env = unsafe_direct_value n env [] [] t"

fun first_unsafe :: "nat \<Rightarrow> type_env \<Rightarrow> (ts_type \<times> substitutions) list \<Rightarrow> unsafe_value option option" where
  "first_unsafe n env [] = Some None"
| "first_unsafe n env ((t, subst) # vs) =
     (case unsafe_direct_value n env subst [] t of
        None \<Rightarrow> None | Some (Some u) \<Rightarrow> Some (Some u) | Some None \<Rightarrow> first_unsafe n env vs)"

definition classify_unsafe_dictionary :: "nat \<Rightarrow> ts_type \<Rightarrow> type_env \<Rightarrow> unsafe_value option option" where
  "classify_unsafe_dictionary n t env =
     (case dictionary_value_types n env [] [] t of None \<Rightarrow> None | Some vs \<Rightarrow> first_unsafe n env vs)"

subsection \<open>Targets that widen\<close>

datatype widening_target = Anonymous_Object | Generic_Container | Object_Type | Open_Dictionary | Unknown_Type

definition has_index :: "ts_member list \<Rightarrow> bool" where
  "has_index ms \<longleftrightarrow> list_ex (\<lambda>m. case m of Ts_Index _ _ \<Rightarrow> True | _ \<Rightarrow> False) ms"

fun every_true :: "('a \<Rightarrow> bool option) \<Rightarrow> 'a list \<Rightarrow> bool option" where
  "every_true f [] = Some True"
| "every_true f (x # xs) =
     (case f x of None \<Rightarrow> None | Some False \<Rightarrow> Some False | Some True \<Rightarrow> every_true f xs)"

primrec is_broad_mapped_key :: "nat \<Rightarrow> type_env \<Rightarrow> substitutions \<Rightarrow> ts_type \<Rightarrow> bool option" where
  "is_broad_mapped_key 0 env subst t = None"
| "is_broad_mapped_key (Suc n) env subst t =
     (case unwrap_transparent t of
        Ts_String \<Rightarrow> Some True | Ts_Number \<Rightarrow> Some True | Ts_Symbol \<Rightarrow> Some True
      | Ts_Union ts \<Rightarrow> every_true (is_broad_mapped_key n env subst) ts
      | Ts_Ref (Some name) args \<Rightarrow>
          (case map_of subst name of
             Some s \<Rightarrow> if \<not> is_unapplied_reference_to s name then is_broad_mapped_key n env subst s
               else Some (name = ''PropertyKey'' \<and> is_built_in name env)
           | None \<Rightarrow> Some (name = ''PropertyKey'' \<and> is_built_in name env))
      | _ \<Rightarrow> Some False)"

primrec classify_alias_broad_target :: "nat \<Rightarrow> type_env \<Rightarrow> substitutions \<Rightarrow> string list \<Rightarrow> ts_type
    \<Rightarrow> widening_target option option" where
  "classify_alias_broad_target 0 env subst resolving t = None"
| "classify_alias_broad_target (Suc n) env subst resolving t =
     (case unwrap_transparent t of
        Ts_Unknown \<Rightarrow> Some (Some Unknown_Type)
      | Ts_Object \<Rightarrow> Some (Some Object_Type)
      | Ts_Literal ms \<Rightarrow> Some (if has_index ms then Some Open_Dictionary else None)
      | Ts_Mapped key v \<Rightarrow>
          map_option (\<lambda>b. if b then Some Open_Dictionary else None) (is_broad_mapped_key n env subst key)
      | Ts_Ref (Some name) args \<Rightarrow>
          (case map_of subst name of
             Some s \<Rightarrow> if is_unapplied_reference_to s name then Some None
               else classify_alias_broad_target n env subst resolving s
           | None \<Rightarrow>
               if name \<in> set transparent_wrappers \<and> is_built_in name env
               then (case type_argument 0 args of
                 None \<Rightarrow> Some None | Some wrapped \<Rightarrow> classify_alias_broad_target n env subst resolving wrapped)
               else if name = ''Record'' \<and> is_built_in name env then Some (Some Open_Dictionary)
               else (case map_of (te_aliases env) name of
                 None \<Rightarrow> Some None
               | Some al \<Rightarrow>
                   if name \<in> set resolving then Some None
                   else (case alias_substitution al args subst of
                     None \<Rightarrow> Some None
                   | Some subst' \<Rightarrow> classify_alias_broad_target n env subst' (name # resolving) (al_type al))))
      | _ \<Rightarrow> Some None)"

definition resolves_to_dictionary :: "nat \<Rightarrow> type_env \<Rightarrow> substitutions \<Rightarrow> string list \<Rightarrow> ts_type \<Rightarrow> bool option" where
  "resolves_to_dictionary n env subst resolving t =
     map_option (\<lambda>vs. vs \<noteq> []) (dictionary_value_types n env subst resolving t)"

primrec classify_widening_target :: "nat \<Rightarrow> type_env \<Rightarrow> ts_type \<Rightarrow> widening_target option option" where
  "classify_widening_target 0 env t = None"
| "classify_widening_target (Suc n) env t =
     (case unwrap_transparent t of
        Ts_Unknown \<Rightarrow> Some (Some Unknown_Type)
      | Ts_Object \<Rightarrow> Some (Some Object_Type)
      | Ts_Literal ms \<Rightarrow>
          Some (if has_index ms then Some Open_Dictionary else if ms \<noteq> [] then Some Anonymous_Object else None)
      | Ts_Mapped key v \<Rightarrow> Some (Some Open_Dictionary)
      | Ts_Ref (Some name) args \<Rightarrow>
          if name \<in> set transparent_wrappers \<and> is_built_in name env
          then (case type_argument 0 args of
            None \<Rightarrow> Some None | Some wrapped \<Rightarrow> classify_widening_target n env wrapped)
          else if name = ''Record'' \<and> is_built_in name env then Some (Some Open_Dictionary)
          else (case map_of (te_aliases env) name of
            None \<Rightarrow> Some None
          | Some al \<Rightarrow>
              (case alias_substitution al args [] of
                 None \<Rightarrow> Some None
               | Some subst \<Rightarrow>
                   if al_params al \<noteq> []
                   then map_option (\<lambda>b. if b then Some Generic_Container else None)
                     (resolves_to_dictionary n env subst [name] (al_type al))
                   else classify_alias_broad_target n env subst [name] (al_type al)))
      | _ \<Rightarrow> Some None)"


subsection \<open>What an unsafe type is\<close>

text \<open>
  The declarative reading, without fuel, substitutions and sets of names being resolved: \<open>steps_to\<close> is what
  a reference stands for, and the predicates are the least ones closed under the rules.
\<close>

definition steps_to :: "type_env \<Rightarrow> string \<Rightarrow> ts_type list option \<Rightarrow> ts_type option" where
  "steps_to env name args =
     (if name \<in> set transparent_wrappers \<and> is_built_in name env then type_argument 0 args
      else if map_of (te_interfaces env) name \<noteq> None then None
      else map_option al_type (map_of (te_aliases env) name))"

definition unsafe_keyword :: "ts_type \<Rightarrow> bool" where
  "unsafe_keyword t \<longleftrightarrow> t = Ts_Unknown \<or> t = Ts_Any \<or> t = Ts_Object
     \<or> (\<exists>ms. t = Ts_Literal ms \<and> effectively_empty_literal ms)"

definition empty_interface_reference :: "type_env \<Rightarrow> ts_type \<Rightarrow> bool" where
  "empty_interface_reference env t \<longleftrightarrow>
     (\<exists>name args ds. t = Ts_Ref (Some name) args \<and> map_of (te_interfaces env) name = Some ds
        \<and> effectively_empty_interface ds \<and> \<not> (name \<in> set transparent_wrappers \<and> is_built_in name env))"

inductive denotes_any :: "type_env \<Rightarrow> ts_type \<Rightarrow> bool" for env where
  any_keyword: "unwrap_transparent t = Ts_Any \<Longrightarrow> denotes_any env t"
| any_intersection: "unwrap_transparent t = Ts_Intersection ts \<Longrightarrow> m \<in> set ts \<Longrightarrow> denotes_any env m
    \<Longrightarrow> denotes_any env t"
| any_reference: "unwrap_transparent t = Ts_Ref (Some name) args \<Longrightarrow> steps_to env name args = Some u
    \<Longrightarrow> denotes_any env u \<Longrightarrow> denotes_any env t"

inductive denotes_unsafe :: "type_env \<Rightarrow> ts_type \<Rightarrow> bool" for env where
  unsafe_keywords: "unsafe_keyword (unwrap_transparent t) \<Longrightarrow> denotes_unsafe env t"
| unsafe_interface: "empty_interface_reference env (unwrap_transparent t) \<Longrightarrow> denotes_unsafe env t"
| unsafe_union: "unwrap_transparent t = Ts_Union ts \<Longrightarrow> m \<in> set ts \<Longrightarrow> denotes_unsafe env m \<Longrightarrow> denotes_unsafe env t"
| unsafe_any_member: "unwrap_transparent t = Ts_Intersection ts \<Longrightarrow> m \<in> set ts \<Longrightarrow> denotes_any env m
    \<Longrightarrow> denotes_unsafe env t"
| unsafe_all_members: "unwrap_transparent t = Ts_Intersection ts \<Longrightarrow> ts \<noteq> [] \<Longrightarrow> list_all (denotes_unsafe env) ts
    \<Longrightarrow> denotes_unsafe env t"
| unsafe_reference: "unwrap_transparent t = Ts_Ref (Some name) args \<Longrightarrow> steps_to env name args = Some u
    \<Longrightarrow> denotes_unsafe env u \<Longrightarrow> denotes_unsafe env t"

text \<open>An environment whose aliases have no parameters: then nothing is ever substituted.\<close>

definition monomorphic :: "type_env \<Rightarrow> bool" where
  "monomorphic env \<longleftrightarrow> (\<forall>(name, al)\<in>set (te_aliases env). al_params al = [])"

lemma monomorphic_substitution:
  "monomorphic env \<Longrightarrow> map_of (te_aliases env) name = Some al \<Longrightarrow> alias_substitution al args s = Some s"
  by (auto simp: monomorphic_def alias_substitution_def dest!: map_of_SomeD)

text \<open>The analysis of a reference in a monomorphic environment.\<close>

lemma unsafe_direct_reference:
  assumes "monomorphic env" "unwrap_transparent t = Ts_Ref (Some name) args"
  shows "unsafe_direct_value (Suc n) env [] R t =
     (case steps_to env name args of
        None \<Rightarrow> Some (if empty_interface_reference env (Ts_Ref (Some name) args) then Some Unsafe_Empty_Object else None)
      | Some u \<Rightarrow>
          if name \<in> set transparent_wrappers \<and> is_built_in name env then unsafe_direct_value n env [] R u
          else if name \<in> set R then Some None else unsafe_direct_value n env [] (name # R) u)"
  using assms(2) monomorphic_substitution[OF assms(1)]
  by (auto simp: steps_to_def empty_interface_reference_def split: option.splits)

subsection \<open>Fuel\<close>

text \<open>What the aliases that are not being resolved can still add.\<close>

definition alias_weight :: "type_env \<Rightarrow> string \<Rightarrow> nat" where
  "alias_weight env name = (case map_of (te_aliases env) name of None \<Rightarrow> 0 | Some al \<Rightarrow> Suc (size (al_type al)))"

definition lint_fuel :: "type_env \<Rightarrow> string list \<Rightarrow> ts_type \<Rightarrow> nat" where
  "lint_fuel env R t = size t + (\<Sum>name\<in>fst ` set (te_aliases env) - set R. alias_weight env name)"

lemma size_unwrap: "size (unwrap_transparent t) \<le> size t"
  by (induction t rule: unwrap_transparent.induct) auto

lemma size_element: "x \<in> set xs \<Longrightarrow> size x \<le> size_list size xs"
  by (induction xs) auto

lemma size_argument: "type_argument i args = Some x \<Longrightarrow> size x \<le> size_option (size_list size) args"
proof -
  assume "type_argument i args = Some x"
  then obtain ts where "args = Some ts" "x \<in> set ts"
    by (auto simp: type_argument_def split: option.splits if_splits)
  then show ?thesis using size_element[of x ts] by simp
qed

lemma lint_fuel_member:
  assumes "unwrap_transparent t = u" "size m < size u"
  shows "lint_fuel env R m < lint_fuel env R t"
  using assms size_unwrap[of t] by (simp add: lint_fuel_def)

lemma lint_fuel_alias:
  assumes "map_of (te_aliases env) name = Some al" "name \<notin> set R"
  shows "lint_fuel env (name # R) (al_type al) < lint_fuel env R t"
proof -
  let ?all = "fst ` set (te_aliases env)"
  from assms have "name \<in> ?all - set R" by (force dest: map_of_SomeD)
  then have "(\<Sum>a\<in>?all - set R. alias_weight env a)
      = alias_weight env name + (\<Sum>a\<in>?all - set R - {name}. alias_weight env a)"
    by (intro sum.remove) auto
  moreover have "?all - set R - {name} = ?all - set (name # R)" by auto
  ultimately show ?thesis using assms(1) by (simp add: lint_fuel_def alias_weight_def)
qed

lemma some_found_total: "(\<And>x. x \<in> set xs \<Longrightarrow> f x \<noteq> None) \<Longrightarrow> some_found f xs \<noteq> None"
  by (induction xs) (auto split: option.splits)

lemma all_found_total: "(\<And>x. x \<in> set xs \<Longrightarrow> f x \<noteq> None) \<Longrightarrow> all_found f xs \<noteq> None"
  by (induction xs) (auto split: option.splits)

lemma unsafe_direct_total:
  assumes "monomorphic env"
  shows "lint_fuel env R t < n \<Longrightarrow> unsafe_direct_value n env [] R t \<noteq> None"
proof (induction n arbitrary: R t)
  case (Suc n)
  have less: "unsafe_direct_value n env [] R' m \<noteq> None" if "lint_fuel env R' m < lint_fuel env R t" for R' m
    using Suc.IH[of R' m] Suc.prems that by simp
  show ?case
  proof (cases "unwrap_transparent t")
    case (Ts_Union ts)
    have "unsafe_direct_value n env [] R m \<noteq> None" if "m \<in> set ts" for m
      using less[OF lint_fuel_member[OF Ts_Union]] size_element[OF that] by simp
    then have "some_found (unsafe_direct_value n env [] R) ts \<noteq> None" by (rule some_found_total)
    with Ts_Union show ?thesis by simp
  next
    case (Ts_Intersection ts)
    have "unsafe_direct_value n env [] R m \<noteq> None" if "m \<in> set ts" for m
      using less[OF lint_fuel_member[OF Ts_Intersection]] size_element[OF that] by simp
    then have "all_found (unsafe_direct_value n env [] R) ts \<noteq> None" by (rule all_found_total)
    with Ts_Intersection show ?thesis by simp
  next
    case (Ts_Ref nm args)
    show ?thesis
    proof (cases nm)
      case None
      with Ts_Ref show ?thesis by simp
    next
      case (Some name)
      with Ts_Ref have t: "unwrap_transparent t = Ts_Ref (Some name) args" by simp
      show ?thesis
      proof (cases "steps_to env name args")
        case None
        then show ?thesis by (simp only: unsafe_direct_reference[OF assms t] option.case) simp
      next
        case u: (Some u)
        show ?thesis
        proof (cases "name \<in> set transparent_wrappers \<and> is_built_in name env")
          case True
          with u have "size u < size (Ts_Ref (Some name) args)"
            using size_argument by (fastforce simp: steps_to_def)
          from less[OF lint_fuel_member[OF t this]] True u show ?thesis
            by (simp only: unsafe_direct_reference[OF assms t] option.case if_True simp_thms)
        next
          case False
          with u obtain al where "map_of (te_aliases env) name = Some al" "u = al_type al"
            by (auto simp: steps_to_def split: if_splits)
          with less[OF lint_fuel_alias] False u show ?thesis
            by (auto simp del: unsafe_direct_value.simps simp: unsafe_direct_reference[OF assms t])
        qed
      qed
    qed
  qed auto
qed simp


subsection \<open>Soundness\<close>

lemma some_found_True: "some_found f xs = Some True \<Longrightarrow> \<exists>x\<in>set xs. \<exists>v. f x = Some (Some v)"
  by (induction xs) (auto split: option.splits)

lemma some_found_False: "some_found f xs = Some False \<Longrightarrow> x \<in> set xs \<Longrightarrow> f x = Some None"
  by (induction xs) (auto split: option.splits)

lemma all_found_values: "all_found f xs = Some vs \<longleftrightarrow> map f xs = map Some vs"
proof (induction xs arbitrary: vs)
  case (Cons x xs)
  then show ?case by (cases vs) (auto split: option.splits)
qed auto

lemma all_found_value: "all_found f xs = Some vs \<Longrightarrow> set vs = {v. \<exists>x\<in>set xs. f x = Some v}"
proof -
  assume "all_found f xs = Some vs"
  then have "f ` set xs = Some ` set vs" unfolding all_found_values by (metis list.set_map)
  then show ?thesis by (auto simp: image_iff set_eq_iff) (metis option.inject)+
qed

lemma all_found_length: "all_found f xs = Some vs \<Longrightarrow> vs = [] \<longleftrightarrow> xs = []"
  unfolding all_found_values by (metis list.map_disc_iff)

lemma unsafe_direct_sound:
  assumes "monomorphic env"
  shows "unsafe_direct_value n env [] R t = Some (Some v) \<Longrightarrow>
    denotes_unsafe env t \<and> (v = Unsafe_Any \<longrightarrow> denotes_any env t)"
proof (induction n arbitrary: R t v)
  case (Suc n)
  show ?case
  proof (cases "unwrap_transparent t")
    case (Ts_Literal ms)
    with Suc.prems show ?thesis
      by (auto intro!: unsafe_keywords simp: unsafe_keyword_def split: if_splits)
  next
    case (Ts_Union ts)
    with Suc.prems have "some_found (unsafe_direct_value n env [] R) ts = Some True" "v = Unsafe_Union"
      by (auto split: if_splits)
    with some_found_True Suc.IH unsafe_union[OF Ts_Union] show ?thesis by blast
  next
    case (Ts_Intersection ts)
    with Suc.prems obtain vs where vs: "all_found (unsafe_direct_value n env [] R) ts = Some vs"
      and v: "intersection_value vs = Some v" by auto
    show ?thesis
    proof (cases "Some Unsafe_Any \<in> set vs")
      case True
      with all_found_value[OF vs] obtain m where "m \<in> set ts" "unsafe_direct_value n env [] R m = Some (Some Unsafe_Any)"
        by auto
      with Suc.IH any_intersection[OF Ts_Intersection] unsafe_any_member[OF Ts_Intersection] show ?thesis by blast
    next
      case False
      with v have ok: "vs \<noteq> []" "None \<notin> set vs" "hd vs = Some v" by (auto simp: intersection_value_def split: if_splits)
      have "denotes_unsafe env m" if m: "m \<in> set ts" for m
      proof -
        from vs m obtain w where w: "unsafe_direct_value n env [] R m = Some w"
          unfolding all_found_values by (metis ex_map_conv list.set_map image_eqI)
        with all_found_value[OF vs] m ok(2) obtain x where "w = Some x" by (cases w) auto
        with w Suc.IH show ?thesis by blast
      qed
      moreover from ok(1) all_found_length[OF vs] have "ts \<noteq> []" by simp
      ultimately have "denotes_unsafe env t" using unsafe_all_members[OF Ts_Intersection] by (simp add: list_all_iff)
      moreover have "v \<noteq> Unsafe_Any" using False ok by (metis hd_in_set)
      ultimately show ?thesis by blast
    qed
  next
    case (Ts_Ref nm args)
    with Suc.prems obtain name where nm: "nm = Some name" by (cases nm) auto
    with Ts_Ref have t: "unwrap_transparent t = Ts_Ref (Some name) args" by simp
    note run = Suc.prems[unfolded unsafe_direct_reference[OF assms t]]
    show ?thesis
    proof (cases "steps_to env name args")
      case None
      with run t show ?thesis by (auto intro!: unsafe_interface split: if_splits)
    next
      case (Some u)
      with run obtain R' where "unsafe_direct_value n env [] R' u = Some (Some v)" by (auto split: if_splits)
      with Suc.IH unsafe_reference[OF t Some] any_reference[OF t Some] show ?thesis by blast
    qed
  qed (use Suc.prems in \<open>auto intro!: unsafe_keywords any_keyword simp: unsafe_keyword_def\<close>)
qed simp

subsection \<open>Completeness\<close>

text \<open>The predicates by depth of the derivation.\<close>

primrec any_within :: "nat \<Rightarrow> type_env \<Rightarrow> ts_type \<Rightarrow> bool" where
  "any_within 0 env t = False"
| "any_within (Suc d) env t =
     (case unwrap_transparent t of
        Ts_Any \<Rightarrow> True
      | Ts_Intersection ts \<Rightarrow> \<exists>m\<in>set ts. any_within d env m
      | Ts_Ref (Some name) args \<Rightarrow> (case steps_to env name args of None \<Rightarrow> False | Some u \<Rightarrow> any_within d env u)
      | _ \<Rightarrow> False)"

primrec unsafe_within :: "nat \<Rightarrow> type_env \<Rightarrow> ts_type \<Rightarrow> bool" where
  "unsafe_within 0 env t = False"
| "unsafe_within (Suc d) env t =
     (unsafe_keyword (unwrap_transparent t) \<or> empty_interface_reference env (unwrap_transparent t)
      \<or> (case unwrap_transparent t of
           Ts_Union ts \<Rightarrow> \<exists>m\<in>set ts. unsafe_within d env m
         | Ts_Intersection ts \<Rightarrow> (\<exists>m\<in>set ts. any_within d env m) \<or> (ts \<noteq> [] \<and> (\<forall>m\<in>set ts. unsafe_within d env m))
         | Ts_Ref (Some name) args \<Rightarrow> (case steps_to env name args of None \<Rightarrow> False | Some u \<Rightarrow> unsafe_within d env u)
         | _ \<Rightarrow> False))"

lemma any_within_Suc: "any_within d env t \<Longrightarrow> any_within (Suc d) env t"
proof (induction d arbitrary: t)
  case (Suc d)
  show ?case
  proof (cases "unwrap_transparent t")
    case (Ts_Intersection ts)
    with Suc.prems Suc.IH show ?thesis by (subst any_within.simps(2)) (auto simp del: any_within.simps(2) simp: any_within.simps(2)[of d env t])
  next
    case (Ts_Ref nm args)
    with Suc.prems obtain name u where "nm = Some name" "steps_to env name args = Some u" "any_within d env u"
      by (auto split: option.splits)
    with Ts_Ref Suc.IH show ?thesis by (subst any_within.simps(2)) (simp del: any_within.simps(2))
  qed (use Suc.prems in auto)
qed simp

lemma any_within_mono: "d \<le> e \<Longrightarrow> any_within d env t \<Longrightarrow> any_within e env t"
  by (induction e rule: dec_induct) (auto simp del: any_within.simps intro: any_within_Suc)

lemma unsafe_within_Suc: "unsafe_within d env t \<Longrightarrow> unsafe_within (Suc d) env t"
proof (induction d arbitrary: t)
  case (Suc d)
  show ?case
  proof (cases "unwrap_transparent t")
    case (Ts_Union ts)
    with Suc.prems have "\<exists>m\<in>set ts. unsafe_within d env m"
      by (auto simp: unsafe_keyword_def empty_interface_reference_def)
    with Suc.IH Ts_Union show ?thesis by (subst unsafe_within.simps(2)) (auto simp del: unsafe_within.simps(2))
  next
    case (Ts_Intersection ts)
    with Suc.prems have "(\<exists>m\<in>set ts. any_within d env m) \<or> (ts \<noteq> [] \<and> (\<forall>m\<in>set ts. unsafe_within d env m))"
      by (auto simp: unsafe_keyword_def empty_interface_reference_def)
    then have "(\<exists>m\<in>set ts. any_within (Suc d) env m) \<or> (ts \<noteq> [] \<and> (\<forall>m\<in>set ts. unsafe_within (Suc d) env m))"
      using any_within_Suc[of d env] Suc.IH by blast
    with Ts_Intersection show ?thesis
      by (subst unsafe_within.simps(2)) (simp del: unsafe_within.simps(2) any_within.simps(2))
  next
    case (Ts_Ref nm args)
    show ?thesis
    proof (cases "empty_interface_reference env (Ts_Ref nm args)")
      case False
      with Suc.prems Ts_Ref obtain name u where "nm = Some name" "steps_to env name args = Some u" "unsafe_within d env u"
        by (auto simp: unsafe_keyword_def split: option.splits)
      with Ts_Ref Suc.IH show ?thesis by (subst unsafe_within.simps(2)) (simp del: unsafe_within.simps(2))
    qed (use Ts_Ref in simp)
  qed (use Suc.prems in auto)
qed simp

lemma unsafe_within_mono: "d \<le> e \<Longrightarrow> unsafe_within d env t \<Longrightarrow> unsafe_within e env t"
  by (induction e rule: dec_induct) (auto simp del: unsafe_within.simps intro: unsafe_within_Suc)

lemma any_within_unsafe: "any_within d env t \<Longrightarrow> unsafe_within d env t"
proof (induction d arbitrary: t)
  case (Suc d)
  then show ?case
    by (auto simp: unsafe_keyword_def split: ts_type.splits option.splits)
qed simp

lemma denotes_any_within: "denotes_any env t \<Longrightarrow> \<exists>d. any_within d env t"
proof (induction rule: denotes_any.induct)
  case (any_keyword t)
  then have "any_within 1 env t" by simp
  then show ?case by blast
next
  case (any_intersection t ts m)
  then obtain d where "any_within d env m" by blast
  with any_intersection.hyps have "any_within (Suc d) env t" by auto
  then show ?case by blast
next
  case (any_reference t name args u)
  then obtain d where "any_within d env u" by blast
  with any_reference.hyps have "any_within (Suc d) env t" by auto
  then show ?case by blast
qed

lemma common_depth:
  "list_all (\<lambda>m. \<exists>d. unsafe_within d env m) ts \<Longrightarrow> \<exists>d. \<forall>m\<in>set ts. unsafe_within d env m"
proof (induction ts)
  case (Cons x ts)
  then obtain d e where "unsafe_within d env x" "\<forall>m\<in>set ts. unsafe_within e env m" by auto
  then have "\<forall>m\<in>set (x # ts). unsafe_within (max d e) env m"
    using unsafe_within_mono[of d "max d e"] unsafe_within_mono[of e "max d e"] by (auto simp del: unsafe_within.simps)
  then show ?case by blast
qed simp

lemma denotes_unsafe_within: "denotes_unsafe env t \<Longrightarrow> \<exists>d. unsafe_within d env t"
proof (induction rule: denotes_unsafe.induct)
  case (unsafe_union t ts m)
  then obtain d where "unsafe_within d env m" by blast
  with unsafe_union.hyps have "unsafe_within (Suc d) env t" by auto
  then show ?case by blast
next
  case (unsafe_any_member t ts m)
  then obtain d where "any_within d env m" using denotes_any_within by blast
  with unsafe_any_member.hyps have "unsafe_within (Suc d) env t" by auto
  then show ?case by blast
next
  case (unsafe_all_members t ts)
  then have "list_all (\<lambda>m. \<exists>d. unsafe_within d env m) ts" by (auto simp: list_all_iff)
  then obtain d where "\<forall>m\<in>set ts. unsafe_within d env m" using common_depth by blast
  with unsafe_all_members.hyps have "unsafe_within (Suc d) env t" by auto
  then show ?case by blast
next
  case (unsafe_reference t name args u)
  then obtain d where "unsafe_within d env u" by blast
  with unsafe_reference.hyps have "unsafe_within (Suc d) env t" by auto
  then show ?case by blast
qed (rule exI[of _ 1], simp)+


text \<open>
  A derivation of least depth never passes the same alias twice, so refusing the aliases that are being
  resolved loses nothing: none of them has a derivation as short as the one that is still needed.
\<close>

definition unresolved :: "(nat \<Rightarrow> type_env \<Rightarrow> ts_type \<Rightarrow> bool) \<Rightarrow> type_env \<Rightarrow> nat \<Rightarrow> string list \<Rightarrow> bool" where
  "unresolved P env d R \<longleftrightarrow> (\<forall>b\<in>set R. \<forall>al. map_of (te_aliases env) b = Some al \<longrightarrow> \<not> P d env (al_type al))"

lemma unresolved_mono:
  "unresolved P env e R \<Longrightarrow> (\<And>t. P d env t \<Longrightarrow> P e env t) \<Longrightarrow> unresolved P env d R"
  unfolding unresolved_def by blast

lemma least_depth:
  fixes P :: "nat \<Rightarrow> bool"
  assumes "P d" and "\<not> P 0"
  obtains e where "e < d" "P (Suc e)" "\<not> P e"
proof -
  let ?k = "LEAST k. P k"
  from assms(1) have k: "P ?k" "?k \<le> d" by (auto intro: LeastI Least_le)
  with assms(2) obtain e where e: "?k = Suc e" by (cases ?k) auto
  moreover from e have "\<not> P e" using not_less_Least[of e P] by simp
  ultimately show thesis using that[of e] k by simp
qed

lemma alias_step:
  assumes "steps_to env name args = Some u" "\<not> (name \<in> set transparent_wrappers \<and> is_built_in name env)"
  obtains al where "map_of (te_aliases env) name = Some al" "u = al_type al"
  using assms by (auto simp: steps_to_def split: if_splits)

text \<open>What is needed of the rest of the derivation when the analysis enters an alias.\<close>

lemma enter_alias:
  fixes P :: "nat \<Rightarrow> type_env \<Rightarrow> ts_type \<Rightarrow> bool"
  assumes "P d env u" "unresolved P env d R" "\<And>t. \<not> P 0 env t"
    and mono: "\<And>i j t. i \<le> j \<Longrightarrow> P i env t \<Longrightarrow> P j env t"
    and "map_of (te_aliases env) name = Some al" "u = al_type al"
  obtains e where "name \<notin> set R" "e < d" "P (Suc e) env u" "unresolved P env e (name # R)"
proof -
  obtain e where e: "e < d" "P (Suc e) env u" "\<not> P e env u" by (rule least_depth[of "\<lambda>d. P d env u", OF assms(1)]) (use assms(3) in blast)+
  from assms(1,2,5,6) have "name \<notin> set R" by (auto simp: unresolved_def)
  moreover have "unresolved P env e R" by (rule unresolved_mono[OF assms(2)]) (rule mono[OF less_imp_le[OF e(1)]])
  with e(3) assms(5,6) have "unresolved P env e (name # R)" by (auto simp: unresolved_def)
  ultimately show thesis using that e by blast
qed

lemma any_direct_complete:
  assumes "monomorphic env"
  shows "unsafe_direct_value n env [] R t = Some r \<Longrightarrow> any_within (Suc d) env t
     \<Longrightarrow> unresolved any_within env d R \<Longrightarrow> r = Some Unsafe_Any"
proof (induction n arbitrary: R t r d)
  case (Suc n)
  have lower: "unresolved any_within env e R" if "e \<le> d" for e
    by (rule unresolved_mono[OF Suc.prems(3)]) (rule any_within_mono[OF that])
  show ?case
  proof (cases "unwrap_transparent t")
    case (Ts_Intersection ts)
    with Suc.prems(2) obtain m where m: "m \<in> set ts" "any_within d env m" by auto
    from Suc.prems(1) Ts_Intersection obtain vs where
      vs: "all_found (unsafe_direct_value n env [] R) ts = Some vs" "r = intersection_value vs" by auto
    from vs(1) m(1) obtain w where w: "unsafe_direct_value n env [] R m = Some w" "w \<in> set vs"
      unfolding all_found_values by (metis (no_types, lifting) image_eqI image_iff list.set_map)
    from m(2) obtain e where e: "d = Suc e" by (cases d) auto
    from Suc.IH[OF w(1) m(2)[unfolded e] lower] e have "w = Some Unsafe_Any" by simp
    with w(2) vs(2) show ?thesis by (simp add: intersection_value_def)
  next
    case (Ts_Ref nm args)
    with Suc.prems(2) obtain name u where t: "unwrap_transparent t = Ts_Ref (Some name) args"
      and u: "steps_to env name args = Some u" "any_within d env u"
      by (auto split: option.splits)
    note run = Suc.prems(1)[unfolded unsafe_direct_reference[OF assms t]]
    show ?thesis
    proof (cases "name \<in> set transparent_wrappers \<and> is_built_in name env")
      case True
      from u(2) obtain e where e: "d = Suc e" by (cases d) auto
      from run True u(1) have "unsafe_direct_value n env [] R u = Some r" by simp
      from Suc.IH[OF this u(2)[unfolded e] lower] e show ?thesis by simp
    next
      case False
      from alias_step[OF u(1) False] obtain al where al: "map_of (te_aliases env) name = Some al" "u = al_type al" .
      obtain e where e: "name \<notin> set R" "e < d" "any_within (Suc e) env u" "unresolved any_within env e (name # R)"
        by (rule enter_alias[of any_within, OF u(2) Suc.prems(3) _ _ al]) (auto intro: any_within_mono)
      from run False u(1) e(1) have "unsafe_direct_value n env [] (name # R) u = Some r" by auto
      from Suc.IH[OF this e(3,4)] show ?thesis .
    qed
  qed (use Suc.prems in auto)
qed simp


lemma unsafe_direct_complete:
  assumes "monomorphic env"
  shows "unsafe_direct_value n env [] R t = Some r \<Longrightarrow> unsafe_within (Suc d) env t
     \<Longrightarrow> unresolved unsafe_within env d R \<Longrightarrow> r \<noteq> None"
proof (induction n arbitrary: R t r d)
  case (Suc n)
  have lower: "unresolved unsafe_within env e R" if "e \<le> d" for e
    by (rule unresolved_mono[OF Suc.prems(3)]) (rule unsafe_within_mono[OF that])
  show ?case
  proof (cases "unsafe_keyword (unwrap_transparent t) \<or> empty_interface_reference env (unwrap_transparent t)")
    case True
    then consider (keyword) "unsafe_keyword (unwrap_transparent t)"
      | (empty) name args ds where "unwrap_transparent t = Ts_Ref (Some name) args"
          "map_of (te_interfaces env) name = Some ds" "effectively_empty_interface ds"
          "\<not> (name \<in> set transparent_wrappers \<and> is_built_in name env)"
      by (auto simp: empty_interface_reference_def)
    then show ?thesis
    proof cases
      case keyword
      then consider "unwrap_transparent t = Ts_Unknown" | "unwrap_transparent t = Ts_Any" | "unwrap_transparent t = Ts_Object"
        | ms where "unwrap_transparent t = Ts_Literal ms" "effectively_empty_literal ms"
        unfolding unsafe_keyword_def by blast
      then show ?thesis by cases (use Suc.prems(1) in auto)
    next
      case empty
      with Suc.prems(1) show ?thesis by auto
    qed
  next
    case other: False
    show ?thesis
    proof (cases "unwrap_transparent t")
      case (Ts_Union ts)
      with Suc.prems(2) other obtain m where m: "m \<in> set ts" "unsafe_within d env m" by auto
      then obtain e where e: "d = Suc e" by (cases d) auto
      from Suc.prems(1) Ts_Union obtain b where b: "some_found (unsafe_direct_value n env [] R) ts = Some b"
        "r = (if b then Some Unsafe_Union else None)" by auto
      have "\<not> (b = False)"
      proof
        assume "b = False"
        with b(1) have "some_found (unsafe_direct_value n env [] R) ts = Some False" by simp
        from some_found_False[OF this m(1)] have "unsafe_direct_value n env [] R m = Some None" .
        from Suc.IH[OF this m(2)[unfolded e] lower] e show False by simp
      qed
      with b(2) show ?thesis by simp
    next
      case (Ts_Intersection ts)
      from Suc.prems(1) Ts_Intersection obtain vs where
        vs: "all_found (unsafe_direct_value n env [] R) ts = Some vs" "r = intersection_value vs" by auto
      from Suc.prems(2) other Ts_Intersection consider
        (any) m where "m \<in> set ts" "any_within d env m"
        | (all) "ts \<noteq> []" "\<forall>m\<in>set ts. unsafe_within d env m" by auto
      then show ?thesis
      proof cases
        case any
        from vs(1) any(1) obtain w where w: "unsafe_direct_value n env [] R m = Some w" "w \<in> set vs"
          unfolding all_found_values by (metis (no_types, lifting) image_eqI image_iff list.set_map)
        from any(2) obtain e where e: "d = Suc e" by (cases d) auto
        have "unresolved any_within env e R"
          using lower[of e] e any_within_unsafe by (auto simp: unresolved_def)
        from any_direct_complete[OF assms w(1) any(2)[unfolded e] this] w(2) vs(2)
        show ?thesis by (simp add: intersection_value_def)
      next
        case all
        have "None \<notin> set vs"
        proof
          assume "None \<in> set vs"
          with all_found_value[OF vs(1)] obtain m where m: "m \<in> set ts" "unsafe_direct_value n env [] R m = Some None"
            by auto
          with all(2) obtain e where e: "d = Suc e" by (cases d) auto
          have "unsafe_within (Suc e) env m" using all(2) m(1) e by (simp del: unsafe_within.simps)
          from Suc.IH[OF m(2) this lower] e show False by simp
        qed
        moreover have "vs \<noteq> []" using all(1) all_found_length[OF vs(1)] by simp
        moreover from this have "hd vs \<in> set vs" by simp
        ultimately show ?thesis using vs(2) by (metis intersection_value_def option.distinct(1))
      qed
    next
      case (Ts_Ref nm args)
      with Suc.prems(2) other obtain name u where t: "unwrap_transparent t = Ts_Ref (Some name) args"
        and u: "steps_to env name args = Some u" "unsafe_within d env u"
        by (auto split: option.splits)
      note run = Suc.prems(1)[unfolded unsafe_direct_reference[OF assms t]]
      show ?thesis
      proof (cases "name \<in> set transparent_wrappers \<and> is_built_in name env")
        case True
        from u(2) obtain e where e: "d = Suc e" by (cases d) auto
        from run True u(1) have "unsafe_direct_value n env [] R u = Some r" by simp
        from Suc.IH[OF this u(2)[unfolded e] lower] e show ?thesis by simp
      next
        case False
        from alias_step[OF u(1) False] obtain al where al: "map_of (te_aliases env) name = Some al" "u = al_type al" .
        obtain e where e: "name \<notin> set R" "e < d" "unsafe_within (Suc e) env u" "unresolved unsafe_within env e (name # R)"
          by (rule enter_alias[of unsafe_within, OF u(2) Suc.prems(3) _ _ al]) (auto intro: unsafe_within_mono)
        from run False u(1) e(1) have "unsafe_direct_value n env [] (name # R) u = Some r" by auto
        from Suc.IH[OF this e(3,4)] show ?thesis .
      qed
    qed (use Suc.prems other in auto)
  qed
qed simp

lemma unsafe_direct_exact:
  assumes "monomorphic env" and "lint_fuel env [] t < n"
  shows "\<exists>r. unsafe_direct_value n env [] [] t = Some r
    \<and> (r \<noteq> None \<longleftrightarrow> denotes_unsafe env t) \<and> (r = Some Unsafe_Any \<longleftrightarrow> denotes_any env t)"
proof -
  from unsafe_direct_total[OF assms] obtain r where r: "unsafe_direct_value n env [] [] t = Some r" by blast
  have "denotes_unsafe env t \<longleftrightarrow> r \<noteq> None"
  proof
    assume "denotes_unsafe env t"
    then obtain d where "unsafe_within d env t" using denotes_unsafe_within by blast
    then have "unsafe_within (Suc d) env t" by (rule unsafe_within_Suc)
    from unsafe_direct_complete[OF assms(1) r this] show "r \<noteq> None" by (simp add: unresolved_def)
  next
    assume "r \<noteq> None"
    with r unsafe_direct_sound[OF assms(1)] show "denotes_unsafe env t" by blast
  qed
  moreover have "denotes_any env t \<longleftrightarrow> r = Some Unsafe_Any"
  proof
    assume "denotes_any env t"
    then obtain d where "any_within d env t" using denotes_any_within by blast
    then have "any_within (Suc d) env t" by (rule any_within_Suc)
    from any_direct_complete[OF assms(1) r this] show "r = Some Unsafe_Any" by (simp add: unresolved_def)
  next
    assume "r = Some Unsafe_Any"
    with r unsafe_direct_sound[OF assms(1)] show "denotes_any env t" by blast
  qed
  ultimately show ?thesis using r by auto
qed

text \<open>
  C34. In a program whose type aliases have no parameters the classification of a type always ends, with no more
  fuel than the sizes of the type and of the aliases together, and it is exact: it finds a type unsafe
  exactly if it denotes one by the declarative rules, and reports \<open>any\<close> exactly if it denotes \<open>any\<close>,
  however the aliases refer to each other, cycles included.
\<close>

theorem lint_unsafe_exact:
  assumes "monomorphic env" and "lint_fuel env [] t < n"
  shows "\<exists>r. classify_unsafe_dictionary_value n t env = Some r
    \<and> (r \<noteq> None \<longleftrightarrow> denotes_unsafe env t) \<and> (r = Some Unsafe_Any \<longleftrightarrow> denotes_any env t)"
  unfolding classify_unsafe_dictionary_value_def by (rule unsafe_direct_exact[OF assms])

text \<open>Two aliases that refer to each other, one of them with a way out.\<close>

definition cyclic_env :: type_env where
  "cyclic_env = create_type_environment
     [St_Export (Some (De_Alias ''A'' \<lparr>al_params = [], al_type = Ts_Ref (Some ''B'') None\<rparr>)),
      St_Plain (De_Alias ''B'' \<lparr>al_params = [], al_type = Ts_Union [Ts_Ref (Some ''A'') None, Ts_Unknown]\<rparr>)]"

theorem lint_unsafe_exact_witness:
  "denotes_unsafe cyclic_env (Ts_Ref (Some ''A'') None) \<and> \<not> denotes_any cyclic_env (Ts_Ref (Some ''A'') None)"
proof -
  have env: "cyclic_env = \<lparr>te_aliases = [(''A'', \<lparr>al_params = [], al_type = Ts_Ref (Some ''B'') None\<rparr>),
      (''B'', \<lparr>al_params = [], al_type = Ts_Union [Ts_Ref (Some ''A'') None, Ts_Unknown]\<rparr>)],
      te_interfaces = [], te_shadowed = []\<rparr>"
    by (simp add: cyclic_env_def create_type_environment_def declared_statement_def empty_type_env_def
        shadow_built_in_def shadow_def built_ins_def)
  have "monomorphic cyclic_env" by (simp add: monomorphic_def env)
  moreover have "lint_fuel cyclic_env [] (Ts_Ref (Some ''A'') None) < 20"
    by (simp add: lint_fuel_def alias_weight_def env)
  moreover have "classify_unsafe_dictionary_value 20 (Ts_Ref (Some ''A'') None) cyclic_env = Some (Some Unsafe_Union)"
    unfolding env by code_simp
  ultimately show ?thesis
    using lint_unsafe_exact[of cyclic_env "Ts_Ref (Some ''A'') None" 20] by auto
qed

subsection \<open>Type parameters\<close>

text \<open>
  With parameters the analysis need not end. \<open>type F<T> = T; type G<T> = F<T | string>\<close>: the argument of
  \<open>F\<close> mentions the \<open>T\<close> of \<open>G\<close>, but is stored under the \<open>T\<close> of \<open>F\<close>, so it refers to itself. For \<open>G<number>\<close>
  no amount of fuel is enough; the source overflows its stack.
\<close>

definition capturing_env :: type_env where
  "capturing_env = create_type_environment
     [St_Plain (De_Alias ''F'' \<lparr>al_params = [(''T'', None)], al_type = Ts_Ref (Some ''T'') None\<rparr>),
      St_Plain (De_Alias ''G'' \<lparr>al_params = [(''T'', None)],
        al_type = Ts_Ref (Some ''F'') (Some [Ts_Union [Ts_Ref (Some ''T'') None, Ts_String]])\<rparr>)]"

lemma captured_loop:
  assumes "map_of subst ''T'' = Some (Ts_Union [Ts_Ref (Some ''T'') None, Ts_String])"
  shows "unsafe_direct_value n env subst R (Ts_Ref (Some ''T'') None) = None"
proof (induction n rule: less_induct)
  case (less n)
  show ?case
  proof (cases n)
    case (Suc k)
    have "unsafe_direct_value k env subst R (Ts_Union [Ts_Ref (Some ''T'') None, Ts_String]) = None"
      using less Suc by (cases k) simp_all
    with Suc assms show ?thesis by (simp add: transparent_wrappers_def is_unapplied_reference_to_def)
  qed simp
qed

lemma captured_argument_diverges:
  "classify_unsafe_dictionary_value n (Ts_Ref (Some ''G'') (Some [Ts_Number])) capturing_env = None"
proof -
  have env: "capturing_env = \<lparr>te_aliases = [(''F'', \<lparr>al_params = [(''T'', None)], al_type = Ts_Ref (Some ''T'') None\<rparr>),
      (''G'', \<lparr>al_params = [(''T'', None)],
        al_type = Ts_Ref (Some ''F'') (Some [Ts_Union [Ts_Ref (Some ''T'') None, Ts_String]])\<rparr>)],
      te_interfaces = [], te_shadowed = []\<rparr>"
    by (simp add: capturing_env_def create_type_environment_def declared_statement_def empty_type_env_def
        shadow_built_in_def shadow_def built_ins_def)
  show ?thesis
  proof (cases "n < 2")
    case False
    then obtain k where "n = Suc (Suc k)" by (metis add_2_eq_Suc le_Suc_ex not_less)
    then show ?thesis
      by (simp add: classify_unsafe_dictionary_value_def env transparent_wrappers_def alias_substitution_def
          resolved_argument.simps captured_loop)
  next
    case True
    then consider "n = 0" | "n = 1" by linarith
    then show ?thesis
      by cases (simp_all add: classify_unsafe_dictionary_value_def env transparent_wrappers_def
          alias_substitution_def resolved_argument.simps)
  qed
qed

end
