(* ===== verification/Mq_Lint_Rules.thy ===== *)
theory Mq_Lint_Rules
  imports Mq_Lint_Types
begin

text \<open>
  The rules \<open>no-unsafe-dictionary-type\<close>, \<open>no-chained-type-assertions\<close> and
  \<open>no-conditional-empty-object-spread\<close>. A rule sees a node together with its ancestors, nearest first and
  without the program; it is a function to what it reports.
\<close>

subsection \<open>Dictionaries end\<close>

lemma lint_fuel_less:
  "size m < size t \<Longrightarrow> lint_fuel env R m < lint_fuel env R t"
  by (simp add: lint_fuel_def)

lemma dictionary_value_types_total:
  assumes "monomorphic env"
  shows "lint_fuel env R t < n \<Longrightarrow> dictionary_value_types n env [] R t \<noteq> None"
proof (induction n arbitrary: R t)
  case (Suc n)
  have less: "dictionary_value_types n env [] R' m \<noteq> None" if "lint_fuel env R' m < lint_fuel env R t" for R' m
    using Suc.IH[of R' m] Suc.prems that by simp
  show ?case
  proof (cases "\<exists>name args. unwrap_transparent t = Ts_Ref (Some name) args")
    case True
    then obtain name args where t: "unwrap_transparent t = Ts_Ref (Some name) args" by blast
    have arg: "dictionary_value_types n env [] R w \<noteq> None" if "type_argument 0 args = Some w" for w
      by (rule less, rule lint_fuel_member[OF t]) (use size_argument[OF that] in simp)
    have body: "dictionary_value_types n env [] (name # R) (al_type al) \<noteq> None"
      if "map_of (te_aliases env) name = Some al" "name \<notin> set R" for al
      by (rule less) (rule lint_fuel_alias[OF that])
    from arg body monomorphic_substitution[OF assms] show ?thesis
      by (simp add: t split: option.split)
  next
    case False
    then show ?thesis by (simp split: ts_type.split option.split)
  qed
qed simp

text \<open>
  A value type is part of the type or of the body of an alias, so its size is bounded, and the fuel needed
  for the whole classification is known in advance.
\<close>

definition alias_total :: "type_env \<Rightarrow> nat" where
  "alias_total env = (\<Sum>name\<in>fst ` set (te_aliases env). alias_weight env name)"

definition dictionary_fuel :: "type_env \<Rightarrow> ts_type \<Rightarrow> nat" where
  "dictionary_fuel env t = size t + 2 * alias_total env"

lemma alias_body_bound:
  assumes "map_of (te_aliases env) name = Some al"
  shows "size (al_type al) \<le> alias_total env"
proof -
  from assms have "name \<in> fst ` set (te_aliases env)" by (force dest: map_of_SomeD)
  then have "alias_weight env name \<le> alias_total env"
    unfolding alias_total_def by (intro member_le_sum) auto
  with assms show ?thesis by (simp add: alias_weight_def)
qed

lemma size_mapped_value: "unwrap_transparent t = Ts_Mapped k (Some v) \<Longrightarrow> size v \<le> size t"
  using size_unwrap[of t] by simp

lemma size_index_value: "unwrap_transparent t = Ts_Literal ms \<Longrightarrow> Ts_Index ps (Some v) \<in> set ms \<Longrightarrow> size v \<le> size t"
  using size_unwrap[of t] size_element[of "Ts_Index ps (Some v)" ms] by simp

lemma reference_value_types:
  assumes "monomorphic env" "unwrap_transparent t = Ts_Ref (Some name) args"
    and "dictionary_value_types (Suc n) env [] R t = Some vs"
  shows "(\<exists>w. type_argument 0 args = Some w \<and> dictionary_value_types n env [] R w = Some vs)
    \<or> (\<exists>al. map_of (te_aliases env) name = Some al \<and> dictionary_value_types n env [] (name # R) (al_type al) = Some vs)
    \<or> (\<exists>v. type_argument 1 args = Some v \<and> vs = [(v, [])]) \<or> vs = []"
  using assms(2,3) monomorphic_substitution[OF assms(1)] by (simp split: if_split_asm option.split_asm)

lemma value_type_bound:
  assumes "monomorphic env"
  shows "dictionary_value_types n env [] R t = Some vs \<Longrightarrow> (v, s) \<in> set vs
    \<Longrightarrow> s = [] \<and> size v \<le> max (size t) (alias_total env)"
proof (induction n arbitrary: R t vs)
  case (Suc n)
  show ?case
  proof (cases "unwrap_transparent t")
    case (Ts_Literal ms)
    with Suc.prems obtain ps where "Ts_Index ps (Some v) \<in> set ms" "s = []"
      by (auto split: ts_member.splits option.splits)
    with size_index_value[OF Ts_Literal] show ?thesis by (simp add: le_max_iff_disj)
  next
    case (Ts_Mapped k w)
    with Suc.prems have "w = Some v" "s = []" by (auto split: option.splits)
    with size_mapped_value Ts_Mapped show ?thesis by (simp add: le_max_iff_disj)
  next
    case (Ts_Ref nm args)
    with Suc.prems obtain name where t: "unwrap_transparent t = Ts_Ref (Some name) args" by (cases nm) auto
    have arg: ?thesis if "type_argument 0 args = Some w" "dictionary_value_types n env [] R w = Some vs" for w
      using Suc.IH[OF that(2) Suc.prems(2)] size_argument[OF that(1)] size_unwrap[of t] t by (auto simp: le_max_iff_disj)
    have body: ?thesis
      if "map_of (te_aliases env) name = Some al" "dictionary_value_types n env [] (name # R) (al_type al) = Some vs" for al
      using Suc.IH[OF that(2) Suc.prems(2)] alias_body_bound[OF that(1)] by (auto simp: le_max_iff_disj)
    have record': ?thesis if "type_argument 1 args = Some v" "s = []"
      using size_argument[OF that(1)] size_unwrap[of t] t that(2) by simp
    from reference_value_types[OF assms t Suc.prems(1)] show ?thesis
    proof (elim disjE exE conjE)
      fix u
      assume "type_argument 1 args = Some u" "vs = [(u, [])]"
      with Suc.prems(2) record' show ?thesis by simp
    qed (use arg body Suc.prems(2) in simp_all)
  qed (use Suc.prems in auto)
qed simp

lemma first_unsafe_exact:
  assumes "monomorphic env" and "\<And>v s. (v, s) \<in> set vs \<Longrightarrow> s = [] \<and> lint_fuel env [] v < n"
  shows "\<exists>r. first_unsafe n env vs = Some r \<and> (r \<noteq> None \<longleftrightarrow> (\<exists>(v, s)\<in>set vs. denotes_unsafe env v))"
  using assms(2)
proof (induction vs)
  case (Cons x vs)
  obtain v s where x: "x = (v, s)" by (cases x)
  with Cons.prems have "s = []" "lint_fuel env [] v < n" by auto
  with unsafe_direct_exact[OF assms(1)] obtain r where
    r: "unsafe_direct_value n env [] [] v = Some r" "r \<noteq> None \<longleftrightarrow> denotes_unsafe env v" by blast
  from Cons.prems have "\<exists>r. first_unsafe n env vs = Some r \<and> (r \<noteq> None \<longleftrightarrow> (\<exists>(v, s)\<in>set vs. denotes_unsafe env v))"
    by (intro Cons.IH) (blast intro: list.set_intros)
  with r x \<open>s = []\<close> show ?case by (cases r) auto
qed simp

text \<open>Whether a type is an unsafe dictionary is decided by the value types it has.\<close>

lemma classify_dictionary_exact:
  assumes "monomorphic env" and "dictionary_fuel env t < n"
  obtains vs r where "dictionary_value_types n env [] [] t = Some vs" "classify_unsafe_dictionary n t env = Some r"
    "r \<noteq> None \<longleftrightarrow> (\<exists>(v, s)\<in>set vs. denotes_unsafe env v)"
proof -
  from assms(2) have "lint_fuel env [] t < n" by (simp add: lint_fuel_def dictionary_fuel_def alias_total_def)
  with dictionary_value_types_total[OF assms(1)] obtain vs where
    vs: "dictionary_value_types n env [] [] t = Some vs" by blast
  have "\<exists>r. first_unsafe n env vs = Some r \<and> (r \<noteq> None \<longleftrightarrow> (\<exists>(v, s)\<in>set vs. denotes_unsafe env v))"
  proof (rule first_unsafe_exact[OF assms(1)])
    fix v s
    assume "(v, s) \<in> set vs"
    from value_type_bound[OF assms(1) vs this] assms(2) show "s = [] \<and> lint_fuel env [] v < n"
      by (auto simp: lint_fuel_def dictionary_fuel_def alias_total_def le_max_iff_disj)
  qed
  with vs that show thesis by (auto simp: classify_unsafe_dictionary_def)
qed

subsection \<open>No unsafe dictionary type\<close>

text \<open>
  A node is a type, the declaration of a type alias or any other; \<open>None\<close> is again that the fuel ran out. The
  environment is made when the program is entered, before any of its nodes.
\<close>

datatype lint_node = Ln_Type ts_type | Ln_Alias | Ln_Other

definition inside_type_alias :: "lint_node list \<Rightarrow> bool" where
  "inside_type_alias ancestors \<longleftrightarrow> Ln_Alias \<in> set ancestors"

definition is_plain_alias_use :: "type_env \<Rightarrow> ts_type \<Rightarrow> lint_node list \<Rightarrow> bool" where
  "is_plain_alias_use env t ancestors =
     (case t of
        Ts_Ref (Some name) args \<Rightarrow>
          (args = None \<or> args = Some []) \<and> map_of (te_aliases env) name \<noteq> None \<and> \<not> inside_type_alias ancestors
      | _ \<Rightarrow> False)"

fun no_unsafe_ancestor :: "nat \<Rightarrow> type_env \<Rightarrow> lint_node list \<Rightarrow> bool option" where
  "no_unsafe_ancestor n env [] = Some True"
| "no_unsafe_ancestor n env (Ln_Type t # ancestors) =
     (case classify_unsafe_dictionary n t env of
        None \<Rightarrow> None | Some (Some _) \<Rightarrow> Some False | Some None \<Rightarrow> no_unsafe_ancestor n env ancestors)"
| "no_unsafe_ancestor n env (_ # ancestors) = no_unsafe_ancestor n env ancestors"

definition should_report_type :: "nat \<Rightarrow> type_env \<Rightarrow> ts_type \<Rightarrow> lint_node list \<Rightarrow> bool option" where
  "should_report_type n env t ancestors =
     (if is_plain_alias_use env t ancestors then Some False
      else (case classify_unsafe_dictionary n t env of
        None \<Rightarrow> None | Some None \<Rightarrow> Some False | Some (Some _) \<Rightarrow> no_unsafe_ancestor n env ancestors))"

definition report_if_unsafe :: "nat \<Rightarrow> type_env \<Rightarrow> ts_type \<Rightarrow> lint_node list \<Rightarrow> unsafe_value option option" where
  "report_if_unsafe n env t ancestors =
     (case should_report_type n env t ancestors of
        None \<Rightarrow> None | Some False \<Rightarrow> Some None | Some True \<Rightarrow> classify_unsafe_dictionary n t env)"

text \<open>The handlers: three kinds of types, and an index signature outside a type literal.\<close>

fun dictionary_handler :: "ts_type \<Rightarrow> bool" where
  "dictionary_handler (Ts_Ref _ _) = True"
| "dictionary_handler (Ts_Literal _) = True"
| "dictionary_handler (Ts_Mapped _ _) = True"
| "dictionary_handler _ = False"

fun visit_type_node :: "nat \<Rightarrow> type_env \<Rightarrow> lint_node \<Rightarrow> lint_node list \<Rightarrow> unsafe_value option option" where
  "visit_type_node n env (Ln_Type t) ancestors =
     (if dictionary_handler t then report_if_unsafe n env t ancestors else Some None)"
| "visit_type_node n env _ ancestors = Some None"

definition visit_index_signature :: "nat \<Rightarrow> type_env \<Rightarrow> ts_type option \<Rightarrow> bool \<Rightarrow> unsafe_value option option" where
  "visit_index_signature n env signature_type in_literal =
     (case signature_type of
        None \<Rightarrow> Some None
      | Some t \<Rightarrow> if in_literal then Some None else classify_unsafe_dictionary_value n t env)"

text \<open>What the rule reports on the way from a node up to the program.\<close>

fun path_reports :: "nat \<Rightarrow> type_env \<Rightarrow> lint_node list \<Rightarrow> unsafe_value option option list" where
  "path_reports n env [] = []"
| "path_reports n env (node # ancestors) = visit_type_node n env node ancestors # path_reports n env ancestors"

definition unsafe_node :: "nat \<Rightarrow> type_env \<Rightarrow> lint_node \<Rightarrow> bool" where
  "unsafe_node n env node =
     (case node of Ln_Type t \<Rightarrow> (case classify_unsafe_dictionary n t env of Some (Some _) \<Rightarrow> True | _ \<Rightarrow> False) | _ \<Rightarrow> False)"

text \<open>A node the rule has to answer for: its analysis ends, and if it is unsafe a handler sees it in full.\<close>

fun reportable :: "nat \<Rightarrow> type_env \<Rightarrow> lint_node \<Rightarrow> lint_node list \<Rightarrow> bool" where
  "reportable n env (Ln_Type t) ancestors =
     (classify_unsafe_dictionary n t env \<noteq> None
      \<and> (unsafe_node n env (Ln_Type t) \<longrightarrow> dictionary_handler t \<and> \<not> is_plain_alias_use env t ancestors))"
| "reportable n env _ ancestors = True"

fun reportable_path :: "nat \<Rightarrow> type_env \<Rightarrow> lint_node list \<Rightarrow> bool" where
  "reportable_path n env [] = True"
| "reportable_path n env (node # ancestors) = (reportable n env node ancestors \<and> reportable_path n env ancestors)"

definition reports :: "unsafe_value option option list \<Rightarrow> unsafe_value list" where
  "reports rs = concat (map (\<lambda>r. case r of Some (Some u) \<Rightarrow> [u] | _ \<Rightarrow> []) rs)"

lemma no_unsafe_ancestor_iff:
  "reportable_path n env ancestors
    \<Longrightarrow> no_unsafe_ancestor n env ancestors = Some (\<not> list_ex (unsafe_node n env) ancestors)"
proof (induction ancestors)
  case (Cons node ancestors)
  then show ?case by (cases node) (auto simp: unsafe_node_def split: option.splits)
qed simp

lemma visit_type_node_iff:
  assumes "reportable n env node ancestors" "reportable_path n env ancestors"
  shows "(\<exists>u. visit_type_node n env node ancestors = Some (Some u))
    \<longleftrightarrow> unsafe_node n env node \<and> \<not> list_ex (unsafe_node n env) ancestors"
  using assms
  by (cases node) (auto simp: report_if_unsafe_def should_report_type_def no_unsafe_ancestor_iff unsafe_node_def
      split: option.splits if_splits)

lemma reports_Cons: "length (reports (r # rs)) = (if \<exists>u. r = Some (Some u) then 1 else 0) + length (reports rs)"
  by (auto simp: reports_def split: option.splits)

text \<open>
  On the way from a node to the program exactly one report is made if one of the types is an unsafe
  dictionary, however many of them contain it, and none otherwise.
\<close>

theorem unsafe_dictionary_reported_once:
  assumes "reportable_path n env path"
  shows "length (reports (path_reports n env path)) = (if list_ex (unsafe_node n env) path then 1 else 0)"
  using assms
proof (induction path)
  case (Cons node ancestors)
  with visit_type_node_iff[of n env node ancestors] show ?case by (auto simp: reports_Cons)
qed (simp add: reports_def)

text \<open>
  A parenthesised dictionary is not a node of the handlers, but it silences the type inside:
  \<open>type T = (Record<string, unknown>)\<close> is not reported.
\<close>

definition record_of_unknown :: ts_type where
  "record_of_unknown = Ts_Ref (Some ''Record'') (Some [Ts_String, Ts_Unknown])"

lemma parenthesised_dictionary_unreported:
  "path_reports 5 empty_type_env [Ln_Type record_of_unknown, Ln_Type (Ts_Paren record_of_unknown), Ln_Alias]
      = [Some None, Some None, Some None]"
  "path_reports 5 empty_type_env [Ln_Type record_of_unknown, Ln_Alias] = [Some (Some Unsafe_Unknown), Some None]"
  by code_simp+

text \<open>Types that contain each other: the outer one is reported, and only it.\<close>

theorem unsafe_dictionary_reported_once_witness:
  "length (reports (path_reports 5 empty_type_env
     [Ln_Type record_of_unknown, Ln_Type Ts_Structural, Ln_Type (Ts_Ref (Some ''Partial'') (Some [record_of_unknown])),
      Ln_Other])) = 1"
proof -
  let ?path = "[Ln_Type record_of_unknown, Ln_Type Ts_Structural,
      Ln_Type (Ts_Ref (Some ''Partial'') (Some [record_of_unknown])), Ln_Other]"
  have "reportable_path 5 empty_type_env ?path" by code_simp
  moreover have "list_ex (unsafe_node 5 empty_type_env) ?path" by code_simp
  ultimately show ?thesis using unsafe_dictionary_reported_once[of 5 empty_type_env ?path] by simp
qed

end
