(* ===== verification/Mq_Lint_Aliases.thy ===== *)
theory Mq_Lint_Aliases
  imports Mq_Lint_Types
begin

text \<open>
  The lint rules that follow type aliases by name: \<open>rules/no-unknown-type-aliases.ts\<close>,
  \<open>rules/no-unknown-returns.ts\<close>, \<open>rules/no-object-parameters.ts\<close> and \<open>rules/no-unknown-parameters.ts\<close>. The
  first three each have a recursion that enters an alias unless it is among the visited names. The locale
  \<open>alias_walk\<close> states what such a recursion is, whatever the names are, and its lemma \<open>run_exact\<close> that it finds exactly what the
  aliases denote; each rule's recursion interprets it.
\<close>

subsection \<open>Walking through aliases\<close>

text \<open>
  \<open>hit\<close> is what the walk looks for, \<open>parts\<close> the components it looks into and \<open>target\<close> the alias a type
  refers to, with what the alias stands for.
\<close>

inductive alias_reaches :: "('a \<Rightarrow> bool) \<Rightarrow> ('a \<Rightarrow> 'a list) \<Rightarrow> ('a \<Rightarrow> ('n \<times> 'a) option) \<Rightarrow> 'a \<Rightarrow> bool"
  for hit parts target where
  reach_hit: "hit t \<Longrightarrow> alias_reaches hit parts target t"
| reach_part: "p \<in> set (parts t) \<Longrightarrow> alias_reaches hit parts target p \<Longrightarrow> alias_reaches hit parts target t"
| reach_target: "target t = Some (a, u) \<Longrightarrow> alias_reaches hit parts target u \<Longrightarrow> alias_reaches hit parts target t"

primrec reaches_within :: "nat \<Rightarrow> ('a \<Rightarrow> bool) \<Rightarrow> ('a \<Rightarrow> 'a list) \<Rightarrow> ('a \<Rightarrow> ('n \<times> 'a) option) \<Rightarrow> 'a \<Rightarrow> bool" where
  "reaches_within 0 hit parts target t = False"
| "reaches_within (Suc d) hit parts target t =
     (hit t \<or> (\<exists>p\<in>set (parts t). reaches_within d hit parts target p)
      \<or> (\<exists>a u. target t = Some (a, u) \<and> reaches_within d hit parts target u))"

lemma reaches_within_Suc:
  "reaches_within d hit parts target t \<Longrightarrow> reaches_within (Suc d) hit parts target t"
proof (induction d arbitrary: t)
  case (Suc d)
  from Suc.prems consider "hit t" | p where "p \<in> set (parts t)" "reaches_within d hit parts target p"
    | a u where "target t = Some (a, u)" "reaches_within d hit parts target u" by auto
  then show ?case
  proof cases
    case 2
    with Suc.IH[OF 2(2)] show ?thesis by (subst reaches_within.simps(2)) blast
  next
    case 3
    with Suc.IH[OF 3(2)] show ?thesis by (subst reaches_within.simps(2)) blast
  qed simp
qed simp

lemma reaches_within_mono:
  "d \<le> e \<Longrightarrow> reaches_within d hit parts target t \<Longrightarrow> reaches_within e hit parts target t"
  by (induction e rule: dec_induct) (auto simp del: reaches_within.simps intro: reaches_within_Suc)

lemma reaches_within_ex: "alias_reaches hit parts target t \<Longrightarrow> \<exists>d. reaches_within d hit parts target t"
proof (induction rule: alias_reaches.induct)
  case (reach_hit t)
  then have "reaches_within 1 hit parts target t" by simp
  then show ?case by blast
next
  case (reach_part p t)
  then obtain d where "reaches_within d hit parts target p" by blast
  with reach_part.hyps(1) have "reaches_within (Suc d) hit parts target t" by auto
  then show ?case by blast
next
  case (reach_target t a u)
  then obtain d where "reaches_within d hit parts target u" by blast
  with reach_target.hyps(1) have "reaches_within (Suc d) hit parts target t" by auto
  then show ?case by blast
qed

locale alias_walk =
  fixes hit :: "'a \<Rightarrow> bool"
    and parts :: "'a \<Rightarrow> 'a list"
    and target :: "'a \<Rightarrow> ('n \<times> 'a) option"
    and run :: "'n list \<Rightarrow> 'a \<Rightarrow> bool"
    and names :: "'n set"
    and bulk :: "'a \<Rightarrow> nat"
  assumes run: "run visited t \<longleftrightarrow> hit t \<or> (\<exists>p\<in>set (parts t). run visited p)
      \<or> (\<exists>a u. target t = Some (a, u) \<and> a \<notin> set visited \<and> run (a # visited) u)"
    and body: "target t = Some (a, u) \<Longrightarrow> target t' = Some (a, u') \<Longrightarrow> u = u'"
    and finite_names: "finite names"
    and target_name: "target t = Some (a, u) \<Longrightarrow> a \<in> names"
    and part_bulk: "p \<in> set (parts t) \<Longrightarrow> bulk p < bulk t"
begin

lemma run_sound: "run visited t \<Longrightarrow> alias_reaches hit parts target t"
proof (induction "card (names - set visited)" arbitrary: visited t rule: less_induct)
  case outer: less
  from outer.prems show ?case
  proof (induction "bulk t" arbitrary: t rule: less_induct)
    case less
    from less.prems[unfolded run[of visited t]] consider "hit t" | p where "p \<in> set (parts t)" "run visited p"
      | a u where "target t = Some (a, u)" "a \<notin> set visited" "run (a # visited) u" by blast
    then show ?case
    proof cases
      case 1
      then show ?thesis by (rule reach_hit)
    next
      case 2
      from reach_part[where p = p, OF 2(1) less.hyps[OF part_bulk[OF 2(1)] 2(2)]] show ?thesis .
    next
      case 3
      from 3(1) have "a \<in> names" by (rule target_name)
      with 3(2) finite_names have "card (names - set (a # visited)) < card (names - set visited)"
        by (intro psubset_card_mono) auto
      from outer.hyps[OF this 3(3)] 3(1) show ?thesis by (blast intro: reach_target)
    qed
  qed
qed

text \<open>Refusing the visited aliases loses nothing when none of them reaches a hit within the depth needed.\<close>

lemma run_complete:
  "reaches_within (Suc d) hit parts target t
    \<Longrightarrow> (\<And>a t' u. a \<in> set visited \<Longrightarrow> target t' = Some (a, u) \<Longrightarrow> \<not> reaches_within d hit parts target u)
    \<Longrightarrow> run visited t"
proof (induction d arbitrary: t visited rule: less_induct)
  case (less d)
  have lower: "\<not> reaches_within e hit parts target u" if "a \<in> set visited" "target t' = Some (a, u)" "e \<le> d" for a t' u e
    using less.prems(2)[OF that(1,2)] reaches_within_mono[OF that(3), of hit parts target u] by blast
  from less.prems(1) consider "hit t" | p where "p \<in> set (parts t)" "reaches_within d hit parts target p"
    | a u where "target t = Some (a, u)" "reaches_within d hit parts target u" by auto
  then show ?case
  proof cases
    case 1
    then show ?thesis using run by blast
  next
    case 2
    from 2(2) obtain e where e: "d = Suc e" by (cases d) auto
    have "run visited p" by (rule less.IH[of e]) (use e 2(2) lower in auto)
    with 2(1) show ?thesis using run by blast
  next
    case 3
    from 3 less.prems(2) have new: "a \<notin> set visited" by blast
    obtain e where e: "e < d" "reaches_within (Suc e) hit parts target u" "\<not> reaches_within e hit parts target u"
      by (rule least_depth[of "\<lambda>d. reaches_within d hit parts target u", OF 3(2)]) auto
    have "run (a # visited) u"
    proof (rule less.IH[OF e(1,2)])
      fix b t' v
      assume b: "b \<in> set (a # visited)" "target t' = Some (b, v)"
      show "\<not> reaches_within e hit parts target v"
      proof (cases "b = a")
        case True
        with body[OF b(2)] 3(1) e(3) show ?thesis by blast
      next
        case False
        with lower[OF _ b(2), of e] b(1) e(1) show ?thesis by simp
      qed
    qed
    with 3(1) new show ?thesis using run by blast
  qed
qed

theorem run_exact: "run [] t \<longleftrightarrow> alias_reaches hit parts target t"
proof
  assume "alias_reaches hit parts target t"
  from reaches_within_ex[OF this] obtain d where "reaches_within d hit parts target t" by blast
  then have "reaches_within (Suc d) hit parts target t" by (rule reaches_within_Suc)
  then show "run [] t" by (rule run_complete) simp
qed (rule run_sound)

text \<open>The alias itself may count as visited when its own body is resolved.\<close>

lemma run_own:
  assumes "\<And>t v. target t = Some (a, v) \<Longrightarrow> v = u"
  shows "run [a] u \<longleftrightarrow> alias_reaches hit parts target u"
proof
  assume "alias_reaches hit parts target u"
  from reaches_within_ex[OF this] obtain d where d: "reaches_within d hit parts target u" by blast
  obtain e where e: "e < d" "reaches_within (Suc e) hit parts target u" "\<not> reaches_within e hit parts target u"
    by (rule least_depth[of "\<lambda>d. reaches_within d hit parts target u", OF d]) auto
  show "run [a] u"
  proof (rule run_complete[OF e(2)])
    fix b t' v
    assume b: "b \<in> set [a]" "target t' = Some (b, v)"
    then have "v = u" using assms by simp
    with e(3) show "\<not> reaches_within e hit parts target v" by simp
  qed
qed (rule run_sound)

end


subsection \<open>Aliases of a program\<close>

text \<open>
  The rules keep the last declaration of a name; \<open>no-object-parameters\<close> leaves aliases with parameters out.
  An alias has parameters if the list is not empty, since the parser refuses empty brackets.
\<close>

definition keep_alias :: "program_statement \<Rightarrow> (string \<times> alias_decl) list \<Rightarrow> (string \<times> alias_decl) list" where
  "keep_alias st aliases =
     (case declared_statement st of Some (De_Alias name al) \<Rightarrow> AList.update name al aliases | _ \<Rightarrow> aliases)"

definition program_aliases :: "program_statement list \<Rightarrow> (string \<times> alias_decl) list" where
  "program_aliases program = fold keep_alias program []"

definition keep_plain_alias :: "program_statement \<Rightarrow> (string \<times> ts_type) list \<Rightarrow> (string \<times> ts_type) list" where
  "keep_plain_alias st aliases =
     (case declared_statement st of
        Some (De_Alias name al) \<Rightarrow> if al_params al = [] then AList.update name (al_type al) aliases else aliases
      | _ \<Rightarrow> aliases)"

definition plain_aliases :: "program_statement list \<Rightarrow> (string \<times> ts_type) list" where
  "plain_aliases program = fold keep_plain_alias program []"

lemma distinct_program_aliases: "distinct (map fst (program_aliases program))"
proof -
  have "distinct (map fst aliases) \<Longrightarrow> distinct (map fst (fold keep_alias program aliases))" for aliases
  proof (induction program arbitrary: aliases)
    case (Cons st program)
    then have "distinct (map fst (keep_alias st aliases))"
      by (auto simp: keep_alias_def intro: distinct_update split: option.split program_declaration.split)
    with Cons.IH show ?case by simp
  qed simp
  then show ?thesis by (simp add: program_aliases_def)
qed

fun referenced_alias_name :: "ts_type \<Rightarrow> string option" where
  "referenced_alias_name (Ts_Paren t) = referenced_alias_name t"
| "referenced_alias_name (Ts_Ref name args) = (if args = None \<or> args = Some [] then name else None)"
| "referenced_alias_name _ = None"

text \<open>An alias without parameters and what it stands for.\<close>

definition plain_body :: "(string \<times> alias_decl) list \<Rightarrow> string \<Rightarrow> ts_type option" where
  "plain_body aliases name =
     (case map_of aliases name of None \<Rightarrow> None | Some al \<Rightarrow> if al_params al \<noteq> [] then None else Some (al_type al))"

definition walk_target :: "(string \<Rightarrow> ts_type option) \<Rightarrow> (ts_type \<Rightarrow> string option) \<Rightarrow> ts_type \<Rightarrow> (string \<times> ts_type) option" where
  "walk_target bodies name_of t =
     (case name_of t of None \<Rightarrow> None | Some name \<Rightarrow> map_option (Pair name) (bodies name))"

lemma walk_target_iff:
  "walk_target bodies name_of t = Some (a, u) \<longleftrightarrow> name_of t = Some a \<and> bodies a = Some u"
  by (auto simp: walk_target_def split: option.splits)

lemma plain_body_name: "plain_body aliases name = Some u \<Longrightarrow> name \<in> fst ` set aliases"
  by (auto simp: plain_body_def split: option.splits dest!: map_of_SomeD intro: rev_image_eqI)

lemma visited_less:
  "name \<in> fst ` set aliases \<Longrightarrow> name \<notin> set visited
    \<Longrightarrow> card (fst ` set aliases - insert name (set visited)) < card (fst ` set aliases - set visited)"
  by (intro psubset_card_mono) auto

lemmas body_less = visited_less[OF plain_body_name]

lemma map_body_less:
  assumes "map_of aliases name = Some u" "name \<notin> set visited"
  shows "card (fst ` set aliases - insert name (set visited)) < card (fst ` set aliases - set visited)"
proof -
  from assms(1) have "name \<in> fst ` set aliases" by (force dest: map_of_SomeD)
  with assms(2) show ?thesis by (intro visited_less)
qed

subsection \<open>Aliases of unknown\<close>

function alias_unknown :: "(string \<times> alias_decl) list \<Rightarrow> string list \<Rightarrow> ts_type \<Rightarrow> bool" where
  "alias_unknown aliases visited t =
     (case t of
        Ts_Unknown \<Rightarrow> True
      | Ts_Paren u \<Rightarrow> alias_unknown aliases visited u
      | _ \<Rightarrow>
          (case referenced_alias_name t of
             None \<Rightarrow> False
           | Some name \<Rightarrow>
               if name \<in> set visited then False
               else (case plain_body aliases name of
                 None \<Rightarrow> False | Some u \<Rightarrow> alias_unknown aliases (name # visited) u)))"
  by pat_completeness auto
termination
  by (relation "measures [\<lambda>(aliases, visited, t). card (fst ` set aliases - set visited), \<lambda>(_, _, t). size t]")
    (auto simp: body_less)

declare alias_unknown.simps [simp del]

definition unknown_alias_reports :: "program_statement list \<Rightarrow> string list" where
  "unknown_alias_reports program =
     map fst (filter (\<lambda>(name, al). alias_unknown (program_aliases program) [name] (al_type al)) (program_aliases program))"

text \<open>What the rule walks over: parentheses are looked into, every other type may be the name of an alias.\<close>

fun paren_parts :: "ts_type \<Rightarrow> ts_type list" where
  "paren_parts (Ts_Paren t) = [t]"
| "paren_parts _ = []"

definition reference_name :: "ts_type \<Rightarrow> string option" where
  "reference_name t = (case t of Ts_Paren u \<Rightarrow> None | _ \<Rightarrow> referenced_alias_name t)"

definition denotes_unknown :: "(string \<times> alias_decl) list \<Rightarrow> ts_type \<Rightarrow> bool" where
  "denotes_unknown aliases =
     alias_reaches (\<lambda>t. t = Ts_Unknown) paren_parts (walk_target (plain_body aliases) reference_name)"

interpretation unknown_walk: alias_walk
  "\<lambda>t. t = Ts_Unknown" paren_parts "walk_target (plain_body aliases) reference_name"
  "alias_unknown aliases" "fst ` set aliases" size
  for aliases
proof
  show "alias_unknown aliases visited t \<longleftrightarrow> t = Ts_Unknown \<or> (\<exists>p\<in>set (paren_parts t). alias_unknown aliases visited p)
      \<or> (\<exists>a u. walk_target (plain_body aliases) reference_name t = Some (a, u) \<and> a \<notin> set visited
           \<and> alias_unknown aliases (a # visited) u)" for visited t
    by (subst alias_unknown.simps)
      (cases t; auto simp: reference_name_def walk_target_iff split: option.splits if_splits)
  show "p \<in> set (paren_parts t) \<Longrightarrow> size p < size t" for p t by (cases t) auto
qed (auto simp: walk_target_iff dest: plain_body_name)

lemma alias_unknown_exact: "alias_unknown aliases [] t \<longleftrightarrow> denotes_unknown aliases t"
  unfolding denotes_unknown_def by (rule unknown_walk.run_exact)

theorem unknown_alias_reports_exact:
  "set (unknown_alias_reports program) =
     {name. \<exists>al. map_of (program_aliases program) name = Some al
        \<and> denotes_unknown (program_aliases program) (al_type al)}"
proof -
  let ?as = "program_aliases program"
  have own: "alias_unknown ?as [name] (al_type al) \<longleftrightarrow> denotes_unknown ?as (al_type al)"
    if "map_of ?as name = Some al" for name al
    unfolding denotes_unknown_def
    by (rule unknown_walk.run_own) (use that in \<open>auto simp: walk_target_iff plain_body_def split: if_splits\<close>)
  have lookup: "(name, al) \<in> set ?as \<longleftrightarrow> map_of ?as name = Some al" for name al
    using distinct_program_aliases[of program] by auto
  have "name \<in> set (unknown_alias_reports program) \<longleftrightarrow>
      (\<exists>al. map_of ?as name = Some al \<and> alias_unknown ?as [name] (al_type al))" for name
    by (simp add: unknown_alias_reports_def image_iff lookup)
  with own show ?thesis by blast
qed

subsection \<open>Unknown return types\<close>

text \<open>
  A rule looks up the type parameters in scope: those of the node and of its ancestors, and in
  \<open>no-object-parameters\<close> also the key of a mapped type and the name of an \<open>infer\<close>.
\<close>

record lexical_node =
  lx_params :: "string list"
  lx_bound :: "string option"

definition return_scope_names :: "lexical_node list \<Rightarrow> string list" where
  "return_scope_names chain = concat (map lx_params chain)"

definition parameter_scope_names :: "lexical_node list \<Rightarrow> string list" where
  "parameter_scope_names chain =
     concat (map (\<lambda>node. lx_params node @ (case lx_bound node of None \<Rightarrow> [] | Some name \<Rightarrow> [name])) chain)"

definition is_promise :: "string option \<Rightarrow> bool" where
  "is_promise name \<longleftrightarrow> name = Some ''Promise'' \<or> name = Some ''PromiseLike''"

function resolves_to_unknown :: "(string \<times> alias_decl) list \<Rightarrow> string list \<Rightarrow> string list \<Rightarrow> ts_type \<Rightarrow> bool" where
  "resolves_to_unknown aliases shadowed visited t =
     (case t of
        Ts_Unknown \<Rightarrow> True
      | Ts_Paren u \<Rightarrow> resolves_to_unknown aliases shadowed visited u
      | Ts_Union ts \<Rightarrow> list_ex (\<lambda>m. resolves_to_unknown aliases shadowed visited m) ts
      | Ts_Ref name args \<Rightarrow>
          if is_promise name
          then (case type_argument 0 args of
            None \<Rightarrow> False | Some u \<Rightarrow> resolves_to_unknown aliases shadowed visited u)
          else (case referenced_alias_name t of
            None \<Rightarrow> False
          | Some name \<Rightarrow>
              if name \<in> set visited \<or> name \<in> set shadowed then False
              else (case plain_body aliases name of
                None \<Rightarrow> False | Some u \<Rightarrow> resolves_to_unknown aliases shadowed (name # visited) u))
      | _ \<Rightarrow> False)"
  by pat_completeness auto
termination
proof (relation "measures [\<lambda>(aliases, shadowed, visited, t). card (fst ` set aliases - set visited), \<lambda>(_, _, _, t). size t]",
    goal_cases)
  case (3 aliases shadowed visited t ts m)
  then show ?case using size_element[of m ts] by simp
next
  case (4 aliases shadowed visited t name args u)
  then show ?case using size_argument[of 0 args u] by simp
qed (auto simp: body_less)

declare resolves_to_unknown.simps [simp del]

definition unknown_return :: "(string \<times> alias_decl) list \<Rightarrow> lexical_node list \<Rightarrow> ts_type option \<Rightarrow> bool" where
  "unknown_return aliases chain annotation =
     (case annotation of
        None \<Rightarrow> False
      | Some t \<Rightarrow> resolves_to_unknown aliases (return_scope_names chain) [] t)"

fun return_parts :: "ts_type \<Rightarrow> ts_type list" where
  "return_parts (Ts_Paren t) = [t]"
| "return_parts (Ts_Union ts) = ts"
| "return_parts (Ts_Ref name args) =
     (if is_promise name then (case type_argument 0 args of None \<Rightarrow> [] | Some u \<Rightarrow> [u]) else [])"
| "return_parts _ = []"

text \<open>The name of an alias, unless it is a promise or shadowed by a type parameter.\<close>

fun unshadowed_name :: "string list \<Rightarrow> ts_type \<Rightarrow> string option" where
  "unshadowed_name shadowed (Ts_Ref name args) =
     (case referenced_alias_name (Ts_Ref name args) of
        None \<Rightarrow> None | Some a \<Rightarrow> if a \<in> set shadowed then None else Some a)"
| "unshadowed_name shadowed _ = None"

definition return_name :: "string list \<Rightarrow> ts_type \<Rightarrow> string option" where
  "return_name shadowed t =
     (case t of Ts_Ref name args \<Rightarrow> if is_promise name then None else unshadowed_name shadowed t | _ \<Rightarrow> None)"

definition denotes_unknown_return :: "(string \<times> alias_decl) list \<Rightarrow> string list \<Rightarrow> ts_type \<Rightarrow> bool" where
  "denotes_unknown_return aliases shadowed =
     alias_reaches (\<lambda>t. t = Ts_Unknown) return_parts (walk_target (plain_body aliases) (return_name shadowed))"

interpretation return_walk: alias_walk
  "\<lambda>t. t = Ts_Unknown" return_parts "walk_target (plain_body aliases) (return_name shadowed)"
  "resolves_to_unknown aliases shadowed" "fst ` set aliases" size
  for aliases shadowed
proof
  show "resolves_to_unknown aliases shadowed visited t \<longleftrightarrow> t = Ts_Unknown
      \<or> (\<exists>p\<in>set (return_parts t). resolves_to_unknown aliases shadowed visited p)
      \<or> (\<exists>a u. walk_target (plain_body aliases) (return_name shadowed) t = Some (a, u) \<and> a \<notin> set visited
           \<and> resolves_to_unknown aliases shadowed (a # visited) u)" for visited t
  proof (cases t)
    case (Ts_Ref name args)
    show ?thesis
    proof (cases "is_promise name")
      case True
      with Ts_Ref show ?thesis
        by (subst resolves_to_unknown.simps) (simp add: return_name_def walk_target_iff split: option.split)
    next
      case False
      with Ts_Ref show ?thesis
        by (subst resolves_to_unknown.simps) (auto simp: return_name_def walk_target_iff split: option.split)
    qed
  qed (subst resolves_to_unknown.simps, simp add: return_name_def walk_target_iff list_ex_iff)+
  show "p \<in> set (return_parts t) \<Longrightarrow> size p < size t" for p t
  proof (cases t)
    case (Ts_Ref name args)
    assume "p \<in> set (return_parts t)"
    with Ts_Ref have "type_argument 0 args = Some p"
      by (cases "is_promise name"; cases "type_argument 0 args") auto
    from size_argument[OF this] Ts_Ref show ?thesis by simp
  qed (auto dest: size_element)
qed (auto simp: walk_target_iff dest: plain_body_name)

lemma resolves_to_unknown_exact:
  "resolves_to_unknown aliases shadowed [] t \<longleftrightarrow> denotes_unknown_return aliases shadowed t"
  unfolding denotes_unknown_return_def by (rule return_walk.run_exact)

text \<open>
  The key of a mapped type is a type parameter too, but this rule does not count it: with
  \<open>type K = unknown\<close> it reports \<open>{ [K in "a"]: () => K }\<close>, whose functions return the key.
\<close>

lemma mapped_key_taken_for_alias:
  "unknown_return [(''K'', \<lparr>al_params = [], al_type = Ts_Unknown\<rparr>)]
     [\<lparr>lx_params = [], lx_bound = None\<rparr>, \<lparr>lx_params = [], lx_bound = Some ''K''\<rparr>] (Some (Ts_Ref (Some ''K'') None))"
  by (simp add: unknown_return_def return_scope_names_def resolves_to_unknown.simps is_promise_def plain_body_def)

subsection \<open>Object parameters\<close>

function resolves_to_object :: "(string \<times> ts_type) list \<Rightarrow> string list \<Rightarrow> string list \<Rightarrow> ts_type \<Rightarrow> bool" where
  "resolves_to_object aliases shadowed visited t =
     (case t of
        Ts_Object \<Rightarrow> True
      | Ts_Paren u \<Rightarrow> resolves_to_object aliases shadowed visited u
      | Ts_Union ts \<Rightarrow> list_ex (\<lambda>m. resolves_to_object aliases shadowed visited m) ts
      | Ts_Ref (Some name) args \<Rightarrow>
          if \<not> (args = None \<or> args = Some []) \<or> name \<in> set visited \<or> name \<in> set shadowed then False
          else (case map_of aliases name of
            None \<Rightarrow> False | Some u \<Rightarrow> resolves_to_object aliases shadowed (name # visited) u)
      | _ \<Rightarrow> False)"
  by pat_completeness auto
termination
proof (relation "measures [\<lambda>(aliases, shadowed, visited, t). card (fst ` set aliases - set visited), \<lambda>(_, _, _, t). size t]",
    goal_cases)
  case (3 aliases shadowed visited t ts m)
  then show ?case using size_element[of m ts] by simp
qed (auto simp: map_body_less)

declare resolves_to_object.simps [simp del]

definition denotes_object :: "(string \<times> ts_type) list \<Rightarrow> string list \<Rightarrow> ts_type \<Rightarrow> bool" where
  "denotes_object aliases shadowed =
     alias_reaches (\<lambda>t. t = Ts_Object)
       (\<lambda>t. case t of Ts_Paren u \<Rightarrow> [u] | Ts_Union ts \<Rightarrow> ts | _ \<Rightarrow> [])
       (walk_target (map_of aliases) (unshadowed_name shadowed))"

interpretation object_walk: alias_walk
  "\<lambda>t. t = Ts_Object" "\<lambda>t. case t of Ts_Paren u \<Rightarrow> [u] | Ts_Union ts \<Rightarrow> ts | _ \<Rightarrow> []"
  "walk_target (map_of aliases) (unshadowed_name shadowed)" "resolves_to_object aliases shadowed" "fst ` set aliases" size
  for aliases shadowed
proof
  show "resolves_to_object aliases shadowed visited t \<longleftrightarrow> t = Ts_Object
      \<or> (\<exists>p\<in>set (case t of Ts_Paren u \<Rightarrow> [u] | Ts_Union ts \<Rightarrow> ts | _ \<Rightarrow> []). resolves_to_object aliases shadowed visited p)
      \<or> (\<exists>a u. walk_target (map_of aliases) (unshadowed_name shadowed) t = Some (a, u) \<and> a \<notin> set visited
           \<and> resolves_to_object aliases shadowed (a # visited) u)" for visited t
    by (subst resolves_to_object.simps)
      (cases t; auto simp: walk_target_iff list_ex_iff split: option.splits if_splits)
  show "p \<in> set (case t of Ts_Paren u \<Rightarrow> [u] | Ts_Union ts \<Rightarrow> ts | _ \<Rightarrow> []) \<Longrightarrow> size p < size t" for p t
    by (cases t) (auto dest: size_element)
  show "walk_target (map_of aliases) (unshadowed_name shadowed) t = Some (a, u) \<Longrightarrow> a \<in> fst ` set aliases" for t a u
    by (force simp: walk_target_iff dest: map_of_SomeD)
qed (auto simp: walk_target_iff)

lemma resolves_to_object_exact: "resolves_to_object aliases shadowed [] t \<longleftrightarrow> denotes_object aliases shadowed t"
  unfolding denotes_object_def by (rule object_walk.run_exact)

subsection \<open>Parameters\<close>

text \<open>
  The forms of a parameter, each with its annotation and its source text where the rules read them:
  a parameter property, a rest element, one with a default, an identifier and a pattern.
\<close>

datatype lint_param =
    Pm_Property lint_param string
  | Pm_Rest "ts_type option" lint_param string
  | Pm_Assign "ts_type option" lint_param string
  | Pm_Ident string "ts_type option"
  | Pm_Pattern "ts_type option" string

fun own_annotation :: "lint_param \<Rightarrow> ts_type option" where
  "own_annotation (Pm_Property p text) = None"
| "own_annotation (Pm_Rest ann p text) = ann"
| "own_annotation (Pm_Assign ann left text) = ann"
| "own_annotation (Pm_Ident name ann) = ann"
| "own_annotation (Pm_Pattern ann text) = ann"

fun parameter_annotation :: "lint_param \<Rightarrow> ts_type option" where
  "parameter_annotation (Pm_Property p text) = parameter_annotation p"
| "parameter_annotation (Pm_Rest ann p text) =
     (case ann of Some t \<Rightarrow> Some t | None \<Rightarrow> parameter_annotation p)"
| "parameter_annotation (Pm_Assign ann left text) =
     (case ann of Some t \<Rightarrow> Some t | None \<Rightarrow> own_annotation left)"
| "parameter_annotation p = own_annotation p"

fun parameter_text :: "lint_param \<Rightarrow> string" where
  "parameter_text (Pm_Property p text) = text"
| "parameter_text (Pm_Rest ann p text) = text"
| "parameter_text (Pm_Assign ann left text) = text"
| "parameter_text (Pm_Ident name ann) = name"
| "parameter_text (Pm_Pattern ann text) = text"

text \<open>\<open>text.replace(/\s*:\s*word\s*$/u, "")\<close>, read from the end of the text.\<close>

definition strip_annotation :: "string \<Rightarrow> string \<Rightarrow> string" where
  "strip_annotation word text =
     (let rest = dropWhile js_space (rev text) in
      if take (length word) rest = rev word
      then (case dropWhile js_space (drop (length word) rest) of
        [] \<Rightarrow> text
      | c # before \<Rightarrow> if c = CHR '':'' then rev (dropWhile js_space before) else text)
      else text)"

definition object_parameter_name :: "lint_param \<Rightarrow> string" where
  "object_parameter_name p =
     (case p of Pm_Ident name _ \<Rightarrow> name | _ \<Rightarrow> strip_annotation ''object'' (parameter_text p))"

fun unknown_parameter_name :: "lint_param \<Rightarrow> string \<Rightarrow> string" where
  "unknown_parameter_name (Pm_Property p _) text = unknown_parameter_name p text"
| "unknown_parameter_name (Pm_Assign _ left _) text = unknown_parameter_name left text"
| "unknown_parameter_name (Pm_Rest _ p _) text = unknown_parameter_name p text"
| "unknown_parameter_name (Pm_Ident name _) text = name"
| "unknown_parameter_name (Pm_Pattern _ _) text = strip_annotation ''unknown'' text"

text \<open>The annotation that is reported and the name the message gives.\<close>

definition object_parameter_reports ::
    "(string \<times> ts_type) list \<Rightarrow> lexical_node list \<Rightarrow> lint_param list \<Rightarrow> (ts_type \<times> string) list" where
  "object_parameter_reports aliases chain params =
     concat (map (\<lambda>p. case parameter_annotation p of
         None \<Rightarrow> []
       | Some t \<Rightarrow> if resolves_to_object aliases (parameter_scope_names chain) [] t
           then [(t, object_parameter_name p)] else []) params)"

definition unknown_parameter_reports :: "lint_param list \<Rightarrow> string list" where
  "unknown_parameter_reports params =
     concat (map (\<lambda>p. if parameter_annotation p \<noteq> Some Ts_Unknown then []
       else (let name = unknown_parameter_name p (parameter_text p) in if name = ''cause'' then [] else [name])) params)"

lemma dropWhile_spaces: "list_all P ws \<Longrightarrow> xs = [] \<or> \<not> P (hd xs) \<Longrightarrow> dropWhile P (ws @ xs) = xs"
proof (induction ws)
  case Nil
  then show ?case by (cases xs) auto
qed simp

text \<open>However an annotation is spaced, what is before its colon is the name.\<close>

lemma strip_annotation_name:
  assumes "list_all js_space a" "list_all js_space b" "list_all js_space c"
    and "name \<noteq> []" "\<not> js_space (last name)" "word \<noteq> []" "\<not> js_space (last word)"
  shows "strip_annotation word (name @ a @ '':'' @ b @ word @ c) = name"
proof -
  have "\<not> js_space (CHR '':'')" by (simp add: js_space_def)
  then have "dropWhile js_space (rev b @ CHR '':'' # rev a @ rev name) = CHR '':'' # rev a @ rev name"
    by (intro dropWhile_spaces) (use assms in simp_all)
  moreover have "dropWhile js_space (rev a @ rev name) = rev name"
    by (intro dropWhile_spaces) (use assms in \<open>simp_all add: hd_rev\<close>)
  moreover have "dropWhile js_space (rev c @ rev word @ rev b @ CHR '':'' # rev a @ rev name)
      = rev word @ rev b @ CHR '':'' # rev a @ rev name"
    by (intro dropWhile_spaces) (use assms in \<open>simp_all add: hd_append hd_rev\<close>)
  ultimately show ?thesis by (simp add: strip_annotation_def)
qed

lemma cause_not_reported:
  "unknown_parameter_reports
     [Pm_Assign None (Pm_Ident ''cause'' (Some Ts_Unknown)) ''cause: unknown = 1'',
      Pm_Property (Pm_Ident ''cause'' (Some Ts_Unknown)) ''readonly cause: unknown'',
      Pm_Ident ''input'' (Some Ts_Unknown)] = [''input'']"
  by (simp add: unknown_parameter_reports_def)

theorem object_parameter_reports_exact:
  "set (object_parameter_reports aliases chain params) =
     {(t, object_parameter_name p) | t p. p \<in> set params \<and> parameter_annotation p = Some t
        \<and> denotes_object aliases (parameter_scope_names chain) t}"
  unfolding object_parameter_reports_def resolves_to_object_exact
  by (auto split: option.splits if_splits)

end
