(* ===== verification/Mq_Lint_Expressions.thy ===== *)
theory Mq_Lint_Expressions
  imports Mq_Lint_Types
begin

text \<open>
  Expressions as the lint rules see them: the predicates of \<open>shared/dictionary-types.ts\<close> on expressions, the
  rules \<open>no-chained-type-assertions\<close> and \<open>no-conditional-empty-object-spread\<close>, and the calls of
  \<open>shared/reflect-method.ts\<close> and \<open>no-module-mocking\<close>.
\<close>

subsection \<open>Expressions\<close>

text \<open>
  An identifier has its place in the source and the scopes around it, innermost first, as their sets of
  variables; a variable is a number. \<open>Le_As\<close> is an assertion, written with \<open>as\<close> or with angle brackets: its
  type comes with the source text of that type without parentheses.
\<close>

record lint_ident =
  id_name :: string
  id_start :: nat
  id_end :: nat
  id_scopes :: "(string \<times> nat) list list"

datatype lint_expr =
    Le_Paren lint_expr
  | Le_As "ts_type \<times> string" lint_expr
  | Le_Satisfies lint_expr
  | Le_Non_Null lint_expr
  | Le_Object nat
  | Le_Array | Le_Arrow | Le_Function | Le_Class | Le_New | Le_Literal | Le_Template | Le_Unary
  | Le_Conditional lint_expr lint_expr
  | Le_Ident lint_ident
  | Le_Other

fun unwrap_parens :: "lint_expr \<Rightarrow> lint_expr" where
  "unwrap_parens (Le_Paren e) = unwrap_parens e"
| "unwrap_parens e = e"

lemma size_unwrap_parens: "size (unwrap_parens e) \<le> size e"
  by (induction e rule: unwrap_parens.induct) auto

lemma unwrap_parens_not_paren [simp]: "unwrap_parens e \<noteq> Le_Paren e'"
  by (induction e rule: unwrap_parens.induct) auto

text \<open>Without parentheses, assertions and, in the second loop, \<open>satisfies\<close>.\<close>

fun unwrap_asserted :: "lint_expr \<Rightarrow> lint_expr" where
  "unwrap_asserted (Le_Paren e) = unwrap_asserted e"
| "unwrap_asserted (Le_As ty e) = unwrap_asserted e"
| "unwrap_asserted (Le_Non_Null e) = unwrap_asserted e"
| "unwrap_asserted e = e"

fun unwrap_expression :: "lint_expr \<Rightarrow> lint_expr" where
  "unwrap_expression (Le_Paren e) = unwrap_expression e"
| "unwrap_expression (Le_As ty e) = unwrap_expression e"
| "unwrap_expression (Le_Satisfies e) = unwrap_expression e"
| "unwrap_expression (Le_Non_Null e) = unwrap_expression e"
| "unwrap_expression e = e"

definition is_populated_object :: "lint_expr \<Rightarrow> bool" where
  "is_populated_object e = (case unwrap_asserted e of Le_Object k \<Rightarrow> k > 0 | _ \<Rightarrow> False)"

definition is_known_evidence :: "lint_expr \<Rightarrow> bool" where
  "is_known_evidence e =
     (case unwrap_expression e of
        Le_Object _ \<Rightarrow> True
      | Le_Array \<Rightarrow> True | Le_Arrow \<Rightarrow> True | Le_Class \<Rightarrow> True | Le_Function \<Rightarrow> True | Le_New \<Rightarrow> True
      | Le_Literal \<Rightarrow> True | Le_Template \<Rightarrow> True | Le_Unary \<Rightarrow> True
      | _ \<Rightarrow> False)"

subsection \<open>Chained assertions\<close>

fun is_const_assertion :: "ts_type \<Rightarrow> bool" where
  "is_const_assertion (Ts_Ref name args) = (name = Some ''const'')"
| "is_const_assertion _ = False"

text \<open>The parents of an expression that hold it as their expression.\<close>

datatype lint_parent = Pa_Paren | Pa_Assertion | Pa_Other

fun is_outermost_assertion :: "lint_parent list \<Rightarrow> bool" where
  "is_outermost_assertion (Pa_Paren # parents) = is_outermost_assertion parents"
| "is_outermost_assertion (Pa_Assertion # parents) = False"
| "is_outermost_assertion _ = True"

function count_assertions :: "lint_expr \<Rightarrow> nat \<Rightarrow> bool \<Rightarrow> nat \<times> bool" where
  "count_assertions e count has_non_const =
     (case e of
        Le_As (t, _) inner \<Rightarrow>
          count_assertions (unwrap_parens inner) (Suc count) (has_non_const \<or> \<not> is_const_assertion t)
      | _ \<Rightarrow> (count, has_non_const))"
  by pat_completeness auto
termination
  by (relation "measure (\<lambda>(e, _, _). size e)") (auto simp: size_unwrap_parens le_imp_less_Suc)

declare count_assertions.simps [simp del]

definition is_forbidden_chain :: "lint_expr \<Rightarrow> bool" where
  "is_forbidden_chain e = (case count_assertions e 0 False of (count, non_const) \<Rightarrow> 1 < count \<and> non_const)"

definition check_assertion :: "lint_expr \<Rightarrow> lint_parent list \<Rightarrow> bool" where
  "check_assertion e parents \<longleftrightarrow> is_outermost_assertion parents \<and> is_forbidden_chain e"

text \<open>The types of the assertions that are written around each other, parentheses between them or not.\<close>

fun chain_types :: "lint_expr \<Rightarrow> ts_type list" where
  "chain_types (Le_Paren e) = chain_types e"
| "chain_types (Le_As ty e) = fst ty # chain_types e"
| "chain_types _ = []"

text \<open>Every assertion of the chain is visited, with its own parents.\<close>

fun chain_reports :: "lint_expr \<Rightarrow> lint_parent list \<Rightarrow> bool list" where
  "chain_reports (Le_Paren e) parents = chain_reports e (Pa_Paren # parents)"
| "chain_reports (Le_As ty e) parents = check_assertion (Le_As ty e) parents # chain_reports e (Pa_Assertion # parents)"
| "chain_reports _ parents = []"

lemma chain_types_unwrap [simp]: "chain_types (unwrap_parens e) = chain_types e"
  by (induction e rule: unwrap_parens.induct) auto

lemma count_assertions_chain:
  "(\<And>e'. e \<noteq> Le_Paren e') \<Longrightarrow> count_assertions e count nc =
     (count + length (chain_types e), nc \<or> list_ex (\<lambda>t. \<not> is_const_assertion t) (chain_types e))"
proof (induction e count nc rule: count_assertions.induct)
  case (1 e count nc)
  show ?case
  proof (cases e)
    case (Le_As ty inner)
    obtain t src where ty: "ty = (t, src)" by (cases ty)
    from 1(1)[OF Le_As ty[symmetric] unwrap_parens_not_paren] Le_As ty show ?thesis
      by (simp add: count_assertions.simps[of "Le_As (t, src) inner"])
  qed (subst count_assertions.simps, use 1(2) in simp)+
qed

lemma is_forbidden_chain_iff:
  "is_forbidden_chain (Le_As ty e) \<longleftrightarrow>
     1 < length (chain_types (Le_As ty e)) \<and> list_ex (\<lambda>t. \<not> is_const_assertion t) (chain_types (Le_As ty e))"
  by (simp add: is_forbidden_chain_def count_assertions_chain)

lemma inner_not_reported: "\<not> is_outermost_assertion parents \<Longrightarrow> filter (\<lambda>b. b) (chain_reports e parents) = []"
  by (induction e parents rule: chain_reports.induct) (auto simp: check_assertion_def)

text \<open>
  A chain is reported exactly once, at its outermost assertion, if it has at least two assertions not all of
  which are \<open>as const\<close>; otherwise it is not reported.
\<close>

theorem chain_reported_once:
  "length (filter (\<lambda>b. b) (chain_reports e [])) =
     (if 1 < length (chain_types e) \<and> list_ex (\<lambda>t. \<not> is_const_assertion t) (chain_types e) then 1 else 0)"
proof -
  have "length (filter (\<lambda>b. b) (chain_reports e parents)) =
     (if 1 < length (chain_types e) \<and> list_ex (\<lambda>t. \<not> is_const_assertion t) (chain_types e) then 1 else 0)"
    if "is_outermost_assertion parents" for parents
    using that
  proof (induction e arbitrary: parents)
    case (Le_As ty e)
    then show ?case
      by (simp add: check_assertion_def is_forbidden_chain_iff inner_not_reported del: chain_types.simps)
  qed simp_all
  from this[of "[]"] show ?thesis by simp
qed

subsection \<open>Conditional spreads of an empty object\<close>

definition is_empty_object :: "lint_expr \<Rightarrow> bool" where
  "is_empty_object e = (case e of Le_Object k \<Rightarrow> k = 0 | _ \<Rightarrow> False)"

definition is_conditional_empty_spread :: "lint_expr \<Rightarrow> bool" where
  "is_conditional_empty_spread e =
     (case unwrap_parens e of
        Le_Conditional consequent alternate \<Rightarrow> is_empty_object consequent \<or> is_empty_object alternate
      | _ \<Rightarrow> False)"

definition spread_report :: "bool \<Rightarrow> lint_expr \<Rightarrow> bool" where
  "spread_report in_object argument \<longleftrightarrow> in_object \<and> is_conditional_empty_spread argument"

text \<open>The branches are not unwrapped: with parentheses around the empty object nothing is reported.\<close>

lemma parenthesised_branch_unreported:
  "spread_report True (Le_Conditional (Le_Object 1) (Le_Object 0))"
  "\<not> spread_report True (Le_Conditional (Le_Object 1) (Le_Paren (Le_Object 0)))"
  by (simp_all add: spread_report_def is_conditional_empty_spread_def is_empty_object_def)

subsection \<open>Variables\<close>

text \<open>The innermost scope that has the name decides.\<close>

fun resolve_in :: "(string \<times> nat) list list \<Rightarrow> string \<Rightarrow> nat option" where
  "resolve_in [] name = None"
| "resolve_in (scope # upper) name =
     (case map_of scope name of Some v \<Rightarrow> Some v | None \<Rightarrow> resolve_in upper name)"

definition resolve_variable :: "lint_ident \<Rightarrow> nat option" where
  "resolve_variable ident = resolve_in (id_scopes ident) (id_name ident)"

text \<open>
  A declaration by \<open>const\<close>, \<open>let\<close> or \<open>var\<close>: its name and annotation if it is an identifier, whether its
  parent is a \<open>const\<close> declaration, its initializer, the end of its source range, and its ancestors.
\<close>

datatype lint_kind = Nk_Arrow | Nk_Function_Declaration | Nk_Function_Expression | Nk_Declare_Function | Nk_Empty_Body | Nk_Other

type_synonym lint_ancestors = "(nat \<times> lint_kind) list"

record lint_declarator =
  dc_id :: "(string \<times> (ts_type \<times> string) option) option"
  dc_const :: bool
  dc_init :: "lint_expr option"
  dc_end :: nat
  dc_ancestors :: lint_ancestors

text \<open>An import has the module it names, if its parent is an import declaration, and the imported name.\<close>

datatype lint_def =
    Df_Variable lint_declarator
  | Df_Import "string option" "string option"
  | Df_Other

record lint_reference =
  rf_write :: bool
  rf_init :: bool

record lint_variable =
  va_defs :: "lint_def list"
  va_identifiers :: "((ts_type \<times> string) option \<times> lint_ancestors) list"
  va_references :: "lint_reference list"

type_synonym lint_variables = "(nat \<times> lint_variable) list"

definition defs_of :: "lint_variables \<Rightarrow> nat \<Rightarrow> lint_def list" where
  "defs_of vars v = (case map_of vars v of None \<Rightarrow> [] | Some x \<Rightarrow> va_defs x)"

subsection \<open>Calls of globals\<close>

text \<open>
  The target of a call is a member access, computed or not, or something else. Whether an identifier refers
  to a global is an answer of the linter.
\<close>

datatype lint_property = Pr_Ident string | Pr_Literal string | Pr_Other

datatype lint_callee = Ca_Member bool lint_expr lint_property | Ca_Other

definition is_global_reflect :: "(lint_ident \<Rightarrow> bool) \<Rightarrow> lint_variables \<Rightarrow> lint_expr \<Rightarrow> bool" where
  "is_global_reflect is_global vars e =
     (case e of
        Le_Ident i \<Rightarrow>
          if id_name i \<noteq> ''Reflect'' then False
          else if is_global i then True
          else (case resolve_variable i of None \<Rightarrow> True | Some v \<Rightarrow> defs_of vars v = [])
      | _ \<Rightarrow> False)"

definition is_reflect_call :: "(lint_ident \<Rightarrow> bool) \<Rightarrow> lint_variables \<Rightarrow> lint_callee \<Rightarrow> string \<Rightarrow> bool" where
  "is_reflect_call is_global vars callee method_name =
     (case callee of
        Ca_Member computed e property \<Rightarrow>
          is_global_reflect is_global vars e
          \<and> (if computed then property = Pr_Literal method_name else property = Pr_Ident method_name)
      | Ca_Other \<Rightarrow> False)"

definition module_mock_methods :: "string list" where
  "module_mock_methods = [''doMock'', ''mock'', ''unstable_mockModule'']"

definition is_framework_import :: "lint_def \<Rightarrow> bool" where
  "is_framework_import d =
     (case d of
        Df_Import (Some source) name \<Rightarrow>
          (source = ''vitest'' \<and> name = Some ''vi'') \<or> (source = ''@jest/globals'' \<and> name = Some ''jest'')
      | _ \<Rightarrow> False)"

definition is_test_framework :: "(lint_ident \<Rightarrow> bool) \<Rightarrow> lint_variables \<Rightarrow> lint_expr \<Rightarrow> bool" where
  "is_test_framework is_global vars e =
     (case e of
        Le_Ident i \<Rightarrow>
          (let framework = (id_name i = ''vi'' \<or> id_name i = ''jest'') in
           if framework \<and> is_global i then True
           else (case resolve_variable i of
             None \<Rightarrow> framework
           | Some v \<Rightarrow> if defs_of vars v = [] then framework else list_ex is_framework_import (defs_of vars v)))
      | _ \<Rightarrow> False)"

definition mock_method :: "bool \<Rightarrow> lint_property \<Rightarrow> string option" where
  "mock_method computed property =
     (case property of
        Pr_Literal name \<Rightarrow> if computed \<and> name \<in> {''doMock'', ''mock'', ''unstable_mockModule''} then Some name else None
      | Pr_Ident name \<Rightarrow> if computed then None else Some name
      | Pr_Other \<Rightarrow> None)"

definition module_mock_call :: "(lint_ident \<Rightarrow> bool) \<Rightarrow> lint_variables \<Rightarrow> lint_callee \<Rightarrow> bool" where
  "module_mock_call is_global vars callee =
     (case callee of
        Ca_Member computed e property \<Rightarrow>
          is_test_framework is_global vars e
          \<and> (case mock_method computed property of None \<Rightarrow> False | Some name \<Rightarrow> name \<in> set module_mock_methods)
      | Ca_Other \<Rightarrow> False)"

text \<open>An import under another name is recognised, and a local variable of the name \<open>vi\<close> is not.\<close>

lemma imported_framework:
  assumes "resolve_variable i = Some v" "defs_of vars v = [Df_Import (Some ''vitest'') (Some ''vi'')]"
    and "name \<in> set module_mock_methods"
  shows "module_mock_call is_global vars (Ca_Member False (Le_Ident i) (Pr_Ident name))"
    and "module_mock_call is_global vars (Ca_Member True (Le_Ident i) (Pr_Literal name))"
  using assms
  by (auto simp: module_mock_call_def is_test_framework_def mock_method_def is_framework_import_def
      module_mock_methods_def Let_def)

lemma shadowed_framework:
  assumes "resolve_variable i = Some v" "defs_of vars v \<noteq> []" "\<not> list_ex is_framework_import (defs_of vars v)"
    and "\<not> is_global i"
  shows "\<not> module_mock_call is_global vars (Ca_Member computed (Le_Ident i) property)"
  using assms by (auto simp: module_mock_call_def is_test_framework_def Let_def)

text \<open>The rules \<open>no-reflect-apply\<close> and \<open>no-reflect-get\<close> agree with a lookup of the name in the scopes.\<close>

lemma shadowed_reflect:
  assumes "resolve_variable i = Some v" "defs_of vars v \<noteq> []" "\<not> is_global i"
  shows "\<not> is_reflect_call is_global vars (Ca_Member computed (Le_Ident i) property) name"
  using assms by (simp add: is_reflect_call_def is_global_reflect_def)

subsection \<open>Names and comments\<close>

definition lower_char :: "char \<Rightarrow> char" where
  "lower_char c = (if of_char c \<in> {65 :: nat .. 90} then char_of (of_char c + 32 :: nat) else c)"

fun contains_word :: "string \<Rightarrow> string \<Rightarrow> bool" where
  "contains_word word [] = (word = [])"
| "contains_word word (c # cs) = (take (length word) (c # cs) = word \<or> contains_word word cs)"

definition is_forbidden_name :: "string \<Rightarrow> bool" where
  "is_forbidden_name name = contains_word ''shape'' (map lower_char name)"

lemma contains_word_iff: "contains_word word s \<longleftrightarrow> (\<exists>before after. s = before @ word @ after)"
proof (induction s)
  case (Cons c cs)
  show ?case
  proof
    assume "contains_word word (c # cs)"
    then consider "take (length word) (c # cs) = word" | "contains_word word cs" by auto
    then show "\<exists>before after. c # cs = before @ word @ after"
    proof cases
      case 1
      then have "c # cs = [] @ word @ drop (length word) (c # cs)" by (metis append_Nil append_take_drop_id)
      then show ?thesis by blast
    next
      case 2
      with Cons.IH obtain before after where "cs = before @ word @ after" by blast
      then have "c # cs = (c # before) @ word @ after" by simp
      then show ?thesis by blast
    qed
  next
    assume "\<exists>before after. c # cs = before @ word @ after"
    then obtain before after where eq: "c # cs = before @ word @ after" by blast
    show "contains_word word (c # cs)"
    proof (cases before)
      case Nil
      with eq have "take (length word) (c # cs) = word" by simp
      then show ?thesis by (simp only: contains_word.simps simp_thms)
    next
      case (Cons d ds)
      with eq Cons.IH show ?thesis by auto
    qed
  qed
qed simp

text \<open>\<open>/\bSAFETY\s*:/u.test(text)\<close>: the first argument tells whether the character before is one of a word.\<close>

definition word_char :: "char \<Rightarrow> bool" where
  "word_char c \<longleftrightarrow> of_char c \<in> {48 :: nat .. 57} \<union> {65 .. 90} \<union> {95} \<union> {97 .. 122}"

definition safety_here :: "string \<Rightarrow> bool" where
  "safety_here s \<longleftrightarrow> take 6 s = ''SAFETY''
     \<and> (case dropWhile js_space (drop 6 s) of [] \<Rightarrow> False | c # _ \<Rightarrow> c = CHR '':'')"

fun has_safety :: "bool \<Rightarrow> string \<Rightarrow> bool" where
  "has_safety in_word [] = False"
| "has_safety in_word (c # cs) = ((\<not> in_word \<and> safety_here (c # cs)) \<or> has_safety (word_char c) cs)"

text \<open>A node with its kind and the comments before it, each with its end and its text.\<close>

record commented_node =
  cn_kind :: string
  cn_comments :: "(nat \<times> string) list"

definition comment_owners :: "string list" where
  "comment_owners = [''ExpressionStatement'', ''PropertyDefinition'', ''ReturnStatement'', ''ThrowStatement'', ''VariableDeclaration'']"

definition has_comment_before :: "nat \<Rightarrow> commented_node \<Rightarrow> bool" where
  "has_comment_before start node = list_ex (\<lambda>(to, src). to \<le> start \<and> has_safety False src) (cn_comments node)"

text \<open>The assertion and its ancestors below the program, nearest first.\<close>

fun has_safety_comment :: "nat \<Rightarrow> commented_node list \<Rightarrow> bool" where
  "has_safety_comment start [] = False"
| "has_safety_comment start (node # parents) =
     (has_comment_before start node
      \<or> (cn_kind node \<notin> set comment_owners \<and> has_safety_comment start parents))"

definition missing_safety_comment :: "ts_type \<Rightarrow> nat \<Rightarrow> commented_node list \<Rightarrow> bool" where
  "missing_safety_comment t start chain \<longleftrightarrow> \<not> is_const_assertion t \<and> \<not> has_safety_comment start chain"

text \<open>The comment counts up to the statement that owns the assertion, and not beyond it.\<close>

lemma has_safety_comment_iff:
  "has_safety_comment start chain \<longleftrightarrow>
     (\<exists>inner node outer. chain = inner @ node # outer \<and> has_comment_before start node
        \<and> list_all (\<lambda>m. cn_kind m \<notin> set comment_owners) inner)"
proof (induction chain)
  case (Cons node parents)
  show ?case
  proof
    assume "has_safety_comment start (node # parents)"
    then consider "has_comment_before start node" | "cn_kind node \<notin> set comment_owners" "has_safety_comment start parents"
      by auto
    then show "\<exists>inner m outer. node # parents = inner @ m # outer \<and> has_comment_before start m
        \<and> list_all (\<lambda>m. cn_kind m \<notin> set comment_owners) inner"
    proof cases
      case 1
      then show ?thesis by (intro exI[of _ "[]"]) simp
    next
      case 2
      with Cons.IH obtain inner m outer where "parents = inner @ m # outer" "has_comment_before start m"
        "list_all (\<lambda>m. cn_kind m \<notin> set comment_owners) inner" by blast
      with 2(1) show ?thesis by (intro exI[of _ "node # inner"]) simp
    qed
  next
    assume "\<exists>inner m outer. node # parents = inner @ m # outer \<and> has_comment_before start m
        \<and> list_all (\<lambda>m. cn_kind m \<notin> set comment_owners) inner"
    then obtain inner m outer where eq: "node # parents = inner @ m # outer" "has_comment_before start m"
      "list_all (\<lambda>m. cn_kind m \<notin> set comment_owners) inner" by blast
    show "has_safety_comment start (node # parents)"
    proof (cases inner)
      case Nil
      with eq show ?thesis by simp
    next
      case (Cons x xs)
      with eq Cons.IH show ?thesis by auto
    qed
  qed
qed simp

lemma safety_examples:
  "has_safety False '' SAFETY : checked above''" "\<not> has_safety False ''UNSAFETY: no''" "\<not> has_safety False ''SAFETY first''"
  "is_forbidden_name ''ReShape2''"
  by (simp_all add: safety_here_def word_char_def js_space_def lower_char_def is_forbidden_name_def char_of_def bit_0)

end
