(* ===== verification/Mq_Lint_Flow.thy ===== *)
theory Mq_Lint_Flow
  imports Mq_Lint_Aliases Mq_Lint_Expressions
begin

text \<open>
  The rules \<open>no-widen-then-assert\<close> and \<open>no-known-value-widening\<close>, which follow a value through constants. Both
  recursions refuse the variables they have visited, so they end; the locale \<open>alias_walk\<close>, with variables for
  names and initializers for what they stand for, shows that they find exactly the values that are known.
\<close>

subsection \<open>Broad types\<close>

datatype broad_kind = Broad_Top | Broad_Object | Broad_Record

fun unwrap_type_parens :: "ts_type \<Rightarrow> ts_type" where
  "unwrap_type_parens (Ts_Paren t) = unwrap_type_parens t"
| "unwrap_type_parens t = t"

lemma size_unwrap_type: "size (unwrap_type_parens t) \<le> size t"
  by (induction t rule: unwrap_type_parens.induct) auto

definition is_unknown_or_any :: "ts_type \<Rightarrow> bool" where
  "is_unknown_or_any t \<longleftrightarrow> unwrap_type_parens t = Ts_Unknown \<or> unwrap_type_parens t = Ts_Any"

function is_broad_record_key :: "ts_type \<Rightarrow> bool" where
  "is_broad_record_key t =
     (case unwrap_type_parens t of
        Ts_String \<Rightarrow> True | Ts_Number \<Rightarrow> True | Ts_Symbol \<Rightarrow> True
      | Ts_Union ts \<Rightarrow> list_all (\<lambda>m. is_broad_record_key m) ts
      | Ts_Ref name args \<Rightarrow> name = Some ''PropertyKey''
      | _ \<Rightarrow> False)"
  by pat_completeness auto
termination
proof (relation "measure size", goal_cases)
  case (2 t ts m)
  then show ?case using size_unwrap_type[of t] size_element[of m ts] by simp
qed simp

declare is_broad_record_key.simps [simp del]

text \<open>The arguments of a reference, and the single index signature of a type literal.\<close>

definition type_arguments :: "ts_type list option \<Rightarrow> ts_type list" where
  "type_arguments args = (case args of None \<Rightarrow> [] | Some ts \<Rightarrow> ts)"

function is_broad_record :: "ts_type \<Rightarrow> bool" where
  "is_broad_record t =
     (case unwrap_type_parens t of
        Ts_Ref name args \<Rightarrow>
          if name = Some ''Readonly''
          then (case type_argument 0 args of None \<Rightarrow> False | Some inner \<Rightarrow> is_broad_record inner)
          else if name \<noteq> Some ''Record'' then False
          else (case type_arguments args of
            [key, v] \<Rightarrow> is_broad_record_key key \<and> is_unknown_or_any v | _ \<Rightarrow> False)
      | Ts_Literal [Ts_Index [key] (Some v)] \<Rightarrow> is_broad_record_key key \<and> is_unknown_or_any v
      | _ \<Rightarrow> False)"
  by pat_completeness auto
termination
proof (relation "measure size", goal_cases)
  case (2 t name args inner)
  then show ?case using size_unwrap_type[of t] size_argument[of 0 args inner] by simp
qed simp

declare is_broad_record.simps [simp del]

definition broad_type_kind :: "ts_type \<Rightarrow> broad_kind option" where
  "broad_type_kind t =
     (case unwrap_type_parens t of
        Ts_Unknown \<Rightarrow> Some Broad_Top | Ts_Any \<Rightarrow> Some Broad_Top | Ts_Object \<Rightarrow> Some Broad_Object
      | u \<Rightarrow> if is_broad_record u then Some Broad_Record else None)"

subsection \<open>Narrower types\<close>

text \<open>
  Types are compared by their source texts without white space. The text of a type that is annotated or
  asserted is that of the type without parentheses.
\<close>

definition normalized_text :: "string \<Rightarrow> string" where
  "normalized_text src = filter (\<lambda>c. \<not> js_space c) src"

definition same_syntax :: "(ts_type \<times> string) option \<Rightarrow> ts_type \<times> string \<Rightarrow> bool" where
  "same_syntax left right =
     (case left of None \<Rightarrow> False | Some l \<Rightarrow> normalized_text (snd l) = normalized_text (snd right))"

function is_definitely_object :: "ts_type \<Rightarrow> bool" where
  "is_definitely_object t =
     (case unwrap_type_parens t of
        Ts_Structural \<Rightarrow> True | Ts_Mapped _ _ \<Rightarrow> True | Ts_Object \<Rightarrow> True
      | Ts_Literal ms \<Rightarrow> ms \<noteq> []
      | Ts_Intersection ts \<Rightarrow> list_all (\<lambda>m. is_definitely_object m) ts
      | Ts_Readonly u \<Rightarrow> is_definitely_object u
      | _ \<Rightarrow> False)"
  by pat_completeness auto
termination
proof (relation "measure size", goal_cases)
  case (2 t u)
  then show ?case using size_unwrap_type[of t] by simp
next
  case (3 t ts m)
  then show ?case using size_unwrap_type[of t] size_element[of m ts] by simp
qed simp

declare is_definitely_object.simps [simp del]

function is_narrower_record :: "ts_type \<Rightarrow> bool" where
  "is_narrower_record t =
     (case unwrap_type_parens t of
        Ts_Literal ms \<Rightarrow> list_ex (\<lambda>m. case m of Ts_Index _ _ \<Rightarrow> False | _ \<Rightarrow> True) ms
      | Ts_Ref name args \<Rightarrow>
          if name = Some ''Readonly''
          then (case type_argument 0 args of None \<Rightarrow> False | Some inner \<Rightarrow> is_narrower_record inner)
          else if name \<noteq> Some ''Record'' then False
          else (case type_arguments args of [key, v] \<Rightarrow> \<not> is_unknown_or_any v | _ \<Rightarrow> False)
      | _ \<Rightarrow> False)"
  by pat_completeness auto
termination
proof (relation "measure size", goal_cases)
  case (2 t name args inner)
  then show ?case using size_unwrap_type[of t] size_argument[of 0 args inner] by simp
qed simp

declare is_narrower_record.simps [simp del]

definition assertion_is_narrower :: "broad_kind \<Rightarrow> (ts_type \<times> string) option \<Rightarrow> ts_type \<times> string \<Rightarrow> bool" where
  "assertion_is_narrower broad evidence asserted =
     (if broad_type_kind (fst asserted) \<noteq> None then False
      else if broad = Broad_Top then True
      else if same_syntax evidence asserted then True
      else if broad = Broad_Object then is_definitely_object (fst asserted)
      else is_narrower_record (fst asserted))"

subsection \<open>Known values\<close>

text \<open>
  The boundary of a node is the function around it. The linter's scopes resolve an identifier by its place;
  a reference is its start, its end and the variable.
\<close>

definition is_boundary :: "lint_kind \<Rightarrow> bool" where
  "is_boundary k \<longleftrightarrow> k \<in> {Nk_Arrow, Nk_Function_Declaration, Nk_Function_Expression, Nk_Declare_Function, Nk_Empty_Body}"

fun function_boundary :: "lint_ancestors \<Rightarrow> nat option" where
  "function_boundary [] = None"
| "function_boundary ((node, k) # ancestors) = (if is_boundary k then Some node else function_boundary ancestors)"

type_synonym scope_references = "(nat \<times> nat \<times> nat option) list list"

fun resolved_variable :: "scope_references \<Rightarrow> lint_ident \<Rightarrow> nat option" where
  "resolved_variable [] i = None"
| "resolved_variable (refs # scopes) i =
     (case find (\<lambda>(from, to, v). from = id_start i \<and> to = id_end i) refs of
        Some (_, _, v) \<Rightarrow> v
      | None \<Rightarrow> resolved_variable scopes i)"

fun first_declarator :: "lint_def list \<Rightarrow> lint_declarator option" where
  "first_declarator [] = None"
| "first_declarator (Df_Variable d # defs) = Some d"
| "first_declarator (_ # defs) = first_declarator defs"

definition is_rewritten :: "lint_variable \<Rightarrow> bool" where
  "is_rewritten x \<longleftrightarrow> list_ex (\<lambda>r. rf_write r \<and> \<not> rf_init r) (va_references x)"

definition annotated_identifier :: "lint_variable \<Rightarrow> ((ts_type \<times> string) \<times> lint_ancestors) option" where
  "annotated_identifier x =
     (case find (\<lambda>(ann, _). ann \<noteq> None) (va_identifiers x) of
        Some (Some ann, ancestors) \<Rightarrow> Some (ann, ancestors) | _ \<Rightarrow> None)"

text \<open>
  What an expression shows by itself, before any variable is followed. The evidence has the type, if one is
  written.
\<close>

definition direct_evidence :: "lint_expr \<Rightarrow> (ts_type \<times> string) option option" where
  "direct_evidence e =
     (case e of
        Le_As ty _ \<Rightarrow> if broad_type_kind (fst ty) \<noteq> None then None else Some (Some ty)
      | Le_Literal \<Rightarrow> Some None | Le_Template \<Rightarrow> Some None
      | Le_Array \<Rightarrow> Some None | Le_Arrow \<Rightarrow> Some None | Le_Class \<Rightarrow> Some None | Le_Function \<Rightarrow> Some None
      | Le_New \<Rightarrow> Some None | Le_Object _ \<Rightarrow> Some None
      | _ \<Rightarrow> None)"

text \<open>The initializer that a constant of the same function stands for.\<close>

definition constant_value :: "lint_variable \<Rightarrow> nat option \<Rightarrow> lint_expr option" where
  "constant_value x boundary =
     (case first_declarator (va_defs x) of
        None \<Rightarrow> None
      | Some d \<Rightarrow>
          if \<not> dc_const d \<or> dc_init d = None \<or> is_rewritten x \<or> function_boundary (dc_ancestors d) \<noteq> boundary
          then None else dc_init d)"

function known_value_evidence :: "lint_variables \<Rightarrow> scope_references \<Rightarrow> nat option \<Rightarrow> nat list \<Rightarrow> lint_expr
    \<Rightarrow> (ts_type \<times> string) option option" where
  "known_value_evidence vars scopes boundary visited e =
     (case unwrap_parens e of
        Le_Ident i \<Rightarrow>
          (case resolved_variable scopes i of
             None \<Rightarrow> None
           | Some v \<Rightarrow>
               if v \<in> set visited then None
               else (case map_of vars v of
                 None \<Rightarrow> None
               | Some x \<Rightarrow>
                   (case annotated_identifier x of
                      Some (ty, ancestors) \<Rightarrow>
                        if function_boundary ancestors \<noteq> boundary \<or> broad_type_kind (fst ty) \<noteq> None
                        then None else Some (Some ty)
                    | None \<Rightarrow>
                        (case constant_value x boundary of
                           None \<Rightarrow> None
                         | Some init \<Rightarrow> known_value_evidence vars scopes boundary (v # visited) init))))
      | u \<Rightarrow> direct_evidence u)"
  by pat_completeness auto
termination
  by (relation "measure (\<lambda>(vars, _, _, visited, _). card (fst ` set vars - set visited))") (auto simp: map_body_less)

declare known_value_evidence.simps [simp del]

text \<open>
  The declarative reading: an identifier stands for the initializer of its constant, or for a value of its
  annotated type. \<open>known_as\<close> is that following identifiers, but none of the excluded variables, shows the
  evidence.
\<close>

definition stands_for :: "lint_variable \<Rightarrow> nat option \<Rightarrow> lint_expr option" where
  "stands_for x boundary =
     (case annotated_identifier x of
        Some (ty, ancestors) \<Rightarrow> if function_boundary ancestors \<noteq> boundary then None else Some (Le_As ty Le_Other)
      | None \<Rightarrow> constant_value x boundary)"

definition evidence_target :: "lint_variables \<Rightarrow> scope_references \<Rightarrow> nat option \<Rightarrow> nat list \<Rightarrow> lint_expr \<Rightarrow> (nat \<times> lint_expr) option" where
  "evidence_target vars scopes boundary excluded e =
     (case unwrap_parens e of
        Le_Ident i \<Rightarrow>
          (case resolved_variable scopes i of
             None \<Rightarrow> None
           | Some v \<Rightarrow>
               if v \<in> set excluded then None
               else (case map_of vars v of
                 None \<Rightarrow> None | Some x \<Rightarrow> map_option (Pair v) (stands_for x boundary)))
      | _ \<Rightarrow> None)"

definition known_as :: "lint_variables \<Rightarrow> scope_references \<Rightarrow> nat option \<Rightarrow> nat list \<Rightarrow> (ts_type \<times> string) option
    \<Rightarrow> lint_expr \<Rightarrow> bool" where
  "known_as vars scopes boundary excluded r =
     alias_reaches (\<lambda>e. direct_evidence (unwrap_parens e) = Some r) (\<lambda>_. [])
       (evidence_target vars scopes boundary excluded)"

lemma known_value_direct:
  assumes "\<And>i. unwrap_parens e \<noteq> Le_Ident i"
  shows "known_value_evidence vars scopes boundary visited e = direct_evidence (unwrap_parens e)"
  using assms by (subst known_value_evidence.simps) (simp split: lint_expr.split)

lemma known_value_ident:
  assumes "unwrap_parens e = Le_Ident i" "resolved_variable scopes i = Some v" "v \<notin> set visited" "map_of vars v = Some x"
  shows "known_value_evidence vars scopes boundary visited e =
    (case stands_for x boundary of
       None \<Rightarrow> None | Some u \<Rightarrow> known_value_evidence vars scopes boundary (v # visited) u)"
  using assms
  by (subst known_value_evidence.simps)
    (auto simp: stands_for_def known_value_direct direct_evidence_def split: option.split)

lemma known_value_unknown:
  assumes "unwrap_parens e = Le_Ident i"
    and "\<And>v x. resolved_variable scopes i = Some v \<Longrightarrow> map_of vars v = Some x \<Longrightarrow> v \<in> set visited"
  shows "known_value_evidence vars scopes boundary visited e = None"
  using assms by (subst known_value_evidence.simps) (auto split: option.split)

interpretation evidence_walk: alias_walk
  "\<lambda>e. direct_evidence (unwrap_parens e) = Some r" "\<lambda>_. []" "evidence_target vars scopes boundary excluded"
  "\<lambda>visited e. known_value_evidence vars scopes boundary (visited @ excluded) e = Some r" "fst ` set vars" size
  for vars scopes boundary excluded r
proof
  show "known_value_evidence vars scopes boundary (visited @ excluded) e = Some r
      \<longleftrightarrow> direct_evidence (unwrap_parens e) = Some r
        \<or> (\<exists>p\<in>set []. known_value_evidence vars scopes boundary (visited @ excluded) p = Some r)
        \<or> (\<exists>v u. evidence_target vars scopes boundary excluded e = Some (v, u) \<and> v \<notin> set visited
             \<and> known_value_evidence vars scopes boundary ((v # visited) @ excluded) u = Some r)" for visited e
  proof (cases "\<exists>i. unwrap_parens e = Le_Ident i")
    case True
    then obtain i where i: "unwrap_parens e = Le_Ident i" by blast
    show ?thesis
    proof (cases "\<exists>v x. resolved_variable scopes i = Some v \<and> map_of vars v = Some x \<and> v \<notin> set (visited @ excluded)")
      case True
      then obtain v x where v: "resolved_variable scopes i = Some v" "map_of vars v = Some x" "v \<notin> set (visited @ excluded)"
        by blast
      from known_value_ident[OF i v(1,3,2)] i v show ?thesis
        by (cases "stands_for x boundary") (simp_all add: evidence_target_def direct_evidence_def)
    next
      case False
      then have "known_value_evidence vars scopes boundary (visited @ excluded) e = None"
        by (intro known_value_unknown[OF i]) blast
      with False i show ?thesis
        by (auto simp: evidence_target_def direct_evidence_def split: option.splits if_splits)
    qed
  next
    case False
    then have "evidence_target vars scopes boundary excluded e = None"
      by (simp add: evidence_target_def split: lint_expr.split)
    with False show ?thesis by (simp add: known_value_direct)
  qed
  have target: "evidence_target vars scopes boundary excluded e = Some (v, u)
      \<Longrightarrow> \<exists>x. map_of vars v = Some x \<and> stands_for x boundary = Some u" for e v u
    by (auto simp: evidence_target_def split: lint_expr.splits option.splits if_splits)
  show "u = u'" if "evidence_target vars scopes boundary excluded e = Some (v, u)"
      "evidence_target vars scopes boundary excluded e' = Some (v, u')" for e e' v u u'
    using target[OF that(1)] target[OF that(2)] by fastforce
  show "evidence_target vars scopes boundary excluded e = Some (v, u) \<Longrightarrow> v \<in> fst ` set vars" for e v u
    using target[of e v u] by (force dest: map_of_SomeD)
qed simp_all

lemma known_value_exact:
  "known_value_evidence vars scopes boundary excluded e = Some r \<longleftrightarrow> known_as vars scopes boundary excluded r e"
  using evidence_walk.run_exact[of vars scopes boundary excluded e r] by (simp add: known_as_def)

subsection \<open>Widen, then assert\<close>

definition assertion_from :: "lint_expr \<Rightarrow> ((ts_type \<times> string) \<times> lint_expr) option" where
  "assertion_from e = (case unwrap_parens e of Le_As ty inner \<Rightarrow> Some (ty, inner) | _ \<Rightarrow> None)"

text \<open>
  How broad a declaration makes its value, by its annotation or else by an assertion around the value, and
  the expression without that assertion.
\<close>

definition initial_broad :: "lint_expr \<Rightarrow> broad_kind option" where
  "initial_broad init = (case assertion_from init of None \<Rightarrow> None | Some (ty, _) \<Rightarrow> broad_type_kind (fst ty))"

definition declared_broad :: "lint_declarator \<Rightarrow> lint_expr \<Rightarrow> broad_kind option" where
  "declared_broad d init =
     (case (case dc_id d of Some (_, Some ty) \<Rightarrow> broad_type_kind (fst ty) | _ \<Rightarrow> None) of
        Some k \<Rightarrow> Some k
      | None \<Rightarrow> initial_broad init)"

definition original_expression :: "lint_expr \<Rightarrow> lint_expr" where
  "original_expression init =
     (case assertion_from init of
        Some (ty, inner) \<Rightarrow> if broad_type_kind (fst ty) \<noteq> None then unwrap_parens inner else init
      | None \<Rightarrow> init)"

text \<open>The declaration of a constant that is never written again, with its initializer.\<close>

definition constant_declarator :: "lint_variable \<Rightarrow> (lint_declarator \<times> lint_expr) option" where
  "constant_declarator x =
     (case first_declarator (va_defs x) of
        None \<Rightarrow> None
      | Some d \<Rightarrow>
          if \<not> dc_const d \<or> dc_id d = None \<or> is_rewritten x then None else map_option (Pair d) (dc_init d))"

record widened_value =
  wv_broad :: broad_kind
  wv_evidence :: "(ts_type \<times> string) option"
  wv_declared_at :: nat
  wv_boundary :: "nat option"

definition widened_binding :: "lint_variables \<Rightarrow> scope_references \<Rightarrow> nat \<Rightarrow> widened_value option" where
  "widened_binding vars scopes v =
     (case Option.bind (map_of vars v) constant_declarator of
        None \<Rightarrow> None
      | Some (d, init) \<Rightarrow>
          (case declared_broad d init of
             None \<Rightarrow> None
           | Some k \<Rightarrow>
               (let boundary = function_boundary (dc_ancestors d) in
                case known_value_evidence vars scopes boundary [v] (original_expression init) of
                  None \<Rightarrow> None
                | Some r \<Rightarrow> Some \<lparr>wv_broad = k, wv_evidence = r, wv_declared_at = dc_end d, wv_boundary = boundary\<rparr>)))"

record assertion_node =
  an_type :: "ts_type \<times> string"
  an_expression :: lint_expr
  an_start :: nat
  an_ancestors :: lint_ancestors

text \<open>The name that is reported.\<close>

definition widen_then_assert :: "lint_variables \<Rightarrow> scope_references \<Rightarrow> assertion_node \<Rightarrow> string option" where
  "widen_then_assert vars scopes node =
     (case unwrap_parens (an_expression node) of
        Le_Ident i \<Rightarrow>
          (case Option.bind (resolved_variable scopes i) (widened_binding vars scopes) of
             None \<Rightarrow> None
           | Some w \<Rightarrow>
               if an_start node \<le> wv_declared_at w
                 \<or> function_boundary (an_ancestors node) \<noteq> wv_boundary w
                 \<or> \<not> assertion_is_narrower (wv_broad w) (wv_evidence w) (an_type node)
               then None else Some (id_name i))
      | _ \<Rightarrow> None)"

text \<open>
  The rule reports an assertion exactly if it is on a constant, later and in the same function, whose
  declaration makes a known value broader than the assertion does. Known means: by the declarative reading,
  following constants and annotations to any depth, without the constant itself.
\<close>

theorem widen_then_assert_exact:
  "widen_then_assert vars scopes node = Some name \<longleftrightarrow>
     (\<exists>i v x d init k r.
        unwrap_parens (an_expression node) = Le_Ident i \<and> name = id_name i
        \<and> resolved_variable scopes i = Some v \<and> map_of vars v = Some x
        \<and> constant_declarator x = Some (d, init) \<and> declared_broad d init = Some k
        \<and> known_as vars scopes (function_boundary (dc_ancestors d)) [v] r (original_expression init)
        \<and> dc_end d < an_start node
        \<and> function_boundary (an_ancestors node) = function_boundary (dc_ancestors d)
        \<and> assertion_is_narrower k r (an_type node))" (is "?run \<longleftrightarrow> ?spec")
proof -
  have widened: "widened_binding vars scopes v = Some w \<longleftrightarrow>
      (\<exists>x d init k r. map_of vars v = Some x \<and> constant_declarator x = Some (d, init)
        \<and> declared_broad d init = Some k
        \<and> known_as vars scopes (function_boundary (dc_ancestors d)) [v] r (original_expression init)
        \<and> w = \<lparr>wv_broad = k, wv_evidence = r, wv_declared_at = dc_end d,
                wv_boundary = function_boundary (dc_ancestors d)\<rparr>)" for v w
    unfolding known_value_exact[symmetric]
    by (auto simp: widened_binding_def Let_def Option.bind_eq_Some_conv split: option.splits)
  have "?run \<longleftrightarrow> (\<exists>i v w. unwrap_parens (an_expression node) = Le_Ident i \<and> name = id_name i
      \<and> resolved_variable scopes i = Some v \<and> widened_binding vars scopes v = Some w
      \<and> wv_declared_at w < an_start node \<and> function_boundary (an_ancestors node) = wv_boundary w
      \<and> assertion_is_narrower (wv_broad w) (wv_evidence w) (an_type node))"
    by (auto simp: widen_then_assert_def not_le split: lint_expr.splits option.splits if_splits bind_splits)
  also have "\<dots> \<longleftrightarrow> ?spec"
    unfolding widened by fastforce
  finally show ?thesis .
qed

text \<open>\<open>const entry = { id } as unknown\<close>, then \<open>entry as { id: string }\<close>: reported with its name.\<close>

definition widened_demo :: lint_variable where
  "widened_demo = \<lparr>va_defs = [Df_Variable \<lparr>dc_id = Some (''entry'', None), dc_const = True,
       dc_init = Some (Le_As (Ts_Unknown, ''unknown'') (Le_Object 1)), dc_end = 30, dc_ancestors = [(1, Nk_Arrow)]\<rparr>],
     va_identifiers = [(None, [(1, Nk_Arrow)])], va_references = [\<lparr>rf_write = True, rf_init = True\<rparr>]\<rparr>"

lemma widened_demo_reported:
  "widen_then_assert [(0, widened_demo)] [[(40, 45, Some 0)]]
     \<lparr>an_type = (Ts_Literal [Ts_Property False (Some Ts_String)], ''{id:string}''),
      an_expression = Le_Paren (Le_Ident \<lparr>id_name = ''entry'', id_start = 40, id_end = 45, id_scopes = []\<rparr>),
      an_start = 39, an_ancestors = [(7, Nk_Other), (1, Nk_Arrow)]\<rparr> = Some ''entry''"
  by code_simp

subsection \<open>Known values that are widened\<close>

definition single_declarator :: "lint_variable \<Rightarrow> lint_declarator option" where
  "single_declarator x = (case va_defs x of [Df_Variable d] \<Rightarrow> Some d | _ \<Rightarrow> None)"

definition is_stable_const :: "lint_variable \<Rightarrow> lint_declarator \<Rightarrow> bool" where
  "is_stable_const x d \<longleftrightarrow> dc_const d \<and> list_all (\<lambda>r. rf_init r \<or> \<not> rf_write r) (va_references x)"

text \<open>The initializer of a variable that is declared once, as a constant, and never written again.\<close>

definition stable_value :: "lint_variable \<Rightarrow> lint_expr option" where
  "stable_value x =
     (case single_declarator x of
        None \<Rightarrow> None
      | Some d \<Rightarrow> if dc_init d = None \<or> \<not> is_stable_const x d then None else dc_init d)"

function has_known_evidence :: "lint_variables \<Rightarrow> nat list \<Rightarrow> lint_expr \<Rightarrow> bool" where
  "has_known_evidence vars visited e =
     (if is_known_evidence e then True
      else (case unwrap_expression e of
        Le_Ident i \<Rightarrow>
          (case resolve_variable i of
             None \<Rightarrow> False
           | Some v \<Rightarrow>
               if v \<in> set visited then False
               else (case map_of vars v of
                 None \<Rightarrow> False
               | Some x \<Rightarrow>
                   (case stable_value x of
                      None \<Rightarrow> False | Some init \<Rightarrow> has_known_evidence vars (v # visited) init)))
      | _ \<Rightarrow> False))"
  by pat_completeness auto
termination
  by (relation "measure (\<lambda>(vars, visited, _). card (fst ` set vars - set visited))") (auto simp: map_body_less)

declare has_known_evidence.simps [simp del]

definition stable_target :: "lint_variables \<Rightarrow> lint_expr \<Rightarrow> (nat \<times> lint_expr) option" where
  "stable_target vars e =
     (case unwrap_expression e of
        Le_Ident i \<Rightarrow>
          (case resolve_variable i of
             None \<Rightarrow> None
           | Some v \<Rightarrow>
               (case map_of vars v of None \<Rightarrow> None | Some x \<Rightarrow> map_option (Pair v) (stable_value x)))
      | _ \<Rightarrow> None)"

definition known_value :: "lint_variables \<Rightarrow> lint_expr \<Rightarrow> bool" where
  "known_value vars = alias_reaches is_known_evidence (\<lambda>_. []) (stable_target vars)"

lemma stable_target_iff:
  "stable_target vars e = Some (v, u) \<longleftrightarrow>
     (\<exists>i x. unwrap_expression e = Le_Ident i \<and> resolve_variable i = Some v \<and> map_of vars v = Some x
        \<and> stable_value x = Some u)"
  by (auto simp: stable_target_def split: lint_expr.splits option.splits)

interpretation known_walk: alias_walk
  is_known_evidence "\<lambda>_. []" "stable_target vars" "has_known_evidence vars" "fst ` set vars" size
  for vars
proof
  show "has_known_evidence vars visited e \<longleftrightarrow> is_known_evidence e \<or> (\<exists>p\<in>set []. has_known_evidence vars visited p)
      \<or> (\<exists>v u. stable_target vars e = Some (v, u) \<and> v \<notin> set visited \<and> has_known_evidence vars (v # visited) u)"
    for visited e
    unfolding stable_target_iff
    by (subst has_known_evidence.simps) (auto split: lint_expr.split option.split)
  show "stable_target vars e = Some (v, u) \<Longrightarrow> v \<in> fst ` set vars" for e v u
    by (force simp: stable_target_iff dest: map_of_SomeD)
qed (auto simp: stable_target_iff)

lemma has_known_evidence_exact: "has_known_evidence vars [] e \<longleftrightarrow> known_value vars e"
  unfolding known_value_def by (rule known_walk.run_exact)

text \<open>
  What the handlers see. A function has its own name, its return type and what its parent is; among the
  ancestors of a node only functions and arrow functions have an owner. A key is an identifier, a literal or
  any other expression with its source text.
\<close>

datatype lint_key = Ke_Name string | Ke_Literal string | Ke_Text string

fun source_key_name :: "lint_key \<Rightarrow> string" where
  "source_key_name (Ke_Name name) = name"
| "source_key_name (Ke_Literal str) = str"
| "source_key_name (Ke_Text src) = src"

datatype owner_parent = Op_Variable string | Op_Method lint_key | Op_Other

record lint_owner =
  ow_id :: "string option"
  ow_parent :: owner_parent
  ow_return :: "ts_type option"

fun enclosing_function :: "lint_owner option list \<Rightarrow> lint_owner option" where
  "enclosing_function [] = None"
| "enclosing_function (Some f # ancestors) = Some f"
| "enclosing_function (None # ancestors) = enclosing_function ancestors"

definition function_name :: "lint_owner option \<Rightarrow> string" where
  "function_name owner =
     (case owner of
        None \<Rightarrow> ''anonymous function''
      | Some f \<Rightarrow>
          (case ow_id f of
             Some name \<Rightarrow> name
           | None \<Rightarrow>
               (case ow_parent f of
                  Op_Variable name \<Rightarrow> name
                | Op_Method key \<Rightarrow> source_key_name key
                | Op_Other \<Rightarrow> ''anonymous function'')))"

definition is_empty_object_expression :: "lint_expr \<Rightarrow> bool" where
  "is_empty_object_expression e = (case unwrap_expression e of Le_Object k \<Rightarrow> k = 0 | _ \<Rightarrow> False)"

definition is_dictionary_accumulator :: "widening_target \<Rightarrow> bool" where
  "is_dictionary_accumulator t \<longleftrightarrow> t = Open_Dictionary \<or> t = Generic_Container"

definition annotation_target :: "nat \<Rightarrow> type_env \<Rightarrow> ts_type option \<Rightarrow> widening_target option option" where
  "annotation_target n env annotation =
     (case annotation of None \<Rightarrow> Some None | Some t \<Rightarrow> classify_widening_target n env t)"

definition report_flow :: "lint_variables \<Rightarrow> lint_expr \<Rightarrow> widening_target option \<Rightarrow> string
    \<Rightarrow> (string \<times> widening_target) option" where
  "report_flow vars e destination subject =
     (case destination of
        None \<Rightarrow> None
      | Some t \<Rightarrow>
          if is_dictionary_accumulator t \<and> is_empty_object_expression e then None
          else if \<not> has_known_evidence vars [] e then None
          else Some (subject, t))"

datatype flow_node =
    Fn_Declarator "(string \<times> ts_type option) option" "lint_expr option"
  | Fn_Property lint_key "ts_type option" "lint_expr option"
  | Fn_Assignment bool lint_expr lint_expr
  | Fn_Return "lint_expr option" "lint_owner option list"
  | Fn_Arrow lint_owner "lint_expr option"
  | Fn_Assertion ts_type lint_expr bool

text \<open>Where a value flows to: the expression, the type it meets and the subject of the message.\<close>

fun flow_of :: "lint_variables \<Rightarrow> flow_node \<Rightarrow> (lint_expr \<times> ts_type option \<times> string) option" where
  "flow_of vars (Fn_Declarator ident init) =
     (case (ident, init) of
        (Some (name, ann), Some e) \<Rightarrow> Some (e, ann, ''binding `'' @ name @ ''`'') | _ \<Rightarrow> None)"
| "flow_of vars (Fn_Property key ann v) =
     (case v of None \<Rightarrow> None | Some e \<Rightarrow> Some (e, ann, ''property `'' @ source_key_name key @ ''`''))"
| "flow_of vars (Fn_Assignment plain left right) =
     (case left of
        Le_Ident i \<Rightarrow>
          if \<not> plain then None
          else (case Option.bind (Option.bind (resolve_variable i) (map_of vars)) single_declarator of
            None \<Rightarrow> None
          | Some d \<Rightarrow>
              (case dc_id d of
                 None \<Rightarrow> None
               | Some (name, ann) \<Rightarrow> Some (right, map_option fst ann, ''binding `'' @ name @ ''`'')))
      | _ \<Rightarrow> None)"
| "flow_of vars (Fn_Return arg ancestors) =
     (case arg of
        None \<Rightarrow> None
      | Some e \<Rightarrow>
          (let f = enclosing_function ancestors in
           Some (e, Option.bind f ow_return, ''return value of `'' @ function_name f @ ''`'')))"
| "flow_of vars (Fn_Arrow f body) =
     (case body of
        None \<Rightarrow> None
      | Some e \<Rightarrow> Some (e, ow_return f, ''return value of `'' @ function_name (Some f) @ ''`''))"
| "flow_of vars (Fn_Assertion t e in_assertion) = (if in_assertion then None else Some (e, Some t, ''assertion''))"

definition check_widening :: "nat \<Rightarrow> type_env \<Rightarrow> lint_variables \<Rightarrow> flow_node \<Rightarrow> (string \<times> widening_target) option option" where
  "check_widening n env vars node =
     (case flow_of vars node of
        None \<Rightarrow> Some None
      | Some (e, ann, subject) \<Rightarrow>
          map_option (\<lambda>destination. report_flow vars e destination subject) (annotation_target n env ann))"

text \<open>
  The rule reports a flow exactly if the type it meets is broad and the value is known by the declarative
  reading, unless an empty object begins a dictionary.
\<close>

theorem check_widening_exact:
  "check_widening n env vars node = Some (Some (subject, t)) \<longleftrightarrow>
     (\<exists>e ann. flow_of vars node = Some (e, Some ann, subject) \<and> classify_widening_target n env ann = Some (Some t)
        \<and> known_value vars e \<and> \<not> (is_dictionary_accumulator t \<and> is_empty_object_expression e))"
  unfolding has_known_evidence_exact[symmetric]
  by (auto simp: check_widening_def report_flow_def annotation_target_def split: option.splits if_splits)

text \<open>A literal behind two constants, returned as an open dictionary; an empty accumulator is accepted.\<close>

definition constant_of :: "lint_expr \<Rightarrow> lint_variable" where
  "constant_of e = \<lparr>va_defs = [Df_Variable \<lparr>dc_id = Some (''c'', None), dc_const = True, dc_init = Some e, dc_end = 0,
     dc_ancestors = []\<rparr>], va_identifiers = [(None, [])], va_references = [\<lparr>rf_write = True, rf_init = True\<rparr>]\<rparr>"

lemma widening_demo:
  fixes scope :: "(string \<times> nat) list list"
  defines "scope \<equiv> [[(''b'', 1)], [(''a'', 0)]]"
  defines "ident name \<equiv> Le_Ident \<lparr>id_name = name, id_start = 0, id_end = 0, id_scopes = scope\<rparr>"
  defines "owner \<equiv> \<lparr>ow_id = Some ''load'', ow_parent = Op_Other,
     ow_return = Some (Ts_Ref (Some ''Record'') (Some [Ts_String, Ts_String]))\<rparr>"
  shows "check_widening 1 empty_type_env [(0, constant_of (Le_Object 1)), (1, constant_of (ident ''a''))]
      (Fn_Return (Some (ident ''b'')) [None, Some owner]) = Some (Some (''return value of `load`'', Open_Dictionary))"
    and "check_widening 1 empty_type_env [] (Fn_Return (Some (Le_Object 0)) [Some owner]) = Some None"
  unfolding assms by code_simp+

end
