(* ===== verification/Mq_Layers.thy ===== *)
theory Mq_Layers
  imports Mq_Configuration
begin

text \<open>
  The wiring of the runtime: \<open>src/engine/operation-store.ts\<close>, \<open>event-plan.ts\<close>, \<open>outbox-plan.ts\<close>, the layers of
  \<open>schedule-plan.ts\<close>, \<open>flow-plan.ts\<close> and \<open>worker-plan.ts\<close>, and the list of layers that
  \<open>src/engine/engine-session.ts\<close> merges. A layer of the effect package is what the sources tell of it: the
  service it provides and the services its definition names. \<open>wiring_complete\<close> shows that the merged layers
  provide each service once and leave none of the named ones open.
\<close>

subsection \<open>Tokens\<close>

definition operation_store_token :: "string \<Rightarrow> service_token" where
  "operation_store_token name = Job_Store (''nestjs.operation/'' @ name)"

definition operation_event_token :: "string \<Rightarrow> service_token" where
  "operation_event_token name = Events_Of (operation_store_token name)"

datatype wire_token = Wire_Clock | Wire_Service service_token | Wire_Worker string | Wire_Scheduler | Wire_Publisher

lemma operation_token_iff [simp]:
  "operation_store_token a = operation_store_token b \<longleftrightarrow> a = b"
  "named_store_token a = named_store_token b \<longleftrightarrow> a = b"
  "operation_store_token a \<noteq> named_store_token b"
  "named_store_token a \<noteq> operation_store_token b"
  by (simp_all add: operation_store_token_def named_store_token_def)

subsection \<open>Layers\<close>

record wired_layer =
  ly_provides :: wire_token
  ly_names :: "wire_token list"

definition service_layer :: "service_token \<Rightarrow> service_token list \<Rightarrow> wired_layer" where
  "service_layer token named = \<lparr>ly_provides = Wire_Service token, ly_names = map Wire_Service named\<rparr>"

text \<open>
  The views of a connection's store under its operation token, and the aliases that read the store of an
  adapter through the named token.
\<close>

definition operation_store_layer :: "string \<Rightarrow> wired_layer" where
  "operation_store_layer name = service_layer (operation_store_token name) [named_store_token name]"

definition event_alias :: "string \<Rightarrow> wired_layer" where
  "event_alias name = service_layer (operation_event_token name) [event_token name]"

definition schedule_alias :: "string \<Rightarrow> wired_layer" where
  "schedule_alias name = service_layer (Schedules_Of (operation_store_token name)) [schedule_token name]"

definition flow_alias :: "string \<Rightarrow> wired_layer" where
  "flow_alias name = service_layer (Flows_Of (operation_store_token name)) [flow_token name]"

text \<open>
  What a scheduler, a publisher and a worker are made of. A registry is a connection with a group, and names
  the operation store of the connection; no schedule is deployed by the scheduler itself.
\<close>

record scheduler_settings =
  gs_registries :: "(service_token \<times> string) list"
  gs_sweep_interval_ms :: jsnum
  gs_batch_size :: jsnum
  gs_max_store_retries :: jsnum
  gs_retry_delay_ms :: jsnum
  gs_startup_reconcile :: bool

definition scheduler_layer_settings :: "(string \<times> string) list \<Rightarrow> schedule_config \<Rightarrow> scheduler_settings" where
  "scheduler_layer_settings registries cfg =
     \<lparr>gs_registries = map (map_prod operation_store_token id) registries,
      gs_sweep_interval_ms = sc_sweep_interval_ms cfg, gs_batch_size = sc_batch_size cfg,
      gs_max_store_retries = sc_max_store_retries cfg, gs_retry_delay_ms = sc_retry_delay_ms cfg,
      gs_startup_reconcile = False\<rparr>"

definition scheduler_layer :: "scheduler_settings \<Rightarrow> wired_layer" where
  "scheduler_layer g =
     \<lparr>ly_provides = Wire_Scheduler,
      ly_names = concat (map (\<lambda>(token, _). [Wire_Service token, Wire_Service (Schedules_Of token)]) (gs_registries g))\<rparr>"

record publisher_settings =
  gp_options :: outbox_config
  gp_outboxes :: "service_token list"
  gp_routes :: "(string \<times> service_token) list"

definition publisher_layer_settings :: "string list \<Rightarrow> string list \<Rightarrow> outbox_config \<Rightarrow> publisher_settings" where
  "publisher_layer_settings sources targets opts =
     \<lparr>gp_options = opts, gp_outboxes = map outbox_token sources,
      gp_routes = fold (\<lambda>name. AList.update name (operation_store_token name)) targets []\<rparr>"

definition publisher_layer :: "publisher_settings \<Rightarrow> wired_layer" where
  "publisher_layer g =
     \<lparr>ly_provides = Wire_Publisher, ly_names = map Wire_Service (gp_outboxes g @ map snd (gp_routes g))\<rparr>"

record worker_settings =
  gw_options :: worker_options
  gw_retry_defects :: bool
  gw_handlers :: "worker_invocation list"
  gw_flows :: "flow_registration list"
  gw_flow_sweep_ids :: "string list"
  gw_shutdown :: "jsnum \<times> bool"

definition worker_layer_settings :: "jsnum \<times> bool \<Rightarrow> worker_plan \<Rightarrow> worker_settings" where
  "worker_layer_settings shutdown plan =
     \<lparr>gw_options = wp_options plan, gw_retry_defects = orelse (wk_retry_defects (wp_options plan)) False,
      gw_handlers = wp_invocations plan, gw_flows = wp_flows plan, gw_flow_sweep_ids = wp_recovery_ids plan,
      gw_shutdown = shutdown\<rparr>"

definition flow_participants :: "compiled_flow \<Rightarrow> string list" where
  "flow_participants f = map connection_of_entry (cw_parent f # map snd (cw_children f))"

text \<open>The shutdown options are the grace period and whether to abort after it. A handler names the store of its job; a flow the stores of its participants and their flow stores.\<close>

definition worker_layer :: "worker_settings \<Rightarrow> wired_layer" where
  "worker_layer g =
     \<lparr>ly_provides = Wire_Worker (''nestjs.worker/'' @ wk_name (gw_options g)),
      ly_names = map (Wire_Service \<circ> operation_store_token \<circ> connection_of_entry \<circ> wi_entry) (gw_handlers g)
        @ concat (map (\<lambda>name. [Wire_Service (operation_store_token name), Wire_Service (Flows_Of (operation_store_token name))])
            (concat (map (flow_participants \<circ> registered_flow) (gw_flows g))))\<rparr>"

subsection \<open>The merged runtime\<close>

definition binding_names :: "session \<Rightarrow> string list" where
  "binding_names s = map name_of (se_bindings s)"

definition offering_names :: "(resource \<Rightarrow> bool) \<Rightarrow> session \<Rightarrow> string list" where
  "offering_names f s = map name_of (offering f s)"

definition session_layers :: "session \<Rightarrow> worker_plan list \<Rightarrow> compiled_schedule list \<Rightarrow> schedule_config \<Rightarrow> outbox_config
    \<Rightarrow> jsnum \<times> bool \<Rightarrow> wired_layer list" where
  "session_layers s plans schedules scfg oopts shutdown =
     (let names = binding_names s; flows = offering_names rs_flows s; scheds = offering_names rs_schedules s;
          events = offering_names rs_events s; outboxes = offering_names rs_outbox s in
      [\<lparr>ly_provides = Wire_Clock, ly_names = []\<rparr>]
      @ map (\<lambda>name. service_layer (named_store_token name) []) names
      @ map operation_store_layer names
      @ map (worker_layer \<circ> worker_layer_settings shutdown) plans
      @ map (\<lambda>name. service_layer (outbox_token name) []) outboxes
      @ [publisher_layer (publisher_layer_settings outboxes names oopts)]
      @ map (\<lambda>name. service_layer (flow_token name) [named_store_token name]) flows
      @ map flow_alias flows
      @ map (\<lambda>name. service_layer (schedule_token name) [named_store_token name]) scheds
      @ map schedule_alias scheds
      @ [scheduler_layer (scheduler_layer_settings (schedule_registries scheds schedules (sc_group scfg)) scfg)]
      @ map (\<lambda>name. service_layer (event_token name) [named_store_token name]) events
      @ map event_alias events)"

text \<open>The text of a worker's execution context: the engine's, with the connection of the contract.\<close>

record engine_context =
  ex_job_id :: string
  ex_queue :: string
  ex_name :: string
  ex_version :: nat
  ex_attempt :: nat
  ex_attempts_max :: nat
  ex_delivery :: nat
  ex_worker_id :: string
  ex_metadata :: "(string \<times> string) list"

record execution_context = engine_context +
  ex_connection :: string
  ex_aborted :: bool

definition execution_context_for :: "registered_job \<Rightarrow> engine_context \<Rightarrow> bool \<Rightarrow> execution_context" where
  "execution_context_for job c aborted =
     \<lparr>ex_job_id = ex_job_id c, ex_queue = ex_queue c, ex_name = ex_name c, ex_version = ex_version c,
      ex_attempt = ex_attempt c, ex_attempts_max = ex_attempts_max c, ex_delivery = ex_delivery c,
      ex_worker_id = ex_worker_id c, ex_metadata = ex_metadata c,
      ex_connection = ji_connection (rj_identity job), ex_aborted = aborted\<rparr>"

subsection \<open>Completeness\<close>

definition served_by :: "string list \<Rightarrow> worker_plan \<Rightarrow> bool" where
  "served_by names plan \<longleftrightarrow> (\<forall>i\<in>set (wp_invocations plan). connection_of_entry (wi_entry i) \<in> set names)"

lemma routes_are:
  "snd ` set (gp_routes (publisher_layer_settings sources targets opts)) = operation_store_token ` set targets"
proof -
  have fold: "map_of (fold (\<lambda>name. AList.update name (operation_store_token name)) ts xs) a
      = (if a \<in> set ts then Some (operation_store_token a) else map_of xs a)" for ts xs a
    by (induction ts arbitrary: xs) (simp_all add: update_conv')
  have dist: "distinct (map fst xs)
      \<Longrightarrow> distinct (map fst (fold (\<lambda>name. AList.update name (operation_store_token name)) ts xs))" for ts xs
    by (induction ts arbitrary: xs) (simp_all add: distinct_update)
  let ?r = "fold (\<lambda>name. AList.update name (operation_store_token name)) targets []"
  have "(a, v) \<in> set ?r \<longleftrightarrow> map_of ?r a = Some v" for a v using dist[of "[]" targets] by simp
  then have "(a, v) \<in> set ?r \<longleftrightarrow> a \<in> set targets \<and> v = operation_store_token a" for a v
    by (auto simp: fold)
  then show ?thesis by (force simp: publisher_layer_settings_def)
qed

lemma publisher_outboxes: "gp_outboxes (publisher_layer_settings sources targets opts) = map outbox_token sources"
  by (simp add: publisher_layer_settings_def)

text \<open>What the layers provide, group by group.\<close>

definition provided_services :: "string list \<Rightarrow> string list \<Rightarrow> string list \<Rightarrow> string list \<Rightarrow> string list \<Rightarrow> service_token set" where
  "provided_services names flows scheds events outboxes =
     named_store_token ` set names \<union> operation_store_token ` set names \<union> outbox_token ` set outboxes
     \<union> flow_token ` set flows \<union> (Flows_Of \<circ> operation_store_token) ` set flows
     \<union> schedule_token ` set scheds \<union> (Schedules_Of \<circ> operation_store_token) ` set scheds
     \<union> event_token ` set events \<union> operation_event_token ` set events"

lemma session_layers_provide:
  "Wire_Service ` provided_services (binding_names s) (offering_names rs_flows s) (offering_names rs_schedules s)
       (offering_names rs_events s) (offering_names rs_outbox s)
     \<subseteq> ly_provides ` set (session_layers s plans schedules scfg oopts shutdown)"
  unfolding provided_services_def image_Un Un_subset_iff
  by (intro conjI; simp add: session_layers_def Let_def service_layer_def operation_store_layer_def flow_alias_def
      schedule_alias_def event_alias_def image_image image_Un; blast)

lemma offering_subset: "set (offering_names f s) \<subseteq> set (binding_names s)"
  by (auto simp: offering_names_def binding_names_def offering_def)

lemma offering_distinct: "distinct (binding_names s) \<Longrightarrow> distinct (offering_names f s)"
  unfolding offering_names_def binding_names_def offering_def by (rule distinct_map_filter)

lemma scheduler_names:
  assumes "\<And>name grp. (name, grp) \<in> set registries \<Longrightarrow> name \<in> set scheds"
  shows "set (ly_names (scheduler_layer (scheduler_layer_settings registries cfg)))
    \<subseteq> Wire_Service ` (operation_store_token ` set scheds \<union> (Schedules_Of \<circ> operation_store_token) ` set scheds)"
  using assms by (fastforce simp: scheduler_layer_def scheduler_layer_settings_def)

lemma worker_names:
  assumes "served_by names plan" and "\<And>f. f \<in> set (wp_flows plan) \<Longrightarrow> set (flow_participants (registered_flow f)) \<subseteq> set flows"
    and "set flows \<subseteq> set names"
  shows "set (ly_names (worker_layer (worker_layer_settings shutdown plan)))
    \<subseteq> Wire_Service ` (operation_store_token ` set names \<union> (Flows_Of \<circ> operation_store_token) ` set flows)"
proof -
  have "name \<in> set flows" if "f \<in> set (wp_flows plan)" "name \<in> set (flow_participants (registered_flow f))" for f name
    using assms(2) that by blast
  with assms(1,3) show ?thesis
    by (fastforce simp: worker_layer_def worker_layer_settings_def served_by_def)
qed

lemma session_wired:
  assumes "init_assemble cfg ans s = (Continue ph, s')"
    and "cf_flow_participants cfg = concat (map flow_participants flows)"
    and "list_all (served_by (binding_names s)) plans"
    and "list_all (\<lambda>p. set (map registered_flow (wp_flows p)) \<subseteq> set flows) plans"
  shows "list_all (\<lambda>l. set (ly_names l) \<subseteq> ly_provides ` set (session_layers s plans schedules scfg oopts shutdown))
    (session_layers s plans schedules scfg oopts shutdown)"
proof -
  let ?ls = "session_layers s plans schedules scfg oopts shutdown"
  let ?names = "binding_names s" and ?flows = "offering_names rs_flows s" and ?scheds = "offering_names rs_schedules s"
  let ?all = "provided_services ?names ?flows ?scheds (offering_names rs_events s) (offering_names rs_outbox s)"
  have enough: "set (ly_names l) \<subseteq> ly_provides ` set ?ls" if "set (ly_names l) \<subseteq> Wire_Service ` ?all" for l
    using that session_layers_provide[of s plans schedules scfg oopts shutdown] by blast
  from assms(1) have "set (cf_flow_participants cfg) \<subseteq> set ?flows"
    by (auto simp: init_assemble_def offering_names_def split: sum.splits if_splits)
  then have flows: "set (flow_participants f) \<subseteq> set ?flows" if "f \<in> set flows" for f
    using that assms(2) by auto
  have worker: "set (ly_names (worker_layer (worker_layer_settings shutdown p))) \<subseteq> Wire_Service ` ?all" if "p \<in> set plans" for p
  proof -
    from that assms(3) have "served_by ?names p" by (simp add: list_all_iff)
    moreover have "set (flow_participants (registered_flow f)) \<subseteq> set ?flows" if "f \<in> set (wp_flows p)" for f
      using that \<open>p \<in> set plans\<close> assms(4) by (intro flows) (auto simp: list_all_iff)
    ultimately show ?thesis
      using worker_names[of ?names p ?flows shutdown] offering_subset[of rs_flows s]
      by (auto simp: provided_services_def dest!: subsetD)
  qed
  have publisher: "set (ly_names (publisher_layer (publisher_layer_settings (offering_names rs_outbox s) ?names oopts)))
      \<subseteq> Wire_Service ` ?all"
  proof -
    have "set (ly_names (publisher_layer (publisher_layer_settings (offering_names rs_outbox s) ?names oopts)))
        = Wire_Service ` (outbox_token ` set (offering_names rs_outbox s) \<union> operation_store_token ` set ?names)"
      by (simp only: publisher_layer_def wired_layer.simps set_map set_append routes_are publisher_outboxes)
    then show ?thesis by (auto simp: provided_services_def)
  qed
  have within: "operation_store_token ` set ?scheds \<union> (Schedules_Of \<circ> operation_store_token) ` set ?scheds \<subseteq> ?all"
    "named_store_token ` set (offering_names f s) \<subseteq> ?all" for f
    using image_mono[OF offering_subset[of rs_schedules s], of operation_store_token]
      image_mono[OF offering_subset[of f s], of named_store_token]
    unfolding provided_services_def by blast+
  have scheduler: "set (ly_names (scheduler_layer (scheduler_layer_settings
      (schedule_registries ?scheds schedules (sc_group scfg)) scfg))) \<subseteq> Wire_Service ` ?all"
  proof (rule order_trans[OF scheduler_names])
    show "name \<in> set ?scheds" if "(name, grp) \<in> set (schedule_registries ?scheds schedules (sc_group scfg))" for name grp
      using that by (auto simp: schedule_registries_def)
  qed (rule image_mono[OF within(1)])
  have own: "named_store_token x \<in> ?all" if "x \<in> set (offering_names f s)" for x f
    using within(2)[of f] that by blast
  have "\<forall>l\<in>set ?ls. set (ly_names l) \<subseteq> Wire_Service ` ?all"
    unfolding session_layers_def Let_def set_append ball_Un set_map ball_simps(9)
    by (intro conjI ballI; simp add: service_layer_def operation_store_layer_def flow_alias_def schedule_alias_def
        event_alias_def worker publisher scheduler own)
      (simp_all add: provided_services_def)
  then show ?thesis unfolding list_all_iff by (blast intro: enough[THEN subsetD])
qed

text \<open>What the host compiles for its workers are jobs of its registry, whose connections the startup checks.\<close>

lemma entries_registered:
  assumes "loop declare_entry [] jobs = Inr entries" and "(c, e) \<in> set entries"
  shows "fe_registered e \<in> set jobs"
proof -
  have "\<forall>(c, e)\<in>set entries. fe_registered e \<in> set jobs"
  proof (rule loop_invariant[OF assms(1)])
    fix es job es'
    assume j: "job \<in> set jobs" and es: "\<forall>(c, e)\<in>set es. fe_registered e \<in> set jobs" "declare_entry es job = Inr es'"
    from es(2) obtain x where "map_of es (rj_contract_id job) = None"
      "es' = AList.update (rj_contract_id job) \<lparr>fe_registered = job, fe_compiled = x\<rparr> es"
      by (auto simp: declare_entry_def throw_if_iff elim!: rbind_InrE)
    with j es(1) show "\<forall>(c, e)\<in>set es'. fe_registered e \<in> set jobs"
      by (auto simp: update_new map_of_eq_None_iff)
  qed simp
  with assms(2) show ?thesis by blast
qed

lemma prepared_plans:
  assumes "host_prepare env r = Inr plan" and "p \<in> set (hp_plans plan)"
  shows "\<forall>i\<in>set (wp_invocations p). fe_registered (wi_entry i) \<in> set (rg_jobs r)"
    and "map registered_flow (wp_flows p) = hp_flows plan"
proof -
  from assms obtain retries entries flows plans where
    e: "host_entries env r = Inr entries"
    and w: "(if hv_workers env \<and> hv_connections env \<noteq> None
            then discover_workers ((hv_worker_world env)\<lparr>ww_entries := map_of entries\<rparr>) flows (Some retries)
              (hv_worker_providers env)
            else Inr []) = Inr plans"
    and plan: "hp_flows plan = flows" "hp_plans plan = plans"
    unfolding host_prepare_def by (elim rbind_InrE) auto
  with assms(2) have d: "discover_workers ((hv_worker_world env)\<lparr>ww_entries := map_of entries\<rparr>) flows (Some retries)
      (hv_worker_providers env) = Inr plans" and some: "hv_connections env \<noteq> None"
    by (auto split: if_splits)
  from discover_workers_wired[OF d] assms(2) plan have
    wired: "plan_wired ((hv_worker_world env)\<lparr>ww_entries := map_of entries\<rparr>) flows p" by simp
  with plan show "map registered_flow (wp_flows p) = hp_flows plan" by (simp add: plan_wired_def)
  from e some have "loop declare_entry [] (rg_jobs r) = Inr entries" by (simp add: host_entries_def)
  with wired show "\<forall>i\<in>set (wp_invocations p). fe_registered (wi_entry i) \<in> set (rg_jobs r)"
    by (fastforce simp: plan_wired_def ran_def dest!: map_of_SomeD intro: entries_registered)
qed

text \<open>A session that is about to assemble has acquired every connection that a queue names.\<close>

lemma assembling_queues:
  assumes "session_reachable cfg s" and "se_start s = Initializing Assembling"
  shows "set (cf_queues cfg) \<subseteq> set (binding_names s)"
proof -
  from reachable_progress[OF assms(1)] assms(2) have "check_queues (cf_queues cfg) (map bc_connection (se_bindings s)) = Inr ()"
    by (simp add: progress_inv_def acquired_all_def accepted_config_def)
  then show ?thesis by (auto simp: check_queues_iff binding_names_def name_of_def)
qed

text \<open>
  C24. The wiring of every application is complete. Take the registry and the plan that the host prepared, and
  a session that was started with them and has gone past its assembly: every service that a merged layer
  names is provided by a merged layer. A handler's store is there because its job belongs to a registered
  queue, whose connection the startup checked; the stores of a flow because of the guard of the assembly; those
  of schedules and of the publisher's routes because they are listed from the acquired connections.
\<close>

theorem wiring_complete:
  assumes "registry_initialize (hv_metadata env) (hv_defaults env) (hv_providers env) new_registry = Inr r"
    and "host_prepare env r = Inr plan"
    and "session_reachable (host_config env plan (rg_queues r) schedules) s" and "se_start s = Initializing Assembling"
    and "init_assemble (host_config env plan (rg_queues r) schedules) ans s = (Continue ph, s')"
  shows "list_all (\<lambda>l. set (ly_names l) \<subseteq> ly_provides ` set (session_layers s (hp_plans plan) schedules scfg oopts shutdown))
    (session_layers s (hp_plans plan) schedules scfg oopts shutdown)"
proof (rule session_wired[OF assms(5), of "hp_flows plan"])
  let ?cfg = "host_config env plan (rg_queues r) schedules"
  show "cf_flow_participants ?cfg = concat (map flow_participants (hp_flows plan))"
    by (simp add: host_config_def flow_participants_def[abs_def])
  have "ji_connection (rj_identity j) \<in> set (binding_names s)" if "j \<in> set (rg_jobs r)" for j
    using registry_job_connection[OF assms(1) that] assembling_queues[OF assms(3,4)] by (auto simp: host_config_def)
  then show "list_all (served_by (binding_names s)) (hp_plans plan)"
    using prepared_plans(1)[OF assms(2)] by (auto simp: list_all_iff served_by_def connection_of_entry_def)
  show "list_all (\<lambda>p. set (map registered_flow (wp_flows p)) \<subseteq> set (hp_flows plan)) (hp_plans plan)"
    unfolding list_all_iff
  proof
    fix p assume "p \<in> set (hp_plans plan)"
    then show "set (map registered_flow (wp_flows p)) \<subseteq> set (hp_flows plan)"
      by (simp only: prepared_plans(2)[OF assms(2)] subset_refl)
  qed
qed

text \<open>No service is provided twice: the tokens of different kinds and of different connections differ.\<close>

lemma token_kinds [simp]:
  "event_token a = event_token b \<longleftrightarrow> a = b" "schedule_token a = schedule_token b \<longleftrightarrow> a = b"
  "flow_token a = flow_token b \<longleftrightarrow> a = b" "outbox_token a = outbox_token b \<longleftrightarrow> a = b"
  "operation_event_token a = operation_event_token b \<longleftrightarrow> a = b"
  by (simp_all add: event_token_def schedule_token_def flow_token_def outbox_token_def operation_event_token_def)

lemmas token_defs = event_token_def schedule_token_def flow_token_def outbox_token_def operation_event_token_def
  operation_store_token_def named_store_token_def

theorem wiring_unambiguous:
  assumes "distinct (binding_names s)" and "distinct (map (wk_name \<circ> wp_options) plans)"
  shows "distinct (map ly_provides (session_layers s plans schedules scfg oopts shutdown))"
proof -
  have dist: "distinct (map (Wire_Service \<circ> f) (offering_names g s))" if "inj f" for f g
    using offering_distinct[OF assms(1)] that by (auto simp: distinct_map inj_on_def)
  have named: "distinct (map (Wire_Service \<circ> f) (binding_names s))" if "inj f" for f
    using assms(1) that by (auto simp: distinct_map inj_on_def)
  have workers: "distinct (map (\<lambda>p. Wire_Worker (''nestjs.worker/'' @ wk_name (wp_options p))) plans)"
    using assms(2) by (auto simp: distinct_map inj_on_def)
  have map: "map ly_provides (session_layers s plans schedules scfg oopts shutdown) =
      Wire_Clock # map (Wire_Service \<circ> named_store_token) (binding_names s)
      @ map (Wire_Service \<circ> operation_store_token) (binding_names s)
      @ map (\<lambda>p. Wire_Worker (''nestjs.worker/'' @ wk_name (wp_options p))) plans
      @ map (Wire_Service \<circ> outbox_token) (offering_names rs_outbox s)
      @ Wire_Publisher # map (Wire_Service \<circ> flow_token) (offering_names rs_flows s)
      @ map (Wire_Service \<circ> (Flows_Of \<circ> operation_store_token)) (offering_names rs_flows s)
      @ map (Wire_Service \<circ> schedule_token) (offering_names rs_schedules s)
      @ map (Wire_Service \<circ> (Schedules_Of \<circ> operation_store_token)) (offering_names rs_schedules s)
      @ Wire_Scheduler # map (Wire_Service \<circ> event_token) (offering_names rs_events s)
      @ map (Wire_Service \<circ> operation_event_token) (offering_names rs_events s)"
    by (simp add: session_layers_def Let_def service_layer_def operation_store_layer_def flow_alias_def schedule_alias_def
        event_alias_def worker_layer_def worker_layer_settings_def publisher_layer_def scheduler_layer_def comp_def)
  have inj: "inj named_store_token" "inj operation_store_token" "inj outbox_token" "inj flow_token" "inj schedule_token"
    "inj event_token" "inj operation_event_token" "inj (Flows_Of \<circ> operation_store_token)"
    "inj (Schedules_Of \<circ> operation_store_token)"
    by (simp_all add: inj_def)
  show ?thesis
    unfolding map
    using workers named[OF inj(1)] named[OF inj(2)] dist[OF inj(3)] dist[OF inj(4)] dist[OF inj(5)] dist[OF inj(6)]
      dist[OF inj(7)] dist[OF inj(8)] dist[OF inj(9)]
    by (simp only: distinct.simps distinct_append simp_thms) (auto simp: token_defs)
qed

subsection \<open>An application with one worker\<close>

definition mail_world :: worker_world where
  "mail_world = demo_worker_world\<lparr>ww_processes := (\<lambda>p. if p = 11 then [(''run'', \<lparr>pm_queue = 3, pm_property = ''send'',
     pm_concurrency = None\<rparr>)] else []), ww_module := (\<lambda>_. Inr sample_queue)\<rparr>"

definition mail_env :: "flow_world \<Rightarrow> schedule_config_input \<Rightarrow> host_env" where
  "mail_env fw cfg = (demo_env fw mail_world demo_schedule_env demo_define cfg)\<lparr>hv_worker_providers := [demo_worker_provider]\<rparr>"

definition mail_entry :: "compiled_job \<Rightarrow> flow_entry" where
  "mail_entry c = \<lparr>fe_registered = sample_job, fe_compiled = c\<rparr>"

lemma mail_plan:
  "\<exists>i. discover_workers (mail_world\<lparr>ww_entries := [5 \<mapsto> mail_entry c]\<rparr>) [] (Some policies) [demo_worker_provider]
     = Inr [\<lparr>wp_options = plain_worker ''orders'', wp_invocations = [\<lparr>wi_entry = mail_entry c, wi_concurrency = None,
         wi_invocation = i\<rparr>], wp_flows = [], wp_recovery_ids = []\<rparr>]"
proof -
  let ?w = "mail_world\<lparr>ww_entries := [5 \<mapsto> mail_entry c]\<rparr>" and ?p = demo_worker_provider and ?e = "mail_entry c"
  have "\<exists>i. invocation_for ?w ?p ''run'' ?e Process_Phase = Inr i"
    by (simp add: invocation_for_def method_descriptor_def demo_worker_provider_def mail_world_def demo_worker_world_def
        reject_enhancers_def parameter_count_def Let_def new_pipeline_def enhancer_metadata_def inherited_def)
  then obtain i where i: "invocation_for ?w ?p ''run'' ?e Process_Phase = Inr i" ..
  let ?m = "(''run'', \<lparr>pm_queue = 3, pm_property = ''send'', pm_concurrency = None\<rparr>)"
  have methods: "process_metadata_of (ww_processes mail_world) [11] = [?m]"
    by (simp add: process_metadata_of_def overlay_def overlay_own_def replace_def mail_world_def)
  have entry: "process_entry ?w (snd ?m) = Inr ?e"
    by (simp add: process_entry_def mail_world_def sample_queue_def)
  have mail_job: "fe_registered (mail_entry c) = sample_job" by (simp add: mail_entry_def)
  have retry: "require_retry (Some policies) sample_job = Inr (Some policies)"
    by (simp add: require_retry_def require_policy_def retry_reference_def backoff_reference_def sample_job_def
        initial_policy_def)
  let ?i = "\<lparr>wi_entry = ?e, wi_concurrency = None, wi_invocation = i\<rparr>"
  have scanned: "discover_method ?w [] ?p \<lparr>ms_retries = Some policies, ms_processed = [], ms_invocations = []\<rparr> ?m
      = Inr \<lparr>ms_retries = Some policies, ms_processed = [entry_key ?e], ms_invocations = [?i]\<rparr>"
    using entry by (simp add: discover_method_def retry i mail_job)
  have "declare_worker ?w [] ?p (plain_worker ''orders'') [?m]
      \<lparr>wn_retries = Some policies, wn_names = [], wn_processed = [], wn_plans = []\<rparr>
      = Inr \<lparr>wn_retries = Some policies, wn_names = [''orders''], wn_processed = [entry_key ?e],
          wn_plans = [\<lparr>wp_options = plain_worker ''orders'', wp_invocations = [?i], wp_flows = [], wp_recovery_ids = []\<rparr>]\<rparr>"
    by (simp add: declare_worker_def scanned compile_worker_def plan_identities_def add_handler_def)
      (simp add: plain_worker_def)
  moreover have "\<not> wv_alias ?p" "wv_class ?p = Some 10" "wv_hierarchy ?p = [11]"
    by (simp_all add: demo_worker_provider_def)
  moreover have "worker_metadata (ww_workers ?w) 10 = Some (plain_worker ''orders'')"
    by (simp add: worker_metadata_def mail_world_def demo_worker_world_def)
  ultimately show ?thesis
    by (intro exI[of _ i]) (simp add: discover_workers_def discover_worker_def methods Let_def)
qed

lemma mail_prepared:
  "\<exists>plan p i. host_prepare (mail_env fw cfg)
       \<lparr>rg_queues = qs, rg_jobs = [sample_job], rg_by_identity = is, rg_initialized = True\<rparr> = Inr plan
     \<and> hp_flows plan = [] \<and> hp_plans plan = [p] \<and> wp_invocations p = [i] \<and> connection_of_entry (wi_entry i) = ''default''"
proof -
  obtain c where "compile_job sample_job True = Inr c" using demo_compiled by blast
  then have entries: "host_entries (mail_env fw cfg)
      \<lparr>rg_queues = qs, rg_jobs = [sample_job], rg_by_identity = is, rg_initialized = True\<rparr> = Inr [(5, mail_entry c)]"
    by (simp add: host_entries_def mail_env_def demo_env_def declare_entry_def mail_entry_def) (simp add: sample_job_def)
  obtain i where plan: "discover_workers (mail_world\<lparr>ww_entries := [5 \<mapsto> mail_entry c]\<rparr>) []
      (Some \<lparr>rps_providers = [], rps_resolved = []\<rparr>) [demo_worker_provider]
     = Inr [\<lparr>wp_options = plain_worker ''orders'', wp_invocations = [\<lparr>wi_entry = mail_entry c, wi_concurrency = None,
         wi_invocation = i\<rparr>], wp_flows = [], wp_recovery_ids = []\<rparr>]" using mail_plan by blast
  have "connection_of_entry (mail_entry c) = ''default''"
    by (simp add: connection_of_entry_def mail_entry_def sample_job_def)
  with entries plan show ?thesis
    by (simp add: host_prepare_def mail_env_def demo_env_def new_retry_policies_def discover_flows_def scan_flows_def
        del: fun_upd_apply)
qed

definition mail_schedules :: schedule_config where
  "mail_schedules = \<lparr>sc_mode = Validate, sc_group = ''nestjs/schedules'', sc_sweep_interval_ms = jint 1000,
     sc_batch_size = jint 100, sc_max_store_retries = jint 3, sc_retry_delay_ms = jint 100\<rparr>"

definition mail_outbox :: outbox_config where
  "mail_outbox = outbox_config_of \<lparr>oo_concurrency = None, oo_lease_ms = None, oo_heartbeat_ms = None,
     oo_poll_ms = None, oo_retry_base_ms = None, oo_retry_max_ms = None\<rparr>"

theorem wiring_complete_witness:
  "\<forall>fw cfg. \<exists>s plan p. hp_plans plan = [p] \<and> wp_invocations p \<noteq> [] \<and> binding_names s = [''default'']
     \<and> list_all (\<lambda>l. set (ly_names l) \<subseteq> ly_provides ` set (session_layers s (hp_plans plan) [] mail_schedules mail_outbox
            (jint 30000, False)))
         (session_layers s (hp_plans plan) [] mail_schedules mail_outbox (jint 30000, False))
     \<and> (\<exists>r. host_prepare (mail_env fw cfg) r = Inr plan)"
proof (intro allI)
  fix fw cfg
  let ?env = "mail_env fw cfg"
  let ?r = "\<lparr>rg_queues = [\<lparr>qd_name = ''mail'', qd_connection = ''default'', qd_controls = None, qd_jobs = [sample_job]\<rparr>],
       rg_jobs = [sample_job], rg_by_identity = [(job_key ''default'' ''mail'' ''send'' 1, sample_job)],
       rg_initialized = True\<rparr>"
  have init: "registry_initialize (hv_metadata ?env) (hv_defaults ?env) (hv_providers ?env) new_registry = Inr ?r"
    using demo_registry by (simp add: mail_env_def demo_env_def)
  obtain plan p i where plan: "host_prepare ?env ?r = Inr plan" "hp_flows plan = []" "hp_plans plan = [p]"
    "wp_invocations p = [i]" using mail_prepared by blast
  let ?cfg = "host_config ?env plan (rg_queues ?r) []"
  have c: "hv_connections ?env = Some [\<lparr>cn_name = ''default'', cn_boundary = 1, cn_scope = ''a'', cn_requirements = []\<rparr>]"
    by (simp add: mail_env_def demo_env_def)
  have "\<exists>s. session_run ?cfg [Ev_Start, Ev_Init Answer_Runtime, Ev_Init demo_resource, Ev_Init Answer_Runtime] new_session
      = Some s \<and> se_start s = Initializing Assembling \<and> binding_names s = [''default'']
      \<and> (\<exists>ph s'. init_assemble ?cfg Answer_Runtime s = (Continue ph, s'))"
    using c plan by (simp add: host_config_def sample_session demo_resource_def binding_names_def)
  then obtain s ph s' where run: "session_run ?cfg [Ev_Start, Ev_Init Answer_Runtime, Ev_Init demo_resource,
      Ev_Init Answer_Runtime] new_session = Some s"
    and s: "se_start s = Initializing Assembling" "binding_names s = [''default'']"
    and go: "init_assemble ?cfg Answer_Runtime s = (Continue ph, s')" by blast
  from run_reachable[OF run reach_new] have "session_reachable ?cfg s" .
  from wiring_complete[OF init plan(1) this s(1) go, of mail_schedules mail_outbox "(jint 30000, False)"]
  show "\<exists>s plan p. hp_plans plan = [p] \<and> wp_invocations p \<noteq> [] \<and> binding_names s = [''default'']
     \<and> list_all (\<lambda>l. set (ly_names l) \<subseteq> ly_provides ` set (session_layers s (hp_plans plan) [] mail_schedules mail_outbox
            (jint 30000, False)))
         (session_layers s (hp_plans plan) [] mail_schedules mail_outbox (jint 30000, False))
     \<and> (\<exists>r. host_prepare (mail_env fw cfg) r = Inr plan)"
    using s plan by (intro exI[of _ s] exI[of _ plan] exI[of _ p]) auto
qed

end
