(* ===== verification/Mq_Exceptions.thy ===== *)
theory Mq_Exceptions
  imports Mq_Identity
begin

text \<open>
  The exception classes: \<open>src/contracts/errors.ts\<close>, \<open>src/jobs/errors.ts\<close>, \<open>src/connections/errors.ts\<close>, the
  \<open>errors.ts\<close> of controls, flows, outbox and schedules, and the guard exception of \<open>src/enhancers/types.ts\<close>.
  \<open>exn\<close> of \<open>Mq_Values\<close> has a constructor for each class; here are the code, the name and the phase that each
  class reports, and the message of those that compose it themselves. The other classes take their message
  from whoever throws.
\<close>

subsection \<open>Phases\<close>

fun schema_phase_text :: "schema_phase \<Rightarrow> string" where
  "schema_phase_text ValidatePhase = ''validate''"
| "schema_phase_text EncodePhase = ''encode''"

fun job_operation_text :: "job_operation \<Rightarrow> string" where
  "job_operation_text OpBinding = ''binding''"
| "job_operation_text OpEnqueue = ''enqueue''"
| "job_operation_text OpEnqueueMany = ''enqueueMany''"
| "job_operation_text OpPrepare = ''prepare''"
| "job_operation_text OpPoll = ''poll''"
| "job_operation_text OpAttempts = ''attempts''"
| "job_operation_text OpAwaitResult = ''awaitResult''"
| "job_operation_text OpCancel = ''cancel''"
| "job_operation_text OpRetry = ''retry''"
| "job_operation_text OpPromote = ''promote''"

fun outbox_phase_text :: "outbox_phase \<Rightarrow> string" where
  "outbox_phase_text OutboxConfiguration = ''configuration''"
| "outbox_phase_text OutboxPrepare = ''prepare''"
| "outbox_phase_text OutboxUnavailable = ''unavailable''"
| "outbox_phase_text OutboxRead = ''read''"
| "outbox_phase_text OutboxAppend = ''append''"
| "outbox_phase_text OutboxConflict = ''conflict''"
| "outbox_phase_text OutboxTransaction = ''transaction''"
| "outbox_phase_text OutboxRetry = ''retry''"

fun flow_phase_text :: "flow_phase \<Rightarrow> string" where
  "flow_phase_text FlowDefinition = ''definition''"
| "flow_phase_text FlowUnavailable = ''unavailable''"
| "flow_phase_text FlowIdentity = ''identity''"
| "flow_phase_text FlowClosed = ''closed''"
| "flow_phase_text FlowOperation = ''operation''"

fun schedule_phase_text :: "schedule_phase \<Rightarrow> string" where
  "schedule_phase_text ScheduleDefinition = ''definition''"
| "schedule_phase_text ScheduleUnavailable = ''unavailable''"
| "schedule_phase_text ScheduleIdentity = ''identity''"
| "schedule_phase_text ScheduleMissing = ''missing''"
| "schedule_phase_text ScheduleDrift = ''drift''"
| "schedule_phase_text ScheduleMode = ''mode''"
| "schedule_phase_text ScheduleOperation = ''operation''"

fun controls_phase_text :: "controls_phase \<Rightarrow> string" where
  "controls_phase_text ControlsConfiguration = ''configuration''"
| "controls_phase_text ControlsCapability = ''capability''"
| "controls_phase_text ControlsMissing = ''missing''"
| "controls_phase_text ControlsDrift = ''drift''"
| "controls_phase_text ControlsOwnership = ''ownership''"
| "controls_phase_text ControlsMode = ''mode''"
| "controls_phase_text ControlsOperation = ''operation''"

fun connection_phase_text :: "connection_phase \<Rightarrow> string" where
  "connection_phase_text ConnConfiguration = ''configuration''"
| "connection_phase_text ConnAcquire = ''acquire''"
| "connection_phase_text ConnProtocol = ''protocol''"
| "connection_phase_text ConnProbe = ''probe''"
| "connection_phase_text ConnClose = ''close''"
| "connection_phase_text ConnMigrate = ''migrate''"

fun engine_state_text :: "engine_state \<Rightarrow> string" where
  "engine_state_text Idle = ''idle''"
| "engine_state_text Disabled = ''disabled''"
| "engine_state_text Starting = ''starting''"
| "engine_state_text Ready = ''ready''"
| "engine_state_text Stopping = ''stopping''"
| "engine_state_text Closed = ''closed''"
| "engine_state_text Failed = ''failed''"

subsection \<open>Codes and messages\<close>

text \<open>Native errors and the refusal of a guard have no code. The strings of a schema exception are the paths and messages of its issues.\<close>

fun exception_code :: "exn \<Rightarrow> string option" where
  "exception_code Contract_Definition = Some ''MQ_CONTRACT_DEFINITION''"
| "exception_code (Schema_Validation issues) = Some ''MQ_SCHEMA_VALIDATION''"
| "exception_code (Schema_Defect phase) = Some ''MQ_SCHEMA_DEFECT''"
| "exception_code Schema_Encoding = Some ''MQ_SCHEMA_ENCODING''"
| "exception_code (Job_Failure failure) = Some ''MQ_JOB_FAILURE''"
| "exception_code (Mq_Job operation) = Some ''MQ_JOB_OPERATION''"
| "exception_code (Job_Wait_Timeout job_id ms) = Some ''MQ_JOB_WAIT_TIMEOUT''"
| "exception_code (Job_Wait_Aborted job_id) = Some ''MQ_JOB_WAIT_ABORTED''"
| "exception_code (Job_Cancelled job_id) = Some ''MQ_JOB_CANCELLED''"
| "exception_code (Mq_Outbox phase) = Some ''MQ_OUTBOX''"
| "exception_code (Mq_Flow phase) = Some ''MQ_FLOW''"
| "exception_code (Mq_Schedule phase) = Some ''MQ_SCHEDULE''"
| "exception_code (Queue_Controls phase) = Some ''MQ_QUEUE_CONTROLS''"
| "exception_code (Mq_Connection name phase) = Some ''MQ_CONNECTION_FAILURE''"
| "exception_code (Mq_Engine_State state operation) = Some ''MQ_ENGINE_STATE''"
| "exception_code Guard_Rejected = None"
| "exception_code Range_Error = None"
| "exception_code Type_Error = None"
| "exception_code (Native_Error cause) = None"
| "exception_code (Aggregate errors) = None"

fun exception_name :: "exn \<Rightarrow> string option" where
  "exception_name Contract_Definition = Some ''ContractDefinitionException''"
| "exception_name (Schema_Validation issues) = Some ''SchemaValidationException''"
| "exception_name (Schema_Defect phase) = Some ''SchemaDefectException''"
| "exception_name Schema_Encoding = Some ''SchemaEncodingException''"
| "exception_name (Job_Failure failure) = Some ''JobFailureException''"
| "exception_name (Mq_Job operation) = Some ''MqJobException''"
| "exception_name (Job_Wait_Timeout job_id ms) = Some ''JobWaitTimeoutException''"
| "exception_name (Job_Wait_Aborted job_id) = Some ''JobWaitAbortedException''"
| "exception_name (Job_Cancelled job_id) = Some ''JobCancelledException''"
| "exception_name (Mq_Outbox phase) = Some ''MqOutboxException''"
| "exception_name (Mq_Flow phase) = Some ''MqFlowException''"
| "exception_name (Mq_Schedule phase) = Some ''MqScheduleException''"
| "exception_name (Queue_Controls phase) = Some ''QueueControlsException''"
| "exception_name (Mq_Connection name phase) = Some ''MqConnectionException''"
| "exception_name (Mq_Engine_State state operation) = Some ''MqEngineStateException''"
| "exception_name Guard_Rejected = Some ''MqGuardRejectedException''"
| "exception_name Range_Error = Some ''RangeError''"
| "exception_name Type_Error = Some ''TypeError''"
| "exception_name (Native_Error cause) = None"
| "exception_name (Aggregate errors) = Some ''AggregateError''"

text \<open>The further field of a class: its phase or its operation.\<close>

fun exception_detail :: "exn \<Rightarrow> string option" where
  "exception_detail (Schema_Defect phase) = Some (schema_phase_text phase)"
| "exception_detail (Mq_Job operation) = Some (job_operation_text operation)"
| "exception_detail (Mq_Outbox phase) = Some (outbox_phase_text phase)"
| "exception_detail (Mq_Flow phase) = Some (flow_phase_text phase)"
| "exception_detail (Mq_Schedule phase) = Some (schedule_phase_text phase)"
| "exception_detail (Queue_Controls phase) = Some (controls_phase_text phase)"
| "exception_detail (Mq_Connection name phase) = Some (connection_phase_text phase)"
| "exception_detail (Mq_Engine_State state operation) = Some operation"
| "exception_detail _ = None"

text \<open>The waiting time is a checked integer when it gets here, so its text is that of a natural number.\<close>

definition not_cancelled :: string where
  "not_cancelled = ''; the job was not cancelled''"

fun exception_message :: "exn \<Rightarrow> string option" where
  "exception_message (Schema_Validation issues) = Some ''The value does not satisfy the job schema''"
| "exception_message (Schema_Defect phase) =
     Some (''The schema implementation threw during '' @ schema_phase_text phase)"
| "exception_message (Job_Failure failure) = Some ''The job reported a domain failure''"
| "exception_message (Job_Wait_Timeout job_id ms) =
     Some (''Waiting for job '' @ json_string job_id @ '' exceeded '' @ nat_text (js_nat ms) @ ''ms'' @ not_cancelled)"
| "exception_message (Job_Wait_Aborted job_id) =
     Some (''Waiting for job '' @ json_string job_id @ '' was aborted'' @ not_cancelled)"
| "exception_message (Job_Cancelled job_id) = Some (''Job '' @ json_string job_id @ '' was cancelled'')"
| "exception_message (Mq_Connection name phase) =
     Some (''MQ connection '' @ json_string name @ '' failed during '' @ connection_phase_text phase)"
| "exception_message (Mq_Engine_State state operation) =
     Some (''Cannot '' @ operation @ '' while the MQ engine is '' @ engine_state_text state)"
| "exception_message Guard_Rejected = Some ''An MQ guard rejected this invocation''"
| "exception_message _ = None"

subsection \<open>What a report tells\<close>

lemma texts_inject [simp]:
  "schema_phase_text p1 = schema_phase_text p1' \<longleftrightarrow> p1 = p1'"
  "job_operation_text p2 = job_operation_text p2' \<longleftrightarrow> p2 = p2'"
  "outbox_phase_text p3 = outbox_phase_text p3' \<longleftrightarrow> p3 = p3'"
  "flow_phase_text p4 = flow_phase_text p4' \<longleftrightarrow> p4 = p4'"
  "schedule_phase_text p5 = schedule_phase_text p5' \<longleftrightarrow> p5 = p5'"
  "controls_phase_text p6 = controls_phase_text p6' \<longleftrightarrow> p6 = p6'"
  "connection_phase_text p7 = connection_phase_text p7' \<longleftrightarrow> p7 = p7'"
  "engine_state_text p8 = engine_state_text p8' \<longleftrightarrow> p8 = p8'"
         apply (cases p1; cases p1'; simp)
        apply (cases p2; cases p2'; simp)
       apply (cases p3; cases p3'; simp)
      apply (cases p4; cases p4'; simp)
     apply (cases p5; cases p5'; simp)
    apply (cases p6; cases p6'; simp)
   apply (cases p7; cases p7'; simp)
  apply (cases p8; cases p8'; simp)
  done

text \<open>
  The exceptions of the package that carry nothing but what they report: all but the issues of a schema, the
  failure of a job and what is not the package's own. The time of a wait is a non-negative safe integer.
\<close>

fun self_describing :: "exn \<Rightarrow> bool" where
  "self_describing (Schema_Validation issues) = False"
| "self_describing (Job_Failure failure) = False"
| "self_describing (Native_Error cause) = False"
| "self_describing (Aggregate errors) = False"
| "self_describing (Job_Wait_Timeout job_id ms) = (ms = jint (int (js_nat ms)))"
| "self_describing _ = True"

definition exception_report :: "exn \<Rightarrow> string option \<times> string option \<times> string option \<times> string option" where
  "exception_report e = (exception_name e, exception_code e, exception_detail e, exception_message e)"

lemma json_string_inject: "json_string s = json_string s' \<longleftrightarrow> s = s'"
  using json_string_append[of s "[]" s' "[]"] by simp

text \<open>
  Whatever names an application gives to connections, jobs and operations, quotation marks and the words of
  the messages included, no two exceptions report the same.
\<close>

theorem exception_report_inject:
  assumes "self_describing e" and "self_describing e'" and "exception_report e = exception_report e'"
  shows "e = e'"
proof -
  have digit: "\<not> is_digit (CHR ''m'')" by (simp add: is_digit_def)
  have timeout: "ms = ms'" if "nat_text (js_nat ms) @ CHR ''m'' # r = nat_text (js_nat ms') @ CHR ''m'' # r'"
      "ms = jint (int (js_nat ms))" "ms' = jint (int (js_nat ms'))" for ms ms' r r'
    using that nat_text_append[OF digit digit] by metis
  show ?thesis
    using assms
    by (cases e; cases e')
      (auto simp: exception_report_def json_string_append json_string_inject intro: timeout)
qed

end
