(* ===== verification/Mq_Module.thy ===== *)
theory Mq_Module
  imports Mq_Prelude
begin

text \<open>
  The Nest module: \<open>src/module/mq-module.definition.ts\<close>, \<open>src/module/mq.module.ts\<close> and the constructor of
  \<open>src/engine/mq-engine.host.ts\<close>. A provider is its token, the tokens it injects and what it makes of them;
  Nest builds one instance per provider, after the instances it injects. An instance is recorded by how it was
  built, so two tokens have the same instance exactly if they are built from the same instances.
\<close>

subsection \<open>Tokens and instances\<close>

datatype inject_token =
    Tk_Options | Tk_Discovery | Tk_Module_Ref
  | Tk_Configuration | Tk_Registry | Tk_Host
  | Tk_Connection_Monitor | Tk_Worker_Monitor | Tk_Controls_Monitor | Tk_Schedule_Monitor | Tk_Flow_Monitor
  | Tk_Outbox_Service | Tk_Flows_Service | Tk_Connections_Service | Tk_Workers_Service | Tk_Controls_Service
  | Tk_Schedules_Service
  | Tk_Queue nat
  | Tk_Other nat

datatype host_part = Part_Session | Part_Schedules | Part_Flows | Part_Outbox | Part_Controls

datatype module_instance =
    In_Given inject_token
  | In_Class inject_token "module_instance list"
  | In_Part host_part module_instance

record nest_provider =
  np_token :: inject_token
  np_inject :: "inject_token list"
  np_make :: "module_instance list \<Rightarrow> module_instance option"

text \<open>A class is constructed from what it injects; a factory for a monitor takes a part of the host.\<close>

definition class_provider :: "inject_token \<Rightarrow> inject_token list \<Rightarrow> nest_provider" where
  "class_provider token injects =
     \<lparr>np_token = token, np_inject = injects, np_make = (\<lambda>args. Some (In_Class token args))\<rparr>"

definition monitor_factory :: "inject_token \<Rightarrow> host_part \<Rightarrow> nest_provider" where
  "monitor_factory token part =
     \<lparr>np_token = token, np_inject = [Tk_Host],
      np_make = (\<lambda>args. case args of [host] \<Rightarrow> Some (In_Part part host) | _ \<Rightarrow> None)\<rparr>"

definition outbox_factory :: nest_provider where
  "outbox_factory =
     \<lparr>np_token = Tk_Outbox_Service, np_inject = [Tk_Host],
      np_make = (\<lambda>args. case args of
        [host] \<Rightarrow> Some (In_Class Tk_Outbox_Service [In_Part Part_Outbox host]) | _ \<Rightarrow> None)\<rparr>"

subsection \<open>The module definition\<close>

record module_definition =
  md_global :: bool
  md_imports :: "inject_token list"
  md_providers :: "nest_provider list"
  md_exports :: "inject_token list"

definition mq_providers :: "nest_provider list" where
  "mq_providers =
     [class_provider Tk_Configuration [Tk_Options],
      class_provider Tk_Registry [Tk_Discovery, Tk_Configuration],
      class_provider Tk_Host [Tk_Configuration, Tk_Registry, Tk_Discovery, Tk_Module_Ref],
      outbox_factory,
      monitor_factory Tk_Connection_Monitor Part_Session,
      monitor_factory Tk_Worker_Monitor Part_Session,
      monitor_factory Tk_Controls_Monitor Part_Controls,
      monitor_factory Tk_Schedule_Monitor Part_Schedules,
      monitor_factory Tk_Flow_Monitor Part_Flows,
      class_provider Tk_Flows_Service [Tk_Flow_Monitor],
      class_provider Tk_Connections_Service [Tk_Connection_Monitor],
      class_provider Tk_Workers_Service [Tk_Worker_Monitor],
      class_provider Tk_Controls_Service [Tk_Controls_Monitor],
      class_provider Tk_Schedules_Service [Tk_Schedule_Monitor]]"

definition mq_exports :: "inject_token list" where
  "mq_exports = [Tk_Outbox_Service, Tk_Flows_Service, Tk_Configuration, Tk_Registry, Tk_Connections_Service,
     Tk_Workers_Service, Tk_Controls_Service, Tk_Schedules_Service]"

text \<open>
  What the module adds to the definition that Nest's builder makes of the options; the import of the
  discovery module gives the discovery service.
\<close>

definition set_extras :: "bool \<Rightarrow> module_definition \<Rightarrow> module_definition" where
  "set_extras is_global d =
     d\<lparr>md_global := is_global, md_imports := md_imports d @ [Tk_Discovery],
       md_providers := md_providers d @ mq_providers, md_exports := md_exports d @ mq_exports\<rparr>"

text \<open>\<open>MqModule.forFeature\<close>: every queue class once.\<close>

definition for_feature :: "nat list \<Rightarrow> module_definition" where
  "for_feature queues =
     (let tokens = map Tk_Queue (dedup queues) in
      \<lparr>md_global = False, md_imports = [], md_providers = map (\<lambda>t. class_provider t []) tokens, md_exports = tokens\<rparr>)"

subsection \<open>The parts of the host\<close>

datatype host_argument = Ha_Part host_part | Ha_Registry | Ha_Module_Ref | Ha_Config string

fun part_arguments :: "host_part \<Rightarrow> host_argument list" where
  "part_arguments Part_Session = [Ha_Config ''connections'', Ha_Config ''shutdown'', Ha_Config ''execution.outboxPublisher'',
     Ha_Config ''outbox'', Ha_Config ''execution.scheduler'', Ha_Config ''schedules'']"
| "part_arguments Part_Schedules = [Ha_Part Part_Session, Ha_Registry, Ha_Module_Ref, Ha_Config ''schedules'']"
| "part_arguments Part_Flows = [Ha_Part Part_Session, Ha_Module_Ref]"
| "part_arguments Part_Outbox = [Ha_Part Part_Session, Ha_Registry]"
| "part_arguments Part_Controls = [Ha_Part Part_Session, Ha_Registry, Ha_Config ''controls'']"

text \<open>Every coordinator works on the one session of the host.\<close>

lemma one_session: "Ha_Part q \<in> set (part_arguments p) \<longleftrightarrow> q = Part_Session \<and> p \<noteq> Part_Session"
  by (cases p) auto

subsection \<open>Resolution\<close>

text \<open>
  Nest's injector, to a depth: what is imported or built in is given; of several providers of a token the last
  one counts. \<open>None\<close> is a missing provider, or a cycle.
\<close>

fun all_some :: "'a option list \<Rightarrow> 'a list option" where
  "all_some [] = Some []"
| "all_some (None # xs) = None"
| "all_some (Some x # xs) = map_option ((#) x) (all_some xs)"

primrec resolve_token :: "nat \<Rightarrow> inject_token list \<Rightarrow> nest_provider list \<Rightarrow> inject_token \<Rightarrow> module_instance option" where
  "resolve_token 0 given providers token = None"
| "resolve_token (Suc n) given providers token =
     (case find (\<lambda>p. np_token p = token) (rev providers) of
        Some p \<Rightarrow> Option.bind (all_some (map (resolve_token n given providers) (np_inject p))) (np_make p)
      | None \<Rightarrow> if token \<in> set given then Some (In_Given token) else None)"

definition given_tokens :: "inject_token list" where
  "given_tokens = [Tk_Options, Tk_Discovery, Tk_Module_Ref]"

definition mq_host :: module_instance where
  "mq_host =
     (let configuration = In_Class Tk_Configuration [In_Given Tk_Options];
          registry = In_Class Tk_Registry [In_Given Tk_Discovery, configuration] in
      In_Class Tk_Host [configuration, registry, In_Given Tk_Discovery, In_Given Tk_Module_Ref])"

text \<open>The part of the host behind each service.\<close>

fun service_part :: "inject_token \<Rightarrow> host_part option" where
  "service_part Tk_Outbox_Service = Some Part_Outbox"
| "service_part Tk_Flows_Service = Some Part_Flows"
| "service_part Tk_Connections_Service = Some Part_Session"
| "service_part Tk_Workers_Service = Some Part_Session"
| "service_part Tk_Controls_Service = Some Part_Controls"
| "service_part Tk_Schedules_Service = Some Part_Schedules"
| "service_part _ = None"

text \<open>The tokens the module provides itself.\<close>

lemma own_tokens: "np_token ` set mq_providers =
    {Tk_Configuration, Tk_Registry, Tk_Host, Tk_Outbox_Service, Tk_Connection_Monitor, Tk_Worker_Monitor,
     Tk_Controls_Monitor, Tk_Schedule_Monitor, Tk_Flow_Monitor, Tk_Flows_Service, Tk_Connections_Service,
     Tk_Workers_Service, Tk_Controls_Service, Tk_Schedules_Service}"
  by (auto simp: mq_providers_def class_provider_def monitor_factory_def outbox_factory_def)

lemma find_first_part: "\<exists>x\<in>set xs. P x \<Longrightarrow> find P (xs @ ys) = find P xs"
  by (induction xs) auto

lemma find_second_part: "\<forall>x\<in>set xs. \<not> P x \<Longrightarrow> find P (xs @ ys) = find P ys"
  by (induction xs) auto

lemma find_own:
  assumes "token \<in> np_token ` set mq_providers"
  shows "find (\<lambda>p. np_token p = token) (rev (base @ mq_providers)) = find (\<lambda>p. np_token p = token) (rev mq_providers)"
proof -
  from assms have "\<exists>x\<in>set (rev mq_providers). np_token x = token" by auto
  then show ?thesis by (simp add: find_first_part)
qed

lemma find_foreign:
  assumes "token \<notin> np_token ` set mq_providers"
  shows "find (\<lambda>p. np_token p = token) (rev (base @ mq_providers)) = find (\<lambda>p. np_token p = token) (rev base)"
proof -
  from assms have "\<forall>x\<in>set (rev mq_providers). np_token x \<noteq> token" by auto
  then show ?thesis by (simp add: find_second_part)
qed

text \<open>The provider of each own token, whatever else the module is given.\<close>

lemma own_provider:
  "find (\<lambda>p. np_token p = Tk_Configuration) (rev (base @ mq_providers)) = Some (class_provider Tk_Configuration [Tk_Options])"
  "find (\<lambda>p. np_token p = Tk_Registry) (rev (base @ mq_providers)) =
     Some (class_provider Tk_Registry [Tk_Discovery, Tk_Configuration])"
  "find (\<lambda>p. np_token p = Tk_Host) (rev (base @ mq_providers)) =
     Some (class_provider Tk_Host [Tk_Configuration, Tk_Registry, Tk_Discovery, Tk_Module_Ref])"
  "find (\<lambda>p. np_token p = Tk_Outbox_Service) (rev (base @ mq_providers)) = Some outbox_factory"
  "find (\<lambda>p. np_token p = Tk_Connection_Monitor) (rev (base @ mq_providers)) =
     Some (monitor_factory Tk_Connection_Monitor Part_Session)"
  "find (\<lambda>p. np_token p = Tk_Worker_Monitor) (rev (base @ mq_providers)) =
     Some (monitor_factory Tk_Worker_Monitor Part_Session)"
  "find (\<lambda>p. np_token p = Tk_Controls_Monitor) (rev (base @ mq_providers)) =
     Some (monitor_factory Tk_Controls_Monitor Part_Controls)"
  "find (\<lambda>p. np_token p = Tk_Schedule_Monitor) (rev (base @ mq_providers)) =
     Some (monitor_factory Tk_Schedule_Monitor Part_Schedules)"
  "find (\<lambda>p. np_token p = Tk_Flow_Monitor) (rev (base @ mq_providers)) = Some (monitor_factory Tk_Flow_Monitor Part_Flows)"
  "find (\<lambda>p. np_token p = Tk_Flows_Service) (rev (base @ mq_providers)) = Some (class_provider Tk_Flows_Service [Tk_Flow_Monitor])"
  "find (\<lambda>p. np_token p = Tk_Connections_Service) (rev (base @ mq_providers)) =
     Some (class_provider Tk_Connections_Service [Tk_Connection_Monitor])"
  "find (\<lambda>p. np_token p = Tk_Workers_Service) (rev (base @ mq_providers)) =
     Some (class_provider Tk_Workers_Service [Tk_Worker_Monitor])"
  "find (\<lambda>p. np_token p = Tk_Controls_Service) (rev (base @ mq_providers)) =
     Some (class_provider Tk_Controls_Service [Tk_Controls_Monitor])"
  "find (\<lambda>p. np_token p = Tk_Schedules_Service) (rev (base @ mq_providers)) =
     Some (class_provider Tk_Schedules_Service [Tk_Schedule_Monitor])"
  by (simp_all add: mq_providers_def class_provider_def monitor_factory_def outbox_factory_def)

text \<open>Options, discovery and the module reference come from outside the module.\<close>

definition given_outside :: "nest_provider list \<Rightarrow> bool" where
  "given_outside base \<longleftrightarrow> (\<forall>token\<in>set given_tokens. token \<notin> np_token ` set base)"

lemma resolve_given:
  assumes "given_outside base" and "token \<in> set given_tokens"
  shows "resolve_token (Suc n) given_tokens (base @ mq_providers) token = Some (In_Given token)"
proof -
  from assms(2) have "token \<notin> np_token ` set mq_providers" by (auto simp: given_tokens_def own_tokens)
  moreover from assms have "find (\<lambda>p. np_token p = token) (rev base) = None"
    by (auto simp: given_outside_def find_None_iff)
  ultimately show ?thesis using assms(2) by (simp add: find_foreign del: rev_append)
qed

text \<open>One step of the injector at an own token.\<close>

lemma resolve_class:
  assumes "find (\<lambda>p. np_token p = token) (rev providers) = Some (class_provider token injects)"
  shows "resolve_token (Suc n) given providers token =
     map_option (In_Class token) (all_some (map (resolve_token n given providers) injects))"
  using assms by (cases "all_some (map (resolve_token n given providers) injects)") (auto simp: class_provider_def)

lemma resolve_monitor:
  assumes "find (\<lambda>p. np_token p = token) (rev providers) = Some (monitor_factory token part)"
  shows "resolve_token (Suc n) given providers token =
     map_option (In_Part part) (resolve_token n given providers Tk_Host)"
  using assms by (cases "resolve_token n given providers Tk_Host") (auto simp: monitor_factory_def)

lemma resolve_outbox:
  assumes "find (\<lambda>p. np_token p = Tk_Outbox_Service) (rev providers) = Some outbox_factory"
  shows "resolve_token (Suc n) given providers Tk_Outbox_Service =
     map_option (\<lambda>host. In_Class Tk_Outbox_Service [In_Part Part_Outbox host]) (resolve_token n given providers Tk_Host)"
  using assms by (cases "resolve_token n given providers Tk_Host") (auto simp: outbox_factory_def)

definition configuration_instance :: module_instance where
  "configuration_instance = In_Class Tk_Configuration [In_Given Tk_Options]"

definition registry_instance :: module_instance where
  "registry_instance = In_Class Tk_Registry [In_Given Tk_Discovery, configuration_instance]"

lemma mq_host_parts:
  "mq_host = In_Class Tk_Host [configuration_instance, registry_instance, In_Given Tk_Discovery, In_Given Tk_Module_Ref]"
  by (simp add: mq_host_def configuration_instance_def registry_instance_def Let_def)

lemma in_given: "Tk_Options \<in> set given_tokens" "Tk_Discovery \<in> set given_tokens" "Tk_Module_Ref \<in> set given_tokens"
  by (simp_all add: given_tokens_def)

lemma resolve_configuration:
  assumes "given_outside base"
  shows "resolve_token (Suc (Suc n)) given_tokens (base @ mq_providers) Tk_Configuration = Some configuration_instance"
  by (simp only: resolve_class[OF own_provider(1)] list.map all_some.simps resolve_given[OF assms in_given(1)]
      option.map configuration_instance_def)

lemma resolve_registry:
  assumes "given_outside base"
  shows "resolve_token (Suc (Suc (Suc n))) given_tokens (base @ mq_providers) Tk_Registry = Some registry_instance"
  by (simp only: resolve_class[OF own_provider(2)] list.map all_some.simps resolve_given[OF assms in_given(2)]
      resolve_configuration[OF assms] option.map registry_instance_def)

lemma resolve_host:
  assumes "given_outside base"
  shows "resolve_token (Suc (Suc (Suc (Suc n)))) given_tokens (base @ mq_providers) Tk_Host = Some mq_host"
  by (simp only: resolve_class[OF own_provider(3)] list.map all_some.simps resolve_given[OF assms in_given(2)]
      resolve_given[OF assms in_given(3)] resolve_configuration[OF assms] resolve_registry[OF assms] option.map
      mq_host_parts)

text \<open>Every service is built on its part of the one host of the module.\<close>

theorem service_on_host:
  assumes "given_outside base" and "service_part token = Some part"
  shows "resolve_token (Suc (Suc (Suc (Suc (Suc (Suc n)))))) given_tokens (base @ mq_providers) token =
     Some (In_Class token [In_Part part mq_host])"
  using assms(2)
  by (cases token rule: service_part.cases)
    (simp_all only: service_part.simps option.inject option.distinct resolve_outbox[OF own_provider(4)]
      resolve_class[OF own_provider(10)] resolve_class[OF own_provider(11)] resolve_class[OF own_provider(12)]
      resolve_class[OF own_provider(13)] resolve_class[OF own_provider(14)]
      resolve_monitor[OF own_provider(5)] resolve_monitor[OF own_provider(6)] resolve_monitor[OF own_provider(7)]
      resolve_monitor[OF own_provider(8)] resolve_monitor[OF own_provider(9)]
      list.map all_some.simps option.map resolve_host[OF assms(1)])

text \<open>What the module exports, it can build; nothing it provides is a cycle.\<close>

theorem exports_resolve:
  assumes "given_outside (md_providers d)" and "token \<in> set mq_exports"
  shows "\<exists>x. resolve_token (Suc (Suc (Suc (Suc (Suc (Suc n)))))) given_tokens
     (md_providers (set_extras is_global d)) token = Some x"
proof -
  have providers: "md_providers (set_extras is_global d) = md_providers d @ mq_providers"
    by (simp add: set_extras_def)
  from assms(2) consider "token = Tk_Configuration" | "token = Tk_Registry" | part where "service_part token = Some part"
    by (auto simp: mq_exports_def)
  then show ?thesis
  proof cases
    case 1
    show ?thesis unfolding 1 providers resolve_configuration[OF assms(1)] by blast
  next
    case 2
    show ?thesis unfolding 2 providers resolve_registry[OF assms(1)] by blast
  next
    case 3
    show ?thesis unfolding providers service_on_host[OF assms(1) 3] by blast
  qed
qed

text \<open>A feature module exports every queue it provides, once.\<close>

lemma feature_exports:
  "md_exports (for_feature queues) = map np_token (md_providers (for_feature queues))"
  "distinct (md_exports (for_feature queues))"
  "set (md_exports (for_feature queues)) = Tk_Queue ` set queues"
proof -
  show "md_exports (for_feature queues) = map np_token (md_providers (for_feature queues))"
    by (simp add: for_feature_def Let_def class_provider_def o_def)
  show "distinct (md_exports (for_feature queues))"
    by (simp add: for_feature_def Let_def distinct_map inj_on_def)
  show "set (md_exports (for_feature queues)) = Tk_Queue ` set queues"
    by (simp add: for_feature_def Let_def)
qed

end
