(* ===== verification/Spec2Isabelle.thy ===== *)
theory Spec2Isabelle
  imports Mq_Contracts Mq_Schema Mq_Registry Mq_Retry Mq_Outbox Mq_Outbox_Retry Mq_Transaction
    Mq_Controlled_Store Mq_Job_Client Mq_Session_Life Mq_Controls Mq_Schedules
    Mq_Flow_Control Mq_Workers Mq_Client Mq_Host Mq_Configuration Mq_Flow_Reads Mq_Sqlite
    Mq_Postgres Mq_Outbox_Source Mq_Session_Access Mq_Lint_Rules Mq_Lint_Flow Mq_Layers
    Mq_Exceptions Mq_Module
begin

text \<open>
  A verification library of \<open>better-nest-mq\<close>, a facade that gives NestJS applications typed queues, jobs,
  schedules, flows and a transactional outbox on top of a queue engine (\<open>better-effect-mq\<close> and its
  adapters). File names below are relative to the sources under \<open>src/\<close>.

  \<^bold>\<open>The program.\<close> An application declares queues as decorated classes (\<open>contracts/\<close>, \<open>controls/\<close>,
  \<open>schedules/\<close>, \<open>workers/\<close>, \<open>flows/\<close>). At bootstrap the host (\<open>engine/mq-engine.host.ts\<close>) scans them into a
  registry (\<open>module/mq.registry.ts\<close>), compiles contracts, flows, workers and schedules, starts the engine
  session (\<open>engine/engine-session.ts\<close>), which acquires the connections (\<open>integrations/\<close>), deploys controls
  and schedules, and binds a client to every job contract. Producers publish through the contract and its
  client; workers run handlers behind guards, pipes, interceptors and filters; an outbox transaction writes
  business rows and publications together; closing releases everything.

  \<^bold>\<open>Foundations.\<close>
  \<^item> \<open>Mq_Prelude\<close>: fallible computations as sums, loops over arrays, insertion-ordered maps.
  \<^item> \<open>Mq_Values\<close>: JavaScript numbers and values, strings, the exceptions, the shape of option objects.
  \<^item> \<open>Mq_Chain\<close>: metadata along a prototype chain, as a locale.
  \<^item> \<open>Mq_Scope\<close>: the locales of objects that admit operations, drain and close, with and without a first
    failure that is kept.
  \<^item> \<open>Mq_Reconcile\<close>: the locale of checks that come before the first write.
  \<^item> \<open>Mq_Exceptions\<close> (every \<open>errors.ts\<close>): codes, names, details and messages; what an exception reports
    determines it.

  \<^bold>\<open>Declarations.\<close>
  \<^item> \<open>Mq_Policies\<close> (\<open>contracts/policies.ts\<close>): job and retry policies and their layers.
  \<^item> \<open>Mq_Identity\<close>: durable keys as the JSON text of tuples, \<open>Mq_Schema\<close> (\<open>contracts/schema.ts\<close>):
    validation, encoding and decoding.
  \<^item> \<open>Mq_Contracts\<close> (\<open>contracts/decorators.ts\<close>, \<open>job-definition.ts\<close>, \<open>queue-definition.ts\<close>), \<open>Mq_Registry\<close>
    (\<open>module/mq.registry.ts\<close>), \<open>Mq_Retry\<close> (\<open>engine/retry-reference.ts\<close>, \<open>retry-policies.ts\<close>).
  \<^item> \<open>Mq_Controls_Options\<close> (\<open>controls/\<close>), \<open>Mq_Schedule_Options\<close> (\<open>schedules/\<close>), \<open>Mq_Worker_Declarations\<close>
    (\<open>workers/\<close>), \<open>Mq_Flow_Declarations\<close> (\<open>flows/\<close>).

  \<^bold>\<open>Engine.\<close>
  \<^item> \<open>Mq_Job_Client\<close> and \<open>Mq_Client\<close> (\<open>engine/job-compiler.ts\<close>, \<open>job-client.ts\<close>, \<open>jobs/binding.ts\<close>): what a
    contract becomes, publication, bounded waits, cancellation.
  \<^item> \<open>Mq_Controlled_Store\<close> (\<open>engine/controlled-clock.ts\<close>, \<open>controlled-store.ts\<close>, \<open>flow-read-store.ts\<close>) and the
    views in \<open>Mq_Session_Access\<close>: which protocol of the adapter answers an operation.
  \<^item> \<open>Mq_Controls\<close> (\<open>engine/queue-controls.ts\<close>), \<open>Mq_Schedule_Compiler\<close> and \<open>Mq_Schedules\<close>
    (\<open>engine/schedule-compiler.ts\<close>, \<open>schedule-plan.ts\<close>, \<open>schedules.ts\<close>): the coordinators of policies and
    schedules.
  \<^item> \<open>Mq_Flow_Graph\<close> (\<open>engine/flow-discovery.ts\<close>), \<open>Mq_Flow_Plan\<close>, \<open>Mq_Flow_Results\<close> (\<open>engine/flow-plan.ts\<close>,
    \<open>flow-results.ts\<close>), \<open>Mq_Flow_Control\<close> (\<open>engine/flows.ts\<close>): flows from declaration to cancellation.
  \<^item> \<open>Mq_Pipeline\<close> (\<open>enhancers/\<close>, \<open>engine/mq-enhancers.ts\<close>, \<open>mq-interceptor.ts\<close>), \<open>Mq_Workers\<close>
    (\<open>engine/worker-discovery.ts\<close>, \<open>worker-plan.ts\<close>).
  \<^item> \<open>Mq_Session\<close>, \<open>Mq_Session_Life\<close>, \<open>Mq_Session_Access\<close> (\<open>engine/engine-session.ts\<close>), \<open>Mq_Host\<close>
    (\<open>engine/mq-engine.host.ts\<close>), \<open>Mq_Configuration\<close> (\<open>module/mq.configuration.ts\<close>,
    \<open>engine/connection-definition.ts\<close>), \<open>Mq_Layers\<close> (\<open>engine/operation-store.ts\<close>, \<open>event-plan.ts\<close>,
    \<open>outbox-plan.ts\<close>): the session, the host above it and the wiring of the runtime they build.
  \<^item> \<open>Mq_Module\<close> (\<open>module/mq-module.definition.ts\<close>, \<open>mq.module.ts\<close>): the providers of the Nest module and the
    instances the injector builds of them, every service on its part of the one host.

  \<^bold>\<open>Outbox and storage.\<close>
  \<^item> \<open>Mq_Outbox\<close>, \<open>Mq_Outbox_Retry\<close> (\<open>outbox/\<close>, \<open>engine/outbox-record.ts\<close>, \<open>outbox-retry.ts\<close>,
    \<open>integrations/postgres-outbox-retry.ts\<close>), \<open>Mq_Transaction\<close> (\<open>integrations/postgres-outbox-transaction.ts\<close>,
    \<open>kysely-outbox-scope.ts\<close>), \<open>Mq_Outbox_Source\<close> (\<open>integrations/postgres-outbox-resource.ts\<close>,
    \<open>postgres-outbox.ts\<close>, \<open>kysely.ts\<close>, \<open>engine/outbox-coordinator.ts\<close>).
  \<^item> \<open>Mq_Flow_Reads\<close> (\<open>integrations/postgres-flow-reads.ts\<close>, \<open>postgres-flow-snapshot.ts\<close>), \<open>Mq_Postgres\<close>
    (\<open>integrations/postgres.ts\<close>, \<open>postgres-json-pool.ts\<close>), \<open>Mq_Sqlite\<close> (\<open>integrations/sqlite-connection.ts\<close>,
    \<open>sqlite-adapter-version.ts\<close>).

  \<^bold>\<open>Tooling.\<close> The repository's lint plugin (\<open>tools/oxlint/anti-slop/\<close>) keeps the sources to the discipline
  the model relies on: no widened types, no unchecked assertions.
  \<^item> \<open>Mq_Lint_Types\<close> (\<open>shared/dictionary-types.ts\<close>): the analysis of types, against declarative rules.
  \<^item> \<open>Mq_Lint_Rules\<close> (\<open>rules/no-unsafe-dictionary-type.ts\<close>), \<open>Mq_Lint_Aliases\<close> (the rules that follow type
    aliases; its locale \<open>alias_walk\<close> is every such recursion), \<open>Mq_Lint_Expressions\<close> (assertions, spreads,
    comments, calls of globals) and \<open>Mq_Lint_Flow\<close> (\<open>rules/no-widen-then-assert.ts\<close>,
    \<open>no-known-value-widening.ts\<close>: values followed through constants).

  \<^bold>\<open>State and effects.\<close> A field of a class is a field of a record; a \<open>WeakMap\<close> or a \<open>Map\<close> is a map, or an
  association list where order matters; the identity of an object is a number. A method that may throw
  returns a sum with the exception on the left, so every \<open>throw\<close> and every early return is a branch. What an
  application, Nest's container, the engine package or a database answers is a parameter: a function, or an
  answer that the definition takes. Where operations interleave (the session, the host, outbox stores, the
  managed transaction, flow readers) the model is a step function on a state with an event for every answer
  that is awaited; reachability is an inductive predicate and the claims are about every reachable state or
  every run. A SQL statement is a function on a table, and what the caller learns of it a separate answer: a
  statement may have taken effect although its answer was lost. What is known of the engine and its adapters
  is a hypothesis in their own terms (an engine that reconciles a registry of drafts persists the fields of
  each draft; a sweep keeps its limit), and each such claim has an instance.

  \<^bold>\<open>Numbers and bounds.\<close> A JavaScript number is a rational, an infinity or NaN; the sources keep persisted
  numbers within the safe integers (\<open>max_safe\<close>, \<open>2 ^ 53 - 1\<close>) and timers within \<open>2 ^ 31 - 1\<close>, and the guards
  that do so are part of the definitions, so no claim rests on unbounded arithmetic. Loops over arrays are
  structural. The nested-flow search recurses on the flows not yet on its path; the reader of outcomes
  recurses on the pages that remain; both have measures. The clock refresh repeats at most three times, as
  the source does. The analysis of types takes fuel, since it need not end for aliases with parameters;
  \<open>lint_fuel\<close> and \<open>dictionary_fuel\<close>, the sizes of the type and of all aliases, are enough without them. A transaction or a query whose database never answers has the answer \<open>None\<close>; that a
  close ends is proved from the steps that are enabled, at most eleven answers.

  \<^bold>\<open>What is shown.\<close> Atomicity of the business transaction; that an administrative retry writes the guarded
  row or nothing, and says so unless the answer was lost; that nothing reaches the database before admission;
  that a released outbox waits for exactly the writes begun before; that a ready engine has what it was configured with, releases it once, and
  always finishes closing, with a state that never goes back; that every job of a ready application has an
  open store and no service of its runtime is left unprovided, from the startup check of the queues on; that
  hosts bind exactly their own contracts; that owned pools and files are closed
  exactly once and borrowed ones never; that controls fail closed, coordinators converge and never write
  before their checks; that flows are acyclic exactly when accepted, and outcomes are read by the owner of
  the lease only; exact counts, complete recovery and restored snapshots; validity of every accepted option
  and declaration; round trips of payloads and of retry references; injectivity of durable keys;
  that the lint's analyses find exactly what the aliases and constants of a program denote.

  \<^bold>\<open>Not modelled.\<close> The methods of the injectable services, each one call of a coordinator; tokens,
  re-exports and the type bridge to zod; the runtime of the effect package, of which the layers are known; the
  two native SQLite hosts, one native constructor each; type declarations without a run-time meaning; the
  packaging scripts; and of the lint plugin its table of rules and the rules that are a single comparison or
  one call of a modelled check.
\<close>

end
